(* ===== verification/Go_Prelude.thy ===== *)
theory Go_Prelude
  imports Main
begin

text \<open>
  Shared vocabulary of the development: Go's error values, the ways a Go call can end
  (returning a value, returning an error, panicking), the helper functions of the third-party
  package \<^verbatim>\<open>github.com/sagernet/sing/common\<close> that several components call (parameters of the
  model, with their contract as the predicate \<open>sing_ok\<close>), and the list and map lemmas the
  components share. Facts that unfold loops over shared traces are collected in \<open>go_simps\<close>.
\<close>

named_theorems go_simps

section \<open>Errors and outcomes\<close>

text \<open>
  \<^verbatim>\<open>E.New(parts...)\<close> and \<^verbatim>\<open>E.Cause(err, parts...)\<close> build error values from message
  fragments; the model keeps the fragments. \<open>ErrInvalid\<close> is \<^verbatim>\<open>os.ErrInvalid\<close>, \<open>ErrExt\<close> is any
  error produced by code outside the model; \<open>ErrRcode\<close> is the error type \<^verbatim>\<open>dns.RcodeError\<close>.
\<close>

datatype go_err =
    ErrNew "string list"
  | ErrCause go_err "string list"
  | ErrInvalid
  | ErrExt string
  | ErrRcode int

text \<open>
  A call of a Go function returns its value (a nil error), returns an error, or panics.
\<close>

datatype 'a go_out = Ok 'a | Err go_err | Panic string

fun is_ok :: "'a go_out \<Rightarrow> bool" where
  "is_ok (Ok _) = True"
| "is_ok _ = False"

fun is_panic :: "'a go_out \<Rightarrow> bool" where
  "is_panic (Panic _) = True"
| "is_panic _ = False"

text \<open>A method that returns only \<^verbatim>\<open>error\<close>: \<^verbatim>\<open>nil\<close> is \<open>None\<close>.\<close>

definition of_error :: "go_err option \<Rightarrow> unit go_out" where
  "of_error e = (case e of None \<Rightarrow> Ok () | Some x \<Rightarrow> Err x)"

lemma of_error_simps [simp]:
  "of_error None = Ok ()"
  "of_error (Some e) = Err e"
  by (simp_all add: of_error_def)

lemma is_ok_iff: "is_ok r \<longleftrightarrow> (\<exists>x. r = Ok x)"
  by (cases r) auto

lemma is_panic_iff: "is_panic r \<longleftrightarrow> (\<exists>s. r = Panic s)"
  by (cases r) auto

section \<open>The helpers of sing/common\<close>

text \<open>
  \<^verbatim>\<open>common.Index\<close>, \<^verbatim>\<open>common.Find\<close>, \<^verbatim>\<open>common.Contains\<close> and \<^verbatim>\<open>common.Filter\<close> are generic Go
  functions of a package outside the repository. The definitions that call them take them as an
  argument \<open>S\<close>. Two element types occur: the tagged components (\<open>'c\<close>) and strings. A Go
  \<^verbatim>\<open>Find\<close> that finds nothing returns the zero value: \<^verbatim>\<open>nil\<close> (\<open>None\<close>) or the empty string.
\<close>

record 'c sing_common =
  sc_Index :: "'c list \<Rightarrow> ('c \<Rightarrow> bool) \<Rightarrow> int"
  sc_Find :: "'c list \<Rightarrow> ('c \<Rightarrow> bool) \<Rightarrow> 'c option"
  sc_FindString :: "string list \<Rightarrow> (string \<Rightarrow> bool) \<Rightarrow> string"
  sc_ContainsString :: "string list \<Rightarrow> string \<Rightarrow> bool"
  sc_FilterString :: "string list \<Rightarrow> (string \<Rightarrow> bool) \<Rightarrow> string list"

text \<open>
  What the code relies on: \<^verbatim>\<open>Index\<close> is the position of the first match or -1, \<^verbatim>\<open>Find\<close> is the
  first match, \<^verbatim>\<open>Contains\<close> is membership and \<^verbatim>\<open>Filter\<close> keeps the matches in order.
\<close>

definition sing_ok :: "'c sing_common \<Rightarrow> bool" where
  "sing_ok S \<longleftrightarrow>
     (\<forall>xs p. (\<forall>x \<in> set xs. \<not> p x) \<longrightarrow> sc_Index S xs p = -1) \<and>
     (\<forall>xs ys x p. (\<forall>y \<in> set xs. \<not> p y) \<longrightarrow> p x \<longrightarrow> sc_Index S (xs @ x # ys) p = int (length xs)) \<and>
     (\<forall>xs p. sc_Find S xs p = find p xs) \<and>
     (\<forall>xs p. sc_FindString S xs p = (case find p xs of Some x \<Rightarrow> x | None \<Rightarrow> [])) \<and>
     (\<forall>xs x. sc_ContainsString S xs x \<longleftrightarrow> x \<in> set xs) \<and>
     (\<forall>xs p. sc_FilterString S xs p = filter p xs)"

text \<open>The cut \<^verbatim>\<open>append(xs[:i], xs[i+1:]...)\<close>.\<close>

definition cut_at :: "'a list \<Rightarrow> int \<Rightarrow> 'a list" where
  "cut_at xs i = take (nat i) xs @ drop (Suc (nat i)) xs"

lemma sing_find [simp]: "sing_ok S \<Longrightarrow> sc_Find S xs p = find p xs"
  and sing_find_string [simp]:
    "sing_ok S \<Longrightarrow> sc_FindString S ys q = (case find q ys of Some x \<Rightarrow> x | None \<Rightarrow> [])"
  and sing_contains_string [simp]: "sing_ok S \<Longrightarrow> sc_ContainsString S ys y \<longleftrightarrow> y \<in> set ys"
  and sing_filter_string [simp]: "sing_ok S \<Longrightarrow> sc_FilterString S ys q = filter q ys"
  by (simp_all add: sing_ok_def)

lemma sing_index_none: "sing_ok S \<Longrightarrow> c \<notin> set xs \<Longrightarrow> sc_Index S xs (\<lambda>x. x = c) = -1"
proof -
  assume ok: "sing_ok S" and new: "c \<notin> set xs"
  have law: "\<forall>xs p. (\<forall>x \<in> set xs. \<not> p x) \<longrightarrow> sc_Index S xs p = -1"
    using ok unfolding sing_ok_def by (rule conjunct1)
  show ?thesis
    by (rule law [rule_format]) (use new in auto)
qed

lemma sing_index_some:
  assumes "sing_ok S" and "c \<in> set xs"
  shows "0 \<le> sc_Index S xs (\<lambda>x. x = c)"
    and "cut_at xs (sc_Index S xs (\<lambda>x. x = c)) = remove1 c xs"
proof -
  obtain us vs where xs: "xs = us @ c # vs" and new: "c \<notin> set us"
    using split_list_first [OF assms(2)] by blast
  have law: "\<forall>xs ys x p. (\<forall>y \<in> set xs. \<not> p y) \<longrightarrow> p x \<longrightarrow>
      sc_Index S (xs @ x # ys) p = int (length xs)"
    using assms(1) unfolding sing_ok_def by blast
  have "sc_Index S (us @ c # vs) (\<lambda>x. x = c) = int (length us)"
    using law [rule_format, of us "\<lambda>x. x = c" c vs] new by auto
  then have ix: "sc_Index S xs (\<lambda>x. x = c) = int (length us)"
    using xs by simp
  then show "0 \<le> sc_Index S xs (\<lambda>x. x = c)" by simp
  show "cut_at xs (sc_Index S xs (\<lambda>x. x = c)) = remove1 c xs"
    unfolding ix using new by (simp add: cut_at_def xs remove1_append)
qed

lemma sing_index_iff: "sing_ok S \<Longrightarrow> sc_Index S xs (\<lambda>x. x = c) = -1 \<longleftrightarrow> c \<notin> set xs"
  using sing_index_none sing_index_some(1) by fastforce

text \<open>
  The list functions of HOL meet the contract, so it can be satisfied; witnesses evaluate the
  model with them.
\<close>

definition demo_sing :: "'c sing_common" where
  "demo_sing =
     \<lparr>sc_Index = (\<lambda>xs p. let n = length (takeWhile (\<lambda>x. \<not> p x) xs)
                           in if n = length xs then -1 else int n),
      sc_Find = (\<lambda>xs p. find p xs),
      sc_FindString = (\<lambda>xs p. case find p xs of Some x \<Rightarrow> x | None \<Rightarrow> []),
      sc_ContainsString = (\<lambda>xs x. x \<in> set xs),
      sc_FilterString = (\<lambda>xs p. filter p xs)\<rparr>"

lemma demo_index_none: "\<forall>x \<in> set xs. \<not> p x \<Longrightarrow> sc_Index demo_sing xs p = -1"
proof -
  assume "\<forall>x \<in> set xs. \<not> p x"
  then have "takeWhile (\<lambda>x. \<not> p x) xs = xs" by (simp only: takeWhile_eq_all_conv)
  from arg_cong [OF this, of length] show ?thesis by (simp add: demo_sing_def Let_def)
qed

lemma demo_index_some:
  "\<forall>y \<in> set xs. \<not> p y \<Longrightarrow> p x \<Longrightarrow> sc_Index demo_sing (xs @ x # ys) p = int (length xs)"
  using takeWhile_tail [of "\<lambda>x. \<not> p x" x xs ys] by (simp add: demo_sing_def)

lemma demo_sing_ok: "sing_ok demo_sing"
  unfolding sing_ok_def
proof (intro conjI allI impI)
  show "sc_Index demo_sing xs p = -1" if "\<forall>x \<in> set xs. \<not> p x" for xs :: "'c list" and p
    using that by (rule demo_index_none)
  show "sc_Index demo_sing (xs @ x # ys) p = int (length xs)"
    if "\<forall>y \<in> set xs. \<not> p y" "p x" for xs ys :: "'c list" and x p
    using that by (rule demo_index_some)
qed (simp_all add: demo_sing_def)

section \<open>Maps and lists\<close>

lemma ran_upd_None: "inj_on m (dom m) \<Longrightarrow> m t = Some c \<Longrightarrow> ran (m(t := None)) = ran m - {c}"
proof (intro equalityI subsetI)
  fix x assume inj: "inj_on m (dom m)" and t: "m t = Some c" and "x \<in> ran (m(t := None))"
  then obtain k where k: "m k = Some x" "k \<noteq> t" by (auto simp: ran_def split: if_splits)
  have "x \<noteq> c"
  proof
    assume "x = c"
    with k t have "m k = m t" by simp
    with inj k t have "k = t" by (auto simp: inj_on_def dom_def)
    with k show False by simp
  qed
  with k show "x \<in> ran m - {c}" by (auto simp: ran_def)
next
  fix x assume "m t = Some c" and "x \<in> ran m - {c}"
  then obtain k where "m k = Some x" "x \<noteq> c" by (auto simp: ran_def)
  with \<open>m t = Some c\<close> have "(m(t := None)) k = Some x" by auto
  then show "x \<in> ran (m(t := None))" unfolding ran_def by blast
qed

lemma inj_on_map_None: "inj_on m (dom m) \<Longrightarrow> inj_on (m(t := None)) (dom (m(t := None)))"
  by (auto simp: inj_on_def dom_def)

lemma inj_on_map_upd:
  "inj_on m (dom m) \<Longrightarrow> c \<notin> ran m \<Longrightarrow> inj_on (m(t \<mapsto> c)) (dom (m(t \<mapsto> c)))"
  by (auto simp: inj_on_def dom_def ran_def)

lemma ran_upd_fresh: "inj_on m (dom m) \<Longrightarrow>
  ran (m(t \<mapsto> c)) = insert c (case m t of None \<Rightarrow> ran m | Some d \<Rightarrow> ran m - {d})"
proof (cases "m t")
  case None
  then show ?thesis by (simp add: ran_map_upd)
next
  case (Some d)
  assume "inj_on m (dom m)"
  from ran_upd_None [OF this Some] have "ran (m(t := None)) = ran m - {d}" .
  moreover have "ran ((m(t := None))(t \<mapsto> c)) = insert c (ran (m(t := None)))"
    by (rule ran_map_upd) simp
  ultimately show ?thesis using Some by simp
qed

lemma find_eq_None: "find p xs = None \<longleftrightarrow> (\<forall>x \<in> set xs. \<not> p x)"
  by (auto simp: find_None_iff)

lemma find_some_mem: "find p xs = Some x \<Longrightarrow> x \<in> set xs \<and> p x"
  by (auto simp: find_Some_iff)

end
