(* ===== verification/Options.thy ===== *)
theory Options
  imports Go_Prelude
begin

text \<open>
  \<^verbatim>\<open>option/options.go\<close>: the check of a decoded configuration. Tags of inbounds, and of outbounds
  together with endpoints, may not repeat; an untagged entry gets its index as its tag, as
  \<^verbatim>\<open>box.go\<close> does when it creates the component. \<^verbatim>\<open>F.ToString\<close> of an index is a parameter.
\<close>

definition effective_tag :: "(nat \<Rightarrow> string) \<Rightarrow> nat \<Rightarrow> string \<Rightarrow> string" where
  "effective_tag F_ToString i tag = (if tag = [] then F_ToString i else tag)"

text \<open>One loop of the check, from index \<open>i\<close>, with the set \<^verbatim>\<open>seen\<close> as the list of its keys.\<close>

fun check_tags ::
  "(nat \<Rightarrow> string) \<Rightarrow> string \<Rightarrow> nat \<Rightarrow> string list \<Rightarrow> string list \<Rightarrow> go_err + string list" where
  "check_tags F_ToString msg i [] seen = Inr seen"
| "check_tags F_ToString msg i (t # ts) seen =
     (let tag = effective_tag F_ToString i t
      in if tag \<in> set seen then Inl (ErrNew [msg, tag])
         else check_tags F_ToString msg (Suc i) ts (tag # seen))"

definition checkInbounds :: "(nat \<Rightarrow> string) \<Rightarrow> string list \<Rightarrow> go_err option" where
  "checkInbounds F_ToString inbounds =
     (case check_tags F_ToString ''duplicate inbound tag: '' 0 inbounds [] of
        Inl e \<Rightarrow> Some e | Inr _ \<Rightarrow> None)"

definition checkOutbounds :: "(nat \<Rightarrow> string) \<Rightarrow> string list \<Rightarrow> string list \<Rightarrow> go_err option" where
  "checkOutbounds F_ToString outbounds endpoints =
     (case check_tags F_ToString ''duplicate outbound/endpoint tag: '' 0 outbounds [] of
        Inl e \<Rightarrow> Some e
      | Inr seen \<Rightarrow>
          (case check_tags F_ToString ''duplicate outbound/endpoint tag: '' 0 endpoints seen of
             Inl e \<Rightarrow> Some e | Inr _ \<Rightarrow> None))"

definition checkOptions ::
  "(nat \<Rightarrow> string) \<Rightarrow> string list \<Rightarrow> string list \<Rightarrow> string list \<Rightarrow> go_err option" where
  "checkOptions F_ToString inbounds outbounds endpoints =
     (case checkInbounds F_ToString inbounds of
        Some e \<Rightarrow> Some e | None \<Rightarrow> checkOutbounds F_ToString outbounds endpoints)"

text \<open>The tags the components are created under, numbered from \<open>i\<close>.\<close>

fun tags_from :: "(nat \<Rightarrow> string) \<Rightarrow> nat \<Rightarrow> string list \<Rightarrow> string list" where
  "tags_from F_ToString i [] = []"
| "tags_from F_ToString i (t # ts) = effective_tag F_ToString i t # tags_from F_ToString (Suc i) ts"

definition effective_tags :: "(nat \<Rightarrow> string) \<Rightarrow> string list \<Rightarrow> string list" where
  "effective_tags F_ToString ts = tags_from F_ToString 0 ts"

lemma check_tags_iff:
  "(\<exists>s. check_tags f msg i ts seen = Inr s) \<longleftrightarrow>
     distinct (tags_from f i ts) \<and> set (tags_from f i ts) \<inter> set seen = {}"
  by (induction ts arbitrary: i seen) (auto simp: Let_def)

lemma check_tags_seen:
  "check_tags f msg i ts seen = Inr s \<Longrightarrow> set s = set (tags_from f i ts) \<union> set seen"
  by (induction ts arbitrary: i seen) (auto simp: Let_def split: if_splits)

lemma checkOutbounds_iff:
  "checkOutbounds f os es = None \<longleftrightarrow> distinct (effective_tags f os @ effective_tags f es)"
proof -
  let ?msg = "''duplicate outbound/endpoint tag: ''"
  show ?thesis
  proof (cases "check_tags f ?msg 0 os []")
    case (Inl e)
    with check_tags_iff [of f ?msg 0 os "[]"] show ?thesis
      by (simp add: checkOutbounds_def effective_tags_def)
  next
    case (Inr seen)
    have "(\<exists>s. check_tags f ?msg 0 es seen = Inr s) \<longleftrightarrow> checkOutbounds f os es = None"
      using Inr by (cases "check_tags f ?msg 0 es seen") (simp_all add: checkOutbounds_def)
    moreover have "distinct (tags_from f 0 os)" using check_tags_iff [of f ?msg 0 os "[]"] Inr by simp
    ultimately show ?thesis
      using check_tags_iff [of f ?msg 0 es seen] check_tags_seen [OF Inr]
      by (auto simp: effective_tags_def)
  qed
qed

lemma checkInbounds_iff: "checkInbounds f is = None \<longleftrightarrow> distinct (effective_tags f is)"
  using check_tags_iff [of f "''duplicate inbound tag: ''" 0 "is" "[]"]
  by (auto simp: checkInbounds_def effective_tags_def split: sum.splits)

lemma checkOptions_parts: "checkOptions f is os es = None \<longleftrightarrow> checkInbounds f is = None \<and> checkOutbounds f os es = None"
  by (simp add: checkOptions_def split: option.splits)

text \<open>
  C5: the configuration check accepts exactly the configurations whose inbounds are created under
  pairwise distinct tags and whose outbounds and endpoints together are created under pairwise
  distinct tags.
\<close>

theorem checkOptions_iff:
  "checkOptions F_ToString inbounds outbounds endpoints = None \<longleftrightarrow>
     distinct (effective_tags F_ToString inbounds) \<and>
     distinct (effective_tags F_ToString outbounds @ effective_tags F_ToString endpoints)"
  unfolding checkOptions_parts checkInbounds_iff checkOutbounds_iff by simp

end
