(* ===== verification/Lifecycle.thy ===== *)
theory Lifecycle
  imports Go_Prelude
begin

text \<open>
  The start-up protocol of \<^verbatim>\<open>adapter/lifecycle.go\<close> and \<^verbatim>\<open>adapter/lifecycle_legacy.go\<close>: the
  ordered start stages, the tagged components (inbounds, outbounds, endpoints, services, DNS
  transports) as the managers see them, and the loops that start and close them.

  A component is code outside this model. What the managers know of it is its identity, its type,
  tag and dependencies, and which of the lifecycle methods its dynamic type has. Every method call
  on a component is recorded in a trace, and its result is given by an arbitrary function of the
  trace so far and the call (\<open>call_env\<close>), so nothing is assumed about what a component answers.
\<close>

section \<open>Stages\<close>

datatype start_stage =
    StartStateInitialize
  | StartStateStart
  | StartStatePostStart
  | StartStateStarted

text \<open>The constants are \<^verbatim>\<open>iota\<close> values of \<^verbatim>\<open>uint8\<close>, compared as numbers.\<close>

fun stage_num :: "start_stage \<Rightarrow> nat" where
  "stage_num StartStateInitialize = 0"
| "stage_num StartStateStart = 1"
| "stage_num StartStatePostStart = 2"
| "stage_num StartStateStarted = 3"

lemma stage_num_inj: "stage_num a = stage_num b \<Longrightarrow> a = b"
  by (cases a; cases b) simp_all

instantiation start_stage :: linorder
begin

definition less_eq_start_stage :: "start_stage \<Rightarrow> start_stage \<Rightarrow> bool" where
  "less_eq_start_stage a b \<longleftrightarrow> stage_num a \<le> stage_num b"

definition less_start_stage :: "start_stage \<Rightarrow> start_stage \<Rightarrow> bool" where
  "less_start_stage a b \<longleftrightarrow> stage_num a < stage_num b"

instance
  by standard (auto simp: less_eq_start_stage_def less_start_stage_def dest: stage_num_inj)

end

definition ListStartStages :: "start_stage list" where
  "ListStartStages =
     [StartStateInitialize, StartStateStart, StartStatePostStart, StartStateStarted]"

lemma ListStartStages_sorted: "sorted ListStartStages"
  and ListStartStages_distinct: "distinct ListStartStages"
  and ListStartStages_set: "set ListStartStages = UNIV"
proof -
  show "sorted ListStartStages"
    by (simp add: ListStartStages_def less_eq_start_stage_def)
  show "distinct ListStartStages" by (simp add: ListStartStages_def)
  have "s \<in> set ListStartStages" for s by (cases s) (simp_all add: ListStartStages_def)
  then show "set ListStartStages = UNIV" by blast
qed

fun stage_String :: "start_stage \<Rightarrow> string" where
  "stage_String StartStateInitialize = ''initialize''"
| "stage_String StartStateStart = ''start''"
| "stage_String StartStatePostStart = ''post-start''"
| "stage_String StartStateStarted = ''finish-start''"

section \<open>Components and calls on them\<close>

text \<open>
  \<open>c_id\<close> is the pointer: Go's \<open>==\<close> on the interface values compares it. \<open>c_lifecycle\<close> tells
  whether the dynamic type has \<^verbatim>\<open>Start(stage) error\<close> and \<^verbatim>\<open>Close() error\<close> (\<^verbatim>\<open>adapter.Lifecycle\<close>);
  the other flags tell whether it has the legacy methods \<^verbatim>\<open>PreStart()\<close>, \<^verbatim>\<open>Start()\<close>,
  \<^verbatim>\<open>PostStart()\<close> and \<^verbatim>\<open>Close()\<close>.
\<close>

record comp =
  c_id :: nat
  c_type :: string
  c_tag :: string
  c_deps :: "string list"
  c_network :: "string list"
  c_lifecycle :: bool
  c_prestart :: bool
  c_start :: bool
  c_poststart :: bool
  c_closer :: bool

datatype call =
    CallStart comp start_stage
  | CallPreStart comp
  | CallLegacyStart comp
  | CallPostStart comp
  | CallClose comp
  | CallCommonClose comp

text \<open>
  \<open>CallCommonClose c\<close> is \<^verbatim>\<open>common.Close(c)\<close>, a helper outside the repository that closes what has
  a \<^verbatim>\<open>Close\<close> method; \<open>CallClose c\<close> is a direct call of the method.
\<close>

type_synonym trace = "call list"
type_synonym call_env = "trace \<Rightarrow> call \<Rightarrow> go_err option"

definition do_call :: "call_env \<Rightarrow> call \<Rightarrow> trace \<Rightarrow> go_err option \<times> trace" where
  "do_call env c tr = (env tr c, tr @ [c])"

text \<open>\<^verbatim>\<open>adapter.LegacyStart\<close>: dispatch on the dynamic type of the component.\<close>

definition LegacyStart :: "call_env \<Rightarrow> comp \<Rightarrow> start_stage \<Rightarrow> trace \<Rightarrow> go_err option \<times> trace" where
  "LegacyStart env c stage tr =
     (if c_lifecycle c then do_call env (CallStart c stage) tr
      else case stage of
        StartStateInitialize \<Rightarrow> if c_prestart c then do_call env (CallPreStart c) tr else (None, tr)
      | StartStateStart \<Rightarrow> if c_start c then do_call env (CallLegacyStart c) tr else (None, tr)
      | StartStatePostStart \<Rightarrow> (None, tr)
      | StartStateStarted \<Rightarrow> if c_poststart c then do_call env (CallPostStart c) tr else (None, tr))"

text \<open>The display name the managers use in logs and errors: \<^verbatim>\<open>kind/type[tag]\<close>.\<close>

definition comp_name :: "string \<Rightarrow> comp \<Rightarrow> string" where
  "comp_name kind c = kind @ ''/'' @ c_type c @ ''['' @ c_tag c @ '']''"

text \<open>
  The loop over the managed components in every manager's \<^verbatim>\<open>Start\<close>: the first error stops it
  and is returned with the stage and the component's name.
\<close>

fun start_each ::
  "call_env \<Rightarrow> string \<Rightarrow> start_stage \<Rightarrow> comp list \<Rightarrow> trace \<Rightarrow> unit go_out \<times> trace" where
  "start_each env kind stage [] tr = (Ok (), tr)"
| "start_each env kind stage (c # cs) tr =
     (case LegacyStart env c stage tr of
        (Some e, tr') \<Rightarrow> (Err (ErrCause e [stage_String stage, '' '', comp_name kind c]), tr')
      | (None, tr') \<Rightarrow> start_each env kind stage cs tr')"

text \<open>The loop over \<^verbatim>\<open>ListStartStages\<close> that brings a late-created component up to date.\<close>

fun start_stages ::
  "call_env \<Rightarrow> string \<Rightarrow> comp \<Rightarrow> start_stage list \<Rightarrow> trace \<Rightarrow> unit go_out \<times> trace" where
  "start_stages env kind c [] tr = (Ok (), tr)"
| "start_stages env kind c (s # ss) tr =
     (case LegacyStart env c s tr of
        (Some e, tr') \<Rightarrow> (Err (ErrCause e [stage_String s, '' '', comp_name kind c]), tr')
      | (None, tr') \<Rightarrow> start_stages env kind c ss tr')"

text \<open>
  The loop of every manager's \<^verbatim>\<open>Close\<close>: all components are closed, whatever the earlier ones
  answered. The errors are accumulated with \<^verbatim>\<open>E.Append\<close> in a local variable.
\<close>

fun close_each :: "call_env \<Rightarrow> string \<Rightarrow> comp list \<Rightarrow> trace \<Rightarrow> go_err list \<times> trace" where
  "close_each env kind [] tr = ([], tr)"
| "close_each env kind (c # cs) tr =
     (case do_call env (CallClose c) tr of
        (r, tr') \<Rightarrow>
          (case close_each env kind cs tr' of
             (es, tr'') \<Rightarrow>
               ((case r of None \<Rightarrow> es | Some e \<Rightarrow> ErrCause e [''close '', comp_name kind c] # es),
                tr'')))"

section \<open>Facts about the loops\<close>

text \<open>The call a start at a stage makes on a component, if any.\<close>

definition stage_call :: "comp \<Rightarrow> start_stage \<Rightarrow> call list" where
  "stage_call c s =
     (if c_lifecycle c then [CallStart c s]
      else case s of
        StartStateInitialize \<Rightarrow> if c_prestart c then [CallPreStart c] else []
      | StartStateStart \<Rightarrow> if c_start c then [CallLegacyStart c] else []
      | StartStatePostStart \<Rightarrow> []
      | StartStateStarted \<Rightarrow> if c_poststart c then [CallPostStart c] else [])"

lemma LegacyStart_trace: "snd (LegacyStart env c s tr) = tr @ stage_call c s"
  by (cases s) (simp_all add: LegacyStart_def stage_call_def do_call_def)

lemma LegacyStart_nil: "stage_call c s = [] \<Longrightarrow> LegacyStart env c s tr = (None, tr)"
  by (cases s) (auto simp: LegacyStart_def stage_call_def do_call_def split: if_splits)

lemma LegacyStart_pair: "LegacyStart env c s tr = (r, tr') \<Longrightarrow> tr' = tr @ stage_call c s"
  using LegacyStart_trace [of env c s tr] by simp

lemma start_each_ok_trace:
  "start_each env kind s cs tr = (Ok u, tr') \<Longrightarrow> tr' = tr @ concat (map (\<lambda>c. stage_call c s) cs)"
  by (induction cs arbitrary: tr) (fastforce dest: LegacyStart_pair split: prod.splits option.splits)+

lemma start_each_not_panic: "fst (start_each env kind s cs tr) \<noteq> Panic msg"
  by (induction cs arbitrary: tr) (auto split: prod.splits option.splits)

lemma start_stages_ok_trace:
  "start_stages env kind c ss tr = (Ok u, tr') \<Longrightarrow> tr' = tr @ concat (map (stage_call c) ss)"
  by (induction ss arbitrary: tr) (fastforce dest: LegacyStart_pair split: prod.splits option.splits)+

lemma start_stages_not_panic: "fst (start_stages env kind c ss tr) \<noteq> Panic msg"
  by (induction ss arbitrary: tr) (auto split: prod.splits option.splits)

lemma close_each_trace [go_simps]: "snd (close_each env kind cs tr) = tr @ map CallClose cs"
  by (induction cs arbitrary: tr) (simp_all add: do_call_def case_prod_beta)

lemma close_each_pair: "close_each env kind cs tr = (es, tr') \<Longrightarrow> tr' = tr @ map CallClose cs"
  using close_each_trace [of env kind cs tr] by simp

section \<open>Start and StartNamed\<close>

text \<open>
  \<^verbatim>\<open>adapter.Start\<close> and \<^verbatim>\<open>adapter.StartNamed\<close> start a list of services at one stage and stop at
  the first error, which \<^verbatim>\<open>StartNamed\<close> wraps with the stage and the service's name. A service is
  given by its name and its \<^verbatim>\<open>Start\<close> method, a state transformer.
\<close>

type_synonym 's service = "string \<times> (start_stage \<Rightarrow> 's \<Rightarrow> unit go_out \<times> 's)"

fun adapter_Start :: "start_stage \<Rightarrow> 's service list \<Rightarrow> 's \<Rightarrow> unit go_out \<times> 's" where
  "adapter_Start stage [] st = (Ok (), st)"
| "adapter_Start stage ((n, f) # svs) st =
     (case f stage st of
        (Ok _, st') \<Rightarrow> adapter_Start stage svs st'
      | (Err e, st') \<Rightarrow> (Err e, st')
      | (Panic m, st') \<Rightarrow> (Panic m, st'))"

fun adapter_StartNamed :: "start_stage \<Rightarrow> 's service list \<Rightarrow> 's \<Rightarrow> unit go_out \<times> 's" where
  "adapter_StartNamed stage [] st = (Ok (), st)"
| "adapter_StartNamed stage ((n, f) # svs) st =
     (case f stage st of
        (Ok _, st') \<Rightarrow> adapter_StartNamed stage svs st'
      | (Err e, st') \<Rightarrow> (Err (ErrCause e [stage_String stage, '' '', n]), st')
      | (Panic m, st') \<Rightarrow> (Panic m, st'))"

lemma adapter_Start_append:
  "adapter_Start s (xs @ ys) st =
     (case adapter_Start s xs st of (Ok _, st') \<Rightarrow> adapter_Start s ys st' | r \<Rightarrow> r)"
  by (induction xs arbitrary: st) (auto split: prod.splits go_out.splits)

section \<open>A sample component\<close>

text \<open>A component with the full lifecycle, for evaluating the managers on concrete inputs.\<close>

definition demo_comp :: "nat \<Rightarrow> string \<Rightarrow> string list \<Rightarrow> comp" where
  "demo_comp n tag deps =
     \<lparr>c_id = n, c_type = ''direct'', c_tag = tag, c_deps = deps, c_network = [''tcp'', ''udp''],
      c_lifecycle = True, c_prestart = False, c_start = False, c_poststart = False,
      c_closer = True\<rparr>"

end
