(* ===== verification/Tag_Manager.thy ===== *)
theory Tag_Manager
  imports Lifecycle
begin

text \<open>
  What the five managers (inbound, outbound, endpoint, service, DNS transport) have in common: the
  type registry components are created from, the slice of members kept together with a map from
  tags, and the contract of their mutating operations as the locale \<open>tag_manager\<close>, which each
  manager's theory interprets on its own definitions. The facts derived from the contract, that no
  history of creations and removals ever panics or lets slice and map disagree, are proved once
  here.
\<close>

section \<open>Registries\<close>

text \<open>
  \<^verbatim>\<open>adapter/endpoint/registry.go\<close> and its siblings: option constructors and component
  constructors by type name. A constructor is protocol code, given here as a function of the tag
  and the options.
\<close>

record 'o registry =
  reg_optionsType :: "string \<Rightarrow> 'o option"
  reg_constructor :: "string \<Rightarrow> (string \<Rightarrow> 'o option \<Rightarrow> go_err + comp) option"

definition NewRegistry :: "'o registry" where
  "NewRegistry = \<lparr>reg_optionsType = Map.empty, reg_constructor = Map.empty\<rparr>"

definition registry_CreateOptions :: "'o registry \<Rightarrow> string \<Rightarrow> 'o option" where
  "registry_CreateOptions r typ = reg_optionsType r typ"

definition registry_Create ::
  "'o registry \<Rightarrow> string \<Rightarrow> string \<Rightarrow> 'o option \<Rightarrow> go_err + comp" where
  "registry_Create r tag typ options =
     (case reg_constructor r typ of
        None \<Rightarrow> Inl (ErrNew [''outbound type not found: '' @ typ])
      | Some constructor \<Rightarrow> constructor tag options)"

definition registry_register ::
  "'o registry \<Rightarrow> string \<Rightarrow> 'o \<Rightarrow> (string \<Rightarrow> 'o option \<Rightarrow> go_err + comp) \<Rightarrow> 'o registry" where
  "registry_register r typ options constructor =
     r\<lparr>reg_optionsType := (reg_optionsType r)(typ \<mapsto> options),
       reg_constructor := (reg_constructor r)(typ \<mapsto> constructor)\<rparr>"

lemma registry_Create_register [simp]:
  "registry_Create (registry_register r typ o' k) tag typ opts = k tag opts"
  "typ' \<noteq> typ \<Longrightarrow>
     registry_Create (registry_register r typ o' k) tag typ' opts = registry_Create r tag typ' opts"
  by (simp_all add: registry_Create_def registry_register_def)

section \<open>Members and tags\<close>

text \<open>
  The slice and the map of a manager agree: no component is listed twice, the listed components are
  the mapped ones, and no component is mapped under two tags.
\<close>

definition tags_agree :: "comp list \<Rightarrow> (string \<Rightarrow> comp option) \<Rightarrow> bool" where
  "tags_agree xs m \<longleftrightarrow> distinct xs \<and> set xs = ran m \<and> inj_on m (dom m)"

lemma tags_agree_empty [simp]: "tags_agree [] Map.empty"
  by (simp add: tags_agree_def)

lemma tags_agree_mem: "tags_agree xs m \<Longrightarrow> m t = Some c \<Longrightarrow> c \<in> set xs"
  by (auto simp: tags_agree_def intro: ranI)

lemma tags_agree_remove:
  "tags_agree xs m \<Longrightarrow> m t = Some c \<Longrightarrow> tags_agree (remove1 c xs) (m(t := None))"
  unfolding tags_agree_def
  by (intro conjI) (simp_all only: distinct_remove1 set_remove1_eq ran_upd_None inj_on_map_None)

lemma tags_agree_add:
  "tags_agree xs m \<Longrightarrow> c \<notin> set xs \<Longrightarrow> m t = None \<Longrightarrow> tags_agree (xs @ [c]) (m(t \<mapsto> c))"
  unfolding tags_agree_def
  by (intro conjI inj_on_map_upd) (auto simp: ran_map_upd)

lemma tags_agree_replace:
  assumes "tags_agree xs m" and "c \<notin> set xs" and "m t = Some d"
  shows "tags_agree (remove1 d xs @ [c]) (m(t \<mapsto> c))"
proof -
  have "tags_agree (remove1 d xs) (m(t := None))"
    using assms by (simp add: tags_agree_remove)
  moreover have "c \<notin> set (remove1 d xs)"
    using assms(2) by (meson notin_set_remove1)
  ultimately have "tags_agree (remove1 d xs @ [c]) ((m(t := None))(t \<mapsto> c))"
    by (intro tags_agree_add) simp_all
  then show ?thesis by simp
qed

lemma tags_agree_index:
  "sing_ok S \<Longrightarrow> tags_agree xs m \<Longrightarrow> m t = Some c \<Longrightarrow> sc_Index S xs (\<lambda>x. x = c) \<noteq> -1"
  by (simp add: sing_index_iff tags_agree_mem)

lemma tags_agree_cut:
  "sing_ok S \<Longrightarrow> tags_agree xs m \<Longrightarrow> m t = Some c \<Longrightarrow>
     cut_at xs (sc_Index S xs (\<lambda>x. x = c)) = remove1 c xs"
  by (simp add: sing_index_some tags_agree_mem)

lemmas tags_agree_intros = tags_agree_remove tags_agree_add tags_agree_replace

text \<open>What a successful replacement under a tag does to slice and map.\<close>

definition put_member :: "string \<Rightarrow> comp \<Rightarrow> comp list \<Rightarrow> (string \<Rightarrow> comp option) \<Rightarrow> comp list" where
  "put_member t c xs m = (case m t of None \<Rightarrow> xs | Some d \<Rightarrow> remove1 d xs) @ [c]"

lemma tags_agree_put:
  "tags_agree xs m \<Longrightarrow> c \<notin> set xs \<Longrightarrow> tags_agree (put_member t c xs m) (m(t \<mapsto> c))"
  by (cases "m t") (simp_all add: put_member_def tags_agree_intros)

section \<open>The contract of a manager\<close>

text \<open>
  A request to a manager once the constructor of a component has succeeded: install the component
  under a tag, or remove what is installed under a tag.
\<close>

datatype request = Install string comp | Remove string

locale tag_manager =
  fixes S :: "comp sing_common"
    and members :: "'m \<Rightarrow> comp list"
    and by_tag :: "'m \<Rightarrow> string \<Rightarrow> comp option"
    and install :: "call_env \<Rightarrow> string \<Rightarrow> comp \<Rightarrow> 'm \<Rightarrow> trace \<Rightarrow> unit go_out \<times> 'm \<times> trace"
    and remove :: "call_env \<Rightarrow> string \<Rightarrow> 'm \<Rightarrow> trace \<Rightarrow> unit go_out \<times> 'm \<times> trace"
  assumes remove_missing:
    "by_tag m t = None \<Longrightarrow> remove env t m tr = (Err ErrInvalid, m, tr)"
  and remove_present:
    "sing_ok S \<Longrightarrow> tags_agree (members m) (by_tag m) \<Longrightarrow> by_tag m t = Some c \<Longrightarrow>
     remove env t m tr = (r, m', tr') \<Longrightarrow>
     \<not> is_panic r \<and> by_tag m' = (by_tag m)(t := None) \<and> members m' = remove1 c (members m)"
  and install_fresh:
    "sing_ok S \<Longrightarrow> tags_agree (members m) (by_tag m) \<Longrightarrow> c \<notin> set (members m) \<Longrightarrow>
     install env t c m tr = (r, m', tr') \<Longrightarrow>
     \<not> is_panic r \<and>
     (by_tag m' = (by_tag m)(t \<mapsto> c) \<and> members m' = put_member t c (members m) (by_tag m) \<or>
      \<not> is_ok r \<and> by_tag m' = by_tag m \<and> members m' = members m)"
begin

lemma remove_agree:
  assumes "sing_ok S" and "tags_agree (members m) (by_tag m)"
    and "remove env t m tr = (r, m', tr')"
  shows "\<not> is_panic r \<and> tags_agree (members m') (by_tag m') \<and> by_tag m' = (by_tag m)(t := None)
     \<and> set (members m') \<subseteq> set (members m)"
proof (cases "by_tag m t")
  case None
  with assms(3) have "r = Err ErrInvalid" "m' = m" by (auto simp: remove_missing)
  with None assms(2) show ?thesis by (auto simp: fun_upd_idem)
next
  case (Some c)
  from remove_present [OF assms(1,2) Some assms(3)] tags_agree_remove [OF assms(2) Some]
  show ?thesis by (simp add: set_remove1_subset)
qed

lemma install_agree:
  assumes "sing_ok S" and "tags_agree (members m) (by_tag m)" and "c \<notin> set (members m)"
    and "install env t c m tr = (r, m', tr')"
  shows "\<not> is_panic r \<and> tags_agree (members m') (by_tag m')
     \<and> (is_ok r \<longrightarrow> by_tag m' t = Some c) \<and> (\<forall>u. u \<noteq> t \<longrightarrow> by_tag m' u = by_tag m u)
     \<and> set (members m') \<subseteq> insert c (set (members m))"
  using install_fresh [OF assms] assms(2) tags_agree_put [OF assms(2,3), of t]
  by (auto simp: put_member_def split: option.splits dest: notin_set_remove1)

end

text \<open>
  A history of requests served one after the other; \<open>None\<close> once an operation has panicked.
\<close>

fun serve ::
  "(call_env \<Rightarrow> string \<Rightarrow> comp \<Rightarrow> 'm \<Rightarrow> trace \<Rightarrow> unit go_out \<times> 'm \<times> trace) \<Rightarrow>
   (call_env \<Rightarrow> string \<Rightarrow> 'm \<Rightarrow> trace \<Rightarrow> unit go_out \<times> 'm \<times> trace) \<Rightarrow>
   call_env \<Rightarrow> request list \<Rightarrow> 'm \<Rightarrow> trace \<Rightarrow> ('m \<times> trace) option" where
  "serve ins rm env [] m tr = Some (m, tr)"
| "serve ins rm env (q # qs) m tr =
     (case (case q of Install t c \<Rightarrow> ins env t c m tr | Remove t \<Rightarrow> rm env t m tr) of
        (r, m', tr') \<Rightarrow> if is_panic r then None else serve ins rm env qs m' tr')"

fun installed :: "request list \<Rightarrow> comp list" where
  "installed [] = []"
| "installed (Install t c # qs) = c # installed qs"
| "installed (Remove t # qs) = installed qs"

context tag_manager
begin

text \<open>Fresh components, each allocated once, never make a history panic.\<close>

lemma serve_agree:
  assumes "sing_ok S"
  shows "tags_agree (members m) (by_tag m) \<Longrightarrow> distinct (installed qs) \<Longrightarrow>
     set (installed qs) \<inter> set (members m) = {} \<Longrightarrow>
     \<exists>m' tr'. serve install remove env qs m tr = Some (m', tr') \<and>
       tags_agree (members m') (by_tag m')"
proof (induction qs arbitrary: m tr)
  case Nil
  then show ?case by simp
next
  case (Cons q qs)
  show ?case
  proof (cases q)
    case (Install t c)
    obtain r m1 tr1 where op: "install env t c m tr = (r, m1, tr1)" by (metis prod_cases3)
    have "c \<notin> set (members m)" using Cons.prems Install by simp
    note step = install_agree [OF assms Cons.prems(1) this op]
    from step Cons.prems Install have "set (installed qs) \<inter> set (members m1) = {}" by auto
    with step Cons.prems Install Cons.IH [of m1 tr1] op show ?thesis by simp
  next
    case (Remove t)
    obtain r m1 tr1 where op: "remove env t m tr = (r, m1, tr1)" by (metis prod_cases3)
    note step = remove_agree [OF assms Cons.prems(1) op]
    then have ok: "\<not> is_panic r" and agree: "tags_agree (members m1) (by_tag m1)" by blast+
    from step Cons.prems Remove have "set (installed qs) \<inter> set (members m1) = {}" by auto
    with ok Cons.prems(2) Remove Cons.IH [OF agree, of tr1] op show ?thesis by simp
  qed
qed

text \<open>After an installation a lookup finds the component, after a removal nothing.\<close>

lemma lookup_installed:
  assumes "sing_ok S" and "tags_agree (members m) (by_tag m)" and "c \<notin> set (members m)"
    and "install env t c m tr = (Ok u, m1, tr1)"
  shows "by_tag m1 t = Some c"
  using install_agree [OF assms] by simp

lemma lookup_removed:
  assumes "sing_ok S" and "tags_agree (members m) (by_tag m)"
    and "remove env t m tr = (r, m1, tr1)"
  shows "by_tag m1 t = None"
  using remove_agree [OF assms] by simp

end

end
