(* ===== verification/Endpoint_Manager.thy ===== *)
theory Endpoint_Manager
  imports Tag_Manager
begin

text \<open>
  \<^verbatim>\<open>adapter/endpoint/manager.go\<close>: the endpoint manager's state and every operation on it. The
  mutex makes the operations atomic; a call on an endpoint is recorded in the trace.
\<close>

record endpoint_manager =
  em_started :: bool
  em_stage :: start_stage
  em_endpoints :: "comp list"
  em_by_tag :: "string \<Rightarrow> comp option"

definition NewEndpointManager :: endpoint_manager where
  "NewEndpointManager =
     \<lparr>em_started = False, em_stage = StartStateInitialize, em_endpoints = [],
      em_by_tag = Map.empty\<rparr>"

definition em_Start ::
  "call_env \<Rightarrow> start_stage \<Rightarrow> endpoint_manager \<Rightarrow> trace \<Rightarrow> unit go_out \<times> endpoint_manager \<times> trace" where
  "em_Start env stage m tr =
     (if em_started m \<and> stage \<le> em_stage m then (Panic ''already started'', m, tr)
      else
        let m1 = m\<lparr>em_started := True, em_stage := stage\<rparr>
        in if stage = StartStateStart then (Ok (), m1, tr)
           else (case start_each env ''endpoint'' stage (em_endpoints m1) tr of
                   (r, tr1) \<Rightarrow> (r, m1, tr1)))"

definition em_Close ::
  "call_env \<Rightarrow> endpoint_manager \<Rightarrow> trace \<Rightarrow> unit go_out \<times> endpoint_manager \<times> trace" where
  "em_Close env m tr =
     (if \<not> em_started m then (Ok (), m, tr)
      else case close_each env ''endpoint'' (em_endpoints m) tr of
        (err, tr1) \<Rightarrow> (Ok (), m\<lparr>em_started := False, em_endpoints := []\<rparr>, tr1))"

definition em_Endpoints :: "endpoint_manager \<Rightarrow> comp list" where
  "em_Endpoints m = em_endpoints m"

definition em_Get :: "endpoint_manager \<Rightarrow> string \<Rightarrow> comp option" where
  "em_Get m tag = em_by_tag m tag"

definition em_Remove ::
  "comp sing_common \<Rightarrow> call_env \<Rightarrow> string \<Rightarrow> endpoint_manager \<Rightarrow> trace \<Rightarrow>
   unit go_out \<times> endpoint_manager \<times> trace" where
  "em_Remove S env tag m tr =
     (case em_by_tag m tag of
        None \<Rightarrow> (Err ErrInvalid, m, tr)
      | Some endpoint \<Rightarrow>
          let m1 = m\<lparr>em_by_tag := (em_by_tag m)(tag := None)\<rparr>;
              index = sc_Index S (em_endpoints m1) (\<lambda>it. it = endpoint)
          in if index = -1 then (Panic ''invalid endpoint index'', m1, tr)
             else
               let m2 = m1\<lparr>em_endpoints := cut_at (em_endpoints m1) index\<rparr>
               in if em_started m
                  then (case do_call env (CallClose endpoint) tr of (r, tr1) \<Rightarrow> (of_error r, m2, tr1))
                  else (Ok (), m2, tr))"

text \<open>
  The second half of \<^verbatim>\<open>Create\<close>: a component already installed under the tag is closed (if the
  manager runs) and cut out of the slice, then the new one is appended.
\<close>

definition em_append :: "string \<Rightarrow> comp \<Rightarrow> endpoint_manager \<Rightarrow> endpoint_manager" where
  "em_append tag c m =
     m\<lparr>em_endpoints := em_endpoints m @ [c], em_by_tag := (em_by_tag m)(tag \<mapsto> c)\<rparr>"

definition em_install ::
  "comp sing_common \<Rightarrow> call_env \<Rightarrow> string \<Rightarrow> comp \<Rightarrow> endpoint_manager \<Rightarrow> trace \<Rightarrow>
   unit go_out \<times> endpoint_manager \<times> trace" where
  "em_install S env tag c m tr =
     (case em_by_tag m tag of
        None \<Rightarrow> (Ok (), em_append tag c m, tr)
      | Some existsEndpoint \<Rightarrow>
          (case (if em_started m then do_call env (CallClose existsEndpoint) tr else (None, tr)) of
             (Some e, tr1) \<Rightarrow>
               (Err (ErrCause e [''close '', comp_name ''endpoint'' existsEndpoint]), m, tr1)
           | (None, tr1) \<Rightarrow>
               let existsIndex = sc_Index S (em_endpoints m) (\<lambda>it. it = existsEndpoint)
               in if existsIndex = -1 then (Panic ''invalid endpoint index'', m, tr1)
                  else (Ok (),
                    em_append tag c (m\<lparr>em_endpoints := cut_at (em_endpoints m) existsIndex\<rparr>),
                    tr1)))"

definition em_Create ::
  "comp sing_common \<Rightarrow> call_env \<Rightarrow> 'o registry \<Rightarrow> string \<Rightarrow> string \<Rightarrow> 'o option \<Rightarrow>
   endpoint_manager \<Rightarrow> trace \<Rightarrow> unit go_out \<times> endpoint_manager \<times> trace" where
  "em_Create S env reg tag typ options m tr =
     (case registry_Create reg tag typ options of
        Inl e \<Rightarrow> (Err e, m, tr)
      | Inr endpoint \<Rightarrow>
          (case (if em_started m then start_stages env ''endpoint'' endpoint ListStartStages tr
                 else (Ok (), tr)) of
             (Err e, tr1) \<Rightarrow> (Err e, m, tr1)
           | (Panic p, tr1) \<Rightarrow> (Panic p, m, tr1)
           | (Ok _, tr1) \<Rightarrow> em_install S env tag endpoint m tr1))"

section \<open>The contract\<close>

interpretation ep: tag_manager S em_endpoints em_by_tag "em_install S" "em_Remove S"
  for S :: "comp sing_common"
proof (unfold_locales, goal_cases)
  case (1 m t env tr)
  then show ?case by (simp add: em_Remove_def)
next
  case (2 m t c env tr r m' tr')
  then show ?case
    by (auto simp: em_Remove_def Let_def do_call_def tags_agree_index tags_agree_cut of_error_def
        split: if_splits option.splits)
next
  case (3 m c env t tr r m' tr')
  then show ?case
    by (auto simp: em_install_def em_append_def put_member_def Let_def do_call_def
        tags_agree_index tags_agree_cut split: if_splits option.splits)
qed

lemma NewEndpointManager_agree [simp]:
  "tags_agree (em_endpoints NewEndpointManager) (em_by_tag NewEndpointManager)"
  by (simp add: NewEndpointManager_def)

end
