(* ===== verification/Inbound_Manager.thy ===== *)
theory Inbound_Manager
  imports Endpoint_Manager
begin

text \<open>
  \<^verbatim>\<open>adapter/inbound/manager.go\<close>: the inbound manager's state and every operation on it. The
  mutex makes the operations atomic; a call on an inbound is recorded in the trace.
\<close>

record inbound_manager =
  im_started :: bool
  im_stage :: start_stage
  im_inbounds :: "comp list"
  im_by_tag :: "string \<Rightarrow> comp option"

definition NewInboundManager :: inbound_manager where
  "NewInboundManager =
     \<lparr>im_started = False, im_stage = StartStateInitialize, im_inbounds = [],
      im_by_tag = Map.empty\<rparr>"

definition im_Start ::
  "call_env \<Rightarrow> start_stage \<Rightarrow> inbound_manager \<Rightarrow> trace \<Rightarrow> unit go_out \<times> inbound_manager \<times> trace" where
  "im_Start env stage m tr =
     (if im_started m \<and> stage \<le> im_stage m then (Panic ''already started'', m, tr)
      else
        let m1 = m\<lparr>im_started := True, im_stage := stage\<rparr>
        in (case start_each env ''inbound'' stage (im_inbounds m1) tr of
              (r, tr1) \<Rightarrow> (r, m1, tr1)))"

definition im_Close ::
  "call_env \<Rightarrow> inbound_manager \<Rightarrow> trace \<Rightarrow> unit go_out \<times> inbound_manager \<times> trace" where
  "im_Close env m tr =
     (if \<not> im_started m then (Ok (), m, tr)
      else case close_each env ''inbound'' (im_inbounds m) tr of
        (err, tr1) \<Rightarrow> (Ok (), m\<lparr>im_started := False, im_inbounds := []\<rparr>, tr1))"

definition im_Inbounds :: "inbound_manager \<Rightarrow> comp list" where
  "im_Inbounds m = im_inbounds m"

text \<open>A tag the inbound manager does not know is looked up among the endpoints.\<close>

definition im_Get :: "endpoint_manager \<Rightarrow> inbound_manager \<Rightarrow> string \<Rightarrow> comp option" where
  "im_Get em m tag =
     (case im_by_tag m tag of Some inbound \<Rightarrow> Some inbound | None \<Rightarrow> em_Get em tag)"

definition im_Remove ::
  "comp sing_common \<Rightarrow> call_env \<Rightarrow> string \<Rightarrow> inbound_manager \<Rightarrow> trace \<Rightarrow>
   unit go_out \<times> inbound_manager \<times> trace" where
  "im_Remove S env tag m tr =
     (case im_by_tag m tag of
        None \<Rightarrow> (Err ErrInvalid, m, tr)
      | Some inbound \<Rightarrow>
          let m1 = m\<lparr>im_by_tag := (im_by_tag m)(tag := None)\<rparr>;
              index = sc_Index S (im_inbounds m1) (\<lambda>it. it = inbound)
          in if index = -1 then (Panic ''invalid inbound index'', m1, tr)
             else
               let m2 = m1\<lparr>im_inbounds := cut_at (im_inbounds m1) index\<rparr>
               in if im_started m
                  then (case do_call env (CallClose inbound) tr of (r, tr1) \<Rightarrow> (of_error r, m2, tr1))
                  else (Ok (), m2, tr))"

text \<open>
  The second half of \<^verbatim>\<open>Create\<close>: a component already installed under the tag is closed (if the
  manager runs) and cut out of the slice, then the new one is appended.
\<close>

definition im_append :: "string \<Rightarrow> comp \<Rightarrow> inbound_manager \<Rightarrow> inbound_manager" where
  "im_append tag c m =
     m\<lparr>im_inbounds := im_inbounds m @ [c], im_by_tag := (im_by_tag m)(tag \<mapsto> c)\<rparr>"

definition im_install ::
  "comp sing_common \<Rightarrow> call_env \<Rightarrow> string \<Rightarrow> comp \<Rightarrow> inbound_manager \<Rightarrow> trace \<Rightarrow>
   unit go_out \<times> inbound_manager \<times> trace" where
  "im_install S env tag c m tr =
     (case im_by_tag m tag of
        None \<Rightarrow> (Ok (), im_append tag c m, tr)
      | Some existsInbound \<Rightarrow>
          (case (if im_started m then do_call env (CallClose existsInbound) tr else (None, tr)) of
             (Some e, tr1) \<Rightarrow>
               (Err (ErrCause e [''close '', comp_name ''inbound'' existsInbound]), m, tr1)
           | (None, tr1) \<Rightarrow>
               let existsIndex = sc_Index S (im_inbounds m) (\<lambda>it. it = existsInbound)
               in if existsIndex = -1 then (Panic ''invalid inbound index'', m, tr1)
                  else (Ok (),
                    im_append tag c (m\<lparr>im_inbounds := cut_at (im_inbounds m) existsIndex\<rparr>),
                    tr1)))"

definition im_Create ::
  "comp sing_common \<Rightarrow> call_env \<Rightarrow> 'o registry \<Rightarrow> string \<Rightarrow> string \<Rightarrow> 'o option \<Rightarrow>
   inbound_manager \<Rightarrow> trace \<Rightarrow> unit go_out \<times> inbound_manager \<times> trace" where
  "im_Create S env reg tag typ options m tr =
     (case registry_Create reg tag typ options of
        Inl e \<Rightarrow> (Err e, m, tr)
      | Inr inbound \<Rightarrow>
          (case (if im_started m then start_stages env ''inbound'' inbound ListStartStages tr
                 else (Ok (), tr)) of
             (Err e, tr1) \<Rightarrow> (Err e, m, tr1)
           | (Panic p, tr1) \<Rightarrow> (Panic p, m, tr1)
           | (Ok _, tr1) \<Rightarrow> im_install S env tag inbound m tr1))"

section \<open>The contract\<close>

interpretation ib: tag_manager S im_inbounds im_by_tag "im_install S" "im_Remove S"
  for S :: "comp sing_common"
proof (unfold_locales, goal_cases)
  case (1 m t env tr)
  then show ?case by (simp add: im_Remove_def)
next
  case (2 m t c env tr r m' tr')
  then show ?case
    by (auto simp: im_Remove_def Let_def do_call_def tags_agree_index tags_agree_cut of_error_def
        split: if_splits option.splits)
next
  case (3 m c env t tr r m' tr')
  then show ?case
    by (auto simp: im_install_def im_append_def put_member_def Let_def do_call_def
        tags_agree_index tags_agree_cut split: if_splits option.splits)
qed

lemma NewInboundManager_agree [simp]:
  "tags_agree (im_inbounds NewInboundManager) (im_by_tag NewInboundManager)"
  by (simp add: NewInboundManager_def)

end
