(* ===== verification/Service_Manager.thy ===== *)
theory Service_Manager
  imports Tag_Manager
begin

text \<open>
  \<^verbatim>\<open>adapter/service/manager.go\<close>: the service manager's state and every operation on it. The
  mutex makes the operations atomic; a call on a service is recorded in the trace.
\<close>

record service_manager =
  sm_started :: bool
  sm_stage :: start_stage
  sm_services :: "comp list"
  sm_by_tag :: "string \<Rightarrow> comp option"

definition NewServiceManager :: service_manager where
  "NewServiceManager =
     \<lparr>sm_started = False, sm_stage = StartStateInitialize, sm_services = [],
      sm_by_tag = Map.empty\<rparr>"

definition sm_Start ::
  "call_env \<Rightarrow> start_stage \<Rightarrow> service_manager \<Rightarrow> trace \<Rightarrow> unit go_out \<times> service_manager \<times> trace" where
  "sm_Start env stage m tr =
     (if sm_started m \<and> stage \<le> sm_stage m then (Panic ''already started'', m, tr)
      else
        let m1 = m\<lparr>sm_started := True, sm_stage := stage\<rparr>
        in (case start_each env ''service'' stage (sm_services m1) tr of
              (r, tr1) \<Rightarrow> (r, m1, tr1)))"

definition sm_Close ::
  "call_env \<Rightarrow> service_manager \<Rightarrow> trace \<Rightarrow> unit go_out \<times> service_manager \<times> trace" where
  "sm_Close env m tr =
     (if \<not> sm_started m then (Ok (), m, tr)
      else case close_each env ''service'' (sm_services m) tr of
        (err, tr1) \<Rightarrow> (Ok (), m\<lparr>sm_started := False, sm_services := []\<rparr>, tr1))"

definition sm_Services :: "service_manager \<Rightarrow> comp list" where
  "sm_Services m = sm_services m"

definition sm_Get :: "service_manager \<Rightarrow> string \<Rightarrow> comp option" where
  "sm_Get m tag = sm_by_tag m tag"

definition sm_Remove ::
  "comp sing_common \<Rightarrow> call_env \<Rightarrow> string \<Rightarrow> service_manager \<Rightarrow> trace \<Rightarrow>
   unit go_out \<times> service_manager \<times> trace" where
  "sm_Remove S env tag m tr =
     (case sm_by_tag m tag of
        None \<Rightarrow> (Err ErrInvalid, m, tr)
      | Some service \<Rightarrow>
          let m1 = m\<lparr>sm_by_tag := (sm_by_tag m)(tag := None)\<rparr>;
              index = sc_Index S (sm_services m1) (\<lambda>it. it = service)
          in if index = -1 then (Panic ''invalid service index'', m1, tr)
             else
               let m2 = m1\<lparr>sm_services := cut_at (sm_services m1) index\<rparr>
               in if sm_started m
                  then (case do_call env (CallClose service) tr of (r, tr1) \<Rightarrow> (of_error r, m2, tr1))
                  else (Ok (), m2, tr))"

text \<open>
  The second half of \<^verbatim>\<open>Create\<close>: a component already installed under the tag is closed (if the
  manager runs) and cut out of the slice, then the new one is appended.
\<close>

definition sm_append :: "string \<Rightarrow> comp \<Rightarrow> service_manager \<Rightarrow> service_manager" where
  "sm_append tag c m =
     m\<lparr>sm_services := sm_services m @ [c], sm_by_tag := (sm_by_tag m)(tag \<mapsto> c)\<rparr>"

definition sm_install ::
  "comp sing_common \<Rightarrow> call_env \<Rightarrow> string \<Rightarrow> comp \<Rightarrow> service_manager \<Rightarrow> trace \<Rightarrow>
   unit go_out \<times> service_manager \<times> trace" where
  "sm_install S env tag c m tr =
     (case sm_by_tag m tag of
        None \<Rightarrow> (Ok (), sm_append tag c m, tr)
      | Some existsService \<Rightarrow>
          (case (if sm_started m then do_call env (CallClose existsService) tr else (None, tr)) of
             (Some e, tr1) \<Rightarrow>
               (Err (ErrCause e [''close '', comp_name ''service'' existsService]), m, tr1)
           | (None, tr1) \<Rightarrow>
               let existsIndex = sc_Index S (sm_services m) (\<lambda>it. it = existsService)
               in if existsIndex = -1 then (Panic ''invalid service index'', m, tr1)
                  else (Ok (),
                    sm_append tag c (m\<lparr>sm_services := cut_at (sm_services m) existsIndex\<rparr>),
                    tr1)))"

definition sm_Create ::
  "comp sing_common \<Rightarrow> call_env \<Rightarrow> 'o registry \<Rightarrow> string \<Rightarrow> string \<Rightarrow> 'o option \<Rightarrow>
   service_manager \<Rightarrow> trace \<Rightarrow> unit go_out \<times> service_manager \<times> trace" where
  "sm_Create S env reg tag typ options m tr =
     (case registry_Create reg tag typ options of
        Inl e \<Rightarrow> (Err e, m, tr)
      | Inr service \<Rightarrow>
          (case (if sm_started m then start_stages env ''service'' service ListStartStages tr
                 else (Ok (), tr)) of
             (Err e, tr1) \<Rightarrow> (Err e, m, tr1)
           | (Panic p, tr1) \<Rightarrow> (Panic p, m, tr1)
           | (Ok _, tr1) \<Rightarrow> sm_install S env tag service m tr1))"

section \<open>The contract\<close>

interpretation sv: tag_manager S sm_services sm_by_tag "sm_install S" "sm_Remove S"
  for S :: "comp sing_common"
proof (unfold_locales, goal_cases)
  case (1 m t env tr)
  then show ?case by (simp add: sm_Remove_def)
next
  case (2 m t c env tr r m' tr')
  then show ?case
    by (auto simp: sm_Remove_def Let_def do_call_def tags_agree_index tags_agree_cut of_error_def
        split: if_splits option.splits)
next
  case (3 m c env t tr r m' tr')
  then show ?case
    by (auto simp: sm_install_def sm_append_def put_member_def Let_def do_call_def
        tags_agree_index tags_agree_cut split: if_splits option.splits)
qed

lemma NewServiceManager_agree [simp]:
  "tags_agree (sm_services NewServiceManager) (sm_by_tag NewServiceManager)"
  by (simp add: NewServiceManager_def)

end
