(* ===== verification/Dep_Start.thy ===== *)
theory Dep_Start
  imports Tag_Manager "HOL-Library.Multiset"
begin

text \<open>
  Starting components in dependency order. The outbound manager (\<^verbatim>\<open>startOutbounds\<close>) and the DNS
  transport manager (\<^verbatim>\<open>startTransports\<close>) contain the same loops; they are modelled once, with the
  start of one component (\<open>starter\<close>) and the noun of the error messages (\<open>kind\<close>) as arguments.
  The abstract specification is an order of the components in which every dependency precedes its
  dependants (\<open>dep_ordered\<close>). The locale \<open>dependency_start\<close> states what the loops need of a starter
  and holds the facts both managers use.
\<close>

section \<open>The loops\<close>

text \<open>
  One pass of the inner loop \<^verbatim>\<open>startOne\<close>. The map \<^verbatim>\<open>started\<close> only ever holds \<^verbatim>\<open>true\<close>; it is
  represented by the list of its keys in the order they were set.
\<close>

fun start_pass ::
  "(comp \<Rightarrow> trace \<Rightarrow> go_err option \<times> trace) \<Rightarrow> comp list \<Rightarrow> string list \<Rightarrow> bool \<Rightarrow> trace \<Rightarrow>
   go_err option \<times> string list \<times> bool \<times> trace" where
  "start_pass starter [] started canContinue tr = (None, started, canContinue, tr)"
| "start_pass starter (c # cs) started canContinue tr =
     (if c_tag c \<in> set started then start_pass starter cs started canContinue tr
      else if \<not> set (c_deps c) \<subseteq> set started then start_pass starter cs started canContinue tr
      else
        (case starter c tr of
           (Some e, tr1) \<Rightarrow> (Some e, started @ [c_tag c], True, tr1)
         | (None, tr1) \<Rightarrow> start_pass starter cs (started @ [c_tag c]) True tr1))"

text \<open>
  \<^verbatim>\<open>lintOutbound\<close> (\<^verbatim>\<open>lintTransport\<close>) follows unstarted dependencies until it closes a cycle or reaches a tag that
  is not known. Each call spends one unit of fuel; \<open>None\<close> is unbounded recursion.
\<close>

fun lint_dependency ::
  "nat \<Rightarrow> string \<Rightarrow> comp sing_common \<Rightarrow> string list \<Rightarrow> (string \<Rightarrow> comp option) \<Rightarrow> string list \<Rightarrow> comp \<Rightarrow>
   go_err option" where
  "lint_dependency 0 kind S started by_tag oTree oCurrent = None"
| "lint_dependency (Suc fuel) kind S started by_tag oTree oCurrent =
     (let problem = sc_FindString S (c_deps oCurrent) (\<lambda>it. it \<notin> set started)
      in if sc_ContainsString S oTree problem
         then Some (ErrNew (''circular '' # kind # '' dependency: '' # oTree @ [problem]))
         else case by_tag problem of
           None \<Rightarrow>
             Some (ErrNew [''dependency['', problem, ''] not found for '', kind, ''['', c_tag oCurrent, '']''])
         | Some problemComp \<Rightarrow>
             lint_dependency fuel kind S started by_tag (oTree @ [problem]) problemComp)"

definition unstarted :: "comp list \<Rightarrow> string list \<Rightarrow> comp list" where
  "unstarted cs started = filter (\<lambda>c. c_tag c \<notin> set started) cs"

lemma start_pass_mono:
  "start_pass starter cs started can tr = (e, started', can', tr') \<Longrightarrow>
     set started \<subseteq> set started' \<and> (can \<longrightarrow> can')"
  by (induction cs arbitrary: started can tr)
     (fastforce split: if_splits prod.splits option.splits)+

lemma start_pass_progress:
  assumes "start_pass starter cs started False tr = (None, started', True, tr')"
  shows "length (unstarted cs started') < length (unstarted cs started)"
  using assms
proof (induction cs arbitrary: tr)
  case Nil
  then show ?case by simp
next
  case (Cons c cs)
  show ?case
  proof (cases "c_tag c \<in> set started \<or> \<not> set (c_deps c) \<subseteq> set started")
    case True
    with Cons.prems have rest: "start_pass starter cs started False tr = (None, started', True, tr')"
      by (auto split: if_splits)
    have "set started \<subseteq> set started'" using start_pass_mono [OF rest] by simp
    with Cons.IH [OF rest] show ?thesis by (auto simp: unstarted_def)
  next
    case False
    with Cons.prems obtain tr1 where
      rest: "start_pass starter cs (started @ [c_tag c]) True tr1 = (None, started', True, tr')"
      by (auto split: prod.splits option.splits)
    have sub: "set (started @ [c_tag c]) \<subseteq> set started'" using start_pass_mono [OF rest] by simp
    then have "length (unstarted cs started') \<le> length (unstarted cs started)"
      unfolding unstarted_def by (induction cs) auto
    with False sub show ?thesis by (simp add: unstarted_def)
  qed
qed

text \<open>
  The outer loop. A pass that started something and did not fail leaves fewer outbounds
  unstarted, so the loop ends. A stuck loop asks \<^verbatim>\<open>common.Find\<close> for an unstarted outbound; a nil
  answer is dereferenced.
\<close>

function start_loop ::
  "(comp \<Rightarrow> trace \<Rightarrow> go_err option \<times> trace) \<Rightarrow> string \<Rightarrow> comp sing_common \<Rightarrow> (string \<Rightarrow> comp option) \<Rightarrow> comp list \<Rightarrow> string list \<Rightarrow> trace \<Rightarrow>
   unit go_out \<times> trace" where
  "start_loop starter kind S by_tag cs started tr =
     (case start_pass starter cs started False tr of
        (Some e, started1, can, tr1) \<Rightarrow> (Err e, tr1)
      | (None, started1, can, tr1) \<Rightarrow>
          if length started1 = length cs then (Ok (), tr1)
          else if can then start_loop starter kind S by_tag cs started1 tr1
          else
            (case sc_Find S cs (\<lambda>it. c_tag it \<notin> set started1) of
               None \<Rightarrow> (Panic ''nil pointer dereference'', tr1)
             | Some current \<Rightarrow>
                 (case lint_dependency (Suc (length cs)) kind S started1 by_tag [c_tag current] current of
                    None \<Rightarrow> (Panic ''stack overflow'', tr1)
                  | Some e \<Rightarrow> (Err e, tr1))))"
  by pat_completeness auto
termination
  by (relation "measure (\<lambda>(starter, kind, S, by_tag, cs, started, tr). length (unstarted cs started))")
     (auto intro: start_pass_progress [OF sym])

declare start_loop.simps [simp del]

section \<open>The specification: dependency orders\<close>

fun dep_ordered :: "string list \<Rightarrow> comp list \<Rightarrow> bool" where
  "dep_ordered started [] = True"
| "dep_ordered started (c # cs) \<longleftrightarrow>
     c_tag c \<notin> set started \<and> set (c_deps c) \<subseteq> set started \<and> dep_ordered (started @ [c_tag c]) cs"

text \<open>The calls made when components are started one after the other.\<close>

definition start_calls :: "(comp \<Rightarrow> trace) \<Rightarrow> comp list \<Rightarrow> trace" where
  "start_calls calls os = concat (map calls os)"

lemma start_calls_simps [simp]:
  "start_calls calls [] = []"
  "start_calls calls (c # os) = calls c @ start_calls calls os"
  "start_calls calls (os @ os') = start_calls calls os @ start_calls calls os'"
  by (simp_all add: start_calls_def)

lemma dep_ordered_append:
  "dep_ordered st (os @ os') \<longleftrightarrow> dep_ordered st os \<and> dep_ordered (st @ map c_tag os) os'"
  by (induction os arbitrary: st) auto

lemma dep_ordered_distinct:
  "dep_ordered st os \<Longrightarrow> distinct st \<Longrightarrow> distinct (st @ map c_tag os)"
proof (induction os arbitrary: st)
  case (Cons c os)
  then have "distinct ((st @ [c_tag c]) @ map c_tag os)" by (intro Cons.IH) auto
  then show ?case by simp
qed simp

lemma dep_ordered_nth:
  "dep_ordered st os \<Longrightarrow> i < length os \<Longrightarrow>
     set (c_deps (os ! i)) \<subseteq> set st \<union> c_tag ` set (take i os)"
proof (induction os arbitrary: st i)
  case (Cons c os)
  show ?case
  proof (cases i)
    case 0
    with Cons.prems show ?thesis by auto
  next
    case (Suc j)
    have "set (c_deps (os ! j)) \<subseteq> set (st @ [c_tag c]) \<union> c_tag ` set (take j os)"
      using Cons.prems Suc by (intro Cons.IH) auto
    with Suc show ?thesis by auto
  qed
qed simp

section \<open>One pass\<close>

lemma start_pass_order:
  assumes calls: "\<And>c tr. snd (starter c tr) = tr @ calls c"
    and pass: "start_pass starter cs st can tr = (None, st', can', tr')"
  shows "\<exists>os. st' = st @ map c_tag os \<and> tr' = tr @ start_calls calls os \<and> dep_ordered st os \<and>
     set os \<subseteq> set cs \<and> can' = (can \<or> os \<noteq> [])"
  using pass
proof (induction cs arbitrary: st can tr)
  case Nil
  then show ?case by (intro exI [of _ "[]"]) auto
next
  case (Cons c cs)
  show ?case
  proof (cases "c_tag c \<in> set st \<or> \<not> set (c_deps c) \<subseteq> set st")
    case True
    with Cons.prems have "start_pass starter cs st can tr = (None, st', can', tr')"
      by (auto split: if_splits)
    from Cons.IH [OF this] obtain os where "st' = st @ map c_tag os" "tr' = tr @ start_calls calls os"
      "dep_ordered st os" "set os \<subseteq> set cs" "can' = (can \<or> os \<noteq> [])" by blast
    then show ?thesis by (intro exI [of _ os]) auto
  next
    case False
    with Cons.prems obtain tr1 where leg: "starter c tr = (None, tr1)"
      and rest: "start_pass starter cs (st @ [c_tag c]) True tr1 = (None, st', can', tr')"
      by (auto split: prod.splits option.splits)
    from Cons.IH [OF rest] obtain os where
      os: "st' = (st @ [c_tag c]) @ map c_tag os" "tr' = tr1 @ start_calls calls os"
        "dep_ordered (st @ [c_tag c]) os" "set os \<subseteq> set cs" "can'" by auto
    have "tr1 = tr @ calls c" using calls [of c tr] leg by simp
    with os False show ?thesis by (intro exI [of _ "c # os"]) auto
  qed
qed

lemma start_pass_tags:
  "start_pass starter cs st can tr = (None, st', can', tr') \<Longrightarrow>
     \<exists>os. st' = st @ map c_tag os \<and> dep_ordered st os \<and> set os \<subseteq> set cs"
proof (induction cs arbitrary: st can tr)
  case (Cons c cs)
  show ?case
  proof (cases "c_tag c \<in> set st \<or> \<not> set (c_deps c) \<subseteq> set st")
    case True
    with Cons.prems have "start_pass starter cs st can tr = (None, st', can', tr')"
      by (auto split: if_splits)
    from Cons.IH [OF this] obtain os where "st' = st @ map c_tag os" "dep_ordered st os"
      "set os \<subseteq> set cs" by blast
    then show ?thesis by (intro exI [of _ os]) auto
  next
    case False
    with Cons.prems obtain tr1 where
      "start_pass starter cs (st @ [c_tag c]) True tr1 = (None, st', can', tr')"
      by (auto split: prod.splits option.splits)
    from Cons.IH [OF this] obtain os where
      "st' = (st @ [c_tag c]) @ map c_tag os" "dep_ordered (st @ [c_tag c]) os" "set os \<subseteq> set cs"
      by blast
    with False show ?thesis by (intro exI [of _ "c # os"]) auto
  qed
qed simp

lemma start_pass_stuck:
  "start_pass starter cs st False tr = (None, st', False, tr') \<Longrightarrow>
     st' = st \<and> (\<forall>c \<in> set cs. c_tag c \<in> set st \<or> \<not> set (c_deps c) \<subseteq> set st)"
proof (induction cs arbitrary: tr)
  case (Cons c cs)
  show ?case
  proof (cases "c_tag c \<in> set st \<or> \<not> set (c_deps c) \<subseteq> set st")
    case True
    with Cons.prems have "start_pass starter cs st False tr = (None, st', False, tr')"
      by (auto split: if_splits)
    from Cons.IH [OF this] True show ?thesis by auto
  next
    case False
    with Cons.prems obtain tr1 where
      "start_pass starter cs (st @ [c_tag c]) True tr1 = (None, st', False, tr')"
      by (auto split: prod.splits option.splits)
    from start_pass_mono [OF this] show ?thesis by simp
  qed
qed simp

lemma start_pass_no_error:
  assumes "\<And>c tr. fst (starter c tr) = None"
  shows "fst (start_pass starter cs st can tr) = None"
proof (induction cs arbitrary: st can tr)
  case (Cons c cs)
  obtain tr1 where "starter c tr = (None, tr1)" using assms [of c tr] by (metis eq_fst_iff)
  with Cons.IH show ?case by simp
qed simp

section \<open>The loop\<close>

lemma start_loop_order:
  assumes "\<And>c tr. snd (starter c tr) = tr @ calls c"
    and "start_loop starter kind S bt cs st tr = (Ok u, tr')"
  shows "\<exists>os. tr' = tr @ start_calls calls os \<and> dep_ordered st os \<and> set os \<subseteq> set cs \<and>
       length st + length os = length cs"
  using assms
proof (induction starter kind S bt cs st tr rule: start_loop.induct)
  case (1 starter kind S bt cs st tr)
  obtain e st1 can tr1 where pass: "start_pass starter cs st False tr = (e, st1, can, tr1)"
    by (metis prod_cases4)
  have noerr: "e = None"
    using "1.prems"(2) by (subst (asm) start_loop.simps) (auto simp: pass split: option.splits)
  note order = start_pass_order [OF "1.prems"(1) pass [unfolded noerr]]
  then obtain os where os: "st1 = st @ map c_tag os" "tr1 = tr @ start_calls calls os"
    "dep_ordered st os" "set os \<subseteq> set cs" by blast
  show ?case
  proof (cases "length st1 = length cs")
    case True
    then have "tr' = tr1"
      using "1.prems"(2) by (subst (asm) start_loop.simps) (simp add: pass noerr)
    with os True show ?thesis by (intro exI [of _ os]) simp
  next
    case False
    have can: "can"
      using "1.prems"(2) False
      by (subst (asm) start_loop.simps) (auto simp: pass noerr split: option.splits if_splits)
    have "start_loop starter kind S bt cs st1 tr1 = (Ok u, tr')"
      using "1.prems"(2) False can by (subst (asm) start_loop.simps) (simp add: pass noerr)
    from "1.IH" [OF pass [symmetric] _ _ _ False can "1.prems"(1) this] noerr
    obtain os' where "tr' = tr1 @ start_calls calls os'" "dep_ordered st1 os'" "set os' \<subseteq> set cs"
      "length st1 + length os' = length cs" by auto
    with os show ?thesis by (intro exI [of _ "os @ os'"]) (simp add: dep_ordered_append)
  qed
qed

lemma start_order_complete:
  assumes "dep_ordered [] os" and "set os \<subseteq> set cs" and "length os = length cs"
  shows "mset os = mset cs" and "distinct (map c_tag cs)"
proof -
  have dist: "distinct (map c_tag os)" using dep_ordered_distinct [OF assms(1)] by simp
  then have "distinct os" by (simp add: distinct_map)
  then have "card (set os) = length cs" using assms(3) by (simp add: distinct_card)
  with assms(2) have eq: "set os = set cs"
    by (metis List.finite_set card_length card_seteq)
  then have "card (set cs) = length cs" using \<open>card (set os) = length cs\<close> by simp
  then have "distinct cs" by (rule card_distinct)
  with eq \<open>distinct os\<close> show m: "mset os = mset cs" by (simp add: set_eq_iff_mset_eq_distinct)
  from m have "mset (map c_tag os) = mset (map c_tag cs)" by simp
  with dist show "distinct (map c_tag cs)" by (rule mset_eq_imp_distinct_iff [THEN iffD1, rotated])
qed

text \<open>The recursion of the diagnosis is bounded by the number of known tags.\<close>

lemma lint_dependency_enough:
  assumes "sing_ok S" and "finite (dom bt)"
  shows "card (dom bt - set oTree) < fuel \<Longrightarrow> lint_dependency fuel kind S st bt oTree c \<noteq> None"
proof (induction fuel arbitrary: oTree c)
  case 0
  then show ?case by simp
next
  case (Suc fuel)
  let ?p = "sc_FindString S (c_deps c) (\<lambda>it. it \<notin> set st)"
  show ?case
  proof (cases "sc_ContainsString S oTree ?p")
    case True
    then show ?thesis by (simp add: Let_def)
  next
    case False
    then have new: "?p \<notin> set oTree" using assms(1) by simp
    show ?thesis
    proof (cases "bt ?p")
      case None
      with False show ?thesis by (simp add: Let_def)
    next
      case (Some d)
      then have "?p \<in> dom bt - set oTree" using new by blast
      moreover have "dom bt - set (oTree @ [?p]) = (dom bt - set oTree) - {?p}" by auto
      ultimately have "card (dom bt - set (oTree @ [?p])) < card (dom bt - set oTree)"
        using assms(2) by (simp only: card_Diff1_less finite_Diff)
      then have "card (dom bt - set (oTree @ [?p])) < fuel" using Suc.prems by linarith
      from Suc.IH [OF this] False Some show ?thesis by (simp add: Let_def)
    qed
  qed
qed

lemma start_loop_no_panic:
  assumes "sing_ok S" and "distinct (map c_tag cs)"
    and "finite (dom bt)" and "card (dom bt) \<le> length cs"
    and "distinct st" and "set st \<subseteq> c_tag ` set cs"
  shows "\<not> is_panic (fst (start_loop starter kind S bt cs st tr))"
  using assms
proof (induction starter kind S bt cs st tr rule: start_loop.induct)
  case (1 starter kind S bt cs st tr)
  obtain e st1 can tr1 where pass: "start_pass starter cs st False tr = (e, st1, can, tr1)"
    by (metis prod_cases4)
  show ?case
  proof (cases e)
    case (Some x)
    then show ?thesis by (subst start_loop.simps) (simp add: pass)
  next
    case None
    from start_pass_tags [OF pass [unfolded None]] obtain os where
      os: "st1 = st @ map c_tag os" "dep_ordered st os" "set os \<subseteq> set cs" by blast
    have d1: "distinct st1" "set st1 \<subseteq> c_tag ` set cs"
      using dep_ordered_distinct [OF os(2) "1.prems"(5)] os "1.prems"(6) by auto
    consider "length st1 = length cs" | "length st1 \<noteq> length cs" "can"
      | "length st1 \<noteq> length cs" "\<not> can" by blast
    then show ?thesis
    proof cases
      case 1
      then show ?thesis by (subst start_loop.simps) (simp add: pass None)
    next
      case 2
      then show ?thesis
        using "1.IH" [OF pass [symmetric] _ _ _ 2 "1.prems"(1-4) d1] None
        by (subst start_loop.simps) (simp add: pass)
    next
      case 3
      have "\<exists>c \<in> set cs. c_tag c \<notin> set st1"
      proof (rule ccontr)
        assume "\<not> ?thesis"
        then have "set st1 = c_tag ` set cs" using d1 by auto
        then have "card (set st1) = card (set (map c_tag cs))" by simp
        then show False
          using distinct_card [OF d1(1)] distinct_card [OF "1.prems"(2)] 3(1) by simp
      qed
      then obtain c where found: "find (\<lambda>it. c_tag it \<notin> set st1) cs = Some c"
        by (metis find_eq_None not_None_eq)
      have "card (dom bt - set [c_tag c]) < Suc (length cs)"
        using "1.prems"(3,4) card_mono [of "dom bt" "dom bt - set [c_tag c]"] by auto
      from lint_dependency_enough [OF "1.prems"(1,3) this]
      have "lint_dependency (Suc (length cs)) kind S st1 bt [c_tag c] c \<noteq> None" .
      then show ?thesis
        using 3 "1.prems"(1) by (subst start_loop.simps) (auto simp: pass None found simp del: lint_dependency.simps)
    qed
  qed
qed

text \<open>
  A rank that decreases along dependencies, all of which are among the outbounds: the
  dependencies can be satisfied.
\<close>

definition resolvable :: "(comp \<Rightarrow> nat) \<Rightarrow> comp list \<Rightarrow> bool" where
  "resolvable rank cs \<longleftrightarrow>
     (\<forall>c \<in> set cs. \<forall>d \<in> set (c_deps c). \<exists>c' \<in> set cs. c_tag c' = d \<and> rank c' < rank c)"

lemma resolvable_not_stuck:
  assumes res: "resolvable rank cs"
    and stuck: "\<forall>c \<in> set cs. c_tag c \<in> set st \<or> \<not> set (c_deps c) \<subseteq> set st"
  shows "c \<in> set cs \<Longrightarrow> c_tag c \<in> set st"
proof (induction "rank c" arbitrary: c rule: less_induct)
  case less
  have "d \<in> set st" if d: "d \<in> set (c_deps c)" for d
  proof -
    obtain c' where "c' \<in> set cs" "c_tag c' = d" "rank c' < rank c"
      using res d less.prems unfolding resolvable_def by blast
    with less.hyps [of c'] show ?thesis by simp
  qed
  with stuck less.prems show ?case by blast
qed

lemma start_loop_complete:
  assumes "distinct (map c_tag cs)" and "resolvable rank cs" and "\<And>c tr. fst (starter c tr) = None"
    and "distinct st" and "set st \<subseteq> c_tag ` set cs"
  shows "\<exists>tr'. start_loop starter kind S bt cs st tr = (Ok (), tr')"
  using assms
proof (induction starter kind S bt cs st tr rule: start_loop.induct)
  case (1 starter kind S bt cs st tr)
  obtain st1 can tr1 where pass: "start_pass starter cs st False tr = (None, st1, can, tr1)"
    using start_pass_no_error [of starter cs st False tr, OF "1.prems"(3)] by (metis eq_fst_iff prod_cases3)
  from start_pass_tags [OF pass] obtain os where
    os: "st1 = st @ map c_tag os" "dep_ordered st os" "set os \<subseteq> set cs" by blast
  have d1: "distinct st1" "set st1 \<subseteq> c_tag ` set cs"
    using dep_ordered_distinct [OF os(2) "1.prems"(4)] os "1.prems"(5) by auto
  have full: "length st1 = length cs" if "\<not> can"
  proof -
    have st1: "st1 = st" and "\<forall>c \<in> set cs. c_tag c \<in> set st \<or> \<not> set (c_deps c) \<subseteq> set st"
      using start_pass_stuck [of starter cs st tr st1 tr1] pass that by auto
    from resolvable_not_stuck [OF "1.prems"(2) this(2)] d1 st1
    have "set st1 = set (map c_tag cs)" by auto
    then show ?thesis using distinct_card [OF d1(1)] distinct_card [OF "1.prems"(1)] by simp
  qed
  show ?case
  proof (cases "length st1 = length cs")
    case True
    then show ?thesis by (subst start_loop.simps) (simp add: pass)
  next
    case False
    with full have "can" by blast
    from "1.IH" [OF pass [symmetric] _ _ _ False this "1.prems"(1-3) d1] False \<open>can\<close>
    show ?thesis by (subst start_loop.simps) (simp add: pass)
  qed
qed

section \<open>The interface to a starter\<close>

locale dependency_start =
  fixes starter :: "call_env \<Rightarrow> comp \<Rightarrow> trace \<Rightarrow> go_err option \<times> trace"
    and calls :: "comp \<Rightarrow> trace"
  assumes starter_trace: "snd (starter env c tr) = tr @ calls c"
    and starter_quiet: "(\<And>tr' x. env tr' x = None) \<Longrightarrow> fst (starter env c tr) = None"
begin

lemma loop_order:
  assumes "start_loop (starter env) kind S bt cs [] tr = (Ok u, tr')"
  shows "distinct (map c_tag cs) \<and>
    (\<exists>os. mset os = mset cs \<and> tr' = tr @ start_calls calls os \<and>
      (\<forall>i < length os. set (c_deps (os ! i)) \<subseteq> c_tag ` set (take i os)))"
proof -
  from start_loop_order [of "starter env", OF starter_trace assms] obtain os where
    os: "tr' = tr @ start_calls calls os" "dep_ordered [] os" "set os \<subseteq> set cs"
      "length os = length cs"
    by auto
  from start_order_complete [OF os(2-4)] os(1) dep_ordered_nth [OF os(2)]
  show ?thesis by auto
qed

lemma loop_complete:
  assumes "distinct (map c_tag cs)" and "resolvable rank cs" and "\<And>tr' x. env tr' x = None"
  shows "\<exists>tr'. start_loop (starter env) kind S bt cs [] tr = (Ok (), tr')"
  by (rule start_loop_complete [OF assms(1,2) starter_quiet]) (simp_all add: assms(3))

end

end
