(* ===== verification/Outbound_Manager.thy ===== *)
theory Outbound_Manager
  imports Endpoint_Manager Dep_Start
begin

text \<open>
  \<^verbatim>\<open>adapter/outbound/manager.go\<close>: the outbound manager, which also keeps the default outbound and
  the reverse dependencies, and starts outbounds and endpoints in dependency order. The
  dependency-ordered start is \<open>start_outbounds\<close>, over the loops of \<open>Dep_Start\<close>.
\<close>

record outbound_manager =
  om_defaultTag :: string
  om_started :: bool
  om_stage :: start_stage
  om_outbounds :: "comp list"
  om_by_tag :: "string \<Rightarrow> comp option"
  om_dependByTag :: "string \<Rightarrow> string list"
  om_default :: "comp option"
  om_fallback :: "(go_err + comp) option"

text \<open>
  A missing key of \<^verbatim>\<open>dependByTag\<close> reads as the empty slice. \<open>om_fallback\<close> is what the closure set
  by \<^verbatim>\<open>Initialize\<close> returns; \<open>None\<close> is the unset (nil) closure.
\<close>

definition NewOutboundManager :: "string \<Rightarrow> outbound_manager" where
  "NewOutboundManager defaultTag =
     \<lparr>om_defaultTag = defaultTag, om_started = False, om_stage = StartStateInitialize,
      om_outbounds = [], om_by_tag = Map.empty, om_dependByTag = (\<lambda>_. []), om_default = None,
      om_fallback = None\<rparr>"

definition om_Initialize :: "go_err + comp \<Rightarrow> outbound_manager \<Rightarrow> outbound_manager" where
  "om_Initialize fallback m = m\<lparr>om_fallback := Some fallback\<rparr>"

section \<open>Starting in dependency order\<close>

text \<open>
  The start of one outbound in \<^verbatim>\<open>startOutbounds\<close>: a \<^verbatim>\<open>Lifecycle\<close> is started at the start stage, a
  legacy \<^verbatim>\<open>Start()\<close> is called, anything else needs no start. The loops are those of \<open>Dep_Start\<close>.
\<close>

definition start_outbound :: "call_env \<Rightarrow> comp \<Rightarrow> trace \<Rightarrow> go_err option \<times> trace" where
  "start_outbound env c tr =
     (case (if c_lifecycle c then do_call env (CallStart c StartStateStart) tr
            else if c_start c then do_call env (CallLegacyStart c) tr
            else (None, tr)) of
        (Some e, tr1) \<Rightarrow> (Some (ErrCause e [''start '', comp_name ''outbound'' c]), tr1)
      | (None, tr1) \<Rightarrow> (None, tr1))"

definition start_outbounds ::
  "call_env \<Rightarrow> comp sing_common \<Rightarrow> (string \<Rightarrow> comp option) \<Rightarrow> comp list \<Rightarrow> trace \<Rightarrow>
   unit go_out \<times> trace" where
  "start_outbounds env S by_tag cs tr =
     start_loop (start_outbound env) ''outbound'' S by_tag cs [] tr"

lemma start_outbound_trace: "snd (start_outbound env c tr) = tr @ stage_call c StartStateStart"
  by (auto simp: start_outbound_def do_call_def stage_call_def split: option.splits)

interpretation ob_start: dependency_start start_outbound "\<lambda>c. stage_call c StartStateStart"
  by unfold_locales
     (auto simp: start_outbound_def do_call_def stage_call_def split: option.splits)

section \<open>Start, Close and the readers\<close>

definition om_set_default ::
  "endpoint_manager \<Rightarrow> outbound_manager \<Rightarrow> unit go_out \<times> outbound_manager" where
  "om_set_default em m =
     (case (if om_defaultTag m \<noteq> [] \<and> om_default m = None
            then (case em_Get em (om_defaultTag m) of
                    None \<Rightarrow> (Err (ErrNew [''default outbound not found: '', om_defaultTag m]), m)
                  | Some defaultEndpoint \<Rightarrow> (Ok (), m\<lparr>om_default := Some defaultEndpoint\<rparr>))
            else (Ok (), m)) of
        (Ok _, m1) \<Rightarrow>
          if om_default m1 = None
          then (case om_fallback m1 of
                  None \<Rightarrow> (Panic ''nil pointer dereference'', m1)
                | Some (Inl e) \<Rightarrow>
                    (Err (ErrCause e [''create direct outbound for fallback'']), m1)
                | Some (Inr direct) \<Rightarrow>
                    (Ok (), m1\<lparr>om_outbounds := om_outbounds m1 @ [direct],
                               om_by_tag := (om_by_tag m1)(c_tag direct \<mapsto> direct),
                               om_default := Some direct\<rparr>))
          else (Ok (), m1)
      | (Err e, m1) \<Rightarrow> (Err e, m1)
      | (Panic p, m1) \<Rightarrow> (Panic p, m1))"

definition om_Start ::
  "comp sing_common \<Rightarrow> call_env \<Rightarrow> endpoint_manager \<Rightarrow> start_stage \<Rightarrow> outbound_manager \<Rightarrow> trace \<Rightarrow>
   unit go_out \<times> outbound_manager \<times> trace" where
  "om_Start S env em stage m tr =
     (if om_started m \<and> stage \<le> om_stage m then (Panic ''already started'', m, tr)
      else
        let m1 = m\<lparr>om_started := True, om_stage := stage\<rparr>
        in if stage = StartStateStart
           then (case om_set_default em m1 of
                   (Ok _, m2) \<Rightarrow>
                     (case start_outbounds env S (om_by_tag m2) (om_outbounds m2 @ em_Endpoints em) tr of
                        (r, tr1) \<Rightarrow> (r, m2, tr1))
                 | (Err e, m2) \<Rightarrow> (Err e, m2, tr)
                 | (Panic p, m2) \<Rightarrow> (Panic p, m2, tr))
           else (case start_each env ''outbound'' stage (om_outbounds m1) tr of
                   (r, tr1) \<Rightarrow> (r, m1, tr1)))"

definition om_Close ::
  "call_env \<Rightarrow> outbound_manager \<Rightarrow> trace \<Rightarrow> unit go_out \<times> outbound_manager \<times> trace" where
  "om_Close env m tr =
     (if \<not> om_started m then (Ok (), m, tr)
      else case close_each env ''outbound'' (filter c_closer (om_outbounds m)) tr of
        (err, tr1) \<Rightarrow> (Ok (), m\<lparr>om_started := False, om_outbounds := []\<rparr>, tr1))"

definition om_Outbounds :: "outbound_manager \<Rightarrow> comp list" where
  "om_Outbounds m = om_outbounds m"

definition om_Outbound :: "endpoint_manager \<Rightarrow> outbound_manager \<Rightarrow> string \<Rightarrow> comp option" where
  "om_Outbound em m tag =
     (case om_by_tag m tag of Some outbound \<Rightarrow> Some outbound | None \<Rightarrow> em_Get em tag)"

definition om_Default :: "outbound_manager \<Rightarrow> comp option" where
  "om_Default m = om_default m"

section \<open>Remove and Create\<close>

text \<open>The loop of \<^verbatim>\<open>Remove\<close> that takes the tag out of the reverse dependencies.\<close>

fun om_drop_depends ::
  "comp sing_common \<Rightarrow> string \<Rightarrow> string list \<Rightarrow> (string \<Rightarrow> string list) \<Rightarrow> (string \<Rightarrow> string list)" where
  "om_drop_depends S tag [] dep = dep"
| "om_drop_depends S tag (d # ds) dep =
     om_drop_depends S tag ds
       (if length (dep d) = 1 then dep(d := [])
        else dep(d := sc_FilterString S (dep d) (\<lambda>it. it \<noteq> tag)))"

definition om_Remove ::
  "comp sing_common \<Rightarrow> call_env \<Rightarrow> string \<Rightarrow> outbound_manager \<Rightarrow> trace \<Rightarrow>
   unit go_out \<times> outbound_manager \<times> trace" where
  "om_Remove S env tag m tr =
     (case om_by_tag m tag of
        None \<Rightarrow> (Err ErrInvalid, m, tr)
      | Some outbound \<Rightarrow>
          let m1 = m\<lparr>om_by_tag := (om_by_tag m)(tag := None)\<rparr>;
              index = sc_Index S (om_outbounds m1) (\<lambda>it. it = outbound)
          in if index = -1 then (Panic ''invalid inbound index'', m1, tr)
             else
               let m2 = m1\<lparr>om_outbounds := cut_at (om_outbounds m1) index\<rparr>;
                   m3 = (if om_default m2 = Some outbound
                         then (case om_outbounds m2 of
                                 o1 # _ \<Rightarrow> m2\<lparr>om_default := Some o1\<rparr>
                               | [] \<Rightarrow> m2\<lparr>om_default := None\<rparr>)
                         else m2)
               in if om_dependByTag m3 tag \<noteq> []
                  then (Err (ErrNew (''outbound['' # tag # ''] is depended by '' # om_dependByTag m3 tag)),
                        m3, tr)
                  else
                    let m4 = m3\<lparr>om_dependByTag :=
                               om_drop_depends S tag (c_deps outbound) (om_dependByTag m3)\<rparr>
                    in if om_started m
                       then (case do_call env (CallCommonClose outbound) tr of
                               (r, tr1) \<Rightarrow> (of_error r, m4, tr1))
                       else (Ok (), m4, tr))"

fun om_add_depends ::
  "string \<Rightarrow> string list \<Rightarrow> (string \<Rightarrow> string list) \<Rightarrow> (string \<Rightarrow> string list)" where
  "om_add_depends tag [] dep = dep"
| "om_add_depends tag (d # ds) dep = om_add_depends tag ds (dep(d := dep d @ [tag]))"

definition om_append :: "string \<Rightarrow> comp \<Rightarrow> outbound_manager \<Rightarrow> outbound_manager" where
  "om_append tag c m =
     (let m1 = m\<lparr>om_outbounds := om_outbounds m @ [c], om_by_tag := (om_by_tag m)(tag \<mapsto> c),
                 om_dependByTag := om_add_depends tag (c_deps c) (om_dependByTag m)\<rparr>
      in if tag = om_defaultTag m \<or> om_defaultTag m = [] \<and> om_default m = None
         then m1\<lparr>om_default := Some c\<rparr> else m1)"

definition om_install ::
  "comp sing_common \<Rightarrow> call_env \<Rightarrow> string \<Rightarrow> comp \<Rightarrow> outbound_manager \<Rightarrow> trace \<Rightarrow>
   unit go_out \<times> outbound_manager \<times> trace" where
  "om_install S env tag c m tr =
     (case om_by_tag m tag of
        None \<Rightarrow> (Ok (), om_append tag c m, tr)
      | Some existsOutbound \<Rightarrow>
          (case (if om_started m then do_call env (CallCommonClose existsOutbound) tr else (None, tr)) of
             (Some e, tr1) \<Rightarrow>
               (Err (ErrCause e [''close '', comp_name ''outbound'' existsOutbound]), m, tr1)
           | (None, tr1) \<Rightarrow>
               let existsIndex = sc_Index S (om_outbounds m) (\<lambda>it. it = existsOutbound)
               in if existsIndex = -1 then (Panic ''invalid inbound index'', m, tr1)
                  else (Ok (),
                    om_append tag c (m\<lparr>om_outbounds := cut_at (om_outbounds m) existsIndex\<rparr>),
                    tr1)))"

definition om_Create ::
  "comp sing_common \<Rightarrow> call_env \<Rightarrow> 'o registry \<Rightarrow> string \<Rightarrow> string \<Rightarrow> 'o option \<Rightarrow>
   outbound_manager \<Rightarrow> trace \<Rightarrow> unit go_out \<times> outbound_manager \<times> trace" where
  "om_Create S env reg tag typ options m tr =
     (if tag = [] then (Err ErrInvalid, m, tr)
      else case registry_Create reg tag typ options of
        Inl e \<Rightarrow> (Err e, m, tr)
      | Inr outbound \<Rightarrow>
          (case (if om_started m then start_stages env ''outbound'' outbound ListStartStages tr
                 else (Ok (), tr)) of
             (Err e, tr1) \<Rightarrow> (Err e, m, tr1)
           | (Panic p, tr1) \<Rightarrow> (Panic p, m, tr1)
           | (Ok _, tr1) \<Rightarrow> om_install S env tag outbound m tr1))"

section \<open>The contract\<close>

lemma om_append_fields [simp]:
  "om_outbounds (om_append t c m) = om_outbounds m @ [c]"
  "om_by_tag (om_append t c m) = (om_by_tag m)(t \<mapsto> c)"
  "om_started (om_append t c m) = om_started m"
  "om_defaultTag (om_append t c m) = om_defaultTag m"
  by (simp_all add: om_append_def Let_def)

interpretation ob: tag_manager S om_outbounds om_by_tag "om_install S" "om_Remove S"
  for S :: "comp sing_common"
proof (unfold_locales, goal_cases)
  case (1 m t env tr)
  then show ?case by (simp add: om_Remove_def)
next
  case (2 m t c env tr r m' tr')
  then show ?case
    by (auto simp: om_Remove_def Let_def do_call_def tags_agree_index tags_agree_cut of_error_def
        split: if_splits option.splits list.splits)
next
  case (3 m c env t tr r m' tr')
  then show ?case
    by (auto simp: om_install_def put_member_def Let_def do_call_def
        tags_agree_index tags_agree_cut split: if_splits option.splits)
qed

lemma NewOutboundManager_agree [simp]:
  "tags_agree (om_outbounds (NewOutboundManager t)) (om_by_tag (NewOutboundManager t))"
  by (simp add: NewOutboundManager_def)

end
