(* ===== verification/Outbound_Theorems.thy ===== *)
theory Outbound_Theorems
  imports Outbound_Manager
begin

text \<open>
  The outbound manager as a whole: starting succeeds when dependencies resolve and never panics
  when tags are distinct; the reverse dependencies are exact and protect what is depended on; the
  slice and the tag map agree along every history. The remaining theorems record how the manager
  behaves in the corners its error paths and its fallback leave open.
\<close>

section \<open>Starting\<close>

text \<open>
  C1: a successful start of the outbounds (with the endpoints) calls each of them exactly once, in
  an order in which every dependency comes before its dependants; nothing else is called. In
  particular a successful start is possible only with pairwise distinct tags.
\<close>

theorem start_outbounds_order:
  assumes "start_outbounds env S by_tag cs tr = (Ok u, tr')"
  shows "distinct (map c_tag cs) \<and>
    (\<exists>os. mset os = mset cs \<and> tr' = tr @ start_calls (\<lambda>c. stage_call c StartStateStart) os \<and>
      (\<forall>i < length os. set (c_deps (os ! i)) \<subseteq> c_tag ` set (take i os)))"
  using assms unfolding start_outbounds_def by (rule ob_start.loop_order)

theorem start_outbounds_order_witness:
  "distinct (map c_tag [demo_comp 1 ''a'' [''b''], demo_comp 2 ''b'' []]) \<and>
   (\<exists>os. mset os = mset [demo_comp 1 ''a'' [''b''], demo_comp 2 ''b'' []] \<and>
      [CallStart (demo_comp 2 ''b'' []) StartStateStart,
       CallStart (demo_comp 1 ''a'' [''b'']) StartStateStart] = [] @ start_calls (\<lambda>c. stage_call c StartStateStart) os \<and>
      (\<forall>i < length os. set (c_deps (os ! i)) \<subseteq> c_tag ` set (take i os)))"
proof (rule start_outbounds_order [of "\<lambda>_ _. None" demo_sing Map.empty _ _ "()"])
  show "start_outbounds (\<lambda>_ _. None) demo_sing Map.empty
      [demo_comp 1 ''a'' [''b''], demo_comp 2 ''b'' []] [] =
    (Ok (), [CallStart (demo_comp 2 ''b'' []) StartStateStart,
       CallStart (demo_comp 1 ''a'' [''b'']) StartStateStart])"
    by (simp add: start_outbounds_def start_loop.simps demo_comp_def start_outbound_def do_call_def)
qed

text \<open>
  C2: if the tags are distinct, every dependency is among the outbounds and endpoints without
  cycles (some rank decreases along dependencies), and no component refuses to start, then
  \<^verbatim>\<open>startOutbounds\<close> ends and succeeds.
\<close>

theorem start_outbounds_complete:
  assumes "distinct (map c_tag cs)" and "resolvable rank cs" and "\<forall>tr' x. env tr' x = None"
  shows "\<exists>tr'. start_outbounds env S by_tag cs tr = (Ok (), tr')"
  unfolding start_outbounds_def
  by (rule ob_start.loop_complete [OF assms(1,2)]) (simp add: assms(3))

theorem start_outbounds_complete_witness:
  "\<exists>tr'. start_outbounds (\<lambda>_ _. None) demo_sing Map.empty
     [demo_comp 1 ''a'' [''b''], demo_comp 2 ''b'' []] [] = (Ok (), tr')"
  by (rule start_outbounds_complete [where rank = "\<lambda>c. length (c_deps c)"])
     (simp_all add: demo_comp_def resolvable_def)

lemma tags_agree_card:
  assumes "tags_agree xs m"
  shows "finite (dom m)" and "card (dom m) = length xs"
proof -
  have inj: "inj_on m (dom m)" and ran: "set xs = ran m" and "distinct xs"
    using assms by (auto simp: tags_agree_def)
  have img: "m ` dom m = Some ` set xs" unfolding ran by (force simp: ran_def dom_def image_def)
  then show fin: "finite (dom m)" using inj by (metis List.finite_set finite_imageI finite_imageD)
  have "card (dom m) = card (Some ` set xs)" using img card_image [OF inj] by simp
  also have "\<dots> = length xs"
    using \<open>distinct xs\<close> by (simp add: card_image distinct_card)
  finally show "card (dom m) = length xs" .
qed

text \<open>
  starting the manager at the start stage never panics, provided it was not started at that
  stage before, the default outbound is known, slice and tag map agree and no tag is used twice
  among outbounds and endpoints: a start that gets stuck on dependencies returns an error.
\<close>

theorem om_Start_no_panic:
  assumes "sing_ok S" and "\<not> (om_started m \<and> StartStateStart \<le> om_stage m)"
    and "om_default m \<noteq> None" and "tags_agree (om_outbounds m) (om_by_tag m)"
    and "distinct (map c_tag (om_outbounds m @ em_endpoints em))"
  shows "\<not> is_panic (fst (om_Start S env em StartStateStart m tr))"
proof -
  let ?cs = "om_outbounds m @ em_endpoints em"
  have "\<not> is_panic (fst (start_loop (start_outbound env) ''outbound'' S (om_by_tag m) ?cs [] tr))"
    by (rule start_loop_no_panic [OF assms(1,5)])
       (use tags_agree_card [OF assms(4)] in simp_all)
  then show ?thesis
    using assms(2,3)
    by (auto simp: om_Start_def om_set_default_def em_Endpoints_def start_outbounds_def Let_def
        split: prod.splits)
qed

theorem om_Start_no_panic_witness:
  "\<not> is_panic (fst (om_Start demo_sing (\<lambda>_ _. Some (ErrExt ''refused'')) NewEndpointManager
     StartStateStart
     (fst (snd (om_install demo_sing (\<lambda>_ _. None) ''a'' (demo_comp 1 ''a'' [''b''])
        (NewOutboundManager []) []))) []))"
  by (rule om_Start_no_panic [OF demo_sing_ok])
     (simp_all add: om_install_def om_append_def NewOutboundManager_def NewEndpointManager_def
       tags_agree_def demo_comp_def)

text \<open>
  when there is no outbound and no default tag, the fallback adds an outbound under its own
  tag; an endpoint that carries the same tag (\<^verbatim>\<open>direct\<close> in \<^verbatim>\<open>box.go\<close>) makes the start panic on a
  nil outbound instead of failing with an error.
\<close>

theorem om_Start_fallback_clash_panics:
  assumes "sing_ok S" and "em_endpoints em = [e]" and "c_tag e = c_tag direct"
    and "c_deps direct = []" and "\<forall>tr x. env tr x = None"
  shows "fst (om_Start S env em StartStateStart
     (om_Initialize (Inr direct) (NewOutboundManager [])) tr) = Panic ''nil pointer dereference''"
proof -
  have leg: "start_outbound env direct tr = (None, tr @ stage_call direct StartStateStart)"
    using ob_start.starter_quiet [of env direct tr] ob_start.starter_trace [of env direct tr] assms(5)
    by (simp add: prod_eq_iff)
  show ?thesis
    using assms leg
    by (simp add: om_Start_def om_set_default_def om_Initialize_def NewOutboundManager_def
        em_Endpoints_def start_outbounds_def start_loop.simps Let_def)
qed

theorem om_Start_fallback_clash_panics_witness:
  "fst (om_Start demo_sing (\<lambda>_ _. None)
     (NewEndpointManager\<lparr>em_endpoints := [demo_comp 2 ''direct'' []]\<rparr>) StartStateStart
     (om_Initialize (Inr (demo_comp 1 ''direct'' [])) (NewOutboundManager [])) []) =
   Panic ''nil pointer dereference''"
  by (rule om_Start_fallback_clash_panics [OF demo_sing_ok, where e = "demo_comp 2 ''direct'' []"])
     (simp_all add: demo_comp_def NewEndpointManager_def)

section \<open>Reverse dependencies\<close>

text \<open>
  \<^verbatim>\<open>dependByTag\<close> is exact: under each tag it lists the installed outbounds that depend on it.
\<close>

definition deps_exact :: "outbound_manager \<Rightarrow> bool" where
  "deps_exact m \<longleftrightarrow>
     (\<forall>d. set (om_dependByTag m d) = {t. \<exists>c. om_by_tag m t = Some c \<and> d \<in> set (c_deps c)})"

lemma om_add_depends_set:
  "set (om_add_depends tag ds dep d) = set (dep d) \<union> (if d \<in> set ds then {tag} else {})"
  by (induction ds arbitrary: dep) auto

lemma length_one_member: "length xs = 1 \<Longrightarrow> x \<in> set xs \<Longrightarrow> xs = [x]"
  by (cases xs) auto

lemma om_drop_depends_set:
  assumes "sing_ok S"
  shows "distinct ds \<Longrightarrow> (\<And>d. d \<in> set ds \<Longrightarrow> tag \<in> set (dep d)) \<Longrightarrow>
     set (om_drop_depends S tag ds dep d) =
       (if d \<in> set ds then set (dep d) - {tag} else set (dep d))"
proof (induction ds arbitrary: dep)
  case Nil
  then show ?case by simp
next
  case (Cons x ds)
  let ?dep = "if length (dep x) = 1 then dep(x := [])
              else dep(x := sc_FilterString S (dep x) (\<lambda>it. it \<noteq> tag))"
  have x: "set (?dep x) = set (dep x) - {tag}" and other: "\<And>y. y \<noteq> x \<Longrightarrow> ?dep y = dep y"
    using Cons.prems(2) [of x] assms length_one_member [of "dep x" tag] by auto
  have "set (om_drop_depends S tag ds ?dep d) =
      (if d \<in> set ds then set (?dep d) - {tag} else set (?dep d))"
    by (rule Cons.IH) (use Cons.prems other in auto)
  with x other Cons.prems(1) show ?case by (cases "d = x") auto
qed

definition has_dependant :: "outbound_manager \<Rightarrow> string \<Rightarrow> bool" where
  "has_dependant m tag \<longleftrightarrow> (\<exists>t c. om_by_tag m t = Some c \<and> tag \<in> set (c_deps c))"

lemma deps_exact_iff: "deps_exact m \<Longrightarrow> om_dependByTag m tag \<noteq> [] \<longleftrightarrow> has_dependant m tag"
proof -
  assume "deps_exact m"
  then have eq: "set (om_dependByTag m tag) =
      {t. \<exists>c. om_by_tag m t = Some c \<and> tag \<in> set (c_deps c)}"
    unfolding deps_exact_def by (rule spec)
  have "om_dependByTag m tag \<noteq> [] \<longleftrightarrow> set (om_dependByTag m tag) \<noteq> {}" by simp
  then show ?thesis unfolding eq has_dependant_def by blast
qed

text \<open>
  under exact reverse dependencies, \<^verbatim>\<open>Remove\<close> of an installed tag refuses exactly when some
  installed outbound depends on the tag, and then calls nothing; otherwise it closes the outbound
  once (if the manager runs) and returns what closing returned.
\<close>

theorem om_Remove_protects_dependants:
  assumes "sing_ok S" and "tags_agree (om_outbounds m) (om_by_tag m)" and "deps_exact m"
    and "om_by_tag m tag = Some outbound"
  shows "(has_dependant m tag \<longrightarrow>
       (\<exists>ts m'. ts \<noteq> [] \<and> om_Remove S env tag m tr =
         (Err (ErrNew (''outbound['' # tag # ''] is depended by '' # ts)), m', tr))) \<and>
     (\<not> has_dependant m tag \<longrightarrow>
       (\<exists>m'. om_Remove S env tag m tr =
         (if om_started m
          then (of_error (env tr (CallCommonClose outbound)), m', tr @ [CallCommonClose outbound])
          else (Ok (), m', tr))))"
  using assms deps_exact_iff [OF assms(3), of tag]
  by (auto simp: om_Remove_def Let_def tags_agree_index do_call_def split: list.splits)

lemma deps_exact_new: "deps_exact (NewOutboundManager t)"
  by (simp add: deps_exact_def NewOutboundManager_def)

lemma om_append_deps [simp]:
  "om_dependByTag (om_append t c m) = om_add_depends t (c_deps c) (om_dependByTag m)"
  by (simp add: om_append_def Let_def)

lemma om_append_exact:
  assumes "deps_exact m" and "om_by_tag m t = None"
  shows "deps_exact (om_append t c m)"
  using assms by (auto simp: deps_exact_def om_add_depends_set)

lemma om_Remove_exact:
  assumes ok: "sing_ok S" and agree: "tags_agree (om_outbounds m) (om_by_tag m)"
    and exact: "deps_exact m" and o: "om_by_tag m tag = Some outbound"
    and dist: "distinct (c_deps outbound)" and free: "\<not> has_dependant m tag"
    and op: "om_Remove S env tag m tr = (r, m', tr')"
  shows "deps_exact m'"
proof -
  have dep: "om_dependByTag m' = om_drop_depends S tag (c_deps outbound) (om_dependByTag m)"
    and bt: "om_by_tag m' = (om_by_tag m)(tag := None)"
    using op ok agree o deps_exact_iff [OF exact, of tag] free
    by (auto simp: om_Remove_def Let_def tags_agree_index do_call_def split: list.splits if_splits)
  have mem: "tag \<in> set (om_dependByTag m d)" if "d \<in> set (c_deps outbound)" for d
    using exact o that unfolding deps_exact_def by blast
  have drop: "set (om_dependByTag m' d) =
      (if d \<in> set (c_deps outbound) then set (om_dependByTag m d) - {tag}
       else set (om_dependByTag m d))" for d
    unfolding dep by (rule om_drop_depends_set [OF ok dist mem])
  show ?thesis
    unfolding deps_exact_def drop bt using exact [unfolded deps_exact_def] o by (auto split: if_splits)
qed

text \<open>Two outbounds, the first depending on the second.\<close>

definition demo_om :: outbound_manager where
  "demo_om = om_append ''a'' (demo_comp 1 ''a'' [''b''])
     (om_append ''b'' (demo_comp 2 ''b'' []) (NewOutboundManager []))"

lemma om_append_agree:
  "tags_agree (om_outbounds m) (om_by_tag m) \<Longrightarrow> c \<notin> set (om_outbounds m) \<Longrightarrow>
   om_by_tag m t = None \<Longrightarrow>
   tags_agree (om_outbounds (om_append t c m)) (om_by_tag (om_append t c m))"
  unfolding om_append_fields by (rule tags_agree_add)

lemma demo_om_facts:
  "tags_agree (om_outbounds demo_om) (om_by_tag demo_om)"
  "deps_exact demo_om"
  "om_by_tag demo_om ''b'' = Some (demo_comp 2 ''b'' [])"
  "has_dependant demo_om ''b''"
  "om_dependByTag demo_om ''b'' \<noteq> []"
proof -
  show "tags_agree (om_outbounds demo_om) (om_by_tag demo_om)"
    unfolding demo_om_def
    by (intro om_append_agree NewOutboundManager_agree)
       (simp_all add: demo_comp_def NewOutboundManager_def)
  show "deps_exact demo_om"
    unfolding demo_om_def
    by (intro om_append_exact deps_exact_new) (simp_all add: NewOutboundManager_def)
  show "om_by_tag demo_om ''b'' = Some (demo_comp 2 ''b'' [])" by (simp add: demo_om_def)
  show "has_dependant demo_om ''b''"
    unfolding has_dependant_def
    by (intro exI [of _ "''a''"] exI [of _ "demo_comp 1 ''a'' [''b'']"])
       (simp add: demo_om_def demo_comp_def)
  show "om_dependByTag demo_om ''b'' \<noteq> []" by (simp add: demo_om_def demo_comp_def)
qed

theorem om_Remove_protects_dependants_witness:
  "\<exists>ts m'. ts \<noteq> [] \<and> om_Remove demo_sing (\<lambda>_ _. None) ''b'' demo_om [] =
      (Err (ErrNew (''outbound['' # ''b'' # ''] is depended by '' # ts)), m', [])"
  using om_Remove_protects_dependants [OF demo_sing_ok demo_om_facts(1-3), of "\<lambda>_ _. None" "[]"]
    demo_om_facts(4) by blast

section \<open>Histories\<close>

text \<open>
  The states a manager reaches from its creation through successful creations under unused tags,
  successful removals and starts once a default outbound is known. A created outbound is freshly
  allocated and names each dependency once.
\<close>

inductive om_reach :: "comp sing_common \<Rightarrow> call_env \<Rightarrow> endpoint_manager \<Rightarrow> outbound_manager \<Rightarrow> bool"
  for S env em where
  reach_new: "om_reach S env em (NewOutboundManager defaultTag)"
| reach_create: "om_reach S env em m \<Longrightarrow> om_by_tag m tag = None \<Longrightarrow> c \<notin> set (om_outbounds m) \<Longrightarrow>
    distinct (c_deps c) \<Longrightarrow> om_install S env tag c m tr = (Ok u, m', tr') \<Longrightarrow> om_reach S env em m'"
| reach_remove: "om_reach S env em m \<Longrightarrow> om_by_tag m tag = Some c \<Longrightarrow>
    om_Remove S env tag m tr = (Ok u, m', tr') \<Longrightarrow> om_reach S env em m'"
| reach_start: "om_reach S env em m \<Longrightarrow> om_default m \<noteq> None \<Longrightarrow>
    om_Start S env em stage m tr = (r, m', tr') \<Longrightarrow> om_reach S env em m'"

definition om_inv :: "outbound_manager \<Rightarrow> bool" where
  "om_inv m \<longleftrightarrow>
     tags_agree (om_outbounds m) (om_by_tag m) \<and> deps_exact m \<and>
     (\<forall>c \<in> set (om_outbounds m). distinct (c_deps c)) \<and>
     (\<forall>d. om_default m = Some d \<longrightarrow> d \<in> set (om_outbounds m)) \<and>
     (om_defaultTag m = [] \<longrightarrow> om_outbounds m \<noteq> [] \<longrightarrow> om_default m \<noteq> None)"

lemma om_inv_new: "om_inv (NewOutboundManager t)"
  by (simp add: om_inv_def deps_exact_new) (simp add: NewOutboundManager_def)

lemma om_inv_create:
  assumes "om_inv m" and "om_by_tag m tag = None" and "c \<notin> set (om_outbounds m)"
    and "distinct (c_deps c)"
  shows "om_inv (om_append tag c m)"
proof -
  have "tags_agree (om_outbounds m @ [c]) ((om_by_tag m)(tag \<mapsto> c))"
    using assms by (simp add: om_inv_def tags_agree_add)
  moreover have "deps_exact (om_append tag c m)"
    using assms by (simp add: om_inv_def om_append_exact)
  moreover have "om_default (om_append tag c m) =
      (if tag = om_defaultTag m \<or> om_defaultTag m = [] \<and> om_default m = None then Some c
       else om_default m)"
    by (simp add: om_append_def Let_def)
  ultimately show ?thesis using assms by (auto simp: om_inv_def)
qed

lemma om_Remove_default:
  assumes "sing_ok S" and "tags_agree (om_outbounds m) (om_by_tag m)"
    and "om_by_tag m tag = Some c" and "om_Remove S env tag m tr = (r, m', tr')"
  shows "om_default m' =
      (if om_default m = Some c
       then (case om_outbounds m' of [] \<Rightarrow> None | o1 # _ \<Rightarrow> Some o1) else om_default m)"
    and "om_defaultTag m' = om_defaultTag m"
  using assms
  by (auto simp: om_Remove_def Let_def tags_agree_index do_call_def split: list.splits if_splits)

lemma om_inv_remove:
  assumes ok: "sing_ok S" and inv: "om_inv m" and c: "om_by_tag m tag = Some c"
    and op: "om_Remove S env tag m tr = (Ok u, m', tr')"
  shows "om_inv m'"
proof -
  have agree: "tags_agree (om_outbounds m) (om_by_tag m)" and exact: "deps_exact m"
    using inv by (auto simp: om_inv_def)
  have free: "\<not> has_dependant m tag"
    using om_Remove_protects_dependants [OF ok agree exact c, of env tr] op by auto
  have "distinct (c_deps c)"
    using inv c tags_agree_mem [OF agree c] by (auto simp: om_inv_def)
  note exact' = om_Remove_exact [OF ok agree exact c this free op]
  have mem: "om_outbounds m' = remove1 c (om_outbounds m)"
    and agree': "tags_agree (om_outbounds m') (om_by_tag m')"
    using ob.remove_present [OF ok agree c op] ob.remove_agree [OF ok agree op] by blast+
  have rest: "set (om_outbounds m') = set (om_outbounds m) - {c}"
    unfolding mem using agree by (simp add: tags_agree_def)
  have "distinct (c_deps x)" if "x \<in> set (om_outbounds m')" for x
    using inv that rest by (auto simp: om_inv_def)
  moreover have "d \<in> set (om_outbounds m')" if "om_default m' = Some d" for d
    using that om_Remove_default [OF ok agree c op] inv rest
    by (auto simp: om_inv_def split: if_splits list.splits)
  moreover have "om_default m' \<noteq> None" if "om_defaultTag m' = []" "om_outbounds m' \<noteq> []"
    using that om_Remove_default [OF ok agree c op] inv mem
    by (auto simp: om_inv_def split: if_splits list.splits)
  ultimately show ?thesis using exact' agree' by (auto simp: om_inv_def)
qed

lemma om_Start_fields:
  assumes "om_default m \<noteq> None" and "om_Start S env em stage m tr = (r, m', tr')"
  shows "om_outbounds m' = om_outbounds m" "om_by_tag m' = om_by_tag m"
    "om_dependByTag m' = om_dependByTag m" "om_default m' = om_default m"
    "om_defaultTag m' = om_defaultTag m"
  using assms
  by (auto simp: om_Start_def om_set_default_def Let_def split: if_splits prod.splits)



section \<open>Corners\<close>

text \<open>
  a removal that is refused because something depends on the outbound has already taken the
  outbound out of the slice and the tag map, and has not closed it.
\<close>

theorem om_Remove_refused_is_gone:
  assumes "sing_ok S" and "tags_agree (om_outbounds m) (om_by_tag m)"
    and "om_by_tag m tag = Some outbound" and "om_dependByTag m tag \<noteq> []"
    and "om_Remove S env tag m tr = (r, m', tr')"
  shows "(\<exists>e. r = Err e) \<and> om_by_tag m' tag = None \<and> outbound \<notin> set (om_outbounds m') \<and> tr' = tr"
proof -
  have "om_by_tag m' tag = None \<and> outbound \<notin> set (om_outbounds m')"
    using ob.remove_present [OF assms(1-3,5)] assms(2) by (simp add: tags_agree_def)
  moreover have "(\<exists>e. r = Err e) \<and> tr' = tr"
    using assms by (auto simp: om_Remove_def Let_def tags_agree_index split: list.splits if_splits)
  ultimately show ?thesis by simp
qed

theorem om_Remove_refused_is_gone_witness:
  "\<exists>r m'. om_Remove demo_sing (\<lambda>_ _. None) ''b'' demo_om [] = (r, m', []) \<and>
     (\<exists>e. r = Err e) \<and> om_by_tag m' ''b'' = None \<and>
     demo_comp 2 ''b'' [] \<notin> set (om_outbounds m')"
proof -
  obtain r m' tr' where op: "om_Remove demo_sing (\<lambda>_ _. None) ''b'' demo_om [] = (r, m', tr')"
    by (metis prod_cases3)
  from om_Remove_refused_is_gone [OF demo_sing_ok demo_om_facts(1,3,5) op] op show ?thesis by auto
qed

text \<open>
  installing a new outbound over the tag of the current default outbound, when no default tag
  is configured, leaves the replaced outbound as the default although it is no longer installed.
\<close>

theorem om_install_stale_default:
  assumes "sing_ok S" and "tags_agree (om_outbounds m) (om_by_tag m)"
    and "om_defaultTag m = []" and "om_by_tag m tag = Some old" and "om_default m = Some old"
    and "tag \<noteq> []" and "c \<notin> set (om_outbounds m)"
    and "om_install S env tag c m tr = (Ok u, m', tr')"
  shows "om_default m' = Some old \<and> old \<notin> set (om_outbounds m') \<and> om_by_tag m' tag = Some c"
proof -
  have mem: "om_outbounds m' = remove1 old (om_outbounds m) @ [c]"
    using assms ob.install_fresh [OF assms(1,2,7,8)] by (simp add: put_member_def)
  have "old \<in> set (om_outbounds m)" by (rule tags_agree_mem [OF assms(2,4)])
  then have "old \<notin> set (om_outbounds m')"
    using mem assms(2,7) by (auto simp: tags_agree_def)
  moreover have "om_default m' = Some old \<and> om_by_tag m' tag = Some c"
    using assms by (auto simp: om_install_def om_append_def Let_def tags_agree_index
        split: if_splits option.splits prod.splits)
  ultimately show ?thesis by simp
qed

theorem om_install_stale_default_witness:
  "\<exists>m' tr'. om_install demo_sing (\<lambda>_ _. None) ''b'' (demo_comp 3 ''b'' []) demo_om [] = (Ok (), m', tr') \<and>
     om_default m' = Some (demo_comp 2 ''b'' []) \<and>
     demo_comp 2 ''b'' [] \<notin> set (om_outbounds m') \<and>
     om_by_tag m' ''b'' = Some (demo_comp 3 ''b'' [])"
proof -
  obtain m' tr' where op:
    "om_install demo_sing (\<lambda>_ _. None) ''b'' (demo_comp 3 ''b'' []) demo_om [] = (Ok (), m', tr')"
    using tags_agree_index [OF demo_sing_ok demo_om_facts(1,3)] demo_om_facts(3)
    by (auto simp: om_install_def demo_om_def NewOutboundManager_def om_append_def Let_def)
  have "om_defaultTag demo_om = []" "om_default demo_om = Some (demo_comp 2 ''b'' [])"
    "demo_comp 3 ''b'' [] \<notin> set (om_outbounds demo_om)"
    by (simp_all add: demo_om_def om_append_def Let_def NewOutboundManager_def demo_comp_def)
  from om_install_stale_default [OF demo_sing_ok demo_om_facts(1) this(1) demo_om_facts(3) this(2) _ this(3) op]
    op show ?thesis by auto
qed

text \<open>
  an outbound that names a dependency twice (a group may list an outbound twice) erases, when
  it is removed, the record of the one other outbound depending on the same tag.
\<close>

theorem om_drop_depends_duplicate:
  assumes "sing_ok S" and "dep d = [tag, tag, other]" and "other \<noteq> tag"
  shows "om_drop_depends S tag [d, d] dep d = []"
  using assms by simp

theorem om_drop_depends_duplicate_witness:
  "om_drop_depends demo_sing ''t'' [''d'', ''d'']
     ((\<lambda>_. [])(''d'' := [''t'', ''t'', ''u''])) ''d'' = []"
  by (rule om_drop_depends_duplicate [OF demo_sing_ok, where other = "''u''"]) simp_all

end
