(* ===== verification/DNS_Transport_Manager.thy ===== *)
theory DNS_Transport_Manager
  imports Dep_Start
begin

text \<open>
  \<^verbatim>\<open>dns/transport_manager.go\<close> and \<^verbatim>\<open>dns/transport_registry.go\<close>: the DNS transport manager. It is
  built like the outbound manager, with two differences that matter: the fake-IP transport may not
  be the default server, and there is at most one of it.
\<close>

record transport_manager =
  tm_defaultTag :: string
  tm_started :: bool
  tm_stage :: start_stage
  tm_transports :: "comp list"
  tm_by_tag :: "string \<Rightarrow> comp option"
  tm_dependByTag :: "string \<Rightarrow> string list"
  tm_default :: "comp option"
  tm_fallback :: "(go_err + comp) option"
  tm_fakeIP :: "comp option"

definition DNSTypeFakeIP :: string where
  "DNSTypeFakeIP = ''fakeip''"

definition NewTransportManager :: "string \<Rightarrow> transport_manager" where
  "NewTransportManager defaultTag =
     \<lparr>tm_defaultTag = defaultTag, tm_started = False, tm_stage = StartStateInitialize,
      tm_transports = [], tm_by_tag = Map.empty, tm_dependByTag = (\<lambda>_. []), tm_default = None,
      tm_fallback = None, tm_fakeIP = None\<rparr>"

definition tm_Initialize :: "go_err + comp \<Rightarrow> transport_manager \<Rightarrow> transport_manager" where
  "tm_Initialize fallback m = m\<lparr>tm_fallback := Some fallback\<rparr>"

section \<open>Start and Close\<close>

definition start_transport :: "call_env \<Rightarrow> comp \<Rightarrow> trace \<Rightarrow> go_err option \<times> trace" where
  "start_transport env c tr =
     (if c_lifecycle c
      then (case do_call env (CallStart c StartStateStart) tr of
              (Some e, tr1) \<Rightarrow> (Some (ErrCause e [''start '', comp_name ''dns'' c]), tr1)
            | (None, tr1) \<Rightarrow> (None, tr1))
      else (None, tr))"

definition start_transports ::
  "call_env \<Rightarrow> comp sing_common \<Rightarrow> (string \<Rightarrow> comp option) \<Rightarrow> comp list \<Rightarrow> trace \<Rightarrow>
   unit go_out \<times> trace" where
  "start_transports env S by_tag cs tr =
     start_loop (start_transport env) ''server'' S by_tag cs [] tr"

interpretation tr_start: dependency_start start_transport
  "\<lambda>c. if c_lifecycle c then [CallStart c StartStateStart] else []"
  by unfold_locales (auto simp: start_transport_def do_call_def split: option.splits)

definition tm_Start ::
  "comp sing_common \<Rightarrow> call_env \<Rightarrow> start_stage \<Rightarrow> transport_manager \<Rightarrow> trace \<Rightarrow>
   unit go_out \<times> transport_manager \<times> trace" where
  "tm_Start S env stage m tr =
     (if tm_started m \<and> stage \<le> tm_stage m then (Panic ''already started'', m, tr)
      else
        let m1 = m\<lparr>tm_started := True, tm_stage := stage\<rparr>
        in if stage = StartStateStart
           then
             (if tm_defaultTag m1 \<noteq> [] \<and> tm_default m1 = None
              then (Err (ErrNew [''default DNS server not found: '', tm_defaultTag m1]), m1, tr)
              else
                (case (if tm_default m1 = None
                       then (case tm_fallback m1 of
                               None \<Rightarrow> (Panic ''nil pointer dereference'', m1)
                             | Some (Inl e) \<Rightarrow> (Err (ErrCause e [''default DNS server fallback'']), m1)
                             | Some (Inr t) \<Rightarrow>
                                 (Ok (), m1\<lparr>tm_transports := tm_transports m1 @ [t],
                                            tm_by_tag := (tm_by_tag m1)(c_tag t \<mapsto> t),
                                            tm_default := Some t\<rparr>))
                       else (Ok (), m1)) of
                   (Ok _, m2) \<Rightarrow>
                     (case start_transports env S (tm_by_tag m2) (tm_transports m2) tr of
                        (r, tr1) \<Rightarrow> (r, m2, tr1))
                 | (Err e, m2) \<Rightarrow> (Err e, m2, tr)
                 | (Panic p, m2) \<Rightarrow> (Panic p, m2, tr)))
           else (case start_each env ''dns'' stage (tm_transports m1) tr of
                   (r, tr1) \<Rightarrow> (r, m1, tr1)))"

definition tm_Close ::
  "call_env \<Rightarrow> transport_manager \<Rightarrow> trace \<Rightarrow> unit go_out \<times> transport_manager \<times> trace" where
  "tm_Close env m tr =
     (if \<not> tm_started m then (Ok (), m, tr)
      else case close_each env ''server'' (filter c_closer (tm_transports m)) tr of
        (err, tr1) \<Rightarrow> (Ok (), m\<lparr>tm_started := False, tm_transports := []\<rparr>, tr1))"

definition tm_Transports :: "transport_manager \<Rightarrow> comp list" where
  "tm_Transports m = tm_transports m"

definition tm_Transport :: "transport_manager \<Rightarrow> string \<Rightarrow> comp option" where
  "tm_Transport m tag = tm_by_tag m tag"

definition tm_Default :: "transport_manager \<Rightarrow> comp option" where
  "tm_Default m = tm_default m"

definition tm_FakeIP :: "transport_manager \<Rightarrow> comp option" where
  "tm_FakeIP m = tm_fakeIP m"

section \<open>Remove and Create\<close>

fun tm_drop_depends ::
  "comp sing_common \<Rightarrow> string \<Rightarrow> string list \<Rightarrow> (string \<Rightarrow> string list) \<Rightarrow> (string \<Rightarrow> string list)" where
  "tm_drop_depends S tag [] dep = dep"
| "tm_drop_depends S tag (d # ds) dep =
     tm_drop_depends S tag ds
       (if length (dep d) = 1 then dep(d := [])
        else dep(d := sc_FilterString S (dep d) (\<lambda>it. it \<noteq> tag)))"

text \<open>
  The replacement of a removed default server; \<open>None\<close> is the early return with the error
  \<^verbatim>\<open>default server cannot be fakeip\<close>. The test is written as in the source.
\<close>

definition tm_next_default :: "comp \<Rightarrow> transport_manager \<Rightarrow> transport_manager option" where
  "tm_next_default transport m =
     (if tm_default m = Some transport
      then (case tm_transports m of
              nextTransport # _ \<Rightarrow>
                if c_type nextTransport \<noteq> DNSTypeFakeIP then None
                else Some (m\<lparr>tm_default := Some nextTransport\<rparr>)
            | [] \<Rightarrow> Some (m\<lparr>tm_default := None\<rparr>))
      else Some m)"

definition tm_Remove ::
  "comp sing_common \<Rightarrow> call_env \<Rightarrow> string \<Rightarrow> transport_manager \<Rightarrow> trace \<Rightarrow>
   unit go_out \<times> transport_manager \<times> trace" where
  "tm_Remove S env tag m tr =
     (case tm_by_tag m tag of
        None \<Rightarrow> (Err ErrInvalid, m, tr)
      | Some transport \<Rightarrow>
          let m1 = m\<lparr>tm_by_tag := (tm_by_tag m)(tag := None)\<rparr>;
              index = sc_Index S (tm_transports m1) (\<lambda>it. it = transport)
          in if index = -1 then (Panic ''invalid inbound index'', m1, tr)
             else
               let m2 = m1\<lparr>tm_transports := cut_at (tm_transports m1) index\<rparr>
               in case tm_next_default transport m2 of
                    None \<Rightarrow> (Err (ErrNew [''default server cannot be fakeip'']), m2, tr)
                  | Some m3 \<Rightarrow>
                      if tm_dependByTag m3 tag \<noteq> []
                      then (Err (ErrNew (''server['' # tag # ''] is depended by '' # tm_dependByTag m3 tag)),
                            m3, tr)
                      else
                        let m4 = m3\<lparr>tm_dependByTag :=
                                   tm_drop_depends S tag (c_deps transport) (tm_dependByTag m3)\<rparr>
                        in if tm_started m
                           then (case do_call env (CallClose transport) tr of
                                   (r, tr1) \<Rightarrow> (Ok (), m4, tr1))
                           else (Ok (), m4, tr))"

fun tm_add_depends ::
  "string \<Rightarrow> string list \<Rightarrow> (string \<Rightarrow> string list) \<Rightarrow> (string \<Rightarrow> string list)" where
  "tm_add_depends tag [] dep = dep"
| "tm_add_depends tag (d # ds) dep = tm_add_depends tag ds (dep(d := dep d @ [tag]))"

text \<open>The end of \<^verbatim>\<open>Create\<close>: register the transport, then the default server and the fake-IP slot.\<close>

definition tm_append :: "string \<Rightarrow> comp \<Rightarrow> transport_manager \<Rightarrow> unit go_out \<times> transport_manager" where
  "tm_append tag c m =
     (let m1 = m\<lparr>tm_transports := tm_transports m @ [c], tm_by_tag := (tm_by_tag m)(tag \<mapsto> c),
                 tm_dependByTag := tm_add_depends tag (c_deps c) (tm_dependByTag m)\<rparr>;
          wantDefault = (tag = tm_defaultTag m1 \<or> tm_defaultTag m1 = [] \<and> tm_default m1 = None)
      in if wantDefault \<and> c_type c = DNSTypeFakeIP
         then (Err (ErrNew [''default server cannot be fakeip'']), m1)
         else
           let m2 = (if wantDefault then m1\<lparr>tm_default := Some c\<rparr> else m1)
           in if c_type c = DNSTypeFakeIP
              then (if tm_fakeIP m2 \<noteq> None
                    then (Err (ErrNew [''multiple fakeip server are not supported'']), m2)
                    else (Ok (), m2\<lparr>tm_fakeIP := Some c\<rparr>))
              else (Ok (), m2))"

definition tm_install ::
  "comp sing_common \<Rightarrow> call_env \<Rightarrow> string \<Rightarrow> comp \<Rightarrow> transport_manager \<Rightarrow> trace \<Rightarrow>
   unit go_out \<times> transport_manager \<times> trace" where
  "tm_install S env tag c m tr =
     (case tm_by_tag m tag of
        None \<Rightarrow> (case tm_append tag c m of (r, m1) \<Rightarrow> (r, m1, tr))
      | Some existsTransport \<Rightarrow>
          (case (if tm_started m then do_call env (CallCommonClose existsTransport) tr else (None, tr)) of
             (Some e, tr1) \<Rightarrow>
               (Err (ErrCause e [''close '', comp_name ''dns'' existsTransport]), m, tr1)
           | (None, tr1) \<Rightarrow>
               let existsIndex = sc_Index S (tm_transports m) (\<lambda>it. it = existsTransport)
               in if existsIndex = -1 then (Panic ''invalid inbound index'', m, tr1)
                  else (case tm_append tag c (m\<lparr>tm_transports := cut_at (tm_transports m) existsIndex\<rparr>) of
                          (r, m1) \<Rightarrow> (r, m1, tr1))))"

definition dns_registry_Create ::
  "'o registry \<Rightarrow> string \<Rightarrow> string \<Rightarrow> 'o option \<Rightarrow> go_err + comp" where
  "dns_registry_Create r tag typ options =
     (case reg_constructor r typ of
        None \<Rightarrow> Inl (ErrNew [''transport type not found: '' @ typ])
      | Some constructor \<Rightarrow> constructor tag options)"

definition tm_Create ::
  "comp sing_common \<Rightarrow> call_env \<Rightarrow> 'o registry \<Rightarrow> string \<Rightarrow> string \<Rightarrow> 'o option \<Rightarrow>
   transport_manager \<Rightarrow> trace \<Rightarrow> unit go_out \<times> transport_manager \<times> trace" where
  "tm_Create S env reg tag typ options m tr =
     (if tag = [] then (Err ErrInvalid, m, tr)
      else case dns_registry_Create reg tag typ options of
        Inl e \<Rightarrow> (Err e, m, tr)
      | Inr transport \<Rightarrow>
          (case (if tm_started m then start_stages env ''dns'' transport ListStartStages tr
                 else (Ok (), tr)) of
             (Err e, tr1) \<Rightarrow> (Err e, m, tr1)
           | (Panic p, tr1) \<Rightarrow> (Panic p, m, tr1)
           | (Ok _, tr1) \<Rightarrow> tm_install S env tag transport m tr1))"

section \<open>The contract\<close>

lemma tm_append_fields:
  "tm_append t c m = (r, m') \<Longrightarrow>
     tm_transports m' = tm_transports m @ [c] \<and> tm_by_tag m' = (tm_by_tag m)(t \<mapsto> c) \<and>
     \<not> is_panic r \<and> tm_defaultTag m' = tm_defaultTag m"
  by (auto simp: tm_append_def Let_def split: if_splits)

lemma tm_next_default_fields:
  "tm_next_default c m = Some m' \<Longrightarrow>
     tm_transports m' = tm_transports m \<and> tm_by_tag m' = tm_by_tag m \<and>
     tm_dependByTag m' = tm_dependByTag m \<and> tm_started m' = tm_started m \<and>
     tm_fakeIP m' = tm_fakeIP m"
  by (auto simp: tm_next_default_def split: if_splits list.splits)

interpretation dt: tag_manager S tm_transports tm_by_tag "tm_install S" "tm_Remove S"
  for S :: "comp sing_common"
proof (unfold_locales, goal_cases)
  case (1 m t env tr)
  then show ?case by (simp add: tm_Remove_def)
next
  case (2 m t c env tr r m' tr')
  then show ?case
    by (auto simp: tm_Remove_def Let_def do_call_def tags_agree_index tags_agree_cut
        dest: tm_next_default_fields split: if_splits option.splits)
next
  case (3 m c env t tr r m' tr')
  then show ?case
    by (auto simp: tm_install_def put_member_def Let_def do_call_def
        tags_agree_index tags_agree_cut split: if_splits option.splits prod.splits
        dest!: tm_append_fields)
qed

lemma NewTransportManager_agree [simp]:
  "tags_agree (tm_transports (NewTransportManager t)) (tm_by_tag (NewTransportManager t))"
  by (simp add: NewTransportManager_def)

end
