(* ===== verification/DNS_Theorems.thy ===== *)
theory DNS_Theorems
  imports DNS_Transport_Manager
begin

text \<open>
  The DNS transport manager as a whole: the order of a start, the two guards on the fake-IP
  transport (never the default server, at most one of it) along creations, and what the error
  paths of \<^verbatim>\<open>Create\<close> and \<^verbatim>\<open>Remove\<close> leave behind.
\<close>

section \<open>Starting\<close>

text \<open>
  a successful start of the transport manager at the start stage, once the default server is
  known, starts each transport exactly once, every dependency before its dependants.
\<close>

theorem tm_Start_order:
  assumes "tm_default m \<noteq> None"
    and "tm_Start S env StartStateStart m tr = (Ok u, m', tr')"
  shows "\<exists>os. mset os = mset (tm_transports m) \<and>
      tr' = tr @ concat (map (\<lambda>c. if c_lifecycle c then [CallStart c StartStateStart] else []) os) \<and>
      (\<forall>i < length os. set (c_deps (os ! i)) \<subseteq> c_tag ` set (take i os))"
proof -
  have "start_transports env S (tm_by_tag m) (tm_transports m) tr = (Ok u, tr')"
    using assms by (auto simp: tm_Start_def Let_def split: if_splits prod.splits)
  from tr_start.loop_order [OF this [unfolded start_transports_def]]
  show ?thesis by (simp add: start_calls_def)
qed

definition demo_tm :: transport_manager where
  "demo_tm = snd (tm_append ''a'' (demo_comp 1 ''a'' [''b''])
     (snd (tm_append ''b'' (demo_comp 2 ''b'' []) (NewTransportManager []))))"

theorem tm_Start_order_witness:
  "\<exists>os. mset os = mset (tm_transports demo_tm) \<and>
      [CallStart (demo_comp 2 ''b'' []) StartStateStart,
       CallStart (demo_comp 1 ''a'' [''b'']) StartStateStart] =
      [] @ concat (map (\<lambda>c. if c_lifecycle c then [CallStart c StartStateStart] else []) os) \<and>
      (\<forall>i < length os. set (c_deps (os ! i)) \<subseteq> c_tag ` set (take i os))"
proof -
  have d: "tm_default demo_tm \<noteq> None"
    by (simp add: demo_tm_def tm_append_def NewTransportManager_def demo_comp_def DNSTypeFakeIP_def)
  have "\<exists>m'. tm_Start demo_sing (\<lambda>_ _. None) StartStateStart demo_tm [] =
      (Ok (), m', [CallStart (demo_comp 2 ''b'' []) StartStateStart,
         CallStart (demo_comp 1 ''a'' [''b'']) StartStateStart])"
    by (simp add: tm_Start_def demo_tm_def tm_append_def NewTransportManager_def demo_comp_def
        DNSTypeFakeIP_def start_transports_def start_transport_def start_loop.simps do_call_def)
  then obtain m' where "tm_Start demo_sing (\<lambda>_ _. None) StartStateStart demo_tm [] =
      (Ok (), m', [CallStart (demo_comp 2 ''b'' []) StartStateStart,
         CallStart (demo_comp 1 ''a'' [''b'']) StartStateStart])" ..
  from tm_Start_order [OF d this] show ?thesis .
qed

section \<open>The fake-IP transport\<close>

text \<open>
  The guards: the default server is not a fake-IP transport, and the fake-IP slot, when taken, holds
  a fake-IP transport.
\<close>

definition fakeip_guarded :: "transport_manager \<Rightarrow> bool" where
  "fakeip_guarded m \<longleftrightarrow>
     (\<forall>d. tm_default m = Some d \<longrightarrow> c_type d \<noteq> DNSTypeFakeIP) \<and>
     (\<forall>f. tm_fakeIP m = Some f \<longrightarrow> c_type f = DNSTypeFakeIP)"

lemma fakeip_guarded_new: "fakeip_guarded (NewTransportManager t)"
  by (simp add: fakeip_guarded_def NewTransportManager_def)

lemma tm_append_guarded: "fakeip_guarded m \<Longrightarrow> fakeip_guarded (snd (tm_append tag c m))"
  by (auto simp: fakeip_guarded_def tm_append_def Let_def)

lemma fakeip_guarded_cong:
  "tm_default m' = tm_default m \<Longrightarrow> tm_fakeIP m' = tm_fakeIP m \<Longrightarrow>
     fakeip_guarded m' = fakeip_guarded m"
  by (simp add: fakeip_guarded_def)

lemma tm_install_guarded:
  assumes "fakeip_guarded m"
  shows "fakeip_guarded (fst (snd (tm_install S env tag c m tr)))"
proof -
  have "fakeip_guarded (m\<lparr>tm_transports := xs\<rparr>)" for xs
    using assms by (simp add: fakeip_guarded_def)
  with assms show ?thesis
    using tm_append_guarded
    by (auto simp: tm_install_def Let_def split: option.splits prod.splits)
       (metis snd_conv)+
qed

text \<open>
  whatever is created, in whatever order and whether or not the creation succeeds, the default
  server never becomes a fake-IP transport and the fake-IP slot only ever holds one; a creation that
  succeeds on a second fake-IP transport does not exist.
\<close>

theorem tm_Create_fakeip_guarded:
  assumes "fakeip_guarded m" and "tm_Create S env reg tag typ options m tr = (r, m', tr')"
  shows "fakeip_guarded m' \<and>
    (tm_fakeIP m \<noteq> None \<longrightarrow> tm_fakeIP m' = tm_fakeIP m \<and>
       (is_ok r \<longrightarrow> (\<exists>c. dns_registry_Create reg tag typ options = Inr c \<and> c_type c \<noteq> DNSTypeFakeIP)))"
proof -
  have inst: "fakeip_guarded m1 \<and> (tm_fakeIP m \<noteq> None \<longrightarrow> tm_fakeIP m1 = tm_fakeIP m \<and>
        (is_ok r1 \<longrightarrow> c_type c \<noteq> DNSTypeFakeIP))"
    if "tm_install S env tag c m tr1 = (r1, m1, tr2)" for c r1 m1 tr1 tr2
    using that tm_install_guarded [OF assms(1), of S env tag c tr1]
    by (auto simp: tm_install_def tm_append_def Let_def split: option.splits prod.splits if_splits)
  show ?thesis
    using assms inst
    by (auto simp: tm_Create_def split: if_splits sum.splits prod.splits go_out.splits)
qed

definition demo_fakeip :: "nat \<Rightarrow> string \<Rightarrow> comp" where
  "demo_fakeip n tag = (demo_comp n tag [])\<lparr>c_type := DNSTypeFakeIP\<rparr>"

definition demo_dns_registry :: "unit registry" where
  "demo_dns_registry =
     registry_register NewRegistry DNSTypeFakeIP () (\<lambda>tag _. Inr (demo_fakeip (length tag) tag))"

theorem tm_Create_fakeip_guarded_witness:
  "fakeip_guarded (fst (snd (tm_Create demo_sing (\<lambda>_ _. None) demo_dns_registry ''fake'' DNSTypeFakeIP
     None demo_tm [])))"
proof -
  have "fakeip_guarded demo_tm"
    unfolding demo_tm_def by (intro tm_append_guarded fakeip_guarded_new)
  moreover obtain r m' tr' where op: "tm_Create demo_sing (\<lambda>_ _. None) demo_dns_registry ''fake''
     DNSTypeFakeIP None demo_tm [] = (r, m', tr')" by (metis prod_cases3)
  ultimately show ?thesis using tm_Create_fakeip_guarded [of demo_tm demo_sing] op by fastforce
qed

text \<open>
  \<^verbatim>\<open>Remove\<close> tests the type of the next default server the wrong way round. When the default
  server is removed and the next transport is an ordinary one, the call fails with \<^verbatim>\<open>default server
  cannot be fakeip\<close> after the transport was already taken out, without closing it, and the removed
  transport stays the default; when the next transport is the fake-IP one (and nothing depends on
  the removed server) it becomes the default server.
\<close>

theorem tm_Remove_fakeip_inverted:
  assumes "sing_ok S" and "tags_agree (tm_transports m) (tm_by_tag m)"
    and "tm_by_tag m tag = Some old" and "tm_default m = Some old"
    and "remove1 old (tm_transports m) = next # rest"
    and "tm_Remove S env tag m tr = (r, m', tr')"
  shows "(c_type next \<noteq> DNSTypeFakeIP \<longrightarrow>
        r = Err (ErrNew [''default server cannot be fakeip'']) \<and> tr' = tr \<and>
        tm_default m' = Some old \<and> old \<notin> set (tm_transports m') \<and> tm_by_tag m' tag = None) \<and>
     (c_type next = DNSTypeFakeIP \<and> tm_dependByTag m tag = [] \<longrightarrow>
        r = Ok () \<and> tm_default m' = Some next)"
proof -
  have "old \<notin> set (remove1 old (tm_transports m))" using assms(2) by (simp add: tags_agree_def)
  with assms show ?thesis
    by (auto simp: tm_Remove_def tm_next_default_def Let_def do_call_def tags_agree_index
        tags_agree_cut split: if_splits)
qed

lemma tm_append_agree:
  assumes "tags_agree (tm_transports m) (tm_by_tag m)" and "c \<notin> set (tm_transports m)"
    and "tm_by_tag m t = None"
  shows "tags_agree (tm_transports (snd (tm_append t c m))) (tm_by_tag (snd (tm_append t c m)))"
  using tags_agree_add [OF assms] tm_append_fields [of t c m] by (metis prod.collapse)

definition demo_tm_fake :: transport_manager where
  "demo_tm_fake = snd (tm_append ''f'' (demo_fakeip 2 ''f'')
     (snd (tm_append ''a'' (demo_comp 1 ''a'' []) (NewTransportManager []))))"

theorem tm_Remove_fakeip_inverted_witness:
  "\<exists>m' tr'. tm_Remove demo_sing (\<lambda>_ _. None) ''a'' demo_tm_fake [] = (Ok (), m', tr') \<and>
     tm_default m' = Some (demo_fakeip 2 ''f'')"
proof -
  have agree: "tags_agree (tm_transports demo_tm_fake) (tm_by_tag demo_tm_fake)"
    unfolding demo_tm_fake_def
    by (intro tm_append_agree NewTransportManager_agree)
       (simp_all add: tm_append_def NewTransportManager_def demo_comp_def demo_fakeip_def
         DNSTypeFakeIP_def)
  have facts: "tm_by_tag demo_tm_fake ''a'' = Some (demo_comp 1 ''a'' [])"
    "tm_default demo_tm_fake = Some (demo_comp 1 ''a'' [])"
    "remove1 (demo_comp 1 ''a'' []) (tm_transports demo_tm_fake) = [demo_fakeip 2 ''f'']"
    "c_type (demo_fakeip 2 ''f'') = DNSTypeFakeIP" "tm_dependByTag demo_tm_fake ''a'' = []"
    by (simp_all add: demo_tm_fake_def tm_append_def NewTransportManager_def demo_comp_def
        demo_fakeip_def DNSTypeFakeIP_def)
  obtain r m' tr' where op: "tm_Remove demo_sing (\<lambda>_ _. None) ''a'' demo_tm_fake [] = (r, m', tr')"
    by (metis prod_cases3)
  from tm_Remove_fakeip_inverted [OF demo_sing_ok agree facts(1-3) op] facts(4,5) op
  show ?thesis by simp
qed

text \<open>
  a creation refused because of the fake-IP guards is refused too late: the transport is
  installed under its tag all the same.
\<close>

theorem tm_Create_refused_is_installed:
  assumes "sing_ok S" and "tags_agree (tm_transports m) (tm_by_tag m)" and "c \<notin> set (tm_transports m)"
    and "tm_install S env tag c m tr = (Err (ErrNew msg), m', tr')"
  shows "tm_by_tag m' tag = Some c \<and> c \<in> set (tm_transports m') \<and> c_type c = DNSTypeFakeIP"
  using assms tags_agree_index [OF assms(1,2)]
  by (auto simp: tm_install_def tm_append_def Let_def do_call_def
      split: option.splits prod.splits if_splits)

theorem tm_Create_refused_is_installed_witness:
  "\<exists>m' tr'. tm_install demo_sing (\<lambda>_ _. None) ''f'' (demo_fakeip 1 ''f'') (NewTransportManager []) [] =
      (Err (ErrNew [''default server cannot be fakeip'']), m', tr') \<and>
      tm_by_tag m' ''f'' = Some (demo_fakeip 1 ''f'')"
proof -
  have "\<exists>m' tr'. tm_install demo_sing (\<lambda>_ _. None) ''f'' (demo_fakeip 1 ''f'') (NewTransportManager []) [] =
      (Err (ErrNew [''default server cannot be fakeip'']), m', tr')"
    by (simp add: tm_install_def tm_append_def NewTransportManager_def demo_fakeip_def Let_def)
  then obtain m' tr' where op: "tm_install demo_sing (\<lambda>_ _. None) ''f'' (demo_fakeip 1 ''f'')
      (NewTransportManager []) [] = (Err (ErrNew [''default server cannot be fakeip'']), m', tr')"
    by blast
  have "demo_fakeip 1 ''f'' \<notin> set (tm_transports (NewTransportManager []))"
    by (simp add: NewTransportManager_def)
  from tm_Create_refused_is_installed [OF demo_sing_ok NewTransportManager_agree this op] op
  show ?thesis by blast
qed

end
