(* ===== verification/Manager_Theorems.thy ===== *)
theory Manager_Theorems
  imports Inbound_Manager Service_Manager Outbound_Theorems DNS_Theorems
begin

text \<open>
  Properties the five managers share, through the interpretations of \<open>tag_manager\<close>: histories of
  requests keep slice and tag map in step, and \<^verbatim>\<open>Close\<close> closes every member once.
\<close>

text \<open>
  C3: no history of installations of freshly allocated components and of removals, served by any of
  the five managers from its creation (running or not, whatever the components answer), ever panics
  with an invalid index; at its end the slice of members and the tag map agree.
\<close>

theorem managers_serve_agree:
  assumes "sing_ok S" and "distinct (installed qs)"
  shows
    "(\<exists>m tr. serve (em_install S) (em_Remove S) env qs (NewEndpointManager\<lparr>em_started := b\<rparr>) [] = Some (m, tr)
        \<and> tags_agree (em_endpoints m) (em_by_tag m)) \<and>
     (\<exists>m tr. serve (im_install S) (im_Remove S) env qs (NewInboundManager\<lparr>im_started := b\<rparr>) [] = Some (m, tr)
        \<and> tags_agree (im_inbounds m) (im_by_tag m)) \<and>
     (\<exists>m tr. serve (sm_install S) (sm_Remove S) env qs (NewServiceManager\<lparr>sm_started := b\<rparr>) [] = Some (m, tr)
        \<and> tags_agree (sm_services m) (sm_by_tag m)) \<and>
     (\<exists>m tr. serve (om_install S) (om_Remove S) env qs ((NewOutboundManager dt)\<lparr>om_started := b\<rparr>) [] = Some (m, tr)
        \<and> tags_agree (om_outbounds m) (om_by_tag m)) \<and>
     (\<exists>m tr. serve (tm_install S) (tm_Remove S) env qs ((NewTransportManager dt)\<lparr>tm_started := b\<rparr>) [] = Some (m, tr)
        \<and> tags_agree (tm_transports m) (tm_by_tag m))"
proof (intro conjI)
  show "\<exists>m tr. serve (em_install S) (em_Remove S) env qs (NewEndpointManager\<lparr>em_started := b\<rparr>) [] = Some (m, tr)
        \<and> tags_agree (em_endpoints m) (em_by_tag m)"
    by (rule ep.serve_agree [OF assms(1) _ assms(2)]) (simp_all add: NewEndpointManager_def)
  show "\<exists>m tr. serve (im_install S) (im_Remove S) env qs (NewInboundManager\<lparr>im_started := b\<rparr>) [] = Some (m, tr)
        \<and> tags_agree (im_inbounds m) (im_by_tag m)"
    by (rule ib.serve_agree [OF assms(1) _ assms(2)]) (simp_all add: NewInboundManager_def)
  show "\<exists>m tr. serve (sm_install S) (sm_Remove S) env qs (NewServiceManager\<lparr>sm_started := b\<rparr>) [] = Some (m, tr)
        \<and> tags_agree (sm_services m) (sm_by_tag m)"
    by (rule sv.serve_agree [OF assms(1) _ assms(2)]) (simp_all add: NewServiceManager_def)
  show "\<exists>m tr. serve (om_install S) (om_Remove S) env qs ((NewOutboundManager dt)\<lparr>om_started := b\<rparr>) [] = Some (m, tr)
        \<and> tags_agree (om_outbounds m) (om_by_tag m)"
    by (rule ob.serve_agree [OF assms(1) _ assms(2)]) (simp_all add: NewOutboundManager_def)
  show "\<exists>m tr. serve (tm_install S) (tm_Remove S) env qs ((NewTransportManager dt)\<lparr>tm_started := b\<rparr>) [] = Some (m, tr)
        \<and> tags_agree (tm_transports m) (tm_by_tag m)"
    by (rule dt.serve_agree [OF assms(1) _ assms(2)]) (simp_all add: NewTransportManager_def)
qed

definition demo_history :: "request list" where
  "demo_history =
     [Install ''a'' (demo_comp 1 ''a'' []), Install ''b'' (demo_comp 2 ''b'' [''a'']), Remove ''a'',
      Install ''b'' (demo_comp 3 ''b'' []), Remove ''c'', Remove ''b'']"

theorem managers_serve_agree_witness:
  "\<exists>m tr. serve (om_install demo_sing) (om_Remove demo_sing) (\<lambda>_ _. Some (ErrExt ''busy'')) demo_history
      ((NewOutboundManager ''b'')\<lparr>om_started := True\<rparr>) [] = Some (m, tr)
      \<and> tags_agree (om_outbounds m) (om_by_tag m)"
proof -
  have "distinct (installed demo_history)" by (simp add: demo_history_def demo_comp_def)
  from managers_serve_agree [OF demo_sing_ok this, of "\<lambda>_ _. Some (ErrExt ''busy'')" True "''b''"]
  show ?thesis by blast
qed

text \<open>
  \<^verbatim>\<open>Close\<close> of a running manager calls \<^verbatim>\<open>Close\<close> on every member exactly once, in order, even when
  earlier ones failed, and empties the slice; every manager then returns nil, so the errors it has
  collected from the members are lost.
\<close>

theorem managers_Close_swallows:
  assumes "em_started e" and "im_started i" and "sm_started s" and "om_started ob" and "tm_started d"
  shows "em_Close env e tr = (Ok (), e\<lparr>em_started := False, em_endpoints := []\<rparr>, tr @ map CallClose (em_endpoints e)) \<and>
    im_Close env i tr = (Ok (), i\<lparr>im_started := False, im_inbounds := []\<rparr>, tr @ map CallClose (im_inbounds i)) \<and>
    sm_Close env s tr = (Ok (), s\<lparr>sm_started := False, sm_services := []\<rparr>, tr @ map CallClose (sm_services s)) \<and>
    om_Close env ob tr = (Ok (), ob\<lparr>om_started := False, om_outbounds := []\<rparr>,
      tr @ map CallClose (filter c_closer (om_outbounds ob))) \<and>
    tm_Close env d tr = (Ok (), d\<lparr>tm_started := False, tm_transports := []\<rparr>,
      tr @ map CallClose (filter c_closer (tm_transports d)))"
  using assms
  by (simp add: em_Close_def im_Close_def sm_Close_def om_Close_def tm_Close_def case_prod_beta go_simps)

theorem managers_Close_swallows_witness:
  "om_Close (\<lambda>_ _. Some (ErrExt ''busy'')) (demo_om\<lparr>om_started := True\<rparr>) [] =
     (Ok (), demo_om\<lparr>om_started := False, om_outbounds := []\<rparr>,
      [CallClose (demo_comp 2 ''b'' []), CallClose (demo_comp 1 ''a'' [''b''])])"
proof -
  have "om_outbounds demo_om = [demo_comp 2 ''b'' [], demo_comp 1 ''a'' [''b'']]"
    by (simp add: demo_om_def NewOutboundManager_def)
  then show ?thesis
    using managers_Close_swallows [of "NewEndpointManager\<lparr>em_started := True\<rparr>"
      "NewInboundManager\<lparr>im_started := True\<rparr>" "NewServiceManager\<lparr>sm_started := True\<rparr>"
      "demo_om\<lparr>om_started := True\<rparr>" "demo_tm\<lparr>tm_started := True\<rparr>" "\<lambda>_ _. Some (ErrExt ''busy'')" "[]"]
    by (simp add: demo_comp_def)
qed

text \<open>
  \<^verbatim>\<open>Close\<close> empties the slice of members but not the tag map, so a tag that was installed when
  the manager was closed is still found by a lookup, and removing it panics.
\<close>

theorem managers_Remove_after_Close_panics:
  assumes "sing_ok S" and "im_started i" and "im_by_tag i t = Some c"
    and "em_started e" and "em_by_tag e t = Some c"
    and "sm_started s" and "sm_by_tag s t = Some c"
    and "om_started ob" and "om_by_tag ob t = Some c"
    and "tm_started d" and "tm_by_tag d t = Some c"
  shows "is_panic (fst (im_Remove S env t (fst (snd (im_Close env i tr))) tr1)) \<and>
    is_panic (fst (em_Remove S env t (fst (snd (em_Close env e tr))) tr1)) \<and>
    is_panic (fst (sm_Remove S env t (fst (snd (sm_Close env s tr))) tr1)) \<and>
    is_panic (fst (om_Remove S env t (fst (snd (om_Close env ob tr))) tr1)) \<and>
    is_panic (fst (tm_Remove S env t (fst (snd (tm_Close env d tr))) tr1))"
  using assms
  by (simp add: em_Close_def im_Close_def sm_Close_def om_Close_def tm_Close_def case_prod_beta
      em_Remove_def im_Remove_def sm_Remove_def om_Remove_def tm_Remove_def sing_index_none Let_def)

theorem managers_Remove_after_Close_panics_witness:
  "is_panic (fst (om_Remove demo_sing (\<lambda>_ _. None) ''b''
     (fst (snd (om_Close (\<lambda>_ _. None) (demo_om\<lparr>om_started := True\<rparr>) []))) []))"
  using managers_Remove_after_Close_panics [OF demo_sing_ok, of
      "NewInboundManager\<lparr>im_started := True, im_by_tag := [''b'' \<mapsto> demo_comp 2 ''b'' []]\<rparr>" "''b''"
      "demo_comp 2 ''b'' []"
      "NewEndpointManager\<lparr>em_started := True, em_by_tag := [''b'' \<mapsto> demo_comp 2 ''b'' []]\<rparr>"
      "NewServiceManager\<lparr>sm_started := True, sm_by_tag := [''b'' \<mapsto> demo_comp 2 ''b'' []]\<rparr>"
      "demo_om\<lparr>om_started := True\<rparr>"
      "(NewTransportManager [])\<lparr>tm_started := True, tm_by_tag := [''b'' \<mapsto> demo_comp 2 ''b'' []]\<rparr>"
      "\<lambda>_ _. None" "[]" "[]"]
    demo_om_facts(3) by simp

end
