(* ===== verification/Netip.thy ===== *)
theory Netip
  imports Go_Prelude "HOL-Library.Word"
begin

unbundle bit_operations_syntax

text \<open>
  The part of Go's \<^verbatim>\<open>net/netip\<close> the modelled code uses: addresses (the zero \<^verbatim>\<open>Addr\<close>, 32-bit and
  128-bit addresses, the latter with a zone), prefixes, successor, containment and overlap. Widths
  are kept: the successor of the last address of a family is the zero \<^verbatim>\<open>Addr\<close>.
\<close>

datatype addr = NoAddr | Addr4 "32 word" | Addr6 "128 word" string

fun addr_IsValid :: "addr \<Rightarrow> bool" where
  "addr_IsValid NoAddr = False"
| "addr_IsValid _ = True"

fun addr_Is4 :: "addr \<Rightarrow> bool" where
  "addr_Is4 (Addr4 _) = True"
| "addr_Is4 _ = False"

fun addr_Is6 :: "addr \<Rightarrow> bool" where
  "addr_Is6 (Addr6 _ _) = True"
| "addr_Is6 _ = False"

fun addr_BitLen :: "addr \<Rightarrow> int" where
  "addr_BitLen NoAddr = 0"
| "addr_BitLen (Addr4 _) = 32"
| "addr_BitLen (Addr6 _ _) = 128"

fun addr_hasZone :: "addr \<Rightarrow> bool" where
  "addr_hasZone (Addr6 _ z) = (z \<noteq> [])"
| "addr_hasZone _ = False"

fun addr_Next :: "addr \<Rightarrow> addr" where
  "addr_Next NoAddr = NoAddr"
| "addr_Next (Addr4 a) = (if a + 1 = 0 then NoAddr else Addr4 (a + 1))"
| "addr_Next (Addr6 a z) = (if a + 1 = 0 then NoAddr else Addr6 (a + 1) z)"

text \<open>A prefix with a negative length is the invalid prefix; a prefix has no zone.\<close>

record prefix =
  px_addr :: addr
  px_bits :: int

definition NoPrefix :: prefix where
  "NoPrefix = \<lparr>px_addr = NoAddr, px_bits = -1\<rparr>"

definition prefix_IsValid :: "prefix \<Rightarrow> bool" where
  "prefix_IsValid p \<longleftrightarrow> 0 \<le> px_bits p"

text \<open>\<^verbatim>\<open>netip.PrefixFrom\<close>: the zone is dropped, an impossible length makes the prefix invalid.\<close>

definition PrefixFrom :: "addr \<Rightarrow> int \<Rightarrow> prefix" where
  "PrefixFrom a bits =
     \<lparr>px_addr = (case a of Addr6 w _ \<Rightarrow> Addr6 w [] | _ \<Rightarrow> a),
      px_bits = (if a = NoAddr \<or> bits < 0 \<or> bits > addr_BitLen a then -1 else bits)\<rparr>"

definition prefix_Contains :: "prefix \<Rightarrow> addr \<Rightarrow> bool" where
  "prefix_Contains p ip \<longleftrightarrow>
     prefix_IsValid p \<and> \<not> addr_hasZone ip \<and>
     (case (px_addr p, ip) of
        (Addr4 a, Addr4 b) \<Rightarrow> drop_bit (nat (32 - px_bits p)) (a XOR b) = 0
      | (Addr6 a _, Addr6 b _) \<Rightarrow> drop_bit (nat (128 - px_bits p)) (a XOR b) = 0
      | _ \<Rightarrow> False)"

definition prefix_Overlaps :: "prefix \<Rightarrow> prefix \<Rightarrow> bool" where
  "prefix_Overlaps p q \<longleftrightarrow>
     prefix_IsValid p \<and> prefix_IsValid q \<and>
     (case (px_addr p, px_addr q) of
        (Addr4 a, Addr4 b) \<Rightarrow> drop_bit (nat (32 - min (px_bits p) (px_bits q))) (a XOR b) = 0
      | (Addr6 a _, Addr6 b _) \<Rightarrow> drop_bit (nat (128 - min (px_bits p) (px_bits q))) (a XOR b) = 0
      | _ \<Rightarrow> False)"

lemma prefix_Contains_family:
  "prefix_Contains p a \<Longrightarrow> addr_Is4 a = addr_Is4 (px_addr p) \<and> addr_IsValid a \<and>
     addr_Is6 a = addr_Is6 (px_addr p)"
  by (cases a; cases "px_addr p") (auto simp: prefix_Contains_def)

lemma prefix_Contains_NoAddr [simp]: "\<not> prefix_Contains p NoAddr"
  by (auto simp: prefix_Contains_def split: addr.splits)

lemma addr_Next_family:
  "addr_IsValid (addr_Next a) \<Longrightarrow> addr_Is4 (addr_Next a) = addr_Is4 a \<and> addr_Is6 (addr_Next a) = addr_Is6 a"
  by (cases a) auto

lemma prefix_Overlaps_sym: "prefix_Overlaps p q = prefix_Overlaps q p"
  by (auto simp: prefix_Overlaps_def min.commute xor.commute split: addr.splits)

lemma addr_Is4_not_6: "addr_Is4 a \<Longrightarrow> \<not> addr_Is6 a"
  by (cases a) auto

end
