(* ===== verification/FakeIP.thy ===== *)
theory FakeIP
  imports Netip Lifecycle
begin

text \<open>
  \<^verbatim>\<open>dns/transport/fakeip\<close>: the store that hands out an address of a reserved range for a domain
  and finds the domain again from the address, over a storage. The storage interface
  \<^verbatim>\<open>adapter.FakeIPStorage\<close> is the locale \<open>fakeip_storage\<close>; \<^verbatim>\<open>MemoryStorage\<close> is modelled here and
  interprets it. The asynchronous metadata writer of \<^verbatim>\<open>experimental/cachefile/fakeip.go\<close> is
  modelled at the end.
\<close>

section \<open>The memory storage\<close>

record memory_storage =
  ms_addressCache :: "addr \<Rightarrow> string option"
  ms_domainCache4 :: "string \<Rightarrow> addr option"
  ms_domainCache6 :: "string \<Rightarrow> addr option"

definition NewMemoryStorage :: memory_storage where
  "NewMemoryStorage =
     \<lparr>ms_addressCache = Map.empty, ms_domainCache4 = Map.empty, ms_domainCache6 = Map.empty\<rparr>"

definition ms_FakeIPStore :: "addr \<Rightarrow> string \<Rightarrow> memory_storage \<Rightarrow> memory_storage" where
  "ms_FakeIPStore address domain s =
     (let s1 = (case ms_addressCache s address of
                  None \<Rightarrow> s
                | Some oldDomain \<Rightarrow>
                    if addr_Is4 address
                    then s\<lparr>ms_domainCache4 := (ms_domainCache4 s)(oldDomain := None)\<rparr>
                    else s\<lparr>ms_domainCache6 := (ms_domainCache6 s)(oldDomain := None)\<rparr>);
          s2 = s1\<lparr>ms_addressCache := (ms_addressCache s1)(address \<mapsto> domain)\<rparr>
      in if addr_Is4 address
         then s2\<lparr>ms_domainCache4 := (ms_domainCache4 s2)(domain \<mapsto> address)\<rparr>
         else s2\<lparr>ms_domainCache6 := (ms_domainCache6 s2)(domain \<mapsto> address)\<rparr>)"

definition ms_FakeIPLoad :: "memory_storage \<Rightarrow> addr \<Rightarrow> string option" where
  "ms_FakeIPLoad s address = ms_addressCache s address"

definition ms_FakeIPLoadDomain :: "memory_storage \<Rightarrow> string \<Rightarrow> bool \<Rightarrow> addr option" where
  "ms_FakeIPLoadDomain s domain isIPv6 =
     (if \<not> isIPv6 then ms_domainCache4 s domain else ms_domainCache6 s domain)"

definition ms_FakeIPReset :: "memory_storage \<Rightarrow> memory_storage" where
  "ms_FakeIPReset s =
     s\<lparr>ms_addressCache := Map.empty, ms_domainCache4 := Map.empty, ms_domainCache6 := Map.empty\<rparr>"

section \<open>The store\<close>

text \<open>
  A storage as the store sees it: its two readers, its writers, and the metadata it may hold from an
  earlier run (the cache file deletes it when it is read). \<open>so_Store\<close> also returns the error the store
  only logs.
\<close>

record fakeip_metadata =
  fm_Inet4Range :: prefix
  fm_Inet6Range :: prefix
  fm_Inet4Current :: addr
  fm_Inet6Current :: addr

record 's storage_ops =
  so_Metadata :: "'s \<Rightarrow> fakeip_metadata option \<times> 's"
  so_SaveMetadata :: "fakeip_metadata \<Rightarrow> 's \<Rightarrow> unit go_out \<times> 's"
  so_SaveMetadataAsync :: "fakeip_metadata \<Rightarrow> 's \<Rightarrow> 's"
  so_Store :: "addr \<Rightarrow> string \<Rightarrow> 's \<Rightarrow> go_err option \<times> 's"
  so_Load :: "'s \<Rightarrow> addr \<Rightarrow> string option"
  so_LoadDomain :: "'s \<Rightarrow> string \<Rightarrow> bool \<Rightarrow> addr option"
  so_Reset :: "'s \<Rightarrow> go_err option \<times> 's"

definition memory_ops :: "memory_storage storage_ops" where
  "memory_ops =
     \<lparr>so_Metadata = (\<lambda>s. (None, s)),
      so_SaveMetadata = (\<lambda>_ s. (Ok (), s)),
      so_SaveMetadataAsync = (\<lambda>_ s. s),
      so_Store = (\<lambda>a d s. (None, ms_FakeIPStore a d s)),
      so_Load = ms_FakeIPLoad,
      so_LoadDomain = ms_FakeIPLoadDomain,
      so_Reset = (\<lambda>s. (None, ms_FakeIPReset s))\<rparr>"

record 's fakeip_store =
  fs_inet4Range :: prefix
  fs_inet6Range :: prefix
  fs_inet4Current :: addr
  fs_inet6Current :: addr
  fs_storage :: "'s option"

definition NewStore :: "prefix \<Rightarrow> prefix \<Rightarrow> 's fakeip_store" where
  "NewStore r4 r6 =
     \<lparr>fs_inet4Range = r4, fs_inet6Range = r6, fs_inet4Current = NoAddr, fs_inet6Current = NoAddr,
      fs_storage = None\<rparr>"

definition range_first :: "prefix \<Rightarrow> addr" where
  "range_first p = addr_Next (addr_Next (px_addr p))"

text \<open>
  \<^verbatim>\<open>Start\<close> with the storage it selects (\<open>st\<close>: the cache file when it stores fake IPs, a new memory
  storage otherwise). The error of the reset is discarded.
\<close>

definition fs_Start :: "'s storage_ops \<Rightarrow> 's \<Rightarrow> 's fakeip_store \<Rightarrow> 's fakeip_store" where
  "fs_Start ops st s =
     (case so_Metadata ops st of
        (Some metadata, st) \<Rightarrow>
          if fm_Inet4Range metadata = fs_inet4Range s \<and> fm_Inet6Range metadata = fs_inet6Range s
          then s\<lparr>fs_inet4Current := fm_Inet4Current metadata,
                 fs_inet6Current := fm_Inet6Current metadata, fs_storage := Some st\<rparr>
          else s\<lparr>fs_inet4Current := (if prefix_IsValid (fs_inet4Range s)
                                     then range_first (fs_inet4Range s) else fs_inet4Current s),
                 fs_inet6Current := (if prefix_IsValid (fs_inet6Range s)
                                     then range_first (fs_inet6Range s) else fs_inet6Current s),
                 fs_storage := Some (snd (so_Reset ops st))\<rparr>
      | (None, st) \<Rightarrow>
          s\<lparr>fs_inet4Current := (if prefix_IsValid (fs_inet4Range s)
                                then range_first (fs_inet4Range s) else fs_inet4Current s),
            fs_inet6Current := (if prefix_IsValid (fs_inet6Range s)
                                then range_first (fs_inet6Range s) else fs_inet6Current s),
            fs_storage := Some (snd (so_Reset ops st))\<rparr>)"

definition fs_Contains :: "'s fakeip_store \<Rightarrow> addr \<Rightarrow> bool" where
  "fs_Contains s address \<longleftrightarrow>
     prefix_Contains (fs_inet4Range s) address \<or> prefix_Contains (fs_inet6Range s) address"

definition fs_metadata :: "'s fakeip_store \<Rightarrow> fakeip_metadata" where
  "fs_metadata s =
     \<lparr>fm_Inet4Range = fs_inet4Range s, fm_Inet6Range = fs_inet6Range s,
      fm_Inet4Current = fs_inet4Current s, fm_Inet6Current = fs_inet6Current s\<rparr>"

definition fs_Close :: "'s storage_ops \<Rightarrow> 's fakeip_store \<Rightarrow> unit go_out \<times> 's fakeip_store" where
  "fs_Close ops s =
     (case fs_storage s of
        None \<Rightarrow> (Ok (), s)
      | Some st \<Rightarrow>
          (case so_SaveMetadata ops (fs_metadata s) st of (r, st1) \<Rightarrow> (r, s\<lparr>fs_storage := Some st1\<rparr>)))"

definition next_in_range :: "prefix \<Rightarrow> addr \<Rightarrow> addr" where
  "next_in_range rng current =
     (let nextAddress = addr_Next current
      in if \<not> prefix_Contains rng nextAddress then range_first rng else nextAddress)"

text \<open>
  \<^verbatim>\<open>Create\<close>. The second look-up under the lock returns what the first one did when no other call
  runs in between, so it is written once. A store that was not started has a nil storage.
\<close>

definition fs_Create ::
  "'s storage_ops \<Rightarrow> string \<Rightarrow> bool \<Rightarrow> 's fakeip_store \<Rightarrow> addr go_out \<times> 's fakeip_store" where
  "fs_Create ops domain isIPv6 s =
     (case fs_storage s of
        None \<Rightarrow> (Panic ''nil pointer dereference'', s)
      | Some st \<Rightarrow>
          (case so_LoadDomain ops st domain isIPv6 of
             Some address \<Rightarrow> (Ok address, s)
           | None \<Rightarrow>
               if \<not> isIPv6
               then
                 (if \<not> addr_IsValid (fs_inet4Current s)
                  then (Err (ErrNew [''missing IPv4 fakeip address range'']), s)
                  else
                    let address = next_in_range (fs_inet4Range s) (fs_inet4Current s);
                        s1 = s\<lparr>fs_inet4Current := address\<rparr>;
                        st1 = snd (so_Store ops address domain st)
                    in (Ok address, s1\<lparr>fs_storage := Some (so_SaveMetadataAsync ops (fs_metadata s1) st1)\<rparr>))
               else
                 (if \<not> addr_IsValid (fs_inet6Current s)
                  then (Err (ErrNew [''missing IPv6 fakeip address range'']), s)
                  else
                    let address = next_in_range (fs_inet6Range s) (fs_inet6Current s);
                        s1 = s\<lparr>fs_inet6Current := address\<rparr>;
                        st1 = snd (so_Store ops address domain st)
                    in (Ok address, s1\<lparr>fs_storage := Some (so_SaveMetadataAsync ops (fs_metadata s1) st1)\<rparr>))))"

definition fs_Lookup :: "'s storage_ops \<Rightarrow> addr \<Rightarrow> 's fakeip_store \<Rightarrow> string option go_out" where
  "fs_Lookup ops address s =
     (case fs_storage s of
        None \<Rightarrow> Panic ''nil pointer dereference''
      | Some st \<Rightarrow> Ok (so_Load ops st address))"

definition fs_Reset :: "'s storage_ops \<Rightarrow> 's fakeip_store \<Rightarrow> unit go_out \<times> 's fakeip_store" where
  "fs_Reset ops s =
     (case fs_storage s of
        None \<Rightarrow> (Panic ''nil pointer dereference'', s)
      | Some st \<Rightarrow>
          (case so_Reset ops st of (e, st1) \<Rightarrow> (of_error e, s\<lparr>fs_storage := Some st1\<rparr>)))"

section \<open>The transport\<close>

text \<open>
  \<^verbatim>\<open>Transport.Start\<close> starts the store at the start stage only; \<^verbatim>\<open>Exchange\<close> answers A and AAAA
  questions. The constants of the DNS library, \<^verbatim>\<open>dns.FqdnToDomain\<close> and the construction of the
  response message are arguments.
\<close>

definition fakeip_Transport_Start ::
  "'s storage_ops \<Rightarrow> 's \<Rightarrow> start_stage \<Rightarrow> 's fakeip_store \<Rightarrow> 's fakeip_store" where
  "fakeip_Transport_Start ops st stage s =
     (if stage \<noteq> StartStateStart then s else fs_Start ops st s)"

section \<open>The delayed metadata writer of the cache file\<close>

text \<open>
  \<^verbatim>\<open>CacheFile.FakeIPSaveMetadataAsync\<close>: the first call creates a timer whose function holds the
  metadata of that call; later calls re-arm the same timer. \<open>cf_writes\<close> lists the metadata handed to
  \<^verbatim>\<open>FakeIPSaveMetadata\<close> when the timer fires, oldest first.
\<close>

record metadata_writer =
  cf_saveMetadataTimer :: "fakeip_metadata option"
  cf_armed :: bool
  cf_writes :: "fakeip_metadata list"

definition NewMetadataWriter :: metadata_writer where
  "NewMetadataWriter = \<lparr>cf_saveMetadataTimer = None, cf_armed = False, cf_writes = []\<rparr>"

definition cf_FakeIPSaveMetadataAsync :: "fakeip_metadata \<Rightarrow> metadata_writer \<Rightarrow> metadata_writer" where
  "cf_FakeIPSaveMetadataAsync metadata c =
     (case cf_saveMetadataTimer c of
        None \<Rightarrow> c\<lparr>cf_saveMetadataTimer := Some metadata, cf_armed := True\<rparr>
      | Some _ \<Rightarrow> c\<lparr>cf_armed := True\<rparr>)"

definition cf_timer_fires :: "metadata_writer \<Rightarrow> metadata_writer" where
  "cf_timer_fires c =
     (case cf_saveMetadataTimer c of
        Some metadata \<Rightarrow>
          if cf_armed c then c\<lparr>cf_armed := False, cf_writes := cf_writes c @ [metadata]\<rparr> else c
      | None \<Rightarrow> c)"

section \<open>The contract of a storage\<close>

text \<open>A started store over the storage, with its current addresses in the right families.\<close>

definition store_ok :: "('s \<Rightarrow> bool) \<Rightarrow> 's fakeip_store \<Rightarrow> bool" where
  "store_ok sinv s \<longleftrightarrow>
     (\<exists>st. fs_storage s = Some st \<and> sinv st) \<and>
     (prefix_IsValid (fs_inet4Range s) \<longrightarrow>
        addr_Is4 (px_addr (fs_inet4Range s)) \<and> prefix_Contains (fs_inet4Range s) (range_first (fs_inet4Range s))) \<and>
     (prefix_IsValid (fs_inet6Range s) \<longrightarrow>
        addr_Is6 (px_addr (fs_inet6Range s)) \<and> prefix_Contains (fs_inet6Range s) (range_first (fs_inet6Range s))) \<and>
     (addr_IsValid (fs_inet4Current s) \<longrightarrow> prefix_IsValid (fs_inet4Range s)) \<and>
     (addr_IsValid (fs_inet6Current s) \<longrightarrow> prefix_IsValid (fs_inet6Range s))"

lemma next_in_range_contained:
  "prefix_Contains rng (range_first rng) \<Longrightarrow> prefix_Contains rng (next_in_range rng cur)"
  by (simp add: next_in_range_def Let_def)

text \<open>
  The addresses the store hands out are those of its ranges, which have no zone. The two directions of a
  storage agree: a domain is stored with an address exactly when the address is stored with the domain, in
  the map of the address's family.
\<close>

definition addr_storable :: "addr \<Rightarrow> bool" where
  "addr_storable a \<longleftrightarrow> addr_IsValid a \<and> \<not> addr_hasZone a"

definition two_way :: "(addr \<Rightarrow> string option) \<Rightarrow> (string \<Rightarrow> bool \<Rightarrow> addr option) \<Rightarrow> bool" where
  "two_way load loadDomain \<longleftrightarrow>
     (\<forall>d v6 a. loadDomain d v6 = Some a \<longleftrightarrow> load a = Some d \<and> addr_storable a \<and> addr_Is6 a = v6)"

lemma prefix_Contains_storable: "prefix_Contains p a \<Longrightarrow> addr_storable a"
  using prefix_Contains_family [of p a] by (simp add: addr_storable_def prefix_Contains_def)

lemma addr_storable_4: "addr_storable a \<Longrightarrow> addr_Is4 a = (\<not> addr_Is6 a)"
  by (cases a) (auto simp: addr_storable_def)

lemma two_wayD:
  "two_way load loadDomain \<Longrightarrow>
     loadDomain d v6 = Some a \<longleftrightarrow> load a = Some d \<and> addr_storable a \<and> addr_Is6 a = v6"
  unfolding two_way_def by blast

text \<open>A write that replaces the domain of one address keeps the two directions in agreement.\<close>

lemma two_way_store:
  assumes tw: "two_way load loadDomain" and a: "addr_storable a" and new: "loadDomain d (addr_Is6 a) = None"
    and load': "\<And>b. addr_storable b \<Longrightarrow> load' b = (if b = a then Some d else load b)"
    and dom': "\<And>e v. loadDomain' e v =
      (if e = d \<and> v = addr_Is6 a then Some a
       else if v = addr_Is6 a \<and> load a = Some e then None else loadDomain e v)"
  shows "two_way load' loadDomain'"
    and "loadDomain' e v = (if e = d \<and> v = addr_Is6 a then Some a
       else if loadDomain e v = Some a then None else loadDomain e v)"
proof -
  have old: "v = addr_Is6 a \<and> load a = Some e \<longleftrightarrow> loadDomain e v = Some a" for e v
    using two_wayD [OF tw, of e v a] a by auto
  then show "loadDomain' e v = (if e = d \<and> v = addr_Is6 a then Some a
       else if loadDomain e v = Some a then None else loadDomain e v)"
    by (simp add: dom')
  have "loadDomain' e v = Some b \<longleftrightarrow> load' b = Some e \<and> addr_storable b \<and> addr_Is6 b = v" for e v b
  proof (cases "b = a")
    case True
    then show ?thesis using a load' [OF a] by (auto simp: dom' old)
  next
    case False
    have "load b = Some d \<Longrightarrow> addr_storable b \<Longrightarrow> addr_Is6 b \<noteq> addr_Is6 a"
      using new two_wayD [OF tw, of d "addr_Is6 a" b] by auto
    with False show ?thesis using two_wayD [OF tw, of e v b] load' [of b] by (auto simp: dom' old)
  qed
  then show "two_way load' loadDomain'" unfolding two_way_def by blast
qed

text \<open>
  What the store relies on. \<open>sinv\<close> is the storage's own invariant and \<open>domok\<close> the domains it can hold; a
  write of a domain that has no address in the family of the address is found from both sides, forgets
  the domain it displaces, and leaves every other entry alone. A reset that fails changes nothing.
\<close>

locale fakeip_storage =
  fixes ops :: "'s storage_ops"
    and sinv :: "'s \<Rightarrow> bool"
    and domok :: "string \<Rightarrow> bool"
  assumes reset_inv: "sinv s \<Longrightarrow> sinv (snd (so_Reset ops s))"
    and reset_load_domain: "sinv s \<Longrightarrow> so_Reset ops s = (err, s') \<Longrightarrow>
      so_LoadDomain ops s' d v6 = (if err = None then None else so_LoadDomain ops s d v6)"
    and store_inv: "sinv s \<Longrightarrow> addr_storable a \<Longrightarrow> domok d \<Longrightarrow> so_LoadDomain ops s d (addr_Is6 a) = None \<Longrightarrow>
      sinv (snd (so_Store ops a d s))"
    and store_load: "sinv s \<Longrightarrow> addr_storable a \<Longrightarrow> domok d \<Longrightarrow> so_LoadDomain ops s d (addr_Is6 a) = None \<Longrightarrow>
      addr_storable b \<Longrightarrow> so_Load ops (snd (so_Store ops a d s)) b = (if b = a then Some d else so_Load ops s b)"
    and store_load_domain: "sinv s \<Longrightarrow> addr_storable a \<Longrightarrow> domok d \<Longrightarrow> so_LoadDomain ops s d (addr_Is6 a) = None \<Longrightarrow>
      so_LoadDomain ops (snd (so_Store ops a d s)) e v6 =
        (if e = d \<and> v6 = addr_Is6 a then Some a
         else if so_LoadDomain ops s e v6 = Some a then None else so_LoadDomain ops s e v6)"
    and async_same: "sinv s \<Longrightarrow> sinv (so_SaveMetadataAsync ops md s) \<and>
      so_Load ops (so_SaveMetadataAsync ops md s) = so_Load ops s \<and>
      so_LoadDomain ops (so_SaveMetadataAsync ops md s) = so_LoadDomain ops s"
    and both_sides: "sinv s \<Longrightarrow> two_way (so_Load ops s) (so_LoadDomain ops s)"
begin

lemma create_fresh:
  assumes ok: "store_ok sinv s" and st: "fs_storage s = Some st"
    and none: "so_LoadDomain ops st domain isIPv6 = None" and op: "fs_Create ops domain isIPv6 s = (Ok a, s')"
  obtains md where "prefix_Contains (if isIPv6 then fs_inet6Range s else fs_inet4Range s) a"
    and "addr_storable a" and "addr_Is6 a = isIPv6"
    and "s' = s\<lparr>fs_inet4Current := (if isIPv6 then fs_inet4Current s else a),
                fs_inet6Current := (if isIPv6 then a else fs_inet6Current s),
                fs_storage := Some (so_SaveMetadataAsync ops md (snd (so_Store ops a domain st)))\<rparr>"
proof -
  let ?rng = "if isIPv6 then fs_inet6Range s else fs_inet4Range s"
  have valid: "prefix_IsValid ?rng"
    using op st none ok by (auto simp: fs_Create_def store_ok_def split: if_splits)
  have a: "a = next_in_range ?rng (if isIPv6 then fs_inet6Current s else fs_inet4Current s)"
    using op st none by (auto simp: fs_Create_def Let_def split: if_splits)
  have "prefix_Contains ?rng (range_first ?rng)"
    using ok valid by (auto simp: store_ok_def split: if_splits)
  then have inr: "prefix_Contains ?rng a" unfolding a by (rule next_in_range_contained)
  from prefix_Contains_family [OF inr] ok valid have "addr_Is6 a = isIPv6"
    by (auto simp: store_ok_def addr_Is4_not_6 split: if_splits)
  moreover have "\<exists>md. s' = s\<lparr>fs_inet4Current := (if isIPv6 then fs_inet4Current s else a),
                fs_inet6Current := (if isIPv6 then a else fs_inet6Current s),
                fs_storage := Some (so_SaveMetadataAsync ops md (snd (so_Store ops a domain st)))\<rparr>"
    using op st none by (cases s) (auto simp: fs_Create_def Let_def split: if_splits)
  ultimately show ?thesis using that inr prefix_Contains_storable [OF inr] by blast
qed

lemma create_step:
  assumes ok: "store_ok sinv s" and dom: "domok domain" and op: "fs_Create ops domain isIPv6 s = (Ok a, s')"
  shows "store_ok sinv s' \<and> fs_Lookup ops a s' = Ok (Some domain) \<and>
    so_LoadDomain ops (the (fs_storage s')) domain isIPv6 = Some a \<and> fs_inet4Range s' = fs_inet4Range s \<and>
    fs_inet6Range s' = fs_inet6Range s"
proof -
  obtain st where st: "fs_storage s = Some st" and sinv: "sinv st" using ok by (auto simp: store_ok_def)
  show ?thesis
  proof (cases "so_LoadDomain ops st domain isIPv6")
    case (Some b)
    with op st have "a = b" "s' = s" by (auto simp: fs_Create_def)
    with Some st ok two_wayD [OF both_sides [OF sinv]] show ?thesis by (simp add: fs_Lookup_def)
  next
    case None
    obtain md where inr: "prefix_Contains (if isIPv6 then fs_inet6Range s else fs_inet4Range s) a"
      and fam: "addr_storable a" "addr_Is6 a = isIPv6"
      and s': "s' = s\<lparr>fs_inet4Current := (if isIPv6 then fs_inet4Current s else a),
                fs_inet6Current := (if isIPv6 then a else fs_inet6Current s),
                fs_storage := Some (so_SaveMetadataAsync ops md (snd (so_Store ops a domain st)))\<rparr>"
      by (rule create_fresh [OF ok st None op])
    note none = None [folded fam(2)]
    have inv1: "sinv (snd (so_Store ops a domain st))" by (rule store_inv [OF sinv fam(1) dom none])
    note async = async_same [OF inv1, of md]
    have "prefix_IsValid (if isIPv6 then fs_inet6Range s else fs_inet4Range s)"
      using inr by (simp add: prefix_Contains_def)
    then have "store_ok sinv s'" using ok async unfolding s' by (auto simp: store_ok_def)
    then show ?thesis
      using async store_load [OF sinv fam(1) dom none fam(1)] store_load_domain [OF sinv fam(1) dom none] fam
      unfolding s' by (simp add: fs_Lookup_def)
  qed
qed

lemma create_again:
  assumes "store_ok sinv s" and "domok domain" and "fs_Create ops domain isIPv6 s = (Ok a, s')"
  shows "fs_Create ops domain isIPv6 s' = (Ok a, s')"
  using create_step [OF assms] by (auto simp: fs_Create_def store_ok_def)

lemma create_load_domain:
  assumes ok: "store_ok sinv s" and dom: "domok domain" and op: "fs_Create ops domain isIPv6 s = (Ok a, s')"
  shows "s' = s \<or> so_LoadDomain ops (the (fs_storage s')) e v6 =
    (if e = domain \<and> v6 = isIPv6 then Some a
     else if so_LoadDomain ops (the (fs_storage s)) e v6 = Some a then None
     else so_LoadDomain ops (the (fs_storage s)) e v6)"
proof -
  obtain st where st: "fs_storage s = Some st" and sinv: "sinv st" using ok by (auto simp: store_ok_def)
  show ?thesis
  proof (cases "so_LoadDomain ops st domain isIPv6")
    case (Some c)
    with op st show ?thesis by (auto simp: fs_Create_def)
  next
    case None
    obtain md where fam: "addr_storable a" "addr_Is6 a = isIPv6"
      and s': "s' = s\<lparr>fs_inet4Current := (if isIPv6 then fs_inet4Current s else a),
                fs_inet6Current := (if isIPv6 then a else fs_inet6Current s),
                fs_storage := Some (so_SaveMetadataAsync ops md (snd (so_Store ops a domain st)))\<rparr>"
      by (rule create_fresh [OF ok st None op])
    note none = None [folded fam(2)]
    with async_same [OF store_inv [OF sinv fam(1) dom none], of md] store_load_domain [OF sinv fam(1) dom none]
      st fam
    show ?thesis unfolding s' by auto
  qed
qed

end

section \<open>Histories of a store\<close>

text \<open>What follows a started store: creations for domains the storage can hold, and resets.\<close>

inductive fs_reach :: "'s storage_ops \<Rightarrow> (string \<Rightarrow> bool) \<Rightarrow> 's fakeip_store \<Rightarrow> 's fakeip_store \<Rightarrow> bool"
  for ops domok s0 where
  reach_start: "fs_reach ops domok s0 s0"
| reach_create: "fs_reach ops domok s0 s \<Longrightarrow> domok domain \<Longrightarrow> fs_Create ops domain isIPv6 s = (r, s') \<Longrightarrow>
    fs_reach ops domok s0 s'"
| reach_reset: "fs_reach ops domok s0 s \<Longrightarrow> fs_Reset ops s = (r, s') \<Longrightarrow> fs_reach ops domok s0 s'"

definition all_in_range :: "'s storage_ops \<Rightarrow> 's fakeip_store \<Rightarrow> bool" where
  "all_in_range ops s \<longleftrightarrow>
     (\<forall>st d v6 a. fs_storage s = Some st \<longrightarrow> so_LoadDomain ops st d v6 = Some a \<longrightarrow>
        prefix_Contains (if v6 then fs_inet6Range s else fs_inet4Range s) a)"

lemma fs_Create_err_same: "fs_Create ops d v s = (r, s') \<Longrightarrow> \<not> is_ok r \<Longrightarrow> s' = s"
  by (auto simp: fs_Create_def Let_def split: option.splits if_splits)

lemma fs_reach_ranges:
  "fs_reach ops domok s0 s \<Longrightarrow> fs_inet4Range s = fs_inet4Range s0 \<and> fs_inet6Range s = fs_inet6Range s0"
  by (induction rule: fs_reach.induct)
     (auto simp: fs_Create_def fs_Reset_def Let_def split: option.splits if_splits prod.splits)

context fakeip_storage
begin

lemma create_all_in_range:
  assumes ok: "store_ok sinv s" and inr: "all_in_range ops s" and dom: "domok domain"
    and op: "fs_Create ops domain isIPv6 s = (Ok a, s')"
  shows "all_in_range ops s'"
proof (cases "s' = s")
  case False
  obtain st where st: "fs_storage s = Some st" using ok by (auto simp: store_ok_def)
  have none: "so_LoadDomain ops st domain isIPv6 = None"
    using False op st by (cases "so_LoadDomain ops st domain isIPv6") (simp_all add: fs_Create_def)
  obtain md where a: "prefix_Contains (if isIPv6 then fs_inet6Range s else fs_inet4Range s) a"
    by (rule create_fresh [OF ok st none op])
  have ranges: "fs_inet4Range s' = fs_inet4Range s" "fs_inet6Range s' = fs_inet6Range s"
    using create_step [OF ok dom op] by blast+
  have "prefix_Contains (if v6 then fs_inet6Range s else fs_inet4Range s) b"
    if "so_LoadDomain ops st' d v6 = Some b" "fs_storage s' = Some st'" for st' d v6 b
  proof (cases "d = domain \<and> v6 = isIPv6")
    case True
    with that create_load_domain [OF ok dom op, of d v6] False a show ?thesis by simp
  next
    case other: False
    with that create_load_domain [OF ok dom op, of d v6] False st have "so_LoadDomain ops st d v6 = Some b"
      by (auto split: if_splits)
    with inr st show ?thesis unfolding all_in_range_def by blast
  qed
  then show ?thesis unfolding all_in_range_def ranges by blast
qed (use inr in simp)

lemma reach_ok:
  assumes "store_ok sinv s0" and "all_in_range ops s0"
  shows "fs_reach ops domok s0 s \<Longrightarrow> store_ok sinv s \<and> all_in_range ops s"
proof (induction rule: fs_reach.induct)
  case (reach_create s domain isIPv6 r s')
  show ?case
  proof (cases "is_ok r")
    case True
    then obtain a where "r = Ok a" by (cases r) auto
    with reach_create create_step [of s domain isIPv6 a s'] create_all_in_range [of s domain isIPv6 a s']
    show ?thesis by simp
  next
    case False
    with reach_create show ?thesis using fs_Create_err_same [OF reach_create.hyps(3)] by simp
  qed
next
  case (reach_reset s r s')
  then obtain st where st: "fs_storage s = Some st" and sinv: "sinv st" by (auto simp: store_ok_def)
  obtain e st1 where res: "so_Reset ops st = (e, st1)" by (cases "so_Reset ops st")
  with reach_reset.hyps st have s': "s' = s\<lparr>fs_storage := Some st1\<rparr>" by (simp add: fs_Reset_def)
  have "store_ok sinv s'" using reach_reset.IH reset_inv [OF sinv] res by (simp add: store_ok_def s')
  moreover have "all_in_range ops s'"
    using reach_reset.IH st reset_load_domain [OF sinv res]
    by (cases "e = None") (simp_all add: all_in_range_def s' all_bool_eq)
  ultimately show ?case ..
qed (use assms in simp)

text \<open>
  What a creation promises in every state of a history: an address of the range of its family, looked up
  back to the domain, returned again for the same question and shared with no other.
\<close>

lemma created:
  assumes start: "store_ok sinv s0" "all_in_range ops s0" and reach: "fs_reach ops domok s0 s" and dom: "domok domain"
    and op: "fs_Create ops domain isIPv6 s = (Ok a, s')"
  shows "prefix_Contains (if isIPv6 then fs_inet6Range s0 else fs_inet4Range s0) a" and "fs_Contains s' a"
    and "fs_Lookup ops a s' = Ok (Some domain)" and "fs_Create ops domain isIPv6 s' = (Ok a, s')"
    and "domok other \<Longrightarrow> fs_Create ops other v6 s' = (Ok a, s') \<Longrightarrow> other = domain \<and> v6 = isIPv6"
proof -
  have reach': "fs_reach ops domok s0 s'" by (rule fs_reach.reach_create [OF reach dom op])
  note ranges = fs_reach_ranges [OF reach']
  note ok = conjunct1 [OF reach_ok [OF start reach]] and ok' = reach_ok [OF start reach']
  note step = create_step [OF ok dom op]
  obtain st where st: "fs_storage s' = Some st" and sinv: "sinv st" using ok' by (auto simp: store_ok_def)
  have loaded: "so_LoadDomain ops st domain isIPv6 = Some a" using step st by simp
  then show inr: "prefix_Contains (if isIPv6 then fs_inet6Range s0 else fs_inet4Range s0) a"
    using ok' st unfolding all_in_range_def ranges [THEN conjunct1] ranges [THEN conjunct2] by blast
  show "fs_Contains s' a" using inr ranges by (auto simp: fs_Contains_def split: if_splits)
  show "fs_Lookup ops a s' = Ok (Some domain)" using step by blast
  show "fs_Create ops domain isIPv6 s' = (Ok a, s')" by (rule create_again [OF ok dom op])
  show "other = domain \<and> v6 = isIPv6" if "domok other" "fs_Create ops other v6 s' = (Ok a, s')"
    using create_step [OF conjunct1 [OF ok'] that] st loaded two_wayD [OF both_sides [OF sinv]] by auto
qed

end

end
