(* ===== verification/FakeIP_Theorems.thy ===== *)
theory FakeIP_Theorems
  imports FakeIP
begin

text \<open>
  The memory storage meets the contract of a fake-IP storage; what follows for the store over it:
  round trips between domains and addresses, exclusive addresses along every history, recycling, and
  the ranges that are too small for the start address. The last section models the delayed metadata
  writer of the cache file.
\<close>

section \<open>The memory storage as a storage\<close>

definition ms_inv :: "memory_storage \<Rightarrow> bool" where
  "ms_inv s \<longleftrightarrow> two_way (ms_FakeIPLoad s) (ms_FakeIPLoadDomain s)"

lemma ms_reset_load:
  "ms_FakeIPLoad (ms_FakeIPReset s) a = None" "ms_FakeIPLoadDomain (ms_FakeIPReset s) d v6 = None"
  by (simp_all add: ms_FakeIPReset_def ms_FakeIPLoad_def ms_FakeIPLoadDomain_def)

lemma ms_inv_reset: "ms_inv (ms_FakeIPReset s)"
  by (simp add: ms_inv_def two_way_def ms_reset_load)

lemma ms_store_load:
  "ms_FakeIPLoad (ms_FakeIPStore a d s) b = (if b = a then Some d else ms_FakeIPLoad s b)"
  by (auto simp: ms_FakeIPLoad_def ms_FakeIPStore_def Let_def split: option.splits)

lemma ms_store_load_raw:
  "addr_storable a \<Longrightarrow> ms_FakeIPLoadDomain (ms_FakeIPStore a d s) e v6 =
     (if e = d \<and> v6 = addr_Is6 a then Some a
      else if v6 = addr_Is6 a \<and> ms_FakeIPLoad s a = Some e then None
      else ms_FakeIPLoadDomain s e v6)"
  by (cases "ms_addressCache s a"; cases a; cases v6)
     (simp_all add: ms_FakeIPLoadDomain_def ms_FakeIPLoad_def ms_FakeIPStore_def Let_def addr_storable_def)

lemma ms_store:
  assumes "ms_inv s" and "addr_storable a" and "ms_FakeIPLoadDomain s d (addr_Is6 a) = None"
  shows "ms_inv (ms_FakeIPStore a d s)"
    and "ms_FakeIPLoadDomain (ms_FakeIPStore a d s) e v6 =
      (if e = d \<and> v6 = addr_Is6 a then Some a
       else if ms_FakeIPLoadDomain s e v6 = Some a then None else ms_FakeIPLoadDomain s e v6)"
  using two_way_store [OF assms(1) [unfolded ms_inv_def] assms(2,3), of "ms_FakeIPLoad (ms_FakeIPStore a d s)"
      "ms_FakeIPLoadDomain (ms_FakeIPStore a d s)", OF ms_store_load ms_store_load_raw [OF assms(2)]]
  by (simp_all only: ms_inv_def)

interpretation mem: fakeip_storage memory_ops ms_inv "\<lambda>_. True"
  by unfold_locales
     (auto simp: memory_ops_def ms_inv_reset ms_reset_load ms_store_load ms_store ms_inv_def [symmetric])

section \<open>Round trips\<close>

text \<open>Ranges that leave room for the start address of the store, one of each family or none.\<close>

definition ranges_ok :: "prefix \<Rightarrow> prefix \<Rightarrow> bool" where
  "ranges_ok r4 r6 \<longleftrightarrow>
     (prefix_IsValid r4 \<longrightarrow> addr_Is4 (px_addr r4) \<and> prefix_Contains r4 (range_first r4)) \<and>
     (prefix_IsValid r6 \<longrightarrow> addr_Is6 (px_addr r6) \<and> prefix_Contains r6 (range_first r6))"

text \<open>
  The states of a store over the memory storage: started with two ranges, then any creations
  (successful or not) and resets.
\<close>

definition memory_reach :: "prefix \<Rightarrow> prefix \<Rightarrow> memory_storage fakeip_store \<Rightarrow> bool" where
  "memory_reach r4 r6 = fs_reach memory_ops (\<lambda>_. True) (fs_Start memory_ops NewMemoryStorage (NewStore r4 r6))"

lemma memory_reach_create:
  "memory_reach r4 r6 s \<Longrightarrow> fs_Create memory_ops domain isIPv6 s = (r, s') \<Longrightarrow> memory_reach r4 r6 s'"
  unfolding memory_reach_def by (rule reach_create) simp_all

lemma memory_start:
  "ranges_ok r4 r6 \<Longrightarrow> store_ok ms_inv (fs_Start memory_ops st (NewStore r4 r6))"
  "all_in_range memory_ops (fs_Start memory_ops st (NewStore r4 r6))"
  "fs_inet4Range (fs_Start memory_ops st (NewStore r4 r6)) = r4"
  "fs_inet6Range (fs_Start memory_ops st (NewStore r4 r6)) = r6"
  by (auto simp: store_ok_def all_in_range_def fs_Start_def NewStore_def ranges_ok_def memory_ops_def
      ms_inv_reset ms_reset_load)

lemma memory_reach_ok:
  "ranges_ok r4 r6 \<Longrightarrow> memory_reach r4 r6 s \<Longrightarrow> store_ok ms_inv s \<and> all_in_range memory_ops s"
  unfolding memory_reach_def by (rule mem.reach_ok) (simp_all add: memory_start)

text \<open>An address handed out in a reachable state.\<close>

lemma created_address:
  assumes "ranges_ok r4 r6" and "memory_reach r4 r6 s"
    and "fs_Create memory_ops domain isIPv6 s = (Ok a, s')"
  shows "prefix_Contains (if isIPv6 then r6 else r4) a" and "fs_Contains s' a"
    and "fs_Lookup memory_ops a s' = Ok (Some domain)"
    and "fs_Create memory_ops domain isIPv6 s' = (Ok a, s')"
    and "fs_Create memory_ops other v6 s' = (Ok a, s') \<Longrightarrow> other = domain \<and> v6 = isIPv6"
proof -
  note c = mem.created [OF memory_start(1) [OF assms(1)] memory_start(2) assms(2) [unfolded memory_reach_def] TrueI
      assms(3)]
  show "prefix_Contains (if isIPv6 then r6 else r4) a" using c(1) by (simp only: memory_start(3,4))
  show "fs_Contains s' a" and "fs_Lookup memory_ops a s' = Ok (Some domain)"
    and "fs_Create memory_ops domain isIPv6 s' = (Ok a, s')" by (rule c)+
  show "other = domain \<and> v6 = isIPv6" if "fs_Create memory_ops other v6 s' = (Ok a, s')"
    by (rule c(5) [OF TrueI that])
qed


definition demo_range4 :: prefix where
  "demo_range4 = \<lparr>px_addr = Addr4 0xC6120000, px_bits = 15\<rparr>"

lemma demo_ranges_ok: "ranges_ok demo_range4 NoPrefix"
  by (simp add: ranges_ok_def demo_range4_def NoPrefix_def prefix_IsValid_def prefix_Contains_def
      range_first_def)

definition demo_store :: "memory_storage fakeip_store" where
  "demo_store = fs_Start memory_ops NewMemoryStorage (NewStore demo_range4 NoPrefix)"

lemma demo_create:
  "fst (fs_Create memory_ops ''example.org'' False demo_store) = Ok (Addr4 0xC6120003)"
  by (simp add: demo_store_def fs_Start_def fs_Create_def NewStore_def memory_ops_def Let_def
      ms_FakeIPReset_def ms_FakeIPLoadDomain_def demo_range4_def prefix_IsValid_def range_first_def
      next_in_range_def prefix_Contains_def NoPrefix_def)


text \<open>
  a creation never disturbs another domain's address, except the one domain that held the
  address being recycled: that domain is forgotten, so its old address is never looked up for two
  domains.
\<close>

theorem fakeip_create_recycles:
  assumes "ranges_ok r4 r6" and "memory_reach r4 r6 s" and "fs_storage s = Some st"
    and "ms_FakeIPLoadDomain st other v6 = Some b" and "(other, v6) \<noteq> (domain, isIPv6)"
    and "fs_Create memory_ops domain isIPv6 s = (Ok a, s')" and "fs_storage s' = Some st'"
  shows "ms_FakeIPLoadDomain st' other v6 = (if b = a \<and> st' \<noteq> st then None else Some b)"
proof -
  note ok = conjunct1 [OF memory_reach_ok [OF assms(1,2)]]
  have "s' = s \<or> ms_FakeIPLoadDomain st' other v6 = (if b = a then None else Some b)"
    using mem.create_load_domain [OF ok TrueI assms(6), of other v6] assms(3,4,5,7)
    by (auto simp: memory_ops_def)
  then show ?thesis using assms(3,4,7) by auto
qed

text \<open>A store over the range 198.18.0.0/30, which cycles through two addresses.\<close>

definition tiny_range :: prefix where
  "tiny_range = \<lparr>px_addr = Addr4 0xC6120000, px_bits = 30\<rparr>"

definition tiny_store :: "memory_storage fakeip_store" where
  "tiny_store = fs_Start memory_ops NewMemoryStorage (NewStore tiny_range NoPrefix)"

definition tiny_create :: "string \<Rightarrow> memory_storage fakeip_store \<Rightarrow> memory_storage fakeip_store" where
  "tiny_create d s = snd (fs_Create memory_ops d False s)"

lemmas tiny_simps = tiny_create_def tiny_store_def tiny_range_def fs_Start_def fs_Create_def NewStore_def
  memory_ops_def Let_def ms_FakeIPReset_def ms_FakeIPLoadDomain_def ms_FakeIPStore_def prefix_IsValid_def
  range_first_def next_in_range_def prefix_Contains_def NoPrefix_def NewMemoryStorage_def

theorem fakeip_create_recycles_witness:
  "ms_FakeIPLoadDomain (the (fs_storage (tiny_create ''c'' (tiny_create ''b'' (tiny_create ''a'' tiny_store)))))
     ''a'' False = None"
proof -
  let ?s = "tiny_create ''b'' (tiny_create ''a'' tiny_store)"
  have reach0: "memory_reach tiny_range NoPrefix tiny_store"
    unfolding tiny_store_def memory_reach_def by (rule reach_start)
  have step: "memory_reach tiny_range NoPrefix (tiny_create d s)" if "memory_reach tiny_range NoPrefix s" for d s
    unfolding tiny_create_def
    by (rule memory_reach_create [OF that, of d False "fst (fs_Create memory_ops d False s)"]) simp
  have reach: "memory_reach tiny_range NoPrefix ?s" by (intro step reach0)
  have ok: "ranges_ok tiny_range NoPrefix"
    by (simp add: ranges_ok_def tiny_range_def NoPrefix_def prefix_IsValid_def prefix_Contains_def
        range_first_def)
  obtain st where st: "fs_storage ?s = Some st" "ms_FakeIPLoadDomain st ''a'' False = Some (Addr4 0xC6120003)"
    "ms_FakeIPLoadDomain st ''c'' False = None"
    by (simp add: tiny_simps)
  obtain s' where op: "fs_Create memory_ops ''c'' False ?s = (Ok (Addr4 0xC6120003), s')"
    by (simp add: tiny_simps)
  then have s': "tiny_create ''c'' ?s = s'" by (simp add: tiny_create_def)
  obtain st' where st': "fs_storage s' = Some st'" "ms_FakeIPLoadDomain st' ''c'' False = Some (Addr4 0xC6120003)"
    unfolding s' [symmetric] by (simp add: tiny_simps)
  from fakeip_create_recycles [OF ok reach st(1,2) _ op st'(1)] st(3) st'(2) s' st'(1)
  show ?thesis by auto
qed

text \<open>
  a range of one or two addresses passes the configuration but does not contain its own start
  address; the store then hands out an address outside the range, which \<^verbatim>\<open>Contains\<close> does not
  recognise.
\<close>

theorem fakeip_small_range_escapes:
  assumes "px_bits r4 = 31 \<or> px_bits r4 = 32" and "px_addr r4 = Addr4 0xC6120000"
  shows "\<exists>a s'. fs_Create memory_ops domain False
      (fs_Start memory_ops NewMemoryStorage (NewStore r4 NoPrefix)) = (Ok a, s') \<and> \<not> fs_Contains s' a"
  using assms
  by (auto simp: fs_Start_def fs_Create_def NewStore_def memory_ops_def Let_def ms_FakeIPReset_def
      ms_FakeIPLoadDomain_def fs_Contains_def prefix_IsValid_def range_first_def next_in_range_def
      prefix_Contains_def NoPrefix_def)

theorem fakeip_small_range_escapes_witness:
  "\<exists>a s'. fs_Create memory_ops ''example.org'' False
      (fs_Start memory_ops NewMemoryStorage (NewStore \<lparr>px_addr = Addr4 0xC6120000, px_bits = 31\<rparr> NoPrefix)) =
      (Ok a, s') \<and> \<not> fs_Contains s' a"
  by (rule fakeip_small_range_escapes) simp_all

section \<open>The delayed metadata writer\<close>

text \<open>Calls of the asynchronous save and expiries of its timer, in any order.\<close>

datatype writer_event = SaveAsync fakeip_metadata | TimerFires

fun writer_step :: "writer_event \<Rightarrow> metadata_writer \<Rightarrow> metadata_writer" where
  "writer_step (SaveAsync md) c = cf_FakeIPSaveMetadataAsync md c"
| "writer_step TimerFires c = cf_timer_fires c"

lemma writer_keeps_first:
  "cf_saveMetadataTimer c = Some md \<Longrightarrow> set (cf_writes c) \<subseteq> {md} \<Longrightarrow>
     cf_saveMetadataTimer (fold writer_step evs c) = Some md \<and>
     set (cf_writes (fold writer_step evs c)) \<subseteq> {md}"
proof (induction evs arbitrary: c)
  case (Cons ev evs)
  have "cf_saveMetadataTimer (writer_step ev c) = Some md \<and> set (cf_writes (writer_step ev c)) \<subseteq> {md}"
    using Cons.prems by (cases ev) (auto simp: cf_FakeIPSaveMetadataAsync_def cf_timer_fires_def)
  with Cons.IH [of "writer_step ev c"] show ?case by simp
qed simp

text \<open>
  however often the store saves its position asynchronously and whenever the timer fires, the
  cache file only ever writes the metadata of the very first call: after a later call and the
  expiry of the timer, the last metadata written, and every one before it, is the first one.
\<close>

theorem cachefile_async_saves_first:
  "let writes = cf_writes (fold writer_step (SaveAsync md # evs @ [SaveAsync md', TimerFires]) NewMetadataWriter)
   in writes \<noteq> [] \<and> last writes = md \<and> set writes \<subseteq> {md}"
proof -
  let ?c = "fold writer_step evs (writer_step (SaveAsync md) NewMetadataWriter)"
  have "cf_saveMetadataTimer ?c = Some md \<and> set (cf_writes ?c) \<subseteq> {md}"
    by (rule writer_keeps_first)
       (simp_all add: NewMetadataWriter_def cf_FakeIPSaveMetadataAsync_def)
  then show ?thesis by (simp add: cf_FakeIPSaveMetadataAsync_def cf_timer_fires_def Let_def)
qed

end
