(* ===== verification/Rule_Metadata.thy ===== *)
theory Rule_Metadata
  imports Netip "HOL-Library.Char_ord" "HOL-Library.Sublist"
begin

text \<open>
  The connection metadata \<^verbatim>\<open>adapter.InboundContext\<close> the rules read and write, what the rules see of
  the network and of third-party packages, and the pieces of Go's \<^verbatim>\<open>strings\<close>, \<^verbatim>\<open>strconv\<close> and
  \<^verbatim>\<open>path/filepath\<close> they use. The seven flags of the comment \<^verbatim>\<open>// rule cache\<close> form a record of their own
  (\<open>rule_cache\<close>); with it, every function of the rule engine can be seen to change nothing else.
\<close>

section \<open>Metadata\<close>

text \<open>\<^verbatim>\<open>M.Socksaddr\<close> is a struct of a third-party package; its fields are read directly.\<close>

record socksaddr =
  sa_Addr :: addr
  sa_Port :: "16 word"
  sa_Fqdn :: string

definition NoSocksaddr :: socksaddr where
  "NoSocksaddr = \<lparr>sa_Addr = NoAddr, sa_Port = 0, sa_Fqdn = []\<rparr>"

record connection_owner =
  co_UserId :: int
  co_UserName :: string
  co_ProcessPath :: string
  co_AndroidPackageName :: string

text \<open>\<^verbatim>\<open>C.InterfaceType\<close> is an 8-bit integer with four named values.\<close>

type_synonym interface_type = "8 word"

definition InterfaceTypeWIFI :: interface_type where "InterfaceTypeWIFI = 0"
definition InterfaceTypeCellular :: interface_type where "InterfaceTypeCellular = 1"
definition InterfaceTypeEthernet :: interface_type where "InterfaceTypeEthernet = 2"
definition InterfaceTypeOther :: interface_type where "InterfaceTypeOther = 3"

record inbound_options =
  io_SniffEnabled :: bool
  io_SniffOverrideDestination :: bool
  io_SniffTimeout :: int
  io_DomainStrategy :: nat
  io_UDPDisableDomainUnmapping :: bool
  io_Detour :: string

definition NoInboundOptions :: inbound_options where
  "NoInboundOptions =
     \<lparr>io_SniffEnabled = False, io_SniffOverrideDestination = False, io_SniffTimeout = 0,
      io_DomainStrategy = 0, io_UDPDisableDomainUnmapping = False, io_Detour = []\<rparr>"

record rule_cache =
  rc_IPCIDRMatchSource :: bool
  rc_IPCIDRAcceptEmpty :: bool
  rc_SourceAddressMatch :: bool
  rc_SourcePortMatch :: bool
  rc_DestinationAddressMatch :: bool
  rc_DestinationPortMatch :: bool
  rc_DidMatch :: bool

definition NoRuleCache :: rule_cache where
  "NoRuleCache =
     \<lparr>rc_IPCIDRMatchSource = False, rc_IPCIDRAcceptEmpty = False, rc_SourceAddressMatch = False,
      rc_SourcePortMatch = False, rc_DestinationAddressMatch = False,
      rc_DestinationPortMatch = False, rc_DidMatch = False\<rparr>"

record metadata =
  md_Inbound :: string
  md_InboundType :: string
  md_IPVersion :: nat
  md_Network :: string
  md_Source :: socksaddr
  md_Destination :: socksaddr
  md_User :: string
  md_Outbound :: string
  md_Protocol :: string
  md_Domain :: string
  md_Client :: string
  md_SnifferNames :: "string list"
  md_SniffError :: "go_err option"
  md_InboundDetour :: string
  md_LastInbound :: string
  md_OriginDestination :: socksaddr
  md_RouteOriginalDestination :: socksaddr
  md_InboundOptions :: inbound_options
  md_UDPDisableDomainUnmapping :: bool
  md_UDPConnect :: bool
  md_UDPTimeout :: int
  md_TLSFragment :: bool
  md_TLSFragmentFallbackDelay :: int
  md_TLSRecordFragment :: bool
  md_NetworkStrategy :: "nat option"
  md_NetworkType :: "interface_type list"
  md_FallbackNetworkType :: "interface_type list"
  md_FallbackDelay :: int
  md_DestinationAddresses :: "addr list"
  md_ProcessInfo :: "connection_owner option"
  md_QueryType :: "16 word"
  md_FakeIP :: bool
  md_cache :: rule_cache
  md_IgnoreDestinationIPCIDRMatch :: bool

definition ResetRuleCache :: "metadata \<Rightarrow> metadata" where
  "ResetRuleCache c = c\<lparr>md_cache := NoRuleCache\<rparr>"

text \<open>The zero value of the struct.\<close>

definition NoMetadata :: metadata where
  "NoMetadata =
     \<lparr>md_Inbound = [], md_InboundType = [], md_IPVersion = 0, md_Network = [],
      md_Source = NoSocksaddr, md_Destination = NoSocksaddr, md_User = [], md_Outbound = [],
      md_Protocol = [], md_Domain = [], md_Client = [], md_SnifferNames = [], md_SniffError = None,
      md_InboundDetour = [], md_LastInbound = [], md_OriginDestination = NoSocksaddr,
      md_RouteOriginalDestination = NoSocksaddr, md_InboundOptions = NoInboundOptions,
      md_UDPDisableDomainUnmapping = False, md_UDPConnect = False, md_UDPTimeout = 0,
      md_TLSFragment = False, md_TLSFragmentFallbackDelay = 0, md_TLSRecordFragment = False,
      md_NetworkStrategy = None, md_NetworkType = [], md_FallbackNetworkType = [],
      md_FallbackDelay = 0, md_DestinationAddresses = [], md_ProcessInfo = None, md_QueryType = 0,
      md_FakeIP = False, md_cache = NoRuleCache, md_IgnoreDestinationIPCIDRMatch = False\<rparr>"

text \<open>Two metadata that differ at most in the rule cache.\<close>

definition same_request :: "metadata \<Rightarrow> metadata \<Rightarrow> bool" where
  "same_request m m' \<longleftrightarrow> ResetRuleCache m = ResetRuleCache m'"

lemma same_request_refl [simp]: "same_request m m"
  and same_request_sym: "same_request m m' \<Longrightarrow> same_request m' m"
  and same_request_trans: "same_request a b \<Longrightarrow> same_request b c \<Longrightarrow> same_request a c"
  by (simp_all add: same_request_def)

lemma same_request_cache [simp]:
  "same_request (m\<lparr>md_cache := c\<rparr>) m' = same_request m m'"
  "same_request m (m'\<lparr>md_cache := c\<rparr>) = same_request m m'"
  by (simp_all add: same_request_def ResetRuleCache_def)

lemma same_request_Reset [simp]:
  "same_request (ResetRuleCache m) m' = same_request m m'"
  "same_request m (ResetRuleCache m') = same_request m m'"
  by (simp_all add: ResetRuleCache_def)

lemma ResetRuleCache_cache [simp]: "ResetRuleCache (m\<lparr>md_cache := c\<rparr>) = ResetRuleCache m"
  "md_cache (ResetRuleCache m) = NoRuleCache"
  "md_IgnoreDestinationIPCIDRMatch (ResetRuleCache m) = md_IgnoreDestinationIPCIDRMatch m"
  by (simp_all add: ResetRuleCache_def)

lemma same_requestD:
  assumes "same_request m m'"
  shows "m' = m\<lparr>md_cache := md_cache m'\<rparr>"
proof -
  have "ResetRuleCache m' = ResetRuleCache m" using assms by (simp add: same_request_def)
  then have "(ResetRuleCache m')\<lparr>md_cache := md_cache m'\<rparr> = (ResetRuleCache m)\<lparr>md_cache := md_cache m'\<rparr>"
    by simp
  then show ?thesis by (simp add: ResetRuleCache_def)
qed

section \<open>What the rules see of the network\<close>

record net_interface =
  ni_Name :: string
  ni_Addresses :: "prefix list"
  ni_Type :: interface_type
  ni_Expensive :: bool
  ni_Constrained :: bool

text \<open>
  A snapshot of the network manager, of the interface finder and monitor, and of the mode of the
  Clash server (\<open>None\<close> when there is none).
\<close>

record net_state =
  ns_DefaultNetworkInterface :: "net_interface option"
  ns_NetworkInterfaces :: "net_interface list"
  ns_Interfaces :: "net_interface list"
  ns_MonitorDefault :: "net_interface option"
  ns_SSID :: string
  ns_BSSID :: string
  ns_ClashMode :: "string option"

text \<open>A machine without any interface, for evaluating rules.\<close>

definition demo_net :: net_state where
  "demo_net =
     \<lparr>ns_DefaultNetworkInterface = None, ns_NetworkInterfaces = [], ns_Interfaces = [],
      ns_MonitorDefault = None, ns_SSID = [], ns_BSSID = [], ns_ClashMode = None\<rparr>"

section \<open>Third-party functions\<close>

text \<open>
  Methods of \<^verbatim>\<open>M.Socksaddr\<close>, \<^verbatim>\<open>N.IsPublicAddr\<close>, the domain matchers of \<^verbatim>\<open>sing/common/domain\<close>, the
  IP set builder of \<^verbatim>\<open>netipx\<close> and the list helpers of \<^verbatim>\<open>sing/common\<close>. Address and expression
  parsers of the standard library (\<^verbatim>\<open>netip.ParsePrefix\<close>, \<^verbatim>\<open>netip.ParseAddr\<close>, \<^verbatim>\<open>regexp.Compile\<close>)
  are arguments too: their results are only passed on. \<^verbatim>\<open>common.All\<close> and \<^verbatim>\<open>common.Any\<close> over rules
  take closures that change the metadata; \<^verbatim>\<open>common.All\<close> over options takes the outcomes its test has
  on the elements, in order.
\<close>

type_synonym 'm matcher = "'m \<Rightarrow> bool \<times> 'm"

record rule_lib =
  rl_IsIP :: "socksaddr \<Rightarrow> bool"
  rl_IsIPv4 :: "socksaddr \<Rightarrow> bool"
  rl_IsIPv6 :: "socksaddr \<Rightarrow> bool"
  rl_IsFqdn :: "socksaddr \<Rightarrow> bool"
  rl_IsValid :: "socksaddr \<Rightarrow> bool"
  rl_IsPublicAddr :: "addr \<Rightarrow> bool"
  rl_NewMatcher :: "string list \<Rightarrow> string list \<Rightarrow> string \<Rightarrow> bool"
  rl_NewAdGuardMatcher :: "string list \<Rightarrow> string \<Rightarrow> bool"
  rl_IPSet :: "(prefix + addr) list \<Rightarrow> go_err + (addr \<Rightarrow> bool)"
  rl_ParsePrefix :: "string \<Rightarrow> go_err + prefix"
  rl_ParseAddr :: "string \<Rightarrow> go_err + addr"
  rl_Compile :: "string \<Rightarrow> go_err + (string \<Rightarrow> bool)"
  rl_ContainsType :: "interface_type list \<Rightarrow> interface_type \<Rightarrow> bool"
  rl_AllPrefix :: "prefix list \<Rightarrow> (prefix \<Rightarrow> bool) \<Rightarrow> bool"
  rl_AnyPrefix :: "prefix list \<Rightarrow> (prefix \<Rightarrow> bool) \<Rightarrow> bool"
  rl_FindInterface :: "net_interface list \<Rightarrow> (net_interface \<Rightarrow> bool) \<Rightarrow> net_interface option"
  rl_All :: "metadata matcher list \<Rightarrow> metadata matcher"
  rl_Any :: "metadata matcher list \<Rightarrow> metadata matcher"
  rl_AnyTag :: "string list \<Rightarrow> (string \<Rightarrow> bool) \<Rightarrow> bool"
  rl_AllValid :: "bool go_out list \<Rightarrow> bool go_out"

text \<open>The documented behaviour the rule engine relies on: evaluation in order, stopping early.\<close>

definition rule_lib_ok :: "rule_lib \<Rightarrow> bool" where
  "rule_lib_ok L \<longleftrightarrow>
     (\<forall>m. rl_All L [] m = (True, m)) \<and>
     (\<forall>f fs m. rl_All L (f # fs) m = (case f m of (True, m') \<Rightarrow> rl_All L fs m' | (False, m') \<Rightarrow> (False, m'))) \<and>
     (\<forall>m. rl_Any L [] m = (False, m)) \<and>
     (\<forall>f fs m. rl_Any L (f # fs) m = (case f m of (True, m') \<Rightarrow> (True, m') | (False, m') \<Rightarrow> rl_Any L fs m')) \<and>
     rl_AllValid L [] = Ok True \<and>
     (\<forall>b bs. rl_AllValid L (b # bs) = (if b = Ok True then rl_AllValid L bs else b))"

lemma rl_All_simps:
  assumes "rule_lib_ok L"
  shows "rl_All L [] m = (True, m)"
    and "rl_All L (f # fs) m = (case f m of (True, m') \<Rightarrow> rl_All L fs m' | (False, m') \<Rightarrow> (False, m'))"
    and "rl_Any L [] m = (False, m)"
    and "rl_Any L (f # fs) m = (case f m of (True, m') \<Rightarrow> (True, m') | (False, m') \<Rightarrow> rl_Any L fs m')"
  using assms unfolding rule_lib_ok_def by blast+

text \<open>A concrete library for evaluating the model.\<close>

fun demo_All :: "'m matcher list \<Rightarrow> 'm matcher" where
  "demo_All [] m = (True, m)"
| "demo_All (f # fs) m = (case f m of (True, m') \<Rightarrow> demo_All fs m' | (False, m') \<Rightarrow> (False, m'))"

fun demo_Any :: "'m matcher list \<Rightarrow> 'm matcher" where
  "demo_Any [] m = (False, m)"
| "demo_Any (f # fs) m = (case f m of (True, m') \<Rightarrow> (True, m') | (False, m') \<Rightarrow> demo_Any fs m')"

fun demo_AllValid :: "bool go_out list \<Rightarrow> bool go_out" where
  "demo_AllValid [] = Ok True"
| "demo_AllValid (b # bs) = (if b = Ok True then demo_AllValid bs else b)"

definition demo_lib :: rule_lib where
  "demo_lib =
     \<lparr>rl_IsIP = (\<lambda>a. addr_IsValid (sa_Addr a)), rl_IsIPv4 = (\<lambda>a. addr_Is4 (sa_Addr a)),
      rl_IsIPv6 = (\<lambda>a. addr_Is6 (sa_Addr a)),
      rl_IsFqdn = (\<lambda>a. sa_Fqdn a \<noteq> [] \<and> \<not> addr_IsValid (sa_Addr a)),
      rl_IsValid = (\<lambda>a. addr_IsValid (sa_Addr a) \<or> sa_Fqdn a \<noteq> []),
      rl_IsPublicAddr = (\<lambda>_. True), rl_NewMatcher = (\<lambda>ds ss h. h \<in> set ds),
      rl_NewAdGuardMatcher = (\<lambda>_ _. False),
      rl_IPSet = (\<lambda>xs. Inr (\<lambda>a. \<exists>x \<in> set xs. case x of Inl p \<Rightarrow> prefix_Contains p a | Inr b \<Rightarrow> a = b)),
      rl_ParsePrefix = (\<lambda>_. Inl (ErrExt ''no prefix'')), rl_ParseAddr = (\<lambda>_. Inl (ErrExt ''no address'')),
      rl_Compile = (\<lambda>e. Inr (\<lambda>s. s = e)), rl_ContainsType = (\<lambda>xs x. x \<in> set xs),
      rl_AllPrefix = (\<lambda>xs p. list_all p xs), rl_AnyPrefix = (\<lambda>xs p. list_ex p xs),
      rl_FindInterface = (\<lambda>xs p. find p xs), rl_All = demo_All, rl_Any = demo_Any, rl_AnyTag = (\<lambda>xs p. list_ex p xs),
      rl_AllValid = demo_AllValid\<rparr>"

lemma demo_lib_All [simp]: "rl_All demo_lib = demo_All" "rl_Any demo_lib = demo_Any"
  "rl_AllValid demo_lib = demo_AllValid"
  by (simp_all add: demo_lib_def)

lemma demo_lib_ok: "rule_lib_ok demo_lib"
  unfolding rule_lib_ok_def demo_lib_All by simp

section \<open>Strings, numbers, paths\<close>

text \<open>
  \<^verbatim>\<open>strings.ToLower\<close> and \<^verbatim>\<open>strings.EqualFold\<close> on the ASCII characters that host names and mode names
  consist of; other bytes are left alone.
\<close>

definition lower_char :: "char \<Rightarrow> char" where
  "lower_char c = (if CHR ''A'' \<le> c \<and> c \<le> CHR ''Z'' then char_of (of_char c + 32 :: nat) else c)"

definition ToLower :: "string \<Rightarrow> string" where
  "ToLower s = map lower_char s"

definition EqualFold :: "string \<Rightarrow> string \<Rightarrow> bool" where
  "EqualFold s t \<longleftrightarrow> ToLower s = ToLower t"

definition strings_Contains :: "string \<Rightarrow> string \<Rightarrow> bool" where
  "strings_Contains s sub \<longleftrightarrow> sublist sub s"

text \<open>\<^verbatim>\<open>strconv.ParseUint(s, 10, 16)\<close>; the two kinds of its error are not told apart.\<close>

definition is_digit :: "char \<Rightarrow> bool" where
  "is_digit c \<longleftrightarrow> CHR ''0'' \<le> c \<and> c \<le> CHR ''9''"

fun digits_value :: "nat \<Rightarrow> string \<Rightarrow> nat" where
  "digits_value n [] = n"
| "digits_value n (c # cs) = digits_value (10 * n + (of_char c - 48)) cs"

definition ParseUint16 :: "string \<Rightarrow> go_err + 16 word" where
  "ParseUint16 s =
     (if s = [] \<or> \<not> list_all is_digit s \<or> digits_value 0 s > 65535
      then Inl (ErrNew [''strconv.ParseUint: parsing '', s])
      else Inr (of_nat (digits_value 0 s)))"

text \<open>\<^verbatim>\<open>filepath.Base\<close> on a Unix path: trailing slashes are dropped, then all up to the last slash.\<close>

definition filepath_Base :: "string \<Rightarrow> string" where
  "filepath_Base path =
     (if path = [] then ''.''
      else
        let p = rev (dropWhile (\<lambda>c. c = CHR ''/'') (rev path));
            b = rev (takeWhile (\<lambda>c. c \<noteq> CHR ''/'') (rev p))
        in if b = [] then ''/'' else b)"

end
