(* ===== verification/Rule_Items.thy ===== *)
theory Rule_Items
  imports Rule_Metadata
begin

text \<open>
  \<^verbatim>\<open>route/rule/rule_item_*.go\<close> and \<^verbatim>\<open>rule_*interface_address.go\<close>: the condition items of rules, with
  their constructors and \<^verbatim>\<open>Match\<close> methods. The descriptions that \<^verbatim>\<open>String\<close> returns are not
  modelled, with one exception. \<^verbatim>\<open>RuleSetItem\<close>, the only item whose \<^verbatim>\<open>Match\<close> changes the metadata,
  is in \<open>Rule_Sets\<close>.
\<close>

section \<open>The items\<close>

text \<open>
  An item holds the fields of its struct that \<^verbatim>\<open>Match\<close> reads. Sets are Go maps to \<^verbatim>\<open>bool\<close>; IP sets,
  compiled expressions and domain matchers are known by their membership method.
\<close>

datatype rule_item =
    InboundItem "string list" "string \<Rightarrow> bool"
  | IPVersionItem bool
  | QueryTypeItem "16 word list" "16 word \<Rightarrow> bool"
  | NetworkItem "string list" "string \<Rightarrow> bool"
  | AuthUserItem "string list" "string \<Rightarrow> bool"
  | ProtocolItem "string list" "string \<Rightarrow> bool"
  | ClientItem "string list" "string \<Rightarrow> bool"
  | DomainItem "string \<Rightarrow> bool"
  | DomainKeywordItem "string list"
  | DomainRegexItem "(string \<Rightarrow> bool) list"
  | IPCIDRItem "addr \<Rightarrow> bool" bool
  | IPIsPrivateItem bool
  | IPAcceptAnyItem
  | PortItem "16 word list" "16 word \<Rightarrow> bool" bool
  | PortRangeItem bool "(16 word \<times> 16 word) list"
  | ProcessItem "string list" "string \<Rightarrow> bool"
  | ProcessPathItem "string list" "string \<Rightarrow> bool"
  | ProcessPathRegexItem "(string \<Rightarrow> bool) list"
  | PackageNameItem "string list" "string \<Rightarrow> bool"
  | UserItem "string list" "string \<Rightarrow> bool"
  | UserIdItem "int list" "int \<Rightarrow> bool"
  | OutboundItem "string list" "string \<Rightarrow> bool" bool
  | ClashModeItem string
  | NetworkTypeItem "interface_type list"
  | NetworkIsExpensiveItem
  | NetworkIsConstrainedItem
  | WIFISSIDItem "string list" "string \<Rightarrow> bool"
  | WIFIBSSIDItem "string list" "string \<Rightarrow> bool"
  | InterfaceAddressItem "(string \<times> prefix list) list"
  | NetworkInterfaceAddressItem "(interface_type \<times> prefix list) list"
  | DefaultInterfaceAddressItem "prefix list"
  | PreferredByItem "string list" "((string \<Rightarrow> bool) \<times> (addr \<Rightarrow> bool)) list"
  | AdGuardDomainItem "string \<Rightarrow> bool"

text \<open>The loop \<^verbatim>\<open>for x in xs { m[x] = true }\<close> the constructors share.\<close>

definition bool_map :: "'a list \<Rightarrow> 'a \<Rightarrow> bool" where
  "bool_map xs = foldl (\<lambda>m x. m(x := True)) (\<lambda>_. False) xs"

lemma bool_map_iff [simp]: "bool_map xs x \<longleftrightarrow> x \<in> set xs"
proof -
  have "foldl (\<lambda>m x. m(x := True)) f xs x \<longleftrightarrow> f x \<or> x \<in> set xs" for f
    by (induction xs arbitrary: f) auto
  then show ?thesis by (simp add: bool_map_def)
qed

section \<open>Constructors\<close>

definition NewInboundRule :: "string list \<Rightarrow> rule_item" where
  "NewInboundRule inbounds = InboundItem inbounds (bool_map inbounds)"

definition NewIPVersionItem :: "bool \<Rightarrow> rule_item" where
  "NewIPVersionItem isIPv6 = IPVersionItem isIPv6"

definition NewQueryTypeItem :: "16 word list \<Rightarrow> rule_item" where
  "NewQueryTypeItem typeList = QueryTypeItem typeList (bool_map typeList)"

definition NewNetworkItem :: "string list \<Rightarrow> rule_item" where
  "NewNetworkItem networks = NetworkItem networks (bool_map networks)"

definition NewAuthUserItem :: "string list \<Rightarrow> rule_item" where
  "NewAuthUserItem users = AuthUserItem users (bool_map users)"

definition NewProtocolItem :: "string list \<Rightarrow> rule_item" where
  "NewProtocolItem protocols = ProtocolItem protocols (bool_map protocols)"

definition NewClientItem :: "string list \<Rightarrow> rule_item" where
  "NewClientItem clients = ClientItem clients (bool_map clients)"

definition NewDomainItem :: "rule_lib \<Rightarrow> string list \<Rightarrow> string list \<Rightarrow> go_err + rule_item" where
  "NewDomainItem L domains domainSuffixes =
     (if [] \<in> set domains then Inl (ErrNew [''domain: empty item is not allowed''])
      else if [] \<in> set domainSuffixes then Inl (ErrNew [''domain_suffix: empty item is not allowed''])
      else Inr (DomainItem (rl_NewMatcher L domains domainSuffixes)))"

definition NewRawDomainItem :: "(string \<Rightarrow> bool) \<Rightarrow> rule_item" where
  "NewRawDomainItem matcher = DomainItem matcher"

definition NewDomainKeywordItem :: "string list \<Rightarrow> rule_item" where
  "NewDomainKeywordItem keywords = DomainKeywordItem keywords"

text \<open>
  The compilation loop of the two items with expressions. The index of the offending entry in the
  error messages of this and the next loop is left out.
\<close>

fun compile_all :: "rule_lib \<Rightarrow> string list \<Rightarrow> go_err + (string \<Rightarrow> bool) list" where
  "compile_all L [] = Inr []"
| "compile_all L (e # es) =
     (case rl_Compile L e of
        Inl err \<Rightarrow> Inl (ErrCause err [''parse expression ''])
      | Inr m \<Rightarrow> (case compile_all L es of Inl x \<Rightarrow> Inl x | Inr ms \<Rightarrow> Inr (m # ms)))"

definition NewDomainRegexItem :: "rule_lib \<Rightarrow> string list \<Rightarrow> go_err + rule_item" where
  "NewDomainRegexItem L expressions =
     (case compile_all L expressions of
        Inl e \<Rightarrow> Inl e
      | Inr matchers \<Rightarrow> Inr (DomainRegexItem matchers))"

definition NewProcessPathRegexItem :: "rule_lib \<Rightarrow> string list \<Rightarrow> go_err + rule_item" where
  "NewProcessPathRegexItem L expressions =
     (case compile_all L expressions of
        Inl e \<Rightarrow> Inl e
      | Inr matchers \<Rightarrow> Inr (ProcessPathRegexItem matchers))"

text \<open>Each string is a prefix or, failing that, a single address; the error is that of the prefix.\<close>

fun parse_prefixes :: "rule_lib \<Rightarrow> string list \<Rightarrow> go_err + (prefix + addr) list" where
  "parse_prefixes L [] = Inr []"
| "parse_prefixes L (s # ss) =
     (case (case rl_ParsePrefix L s of
              Inr p \<Rightarrow> Inr (Inl p)
            | Inl err \<Rightarrow> (case rl_ParseAddr L s of Inr a \<Rightarrow> Inr (Inr a) | Inl _ \<Rightarrow> Inl err)) of
        Inl err \<Rightarrow> Inl (ErrCause err [''parse []''])
      | Inr x \<Rightarrow> (case parse_prefixes L ss of Inl e \<Rightarrow> Inl e | Inr xs \<Rightarrow> Inr (x # xs)))"

definition NewIPCIDRItem :: "rule_lib \<Rightarrow> bool \<Rightarrow> string list \<Rightarrow> go_err + rule_item" where
  "NewIPCIDRItem L isSource prefixStrings =
     (case parse_prefixes L prefixStrings of
        Inl e \<Rightarrow> Inl e
      | Inr entries \<Rightarrow>
          (case rl_IPSet L entries of
             Inl e \<Rightarrow> Inl e
           | Inr ipSet \<Rightarrow> Inr (IPCIDRItem ipSet isSource)))"

definition NewRawIPCIDRItem :: "bool \<Rightarrow> (addr \<Rightarrow> bool) \<Rightarrow> rule_item" where
  "NewRawIPCIDRItem isSource ipSet = IPCIDRItem ipSet isSource"

definition NewIPIsPrivateItem :: "bool \<Rightarrow> rule_item" where
  "NewIPIsPrivateItem isSource = IPIsPrivateItem isSource"

definition NewIPAcceptAnyItem :: rule_item where
  "NewIPAcceptAnyItem = IPAcceptAnyItem"

definition NewPortItem :: "bool \<Rightarrow> 16 word list \<Rightarrow> rule_item" where
  "NewPortItem isSource ports = PortItem ports (bool_map ports) isSource"

text \<open>
  One port range: \<open>start:end\<close>, \<open>start:\<close> (up to 65535), \<open>:end\<close> (from 0). The string is cut at its first
  colon.
\<close>

definition parse_port_range :: "string \<Rightarrow> go_err + 16 word \<times> 16 word" where
  "parse_port_range portRange =
     (if CHR '':'' \<notin> set portRange then Inl (ErrNew [''bad port range'', portRange])
      else
        let before = takeWhile (\<lambda>c. c \<noteq> CHR '':'') portRange;
            after = drop (Suc (length before)) portRange
        in case (if before \<noteq> [] then ParseUint16 before else Inr 0) of
             Inl e \<Rightarrow> Inl (ErrCause e [''bad port range'', portRange])
           | Inr start \<Rightarrow>
               (case (if after = [] then Inr 0xFFFF else ParseUint16 after) of
                  Inl e \<Rightarrow> Inl (ErrCause e [''bad port range'', portRange])
                | Inr end \<Rightarrow> Inr (start, end)))"

fun parse_port_ranges :: "string list \<Rightarrow> go_err + (16 word \<times> 16 word) list" where
  "parse_port_ranges [] = Inr []"
| "parse_port_ranges (r # rs) =
     (case parse_port_range r of
        Inl e \<Rightarrow> Inl e
      | Inr x \<Rightarrow> (case parse_port_ranges rs of Inl e \<Rightarrow> Inl e | Inr xs \<Rightarrow> Inr (x # xs)))"

definition NewPortRangeItem :: "bool \<Rightarrow> string list \<Rightarrow> go_err + rule_item" where
  "NewPortRangeItem isSource rangeList =
     (case parse_port_ranges rangeList of
        Inl e \<Rightarrow> Inl e | Inr ranges \<Rightarrow> Inr (PortRangeItem isSource ranges))"

definition NewProcessItem :: "string list \<Rightarrow> rule_item" where
  "NewProcessItem processNameList = ProcessItem processNameList (bool_map processNameList)"

definition NewProcessPathItem :: "string list \<Rightarrow> rule_item" where
  "NewProcessPathItem processNameList = ProcessPathItem processNameList (bool_map processNameList)"

definition NewPackageNameItem :: "string list \<Rightarrow> rule_item" where
  "NewPackageNameItem packageNameList = PackageNameItem packageNameList (bool_map packageNameList)"

definition NewUserItem :: "string list \<Rightarrow> rule_item" where
  "NewUserItem users = UserItem users (bool_map users)"

definition NewUserIDItem :: "int list \<Rightarrow> rule_item" where
  "NewUserIDItem userIdList = UserIdItem userIdList (bool_map userIdList)"

definition NewOutboundRule :: "string list \<Rightarrow> rule_item" where
  "NewOutboundRule outbounds =
     OutboundItem outbounds (bool_map (filter (\<lambda>o1. o1 \<noteq> ''any'') outbounds)) (''any'' \<in> set outbounds)"

definition NewClashModeItem :: "string \<Rightarrow> rule_item" where
  "NewClashModeItem mode = ClashModeItem mode"

definition NewNetworkTypeItem :: "interface_type list \<Rightarrow> rule_item" where
  "NewNetworkTypeItem networkType = NetworkTypeItem networkType"

definition NewNetworkIsExpensiveItem :: rule_item where
  "NewNetworkIsExpensiveItem = NetworkIsExpensiveItem"

definition NewNetworkIsConstrainedItem :: rule_item where
  "NewNetworkIsConstrainedItem = NetworkIsConstrainedItem"

definition NewWIFISSIDItem :: "string list \<Rightarrow> rule_item" where
  "NewWIFISSIDItem ssidList = WIFISSIDItem ssidList (bool_map ssidList)"

definition NewWIFIBSSIDItem :: "string list \<Rightarrow> rule_item" where
  "NewWIFIBSSIDItem bssidList = WIFIBSSIDItem bssidList (bool_map bssidList)"

definition NewInterfaceAddressItem :: "(string \<times> prefix list) list \<Rightarrow> rule_item" where
  "NewInterfaceAddressItem entries = InterfaceAddressItem entries"

definition NewNetworkInterfaceAddressItem :: "(interface_type \<times> prefix list) list \<Rightarrow> rule_item" where
  "NewNetworkInterfaceAddressItem entries = NetworkInterfaceAddressItem entries"

definition NewDefaultInterfaceAddressItem :: "prefix list \<Rightarrow> rule_item" where
  "NewDefaultInterfaceAddressItem addresses = DefaultInterfaceAddressItem addresses"

definition NewPreferredByItem :: "string list \<Rightarrow> rule_item" where
  "NewPreferredByItem outboundTags = PreferredByItem outboundTags []"

definition NewAdGuardDomainItem :: "rule_lib \<Rightarrow> string list \<Rightarrow> rule_item" where
  "NewAdGuardDomainItem L ruleLines = AdGuardDomainItem (rl_NewAdGuardMatcher L ruleLines)"

definition NewRawAdGuardDomainItem :: "(string \<Rightarrow> bool) \<Rightarrow> rule_item" where
  "NewRawAdGuardDomainItem matcher = AdGuardDomainItem matcher"

section \<open>Match\<close>

text \<open>The name the domain items look at: the sniffed domain, else the requested host name.\<close>

definition domain_host :: "metadata \<Rightarrow> string" where
  "domain_host m = (if md_Domain m \<noteq> [] then md_Domain m else sa_Fqdn (md_Destination m))"

definition InboundItem_Match :: "(string \<Rightarrow> bool) \<Rightarrow> metadata \<Rightarrow> bool" where
  "InboundItem_Match inboundMap m = inboundMap (md_Inbound m)"

definition IPVersionItem_Match :: "rule_lib \<Rightarrow> bool \<Rightarrow> metadata \<Rightarrow> bool" where
  "IPVersionItem_Match L isIPv6 m =
     (md_IPVersion m \<noteq> 0 \<and> (md_IPVersion m = 6) = isIPv6 \<or>
      rl_IsIP L (md_Destination m) \<and> rl_IsIPv6 L (md_Destination m) = isIPv6)"

definition QueryTypeItem_Match :: "(16 word \<Rightarrow> bool) \<Rightarrow> metadata \<Rightarrow> bool" where
  "QueryTypeItem_Match typeMap m = (if md_QueryType m = 0 then False else typeMap (md_QueryType m))"

definition NetworkItem_Match :: "(string \<Rightarrow> bool) \<Rightarrow> metadata \<Rightarrow> bool" where
  "NetworkItem_Match networkMap m = networkMap (md_Network m)"

definition AuthUserItem_Match :: "(string \<Rightarrow> bool) \<Rightarrow> metadata \<Rightarrow> bool" where
  "AuthUserItem_Match userMap m = userMap (md_User m)"

definition ProtocolItem_Match :: "(string \<Rightarrow> bool) \<Rightarrow> metadata \<Rightarrow> bool" where
  "ProtocolItem_Match protocolMap m = protocolMap (md_Protocol m)"

definition ClientItem_Match :: "(string \<Rightarrow> bool) \<Rightarrow> metadata \<Rightarrow> bool" where
  "ClientItem_Match clientMap m = clientMap (md_Client m)"

definition DomainItem_Match :: "(string \<Rightarrow> bool) \<Rightarrow> metadata \<Rightarrow> bool" where
  "DomainItem_Match matcher m =
     (if domain_host m = [] then False else matcher (ToLower (domain_host m)))"

definition DomainKeywordItem_Match :: "string list \<Rightarrow> metadata \<Rightarrow> bool" where
  "DomainKeywordItem_Match keywords m =
     (if domain_host m = [] then False
      else list_ex (\<lambda>keyword. strings_Contains (ToLower (domain_host m)) keyword) keywords)"

definition DomainRegexItem_Match :: "(string \<Rightarrow> bool) list \<Rightarrow> metadata \<Rightarrow> bool" where
  "DomainRegexItem_Match matchers m =
     (if domain_host m = [] then False
      else list_ex (\<lambda>matcher. matcher (ToLower (domain_host m))) matchers)"

definition IPCIDRItem_Match :: "rule_lib \<Rightarrow> (addr \<Rightarrow> bool) \<Rightarrow> bool \<Rightarrow> metadata \<Rightarrow> bool" where
  "IPCIDRItem_Match L ipSet isSource m =
     (if isSource \<or> rc_IPCIDRMatchSource (md_cache m) then ipSet (sa_Addr (md_Source m))
      else if rl_IsIP L (md_Destination m) then ipSet (sa_Addr (md_Destination m))
      else if md_DestinationAddresses m \<noteq> [] then list_ex ipSet (md_DestinationAddresses m)
      else rc_IPCIDRAcceptEmpty (md_cache m))"

definition IPIsPrivateItem_Match :: "rule_lib \<Rightarrow> bool \<Rightarrow> metadata \<Rightarrow> bool" where
  "IPIsPrivateItem_Match L isSource m =
     (let destination = (if isSource then sa_Addr (md_Source m) else sa_Addr (md_Destination m))
      in if addr_IsValid destination then \<not> rl_IsPublicAddr L destination
         else if \<not> isSource
         then list_ex (\<lambda>a. \<not> rl_IsPublicAddr L a) (md_DestinationAddresses m)
         else False)"

definition IPAcceptAnyItem_Match :: "metadata \<Rightarrow> bool" where
  "IPAcceptAnyItem_Match m = (md_DestinationAddresses m \<noteq> [])"

definition item_port :: "bool \<Rightarrow> metadata \<Rightarrow> 16 word" where
  "item_port isSource m = (if isSource then sa_Port (md_Source m) else sa_Port (md_Destination m))"

definition PortItem_Match :: "(16 word \<Rightarrow> bool) \<Rightarrow> bool \<Rightarrow> metadata \<Rightarrow> bool" where
  "PortItem_Match portMap isSource m = portMap (item_port isSource m)"

definition PortRangeItem_Match :: "bool \<Rightarrow> (16 word \<times> 16 word) list \<Rightarrow> metadata \<Rightarrow> bool" where
  "PortRangeItem_Match isSource ranges m =
     (let port = item_port isSource m
      in list_ex (\<lambda>(start, end). start \<le> port \<and> port \<le> end) ranges)"

definition ProcessItem_Match :: "(string \<Rightarrow> bool) \<Rightarrow> metadata \<Rightarrow> bool" where
  "ProcessItem_Match processMap m =
     (case md_ProcessInfo m of
        None \<Rightarrow> False
      | Some p \<Rightarrow> co_ProcessPath p \<noteq> [] \<and> processMap (filepath_Base (co_ProcessPath p)))"

definition ProcessPathItem_Match :: "(string \<Rightarrow> bool) \<Rightarrow> metadata \<Rightarrow> bool" where
  "ProcessPathItem_Match processMap m =
     (case md_ProcessInfo m of
        None \<Rightarrow> False
      | Some p \<Rightarrow> co_ProcessPath p \<noteq> [] \<and> processMap (co_ProcessPath p))"

definition ProcessPathRegexItem_Match :: "(string \<Rightarrow> bool) list \<Rightarrow> metadata \<Rightarrow> bool" where
  "ProcessPathRegexItem_Match matchers m =
     (case md_ProcessInfo m of
        None \<Rightarrow> False
      | Some p \<Rightarrow> co_ProcessPath p \<noteq> [] \<and> list_ex (\<lambda>matcher. matcher (co_ProcessPath p)) matchers)"

definition PackageNameItem_Match :: "(string \<Rightarrow> bool) \<Rightarrow> metadata \<Rightarrow> bool" where
  "PackageNameItem_Match packageMap m =
     (case md_ProcessInfo m of
        None \<Rightarrow> False
      | Some p \<Rightarrow> co_AndroidPackageName p \<noteq> [] \<and> packageMap (co_AndroidPackageName p))"

definition UserItem_Match :: "(string \<Rightarrow> bool) \<Rightarrow> metadata \<Rightarrow> bool" where
  "UserItem_Match userMap m =
     (case md_ProcessInfo m of
        None \<Rightarrow> False
      | Some p \<Rightarrow> co_UserName p \<noteq> [] \<and> userMap (co_UserName p))"

definition UserIdItem_Match :: "(int \<Rightarrow> bool) \<Rightarrow> metadata \<Rightarrow> bool" where
  "UserIdItem_Match userIdMap m =
     (case md_ProcessInfo m of
        None \<Rightarrow> False
      | Some p \<Rightarrow> co_UserId p \<noteq> -1 \<and> userIdMap (co_UserId p))"

definition OutboundItem_Match :: "(string \<Rightarrow> bool) \<Rightarrow> bool \<Rightarrow> metadata \<Rightarrow> bool" where
  "OutboundItem_Match outboundMap matchAny m =
     (if matchAny then md_Outbound m \<noteq> [] else outboundMap (md_Outbound m))"

definition ClashModeItem_Match :: "net_state \<Rightarrow> string \<Rightarrow> bool" where
  "ClashModeItem_Match N mode =
     (case ns_ClashMode N of None \<Rightarrow> False | Some current \<Rightarrow> EqualFold current mode)"

definition NetworkTypeItem_Match :: "rule_lib \<Rightarrow> net_state \<Rightarrow> interface_type list \<Rightarrow> bool" where
  "NetworkTypeItem_Match L N networkType =
     (case ns_DefaultNetworkInterface N of
        None \<Rightarrow> False | Some ni \<Rightarrow> rl_ContainsType L networkType (ni_Type ni))"

definition NetworkIsExpensiveItem_Match :: "net_state \<Rightarrow> bool" where
  "NetworkIsExpensiveItem_Match N =
     (case ns_DefaultNetworkInterface N of None \<Rightarrow> False | Some ni \<Rightarrow> ni_Expensive ni)"

definition NetworkIsConstrainedItem_Match :: "net_state \<Rightarrow> bool" where
  "NetworkIsConstrainedItem_Match N =
     (case ns_DefaultNetworkInterface N of None \<Rightarrow> False | Some ni \<Rightarrow> ni_Constrained ni)"

definition WIFISSIDItem_Match :: "net_state \<Rightarrow> (string \<Rightarrow> bool) \<Rightarrow> bool" where
  "WIFISSIDItem_Match N ssidMap = ssidMap (ns_SSID N)"

definition WIFIBSSIDItem_Match :: "net_state \<Rightarrow> (string \<Rightarrow> bool) \<Rightarrow> bool" where
  "WIFIBSSIDItem_Match N bssidMap = bssidMap (ns_BSSID N)"

text \<open>The iteration order of a Go map does not matter here: every entry has to be satisfied.\<close>

definition InterfaceAddressItem_Match ::
  "rule_lib \<Rightarrow> net_state \<Rightarrow> (string \<times> prefix list) list \<Rightarrow> bool" where
  "InterfaceAddressItem_Match L N interfaceAddresses =
     list_all (\<lambda>(ifName, addresses).
       (case rl_FindInterface L (ns_Interfaces N) (\<lambda>it. ni_Name it = ifName) of
          None \<Rightarrow> False
        | Some iface \<Rightarrow>
            ni_Name iface \<noteq> [] \<and>
            \<not> rl_AllPrefix L addresses (\<lambda>address.
                rl_AllPrefix L (ni_Addresses iface) (\<lambda>it. \<not> prefix_Overlaps address it))))
       interfaceAddresses"

definition NetworkInterfaceAddressItem_Match ::
  "rule_lib \<Rightarrow> net_state \<Rightarrow> (interface_type \<times> prefix list) list \<Rightarrow> bool" where
  "NetworkInterfaceAddressItem_Match L N interfaceAddresses =
     list_all (\<lambda>(ifType, addresses).
       list_ex (\<lambda>ni. ni_Type ni = ifType \<and>
           rl_AnyPrefix L (ni_Addresses ni) (\<lambda>it. rl_AnyPrefix L addresses (\<lambda>p. prefix_Overlaps p it)))
         (ns_NetworkInterfaces N))
       interfaceAddresses"

definition DefaultInterfaceAddressItem_Match :: "rule_lib \<Rightarrow> net_state \<Rightarrow> prefix list \<Rightarrow> bool" where
  "DefaultInterfaceAddressItem_Match L N interfaceAddresses =
     (case ns_MonitorDefault N of
        None \<Rightarrow> False
      | Some defaultInterface \<Rightarrow>
          list_all (\<lambda>address.
            \<not> rl_AllPrefix L (ni_Addresses defaultInterface) (\<lambda>it. \<not> prefix_Overlaps address it))
            interfaceAddresses)"

definition PreferredByItem_Match ::
  "rule_lib \<Rightarrow> ((string \<Rightarrow> bool) \<times> (addr \<Rightarrow> bool)) list \<Rightarrow> metadata \<Rightarrow> bool" where
  "PreferredByItem_Match L outbounds m =
     (if domain_host m \<noteq> [] \<and> list_ex (\<lambda>o1. fst o1 (domain_host m)) outbounds then True
      else if rl_IsIP L (md_Destination m) \<and> list_ex (\<lambda>o1. snd o1 (sa_Addr (md_Destination m))) outbounds
      then True
      else list_ex (\<lambda>a. list_ex (\<lambda>o1. snd o1 a) outbounds) (md_DestinationAddresses m))"

definition AdGuardDomainItem_Match :: "(string \<Rightarrow> bool) \<Rightarrow> metadata \<Rightarrow> bool" where
  "AdGuardDomainItem_Match matcher m =
     (if domain_host m = [] then False else matcher (ToLower (domain_host m)))"

text \<open>The dynamic dispatch of \<^verbatim>\<open>RuleItem.Match\<close>.\<close>

fun item_Match :: "rule_lib \<Rightarrow> net_state \<Rightarrow> rule_item \<Rightarrow> metadata \<Rightarrow> bool" where
  "item_Match L N (InboundItem _ f) m = InboundItem_Match f m"
| "item_Match L N (IPVersionItem v6) m = IPVersionItem_Match L v6 m"
| "item_Match L N (QueryTypeItem _ f) m = QueryTypeItem_Match f m"
| "item_Match L N (NetworkItem _ f) m = NetworkItem_Match f m"
| "item_Match L N (AuthUserItem _ f) m = AuthUserItem_Match f m"
| "item_Match L N (ProtocolItem _ f) m = ProtocolItem_Match f m"
| "item_Match L N (ClientItem _ f) m = ClientItem_Match f m"
| "item_Match L N (DomainItem f) m = DomainItem_Match f m"
| "item_Match L N (DomainKeywordItem ks) m = DomainKeywordItem_Match ks m"
| "item_Match L N (DomainRegexItem ms) m = DomainRegexItem_Match ms m"
| "item_Match L N (IPCIDRItem ipSet src) m = IPCIDRItem_Match L ipSet src m"
| "item_Match L N (IPIsPrivateItem src) m = IPIsPrivateItem_Match L src m"
| "item_Match L N IPAcceptAnyItem m = IPAcceptAnyItem_Match m"
| "item_Match L N (PortItem _ f src) m = PortItem_Match f src m"
| "item_Match L N (PortRangeItem src rs) m = PortRangeItem_Match src rs m"
| "item_Match L N (ProcessItem _ f) m = ProcessItem_Match f m"
| "item_Match L N (ProcessPathItem _ f) m = ProcessPathItem_Match f m"
| "item_Match L N (ProcessPathRegexItem ms) m = ProcessPathRegexItem_Match ms m"
| "item_Match L N (PackageNameItem _ f) m = PackageNameItem_Match f m"
| "item_Match L N (UserItem _ f) m = UserItem_Match f m"
| "item_Match L N (UserIdItem _ f) m = UserIdItem_Match f m"
| "item_Match L N (OutboundItem _ f a) m = OutboundItem_Match f a m"
| "item_Match L N (ClashModeItem mode) m = ClashModeItem_Match N mode"
| "item_Match L N (NetworkTypeItem ts) m = NetworkTypeItem_Match L N ts"
| "item_Match L N NetworkIsExpensiveItem m = NetworkIsExpensiveItem_Match N"
| "item_Match L N NetworkIsConstrainedItem m = NetworkIsConstrainedItem_Match N"
| "item_Match L N (WIFISSIDItem _ f) m = WIFISSIDItem_Match N f"
| "item_Match L N (WIFIBSSIDItem _ f) m = WIFIBSSIDItem_Match N f"
| "item_Match L N (InterfaceAddressItem es) m = InterfaceAddressItem_Match L N es"
| "item_Match L N (NetworkInterfaceAddressItem es) m = NetworkInterfaceAddressItem_Match L N es"
| "item_Match L N (DefaultInterfaceAddressItem ps) m = DefaultInterfaceAddressItem_Match L N ps"
| "item_Match L N (PreferredByItem _ os) m = PreferredByItem_Match L os m"
| "item_Match L N (AdGuardDomainItem f) m = AdGuardDomainItem_Match f m"

section \<open>Port ranges\<close>

lemma of_nat_word16: "n \<le> 65535 \<Longrightarrow> unat (of_nat n :: 16 word) = n"
  by (simp add: unat_of_nat take_bit_nat_eq_self)

lemma takeWhile_colon:
  "CHR '':'' \<notin> set a \<Longrightarrow> takeWhile (\<lambda>c. c \<noteq> CHR '':'') (a @ CHR '':'' # b) = a"
  by (subst takeWhile_append2) auto

lemma parse_port_range_value:
  assumes "list_all is_digit a" and "list_all is_digit b"
    and "lo = (if a = [] then 0 else digits_value 0 a)"
    and "hi = (if b = [] then 65535 else digits_value 0 b)"
  shows "\<exists>e1 e2. parse_port_range (a @ CHR '':'' # b) =
      (if lo \<le> 65535 then if hi \<le> 65535 then Inr (of_nat lo, of_nat hi) else Inl e1 else Inl e2)"
proof -
  have "CHR '':'' \<notin> set a" using assms(1) by (auto simp: list_all_iff is_digit_def)
  note tw = takeWhile_colon [OF this, of b]
  have after: "drop (Suc (length a)) (a @ CHR '':'' # b) = b" by simp
  have pa: "(if a \<noteq> [] then ParseUint16 a else Inr 0) =
      (if lo \<le> 65535 then Inr (of_nat lo) else Inl (ErrNew [''strconv.ParseUint: parsing '', a]))"
    using assms(1,3) by (auto simp: ParseUint16_def)
  have pb: "(if b = [] then Inr 0xFFFF else ParseUint16 b) =
      (if hi \<le> 65535 then Inr (of_nat hi) else Inl (ErrNew [''strconv.ParseUint: parsing '', b]))"
    using assms(2,4) by (auto simp: ParseUint16_def)
  show ?thesis unfolding parse_port_range_def Let_def tw after pa pb by auto
qed

text \<open>
  a port range written as two decimal port numbers with a colon is accepted exactly when both
  numbers fit in 16 bits, an omitted bound standing for 0 or 65535, and the item made from it
  matches exactly the ports between the two numbers.
\<close>

theorem port_range_item_correct:
  assumes "list_all is_digit a" and "list_all is_digit b"
    and "lo = (if a = [] then 0 else digits_value 0 a)"
    and "hi = (if b = [] then 65535 else digits_value 0 b)"
  shows "(lo \<le> 65535 \<and> hi \<le> 65535 \<longleftrightarrow> (\<exists>item. NewPortRangeItem isSource [a @ CHR '':'' # b] = Inr item)) \<and>
    (\<forall>item. NewPortRangeItem isSource [a @ CHR '':'' # b] = Inr item \<longrightarrow>
       (item_Match L N item m \<longleftrightarrow> lo \<le> unat (item_port isSource m) \<and> unat (item_port isSource m) \<le> hi))"
proof -
  obtain e1 e2 where parse: "parse_port_range (a @ CHR '':'' # b) =
      (if lo \<le> 65535 then if hi \<le> 65535 then Inr (of_nat lo, of_nat hi) else Inl e1 else Inl e2)"
    using parse_port_range_value [OF assms] by blast
  show ?thesis
  proof (cases "lo \<le> 65535 \<and> hi \<le> 65535")
    case True
    then have "NewPortRangeItem isSource [a @ CHR '':'' # b] =
        Inr (PortRangeItem isSource [(of_nat lo, of_nat hi)])"
      using parse by (simp add: NewPortRangeItem_def)
    with True of_nat_word16 [of lo] of_nat_word16 [of hi] show ?thesis
      by (simp add: PortRangeItem_Match_def word_le_nat_alt Let_def)
  next
    case False
    with parse show ?thesis by (auto simp: NewPortRangeItem_def)
  qed
qed

theorem port_range_item_correct_witness:
  "\<exists>item. NewPortRangeItem False [''1000:''] = Inr item \<and>
     \<not> item_Match demo_lib demo_net item (NoMetadata\<lparr>md_Destination := NoSocksaddr\<lparr>sa_Port := 999\<rparr>\<rparr>)"
proof -
  have "list_all is_digit ''1000''" "list_all is_digit []" by (simp_all add: is_digit_def)
  from port_range_item_correct [OF this refl refl, of False demo_lib demo_net
      "NoMetadata\<lparr>md_Destination := NoSocksaddr\<lparr>sa_Port := 999\<rparr>\<rparr>"]
  show ?thesis by (auto simp: item_port_def)
qed

end
