(* ===== verification/Rule_Abstract.thy ===== *)
theory Rule_Abstract
  imports Rule_Items
begin

text \<open>
  \<^verbatim>\<open>route/rule/rule_abstract.go\<close>: the grouped conditions of a default rule with the match flags kept
  in the metadata, and the logical combination of rules. The item type and its \<^verbatim>\<open>Match\<close> are
  arguments, as the struct is embedded in headless rules, route rules and DNS rules. For items that
  do not write the metadata the evaluation is computed in closed form (\<open>abstract_Match_pure\<close>), from
  an arbitrary state of the flags: this is what merging a rule-set into a rule means.
\<close>

section \<open>Default rules\<close>

text \<open>The field \<^verbatim>\<open>ruleSetItem\<close> is never set or read in the source; the action is kept beside the rule.\<close>

record 'i abstract_rule =
  ar_items :: "'i list"
  ar_sourceAddressItems :: "'i list"
  ar_sourcePortItems :: "'i list"
  ar_destinationAddressItems :: "'i list"
  ar_destinationIPCIDRItems :: "'i list"
  ar_destinationPortItems :: "'i list"
  ar_allItems :: "'i list"
  ar_invert :: bool

text \<open>The loop over one group: true at the first item that matches.\<close>

fun match_any :: "('i \<Rightarrow> metadata matcher) \<Rightarrow> 'i list \<Rightarrow> metadata matcher" where
  "match_any mi [] m = (False, m)"
| "match_any mi (i # is) m =
     (case mi i m of (True, m') \<Rightarrow> (True, m') | (False, m') \<Rightarrow> match_any mi is m')"

definition did_match :: "metadata \<Rightarrow> metadata" where
  "did_match m = m\<lparr>md_cache := (md_cache m)\<lparr>rc_DidMatch := True\<rparr>\<rparr>"

text \<open>
  The five blocks of \<^verbatim>\<open>Match\<close> that fill a flag: skipped for an empty group or a flag already set.
\<close>

definition match_group ::
  "('i \<Rightarrow> metadata matcher) \<Rightarrow> 'i list \<Rightarrow> (rule_cache \<Rightarrow> bool) \<Rightarrow> (rule_cache \<Rightarrow> rule_cache) \<Rightarrow>
   metadata \<Rightarrow> metadata" where
  "match_group mi is flag set_flag m =
     (if is \<noteq> [] \<and> \<not> flag (md_cache m)
      then (case match_any mi is (did_match m) of
              (True, m2) \<Rightarrow> m2\<lparr>md_cache := set_flag (md_cache m2)\<rparr>
            | (False, m2) \<Rightarrow> m2)
      else m)"

fun match_items :: "('i \<Rightarrow> metadata matcher) \<Rightarrow> 'i list \<Rightarrow> metadata matcher" where
  "match_items mi [] m = (True, m)"
| "match_items mi (i # is) m =
     (case mi i (did_match m) of (False, m') \<Rightarrow> (False, m') | (True, m') \<Rightarrow> match_items mi is m')"

definition match_source_address where
  "match_source_address mi r =
     match_group mi (ar_sourceAddressItems r) rc_SourceAddressMatch (rc_SourceAddressMatch_update (\<lambda>_. True))"

definition match_source_port where
  "match_source_port mi r =
     match_group mi (ar_sourcePortItems r) rc_SourcePortMatch (rc_SourcePortMatch_update (\<lambda>_. True))"

definition match_destination_address where
  "match_destination_address mi r =
     match_group mi (ar_destinationAddressItems r) rc_DestinationAddressMatch
       (rc_DestinationAddressMatch_update (\<lambda>_. True))"

definition match_destination_ipcidr where
  "match_destination_ipcidr mi r m =
     (if \<not> md_IgnoreDestinationIPCIDRMatch m
      then match_group mi (ar_destinationIPCIDRItems r) rc_DestinationAddressMatch
             (rc_DestinationAddressMatch_update (\<lambda>_. True)) m
      else m)"

definition match_destination_port where
  "match_destination_port mi r =
     match_group mi (ar_destinationPortItems r) rc_DestinationPortMatch
       (rc_DestinationPortMatch_update (\<lambda>_. True))"

text \<open>The checks after the items have matched.\<close>

definition match_result :: "'i abstract_rule \<Rightarrow> metadata \<Rightarrow> bool" where
  "match_result r m =
     (let c = md_cache m
      in if ar_sourceAddressItems r \<noteq> [] \<and> \<not> rc_SourceAddressMatch c then ar_invert r
         else if ar_sourcePortItems r \<noteq> [] \<and> \<not> rc_SourcePortMatch c then ar_invert r
         else if (\<not> md_IgnoreDestinationIPCIDRMatch m \<and> ar_destinationIPCIDRItems r \<noteq> [] \<or>
                  ar_destinationAddressItems r \<noteq> []) \<and> \<not> rc_DestinationAddressMatch c then ar_invert r
         else if ar_destinationPortItems r \<noteq> [] \<and> \<not> rc_DestinationPortMatch c then ar_invert r
         else if \<not> rc_DidMatch c then True
         else \<not> ar_invert r)"

definition abstract_Match :: "('i \<Rightarrow> metadata matcher) \<Rightarrow> 'i abstract_rule \<Rightarrow> metadata matcher" where
  "abstract_Match mi r m =
     (if ar_allItems r = [] then (True, m)
      else
        let m1 = match_source_address mi r m;
            m2 = match_source_port mi r m1;
            m3 = match_destination_address mi r m2;
            m4 = match_destination_ipcidr mi r m3;
            m5 = match_destination_port mi r m4
        in case match_items mi (ar_items r) m5 of
             (False, m6) \<Rightarrow> (ar_invert r, m6)
           | (True, m6) \<Rightarrow> (match_result r m6, m6))"

section \<open>Logical rules\<close>

text \<open>
  \<^verbatim>\<open>common.All\<close> or \<^verbatim>\<open>common.Any\<close> over the sub-rules, each on a reset cache, compared with \<^verbatim>\<open>invert\<close>.
  Any mode but \<^verbatim>\<open>and\<close> is a disjunction.
\<close>

definition LogicalTypeAnd :: string where "LogicalTypeAnd = ''and''"

definition LogicalTypeOr :: string where "LogicalTypeOr = ''or''"

definition logical_Match :: "rule_lib \<Rightarrow> string \<Rightarrow> bool \<Rightarrow> metadata matcher list \<Rightarrow> metadata matcher" where
  "logical_Match L mode invert subs m =
     (let fs = map (\<lambda>f m'. f (ResetRuleCache m')) subs
      in if mode = LogicalTypeAnd
         then (case rl_All L fs m of (b, m') \<Rightarrow> (b \<noteq> invert, m'))
         else (case rl_Any L fs m of (b, m') \<Rightarrow> (b \<noteq> invert, m')))"

section \<open>Building a default rule\<close>

text \<open>
  The constructors append items one option after the other. A step is the test of the option, the
  group the item goes to and the item or the error its construction ends with; the first error of a
  test that holds is returned.
\<close>

datatype item_group =
    GItems | GSourceAddress | GSourcePort | GDestinationAddress | GDestinationIPCIDR | GDestinationPort

fun group_items :: "item_group \<Rightarrow> 'i abstract_rule \<Rightarrow> 'i list" where
  "group_items GItems r = ar_items r"
| "group_items GSourceAddress r = ar_sourceAddressItems r"
| "group_items GSourcePort r = ar_sourcePortItems r"
| "group_items GDestinationAddress r = ar_destinationAddressItems r"
| "group_items GDestinationIPCIDR r = ar_destinationIPCIDRItems r"
| "group_items GDestinationPort r = ar_destinationPortItems r"

fun push_item :: "item_group \<Rightarrow> 'i \<Rightarrow> 'i abstract_rule \<Rightarrow> 'i abstract_rule" where
  "push_item GItems i r = r\<lparr>ar_items := ar_items r @ [i], ar_allItems := ar_allItems r @ [i]\<rparr>"
| "push_item GSourceAddress i r =
     r\<lparr>ar_sourceAddressItems := ar_sourceAddressItems r @ [i], ar_allItems := ar_allItems r @ [i]\<rparr>"
| "push_item GSourcePort i r =
     r\<lparr>ar_sourcePortItems := ar_sourcePortItems r @ [i], ar_allItems := ar_allItems r @ [i]\<rparr>"
| "push_item GDestinationAddress i r =
     r\<lparr>ar_destinationAddressItems := ar_destinationAddressItems r @ [i], ar_allItems := ar_allItems r @ [i]\<rparr>"
| "push_item GDestinationIPCIDR i r =
     r\<lparr>ar_destinationIPCIDRItems := ar_destinationIPCIDRItems r @ [i], ar_allItems := ar_allItems r @ [i]\<rparr>"
| "push_item GDestinationPort i r =
     r\<lparr>ar_destinationPortItems := ar_destinationPortItems r @ [i], ar_allItems := ar_allItems r @ [i]\<rparr>"

type_synonym 'i step = "bool \<times> item_group \<times> (go_err + 'i)"

fun build_rule :: "'i step list \<Rightarrow> 'i abstract_rule \<Rightarrow> go_err + 'i abstract_rule" where
  "build_rule [] r = Inr r"
| "build_rule ((cond, g, item) # steps) r =
     (if \<not> cond then build_rule steps r
      else case item of Inl e \<Rightarrow> Inl e | Inr i \<Rightarrow> build_rule steps (push_item g i r))"

definition empty_rule :: "bool \<Rightarrow> 'i abstract_rule" where
  "empty_rule invert =
     \<lparr>ar_items = [], ar_sourceAddressItems = [], ar_sourcePortItems = [], ar_destinationAddressItems = [],
      ar_destinationIPCIDRItems = [], ar_destinationPortItems = [], ar_allItems = [], ar_invert = invert\<rparr>"

text \<open>Well-formedness: the rule has an item exactly when one of its groups has.\<close>

definition rule_wf :: "'i abstract_rule \<Rightarrow> bool" where
  "rule_wf r \<longleftrightarrow> set (ar_allItems r) = (\<Union>g. set (group_items g r))"

lemma group_UN:
  "(\<Union>g. set (group_items g r)) =
     set (ar_items r) \<union> set (ar_sourceAddressItems r) \<union> set (ar_sourcePortItems r) \<union>
     set (ar_destinationAddressItems r) \<union> set (ar_destinationIPCIDRItems r) \<union>
     set (ar_destinationPortItems r)"
proof -
  have U: "(UNIV :: item_group set) =
      {GItems, GSourceAddress, GSourcePort, GDestinationAddress, GDestinationIPCIDR, GDestinationPort}"
    using item_group.exhaust by blast
  show ?thesis unfolding U by (simp add: Un_assoc)
qed

lemma push_item_group:
  "group_items g (push_item g' i r) = group_items g r @ (if g' = g then [i] else [])"
  by (cases g'; cases g) simp_all

lemma push_item_all: "ar_allItems (push_item g i r) = ar_allItems r @ [i]"
  by (cases g) simp_all

lemma push_item_wf: "rule_wf r \<Longrightarrow> rule_wf (push_item g i r)"
  unfolding rule_wf_def push_item_group push_item_all by (auto split: if_splits)

lemma build_rule_wf: "build_rule steps r = Inr r' \<Longrightarrow> rule_wf r \<Longrightarrow> rule_wf r'"
  by (induction steps r rule: build_rule.induct) (auto split: if_splits sum.splits intro: push_item_wf)

lemma empty_rule_wf [simp]: "rule_wf (empty_rule invert)"
  by (simp add: rule_wf_def group_UN empty_rule_def)

lemma push_item_invert [simp]: "ar_invert (push_item g i r) = ar_invert r"
  by (cases g) simp_all

lemma build_rule_invert: "build_rule steps r = Inr r' \<Longrightarrow> ar_invert r' = ar_invert r"
  by (induction steps r rule: build_rule.induct) (auto split: if_splits sum.splits)

text \<open>The items of a group, in the order of the steps that were taken.\<close>

lemma build_rule_group:
  "build_rule steps r = Inr r' \<Longrightarrow>
     group_items g r' = group_items g r @
       [i. (cond, g', item) \<leftarrow> steps, cond \<and> g' = g, i \<leftarrow> (case item of Inl _ \<Rightarrow> [] | Inr i \<Rightarrow> [i])]"
proof (induction steps r rule: build_rule.induct)
  case (2 cond g' item steps r)
  show ?case
  proof (cases "cond")
    case False
    with 2 show ?thesis by simp
  next
    case True
    with 2 show ?thesis by (auto simp: push_item_group split: sum.splits)
  qed
qed simp

section \<open>Evaluation with items that only read\<close>

text \<open>An item that reads the metadata, and of the cache at most the two rule-set flags.\<close>

definition reads_only :: "('i \<Rightarrow> metadata \<Rightarrow> bool) \<Rightarrow> bool" where
  "reads_only p \<longleftrightarrow>
     (\<forall>i m c. rc_IPCIDRMatchSource c = rc_IPCIDRMatchSource (md_cache m) \<longrightarrow>
        rc_IPCIDRAcceptEmpty c = rc_IPCIDRAcceptEmpty (md_cache m) \<longrightarrow> p i (m\<lparr>md_cache := c\<rparr>) = p i m)"

definition pure :: "('i \<Rightarrow> metadata \<Rightarrow> bool) \<Rightarrow> 'i \<Rightarrow> metadata matcher" where
  "pure p i m = (p i m, m)"

lemma item_Match_reads_only: "reads_only (item_Match L N)"
  unfolding reads_only_def
proof (intro allI impI)
  fix i and m :: metadata and c :: rule_cache
  assume "rc_IPCIDRMatchSource c = rc_IPCIDRMatchSource (md_cache m)"
    and "rc_IPCIDRAcceptEmpty c = rc_IPCIDRAcceptEmpty (md_cache m)"
  then show "item_Match L N i (m\<lparr>md_cache := c\<rparr>) = item_Match L N i m"
    by (cases i)
       (simp_all add: InboundItem_Match_def IPVersionItem_Match_def QueryTypeItem_Match_def
         NetworkItem_Match_def AuthUserItem_Match_def ProtocolItem_Match_def ClientItem_Match_def
         DomainItem_Match_def DomainKeywordItem_Match_def DomainRegexItem_Match_def
         IPCIDRItem_Match_def IPIsPrivateItem_Match_def IPAcceptAnyItem_Match_def PortItem_Match_def
         PortRangeItem_Match_def ProcessItem_Match_def ProcessPathItem_Match_def
         ProcessPathRegexItem_Match_def PackageNameItem_Match_def UserItem_Match_def
         UserIdItem_Match_def OutboundItem_Match_def PreferredByItem_Match_def
         AdGuardDomainItem_Match_def domain_host_def item_port_def)
qed

lemma reads_onlyD:
  "reads_only p \<Longrightarrow> rc_IPCIDRMatchSource c = rc_IPCIDRMatchSource (md_cache m) \<Longrightarrow>
     rc_IPCIDRAcceptEmpty c = rc_IPCIDRAcceptEmpty (md_cache m) \<Longrightarrow> p i (m\<lparr>md_cache := c\<rparr>) = p i m"
  by (simp add: reads_only_def)

definition any_item :: "('i \<Rightarrow> metadata \<Rightarrow> bool) \<Rightarrow> 'i list \<Rightarrow> metadata \<Rightarrow> bool" where
  "any_item p is m \<longleftrightarrow> (\<exists>i \<in> set is. p i m)"

lemma any_item_Nil [simp]: "any_item p [] m = False"
  by (simp add: any_item_def)

lemma match_any_pure: "match_any (pure p) is m = (any_item p is m, m)"
  by (induction "is") (auto simp: pure_def any_item_def split: prod.splits bool.splits)

lemma match_items_pure:
  assumes "reads_only p"
  shows "match_items (pure p) is m = (\<forall>i \<in> set is. p i m, if is = [] then m else did_match m)"
proof (induction "is" arbitrary: m)
  case (Cons i "is")
  have p: "p j (did_match m) = p j m" for j
    unfolding did_match_def by (rule reads_onlyD [OF assms]) simp_all
  have "did_match (did_match m) = did_match m" by (simp add: did_match_def)
  with Cons.IH [of "did_match m"] p show ?case by (auto simp: pure_def split: bool.splits)
qed simp

lemma match_group_pure:
  assumes "reads_only p"
  shows "match_group (pure p) is flag set_flag m =
    (if is \<noteq> [] \<and> \<not> flag (md_cache m)
     then m\<lparr>md_cache := (if any_item p is m then set_flag else (\<lambda>c. c)) ((md_cache m)\<lparr>rc_DidMatch := True\<rparr>)\<rparr>
     else m)"
proof -
  have p: "any_item p is (did_match m) = any_item p is m"
    unfolding did_match_def any_item_def using reads_onlyD [OF assms] by simp
  show ?thesis
    unfolding match_group_def match_any_pure p by (simp add: did_match_def split: bool.splits)
qed

text \<open>The flags after the groups, and whether any group was looked at.\<close>

definition flags_after :: "('i \<Rightarrow> metadata \<Rightarrow> bool) \<Rightarrow> 'i abstract_rule \<Rightarrow> metadata \<Rightarrow> rule_cache" where
  "flags_after p r m =
     (let c = md_cache m;
          ignore = md_IgnoreDestinationIPCIDRMatch m;
          da = (rc_DestinationAddressMatch c \<or> any_item p (ar_destinationAddressItems r) m)
      in c\<lparr>rc_SourceAddressMatch := rc_SourceAddressMatch c \<or> any_item p (ar_sourceAddressItems r) m,
           rc_SourcePortMatch := rc_SourcePortMatch c \<or> any_item p (ar_sourcePortItems r) m,
           rc_DestinationAddressMatch := da \<or> \<not> ignore \<and> any_item p (ar_destinationIPCIDRItems r) m,
           rc_DestinationPortMatch := rc_DestinationPortMatch c \<or> any_item p (ar_destinationPortItems r) m,
           rc_DidMatch := rc_DidMatch c \<or>
             ar_sourceAddressItems r \<noteq> [] \<and> \<not> rc_SourceAddressMatch c \<or>
             ar_sourcePortItems r \<noteq> [] \<and> \<not> rc_SourcePortMatch c \<or>
             ar_destinationAddressItems r \<noteq> [] \<and> \<not> rc_DestinationAddressMatch c \<or>
             \<not> ignore \<and> ar_destinationIPCIDRItems r \<noteq> [] \<and> \<not> da \<or>
             ar_destinationPortItems r \<noteq> [] \<and> \<not> rc_DestinationPortMatch c \<or>
             ar_items r \<noteq> []\<rparr>)"

text \<open>A cache with the same rule-set flags as the metadata.\<close>

definition flags_kept :: "rule_cache \<Rightarrow> metadata \<Rightarrow> bool" where
  "flags_kept c m \<longleftrightarrow>
     rc_IPCIDRMatchSource c = rc_IPCIDRMatchSource (md_cache m) \<and>
     rc_IPCIDRAcceptEmpty c = rc_IPCIDRAcceptEmpty (md_cache m)"

lemma reads_only_kept:
  assumes "reads_only p" and "flags_kept c m"
  shows "p i (m\<lparr>md_cache := c\<rparr>) = p i m" and "any_item p is (m\<lparr>md_cache := c\<rparr>) = any_item p is m"
  using assms by (simp_all add: flags_kept_def reads_onlyD any_item_def)

lemma group_source_address:
  assumes "reads_only p" and "flags_kept c m"
  shows "match_source_address (pure p) r (m\<lparr>md_cache := c\<rparr>) =
    m\<lparr>md_cache := c\<lparr>rc_SourceAddressMatch := rc_SourceAddressMatch c \<or> any_item p (ar_sourceAddressItems r) m,
       rc_DidMatch := rc_DidMatch c \<or> ar_sourceAddressItems r \<noteq> [] \<and> \<not> rc_SourceAddressMatch c\<rparr>\<rparr>"
  unfolding match_source_address_def match_group_pure [OF assms(1)] reads_only_kept [OF assms]
  by (cases c; cases "any_item p (ar_sourceAddressItems r) m"; cases "ar_sourceAddressItems r = []") simp_all

lemma group_source_port:
  assumes "reads_only p" and "flags_kept c m"
  shows "match_source_port (pure p) r (m\<lparr>md_cache := c\<rparr>) =
    m\<lparr>md_cache := c\<lparr>rc_SourcePortMatch := rc_SourcePortMatch c \<or> any_item p (ar_sourcePortItems r) m,
       rc_DidMatch := rc_DidMatch c \<or> ar_sourcePortItems r \<noteq> [] \<and> \<not> rc_SourcePortMatch c\<rparr>\<rparr>"
  unfolding match_source_port_def match_group_pure [OF assms(1)] reads_only_kept [OF assms]
  by (cases c; cases "any_item p (ar_sourcePortItems r) m"; cases "ar_sourcePortItems r = []") simp_all

lemma group_destination_address:
  assumes "reads_only p" and "flags_kept c m"
  shows "match_destination_address (pure p) r (m\<lparr>md_cache := c\<rparr>) =
    m\<lparr>md_cache := c\<lparr>rc_DestinationAddressMatch := rc_DestinationAddressMatch c \<or> any_item p (ar_destinationAddressItems r) m,
       rc_DidMatch := rc_DidMatch c \<or> ar_destinationAddressItems r \<noteq> [] \<and> \<not> rc_DestinationAddressMatch c\<rparr>\<rparr>"
  unfolding match_destination_address_def match_group_pure [OF assms(1)] reads_only_kept [OF assms]
  by (cases c; cases "any_item p (ar_destinationAddressItems r) m"; cases "ar_destinationAddressItems r = []") simp_all

lemma group_destination_ipcidr:
  assumes "reads_only p" and "flags_kept c m"
  shows "match_destination_ipcidr (pure p) r (m\<lparr>md_cache := c\<rparr>) =
    m\<lparr>md_cache := c\<lparr>rc_DestinationAddressMatch := rc_DestinationAddressMatch c \<or> \<not> md_IgnoreDestinationIPCIDRMatch m \<and> any_item p (ar_destinationIPCIDRItems r) m,
       rc_DidMatch := rc_DidMatch c \<or> \<not> md_IgnoreDestinationIPCIDRMatch m \<and> ar_destinationIPCIDRItems r \<noteq> [] \<and> \<not> rc_DestinationAddressMatch c\<rparr>\<rparr>"
  unfolding match_destination_ipcidr_def match_group_pure [OF assms(1)] reads_only_kept [OF assms]
  by (cases c; cases "any_item p (ar_destinationIPCIDRItems r) m"; cases "ar_destinationIPCIDRItems r = []") simp_all

lemma group_destination_port:
  assumes "reads_only p" and "flags_kept c m"
  shows "match_destination_port (pure p) r (m\<lparr>md_cache := c\<rparr>) =
    m\<lparr>md_cache := c\<lparr>rc_DestinationPortMatch := rc_DestinationPortMatch c \<or> any_item p (ar_destinationPortItems r) m,
       rc_DidMatch := rc_DidMatch c \<or> ar_destinationPortItems r \<noteq> [] \<and> \<not> rc_DestinationPortMatch c\<rparr>\<rparr>"
  unfolding match_destination_port_def match_group_pure [OF assms(1)] reads_only_kept [OF assms]
  by (cases c; cases "any_item p (ar_destinationPortItems r) m"; cases "ar_destinationPortItems r = []") simp_all

lemmas groups_pure = group_source_address group_source_port group_destination_address
  group_destination_ipcidr group_destination_port

definition match_groups :: "('i \<Rightarrow> metadata matcher) \<Rightarrow> 'i abstract_rule \<Rightarrow> metadata \<Rightarrow> metadata" where
  "match_groups mi r m =
     match_destination_port mi r (match_destination_ipcidr mi r (match_destination_address mi r
       (match_source_port mi r (match_source_address mi r m))))"

lemma abstract_Match_groups:
  "ar_allItems r \<noteq> [] \<Longrightarrow> abstract_Match mi r m =
     (case match_items mi (ar_items r) (match_groups mi r m) of
        (False, m6) \<Rightarrow> (ar_invert r, m6) | (True, m6) \<Rightarrow> (match_result r m6, m6))"
  by (simp add: abstract_Match_def match_groups_def Let_def)

lemma match_groups_pure:
  assumes "reads_only p"
  shows "match_groups (pure p) r m = m\<lparr>md_cache := flags_after p (r\<lparr>ar_items := []\<rparr>) m\<rparr>"
proof -
  have m: "m = m\<lparr>md_cache := md_cache m\<rparr>" by simp
  show ?thesis
    unfolding match_groups_def
    by (subst m, subst groups_pure(1) [OF assms], simp add: flags_kept_def,
        subst groups_pure(2) [OF assms], simp add: flags_kept_def,
        subst groups_pure(3) [OF assms], simp add: flags_kept_def,
        subst groups_pure(4) [OF assms], simp add: flags_kept_def,
        subst groups_pure(5) [OF assms], simp add: flags_kept_def)
       (auto simp: flags_after_def Let_def)
qed

lemma flags_after_kept: "flags_kept (flags_after p r m) m"
  by (simp add: flags_after_def flags_kept_def Let_def)

text \<open>
  The result and the flags of a default rule whose items only read, from any state of the flags.
\<close>

lemma abstract_Match_pure:
  assumes "reads_only p" and "ar_allItems r \<noteq> []"
  shows "abstract_Match (pure p) r m =
    (if \<forall>i \<in> set (ar_items r). p i m then match_result r (m\<lparr>md_cache := flags_after p r m\<rparr>) else ar_invert r,
     m\<lparr>md_cache := flags_after p r m\<rparr>)"
proof -
  let ?c = "flags_after p (r\<lparr>ar_items := []\<rparr>) m"
  have p5: "p i (m\<lparr>md_cache := ?c\<rparr>) = p i m" for i
    by (rule reads_only_kept(1) [OF assms(1) flags_after_kept])
  have last: "(if ar_items r = [] then m\<lparr>md_cache := ?c\<rparr> else did_match (m\<lparr>md_cache := ?c\<rparr>)) =
      m\<lparr>md_cache := flags_after p r m\<rparr>"
    by (simp add: flags_after_def did_match_def Let_def)
  show ?thesis
    unfolding abstract_Match_groups [OF assms(2)] match_groups_pure [OF assms(1)]
      match_items_pure [OF assms(1)] p5 last
    by (simp split: bool.splits)
qed

end
