(* ===== verification/Rule_Sets.thy ===== *)
theory Rule_Sets
  imports Rule_Abstract
begin

text \<open>
  \<^verbatim>\<open>route/rule/rule_headless.go\<close>, \<^verbatim>\<open>rule_set.go\<close>, \<^verbatim>\<open>rule_set_local.go\<close> and \<^verbatim>\<open>rule_item_rule_set.go\<close>:
  headless rules and their construction from options, local rule-sets with their reference count,
  and the item of a rule that matches against rule-sets. Rule-sets live in a store indexed by their
  tag, as the items hold pointers to them and see their reloads.
\<close>

section \<open>Headless rules\<close>

datatype headless_rule =
    DefaultHeadlessRule "rule_item abstract_rule"
  | LogicalHeadlessRule "headless_rule list" string bool

fun headless_Match :: "rule_lib \<Rightarrow> net_state \<Rightarrow> headless_rule \<Rightarrow> metadata \<Rightarrow> bool \<times> metadata" where
  "headless_Match L N (DefaultHeadlessRule r) m = abstract_Match (pure (item_Match L N)) r m"
| "headless_Match L N (LogicalHeadlessRule rules mode invert) m =
     logical_Match L mode invert (map (\<lambda>r m'. headless_Match L N r m') rules) m"

section \<open>Options and constructors\<close>

text \<open>
  \<^verbatim>\<open>option.DefaultHeadlessRule\<close>: an absent list is empty, an absent pointer is \<open>None\<close>. Interface
  types and addresses are the built values of the JSON forms. A slice without elements stands for
  the nil slice of an omitted option; \<^verbatim>\<open>reflect.DeepEqual\<close> in \<^verbatim>\<open>IsValid\<close> takes an empty slice that is
  not nil for a condition, a difference the lists here do not have.
\<close>

record headless_options =
  ho_QueryType :: "16 word list"
  ho_Network :: "string list"
  ho_Domain :: "string list"
  ho_DomainSuffix :: "string list"
  ho_DomainKeyword :: "string list"
  ho_DomainRegex :: "string list"
  ho_SourceIPCIDR :: "string list"
  ho_IPCIDR :: "string list"
  ho_SourcePort :: "16 word list"
  ho_SourcePortRange :: "string list"
  ho_Port :: "16 word list"
  ho_PortRange :: "string list"
  ho_ProcessName :: "string list"
  ho_ProcessPath :: "string list"
  ho_ProcessPathRegex :: "string list"
  ho_PackageName :: "string list"
  ho_NetworkType :: "interface_type list"
  ho_NetworkIsExpensive :: bool
  ho_NetworkIsConstrained :: bool
  ho_WIFISSID :: "string list"
  ho_WIFIBSSID :: "string list"
  ho_NetworkInterfaceAddress :: "(interface_type \<times> prefix list) list"
  ho_DefaultInterfaceAddress :: "prefix list"
  ho_Invert :: bool
  ho_DomainMatcher :: "(string \<Rightarrow> bool) option"
  ho_SourceIPSet :: "(addr \<Rightarrow> bool) option"
  ho_IPSet :: "(addr \<Rightarrow> bool) option"
  ho_AdGuardDomain :: "string list"
  ho_AdGuardDomainMatcher :: "(string \<Rightarrow> bool) option"

definition NoHeadlessOptions :: headless_options where
  "NoHeadlessOptions =
     \<lparr>ho_QueryType = [], ho_Network = [], ho_Domain = [], ho_DomainSuffix = [], ho_DomainKeyword = [],
      ho_DomainRegex = [], ho_SourceIPCIDR = [], ho_IPCIDR = [], ho_SourcePort = [],
      ho_SourcePortRange = [], ho_Port = [], ho_PortRange = [], ho_ProcessName = [],
      ho_ProcessPath = [], ho_ProcessPathRegex = [], ho_PackageName = [], ho_NetworkType = [],
      ho_NetworkIsExpensive = False, ho_NetworkIsConstrained = False, ho_WIFISSID = [],
      ho_WIFIBSSID = [], ho_NetworkInterfaceAddress = [], ho_DefaultInterfaceAddress = [],
      ho_Invert = False, ho_DomainMatcher = None, ho_SourceIPSet = None, ho_IPSet = None,
      ho_AdGuardDomain = [], ho_AdGuardDomainMatcher = None\<rparr>"

text \<open>\<^verbatim>\<open>DefaultHeadlessRule.IsValid\<close>: some field but \<^verbatim>\<open>Invert\<close> differs from its zero value.\<close>

definition DefaultHeadlessRule_IsValid :: "headless_options \<Rightarrow> bool" where
  "DefaultHeadlessRule_IsValid o1 \<longleftrightarrow>
     ho_QueryType o1 \<noteq> [] \<or> ho_Network o1 \<noteq> [] \<or> ho_Domain o1 \<noteq> [] \<or> ho_DomainSuffix o1 \<noteq> [] \<or>
     ho_DomainKeyword o1 \<noteq> [] \<or> ho_DomainRegex o1 \<noteq> [] \<or> ho_SourceIPCIDR o1 \<noteq> [] \<or>
     ho_IPCIDR o1 \<noteq> [] \<or> ho_SourcePort o1 \<noteq> [] \<or> ho_SourcePortRange o1 \<noteq> [] \<or> ho_Port o1 \<noteq> [] \<or>
     ho_PortRange o1 \<noteq> [] \<or> ho_ProcessName o1 \<noteq> [] \<or> ho_ProcessPath o1 \<noteq> [] \<or>
     ho_ProcessPathRegex o1 \<noteq> [] \<or> ho_PackageName o1 \<noteq> [] \<or> ho_NetworkType o1 \<noteq> [] \<or>
     ho_NetworkIsExpensive o1 \<or> ho_NetworkIsConstrained o1 \<or> ho_WIFISSID o1 \<noteq> [] \<or>
     ho_WIFIBSSID o1 \<noteq> [] \<or> ho_NetworkInterfaceAddress o1 \<noteq> [] \<or>
     ho_DefaultInterfaceAddress o1 \<noteq> [] \<or> \<not> Option.is_none (ho_DomainMatcher o1) \<or>
     \<not> Option.is_none (ho_SourceIPSet o1) \<or> \<not> Option.is_none (ho_IPSet o1) \<or>
     ho_AdGuardDomain o1 \<noteq> [] \<or> \<not> Option.is_none (ho_AdGuardDomainMatcher o1)"

text \<open>The wrapping of a construction error with the name of the option.\<close>

definition cause :: "string \<Rightarrow> go_err + 'a \<Rightarrow> go_err + 'a" where
  "cause name x = (case x of Inl e \<Rightarrow> Inl (ErrCause e [name]) | Inr y \<Rightarrow> Inr y)"

text \<open>
  The constructor. \<open>nm\<close> tells whether there is a network manager in the context; without one the
  network conditions are skipped.
\<close>

definition NewDefaultHeadlessRule ::
  "rule_lib \<Rightarrow> bool \<Rightarrow> headless_options \<Rightarrow> go_err + rule_item abstract_rule" where
  "NewDefaultHeadlessRule L nm o1 =
     build_rule
       [(ho_Network o1 \<noteq> [], GItems, Inr (NewNetworkItem (ho_Network o1))),
        (ho_Domain o1 \<noteq> [] \<or> ho_DomainSuffix o1 \<noteq> [], GDestinationAddress,
           NewDomainItem L (ho_Domain o1) (ho_DomainSuffix o1)),
        (\<not> (ho_Domain o1 \<noteq> [] \<or> ho_DomainSuffix o1 \<noteq> []) \<and> \<not> Option.is_none (ho_DomainMatcher o1),
           GDestinationAddress, Inr (NewRawDomainItem (the (ho_DomainMatcher o1)))),
        (ho_DomainKeyword o1 \<noteq> [], GDestinationAddress, Inr (NewDomainKeywordItem (ho_DomainKeyword o1))),
        (ho_DomainRegex o1 \<noteq> [], GDestinationAddress,
           cause ''domain_regex'' (NewDomainRegexItem L (ho_DomainRegex o1))),
        (ho_SourceIPCIDR o1 \<noteq> [], GSourceAddress,
           cause ''source_ip_cidr'' (NewIPCIDRItem L True (ho_SourceIPCIDR o1))),
        (ho_SourceIPCIDR o1 = [] \<and> \<not> Option.is_none (ho_SourceIPSet o1), GSourceAddress,
           Inr (NewRawIPCIDRItem True (the (ho_SourceIPSet o1)))),
        (ho_IPCIDR o1 \<noteq> [], GDestinationIPCIDR, cause ''ipcidr'' (NewIPCIDRItem L False (ho_IPCIDR o1))),
        (ho_IPCIDR o1 = [] \<and> \<not> Option.is_none (ho_IPSet o1), GDestinationIPCIDR,
           Inr (NewRawIPCIDRItem False (the (ho_IPSet o1)))),
        (ho_SourcePort o1 \<noteq> [], GSourcePort, Inr (NewPortItem True (ho_SourcePort o1))),
        (ho_SourcePortRange o1 \<noteq> [], GSourcePort,
           cause ''source_port_range'' (NewPortRangeItem True (ho_SourcePortRange o1))),
        (ho_Port o1 \<noteq> [], GDestinationPort, Inr (NewPortItem False (ho_Port o1))),
        (ho_PortRange o1 \<noteq> [], GDestinationPort,
           cause ''port_range'' (NewPortRangeItem False (ho_PortRange o1))),
        (ho_ProcessName o1 \<noteq> [], GItems, Inr (NewProcessItem (ho_ProcessName o1))),
        (ho_ProcessPath o1 \<noteq> [], GItems, Inr (NewProcessPathItem (ho_ProcessPath o1))),
        (ho_ProcessPathRegex o1 \<noteq> [], GItems,
           cause ''process_path_regex'' (NewProcessPathRegexItem L (ho_ProcessPathRegex o1))),
        (ho_PackageName o1 \<noteq> [], GItems, Inr (NewPackageNameItem (ho_PackageName o1))),
        (nm \<and> ho_NetworkType o1 \<noteq> [], GItems, Inr (NewNetworkTypeItem (ho_NetworkType o1))),
        (nm \<and> ho_NetworkIsExpensive o1, GItems, Inr NewNetworkIsExpensiveItem),
        (nm \<and> ho_NetworkIsConstrained o1, GItems, Inr NewNetworkIsConstrainedItem),
        (nm \<and> ho_WIFISSID o1 \<noteq> [], GItems, Inr (NewWIFISSIDItem (ho_WIFISSID o1))),
        (nm \<and> ho_WIFIBSSID o1 \<noteq> [], GItems, Inr (NewWIFIBSSIDItem (ho_WIFIBSSID o1))),
        (nm \<and> ho_NetworkInterfaceAddress o1 \<noteq> [], GItems,
           Inr (NewNetworkInterfaceAddressItem (ho_NetworkInterfaceAddress o1))),
        (nm \<and> ho_DefaultInterfaceAddress o1 \<noteq> [], GItems,
           Inr (NewDefaultInterfaceAddressItem (ho_DefaultInterfaceAddress o1))),
        (ho_AdGuardDomain o1 \<noteq> [], GDestinationAddress, Inr (NewAdGuardDomainItem L (ho_AdGuardDomain o1))),
        (ho_AdGuardDomain o1 = [] \<and> \<not> Option.is_none (ho_AdGuardDomainMatcher o1), GDestinationAddress,
           Inr (NewRawAdGuardDomainItem (the (ho_AdGuardDomainMatcher o1))))]
       (empty_rule (ho_Invert o1))"

text \<open>\<^verbatim>\<open>option.HeadlessRule\<close>: the type tag selects the options.\<close>

datatype headless_opt =
    DefaultHeadlessOpt headless_options
  | LogicalHeadlessOpt string "headless_opt list" bool
  | UnknownHeadlessOpt string

fun HeadlessRule_IsValid :: "rule_lib \<Rightarrow> headless_opt \<Rightarrow> bool go_out" where
  "HeadlessRule_IsValid L (DefaultHeadlessOpt o1) = Ok (DefaultHeadlessRule_IsValid o1)"
| "HeadlessRule_IsValid L (LogicalHeadlessOpt mode rules invert) =
     (if rules = [] then Ok False else rl_AllValid L (map (\<lambda>r. HeadlessRule_IsValid L r) rules))"
| "HeadlessRule_IsValid L (UnknownHeadlessOpt t) = Panic (''unknown rule type: '' @ t)"

text \<open>The loop over sub-rules: the first failure ends it, wrapped without its index.\<close>

fun collect :: "string \<Rightarrow> 'a go_out list \<Rightarrow> 'a list go_out" where
  "collect what [] = Ok []"
| "collect what (x # xs) =
     (case x of
        Err e \<Rightarrow> Err (ErrCause e [what])
      | Panic p \<Rightarrow> Panic p
      | Ok r \<Rightarrow> (case collect what xs of Ok rs \<Rightarrow> Ok (r # rs) | Err e \<Rightarrow> Err e | Panic p \<Rightarrow> Panic p))"

definition NewLogicalHeadlessRule :: "string \<Rightarrow> headless_rule go_out list \<Rightarrow> bool \<Rightarrow> headless_rule go_out" where
  "NewLogicalHeadlessRule mode subs invert =
     (if mode \<noteq> LogicalTypeAnd \<and> mode \<noteq> LogicalTypeOr
      then Err (ErrNew [''unknown logical mode: '', mode])
      else (case collect ''sub rule'' subs of
              Ok rs \<Rightarrow> Ok (LogicalHeadlessRule rs mode invert)
            | Err e \<Rightarrow> Err e
            | Panic p \<Rightarrow> Panic p))"

fun NewHeadlessRule :: "rule_lib \<Rightarrow> bool \<Rightarrow> headless_opt \<Rightarrow> headless_rule go_out" where
  "NewHeadlessRule L nm (DefaultHeadlessOpt o1) =
     (if \<not> DefaultHeadlessRule_IsValid o1 then Err (ErrNew [''missing conditions''])
      else case NewDefaultHeadlessRule L nm o1 of
        Inl e \<Rightarrow> Err e | Inr r \<Rightarrow> Ok (DefaultHeadlessRule r))"
| "NewHeadlessRule L nm (LogicalHeadlessOpt mode rules invert) =
     (case HeadlessRule_IsValid L (LogicalHeadlessOpt mode rules invert) of
        Panic p \<Rightarrow> Panic p
      | Err e \<Rightarrow> Err e
      | Ok valid \<Rightarrow>
          if \<not> valid then Err (ErrNew [''missing conditions''])
          else NewLogicalHeadlessRule mode (map (\<lambda>r. NewHeadlessRule L nm r) rules) invert)"
| "NewHeadlessRule L nm (UnknownHeadlessOpt t) = Err (ErrNew [''unknown rule type: '', t])"

section \<open>Local rule-sets\<close>

record rule_set_metadata =
  rm_ContainsProcessRule :: bool
  rm_ContainsWIFIRule :: bool
  rm_ContainsIPCIDRRule :: bool

record local_rule_set =
  lr_tag :: string
  lr_rules :: "headless_rule list"
  lr_metadata :: rule_set_metadata
  lr_refs :: int

fun has_headless_rule :: "(headless_options \<Rightarrow> bool) \<Rightarrow> headless_opt \<Rightarrow> bool" where
  "has_headless_rule cond (DefaultHeadlessOpt o1) = cond o1"
| "has_headless_rule cond (LogicalHeadlessOpt mode rules invert) =
     list_ex (\<lambda>r. has_headless_rule cond r) rules"
| "has_headless_rule cond (UnknownHeadlessOpt t) = False"

definition HasHeadlessRule :: "headless_opt list \<Rightarrow> (headless_options \<Rightarrow> bool) \<Rightarrow> bool" where
  "HasHeadlessRule rules cond = list_ex (has_headless_rule cond) rules"

definition isProcessHeadlessRule :: "headless_options \<Rightarrow> bool" where
  "isProcessHeadlessRule o1 \<longleftrightarrow>
     ho_ProcessName o1 \<noteq> [] \<or> ho_ProcessPath o1 \<noteq> [] \<or> ho_ProcessPathRegex o1 \<noteq> [] \<or> ho_PackageName o1 \<noteq> []"

definition isWIFIHeadlessRule :: "headless_options \<Rightarrow> bool" where
  "isWIFIHeadlessRule o1 \<longleftrightarrow> ho_WIFISSID o1 \<noteq> [] \<or> ho_WIFIBSSID o1 \<noteq> []"

definition isIPCIDRHeadlessRule :: "headless_options \<Rightarrow> bool" where
  "isIPCIDRHeadlessRule o1 \<longleftrightarrow> ho_IPCIDR o1 \<noteq> [] \<or> \<not> Option.is_none (ho_IPSet o1)"

text \<open>
  \<^verbatim>\<open>reloadRules\<close>: on an error the old rules stay. The update callbacks it ends with are not part of
  the state.
\<close>

definition lr_reloadRules ::
  "rule_lib \<Rightarrow> bool \<Rightarrow> headless_opt list \<Rightarrow> local_rule_set \<Rightarrow> unit go_out \<times> local_rule_set" where
  "lr_reloadRules L nm headlessRules s =
     (case collect ''parse rule_set.rules'' (map (NewHeadlessRule L nm) headlessRules) of
        Err e \<Rightarrow> (Err e, s)
      | Panic p \<Rightarrow> (Panic p, s)
      | Ok rules \<Rightarrow>
          (Ok (), s\<lparr>lr_rules := rules,
                    lr_metadata := \<lparr>rm_ContainsProcessRule = HasHeadlessRule headlessRules isProcessHeadlessRule,
                                    rm_ContainsWIFIRule = HasHeadlessRule headlessRules isWIFIHeadlessRule,
                                    rm_ContainsIPCIDRRule = HasHeadlessRule headlessRules isIPCIDRHeadlessRule\<rparr>\<rparr>))"

definition EmptyLocalRuleSet :: "string \<Rightarrow> local_rule_set" where
  "EmptyLocalRuleSet tag =
     \<lparr>lr_tag = tag, lr_rules = [],
      lr_metadata = \<lparr>rm_ContainsProcessRule = False, rm_ContainsWIFIRule = False, rm_ContainsIPCIDRRule = False\<rparr>,
      lr_refs = 0\<rparr>"

text \<open>An inline rule-set; the other branch reads the rules from a file and watches it.\<close>

definition NewLocalRuleSet_inline ::
  "rule_lib \<Rightarrow> bool \<Rightarrow> string \<Rightarrow> headless_opt list \<Rightarrow> local_rule_set go_out" where
  "NewLocalRuleSet_inline L nm tag rules =
     (if rules = [] then Err (ErrNew [''empty inline rule-set''])
      else case lr_reloadRules L nm rules (EmptyLocalRuleSet tag) of
        (Ok _, s) \<Rightarrow> Ok s | (Err e, _) \<Rightarrow> Err e | (Panic p, _) \<Rightarrow> Panic p)"

definition lr_IncRef :: "local_rule_set \<Rightarrow> local_rule_set" where
  "lr_IncRef s = s\<lparr>lr_refs := lr_refs s + 1\<rparr>"

definition lr_DecRef :: "local_rule_set \<Rightarrow> unit go_out \<times> local_rule_set" where
  "lr_DecRef s =
     (let s1 = s\<lparr>lr_refs := lr_refs s - 1\<rparr>
      in if lr_refs s1 < 0 then (Panic ''rule-set: negative refs'', s1) else (Ok (), s1))"

definition lr_Cleanup :: "local_rule_set \<Rightarrow> local_rule_set" where
  "lr_Cleanup s = (if lr_refs s = 0 then s\<lparr>lr_rules := []\<rparr> else s)"

definition lr_Close :: "local_rule_set \<Rightarrow> local_rule_set" where
  "lr_Close s = s\<lparr>lr_rules := []\<rparr>"

definition lr_Match :: "rule_lib \<Rightarrow> net_state \<Rightarrow> local_rule_set \<Rightarrow> metadata matcher" where
  "lr_Match L N s = match_any (headless_Match L N) (lr_rules s)"

section \<open>The rule-set item\<close>

text \<open>
  The items of route and DNS rules. The third component of \<open>RuleSetItem\<close> and the fourth are the two
  flags; the second is \<^verbatim>\<open>setList\<close>, filled by \<^verbatim>\<open>Start\<close>, as keys of the store.
\<close>

datatype route_item =
    PlainItem rule_item
  | RuleSetItem "string list" "string list" bool bool

type_synonym rule_store = "string \<Rightarrow> local_rule_set option"

definition NewRuleSetItem :: "string list \<Rightarrow> bool \<Rightarrow> bool \<Rightarrow> route_item" where
  "NewRuleSetItem tagList ipCIDRMatchSource ipCidrAcceptEmpty =
     RuleSetItem tagList [] ipCIDRMatchSource ipCidrAcceptEmpty"

fun rule_set_start :: "string list \<Rightarrow> string list \<Rightarrow> rule_store \<Rightarrow> (go_err + string list) \<times> rule_store" where
  "rule_set_start [] setList store = (Inr setList, store)"
| "rule_set_start (tag # tags) setList store =
     (case store tag of
        None \<Rightarrow> (Inl (ErrNew [''rule-set not found: '', tag]), store)
      | Some ruleSet \<Rightarrow> rule_set_start tags (setList @ [tag]) (store(tag \<mapsto> lr_IncRef ruleSet)))"

fun RuleSetItem_Start :: "route_item \<Rightarrow> rule_store \<Rightarrow> (go_err + route_item) \<times> rule_store" where
  "RuleSetItem_Start (RuleSetItem tagList setList src acceptEmpty) store =
     (case rule_set_start tagList setList store of
        (Inl e, store') \<Rightarrow> (Inl e, store')
      | (Inr setList', store') \<Rightarrow> (Inr (RuleSetItem tagList setList' src acceptEmpty), store'))"
| "RuleSetItem_Start (PlainItem i) store = (Inr (PlainItem i), store)"

definition rule_set_match :: "rule_lib \<Rightarrow> net_state \<Rightarrow> rule_store \<Rightarrow> string \<Rightarrow> metadata matcher" where
  "rule_set_match L N store tag m =
     (case store tag of None \<Rightarrow> (False, m) | Some s \<Rightarrow> lr_Match L N s m)"

definition RuleSetItem_Match ::
  "rule_lib \<Rightarrow> net_state \<Rightarrow> rule_store \<Rightarrow> string list \<Rightarrow> bool \<Rightarrow> bool \<Rightarrow> metadata matcher" where
  "RuleSetItem_Match L N store setList ipCidrMatchSource ipCidrAcceptEmpty m =
     match_any (rule_set_match L N store) setList
       (m\<lparr>md_cache := (md_cache m)\<lparr>rc_IPCIDRMatchSource := ipCidrMatchSource,
                                   rc_IPCIDRAcceptEmpty := ipCidrAcceptEmpty\<rparr>\<rparr>)"

fun route_item_Match :: "rule_lib \<Rightarrow> net_state \<Rightarrow> rule_store \<Rightarrow> route_item \<Rightarrow> metadata matcher" where
  "route_item_Match L N store (PlainItem i) m = (item_Match L N i m, m)"
| "route_item_Match L N store (RuleSetItem tagList setList src acceptEmpty) m =
     RuleSetItem_Match L N store setList src acceptEmpty m"

definition ContainsDestinationIPCIDRRule :: "rule_lib \<Rightarrow> rule_store \<Rightarrow> string list \<Rightarrow> bool \<Rightarrow> bool" where
  "ContainsDestinationIPCIDRRule L store setList ipCidrMatchSource =
     (if ipCidrMatchSource then False
      else rl_AnyTag L setList
             (\<lambda>tag. case store tag of None \<Rightarrow> False | Some s \<Rightarrow> rm_ContainsIPCIDRRule (lr_metadata s)))"

end
