(* ===== verification/Rules.thy ===== *)
theory Rules
  imports Rule_Sets
begin

text \<open>
  \<^verbatim>\<open>route/rule/rule_default.go\<close> and \<^verbatim>\<open>rule_dns.go\<close>: route rules and DNS rules with their constructors,
  \<^verbatim>\<open>Start\<close> and \<^verbatim>\<open>Match\<close>. The action of a rule is of any type \<open>'a\<close>; what its constructor returns is
  an argument here and defined in \<open>Rule_Action\<close>.
\<close>

section \<open>Rules\<close>

datatype 'a rule =
    DefaultRule "route_item abstract_rule" 'a
  | LogicalRule "'a rule list" string bool 'a

fun rule_action :: "'a rule \<Rightarrow> 'a" where
  "rule_action (DefaultRule _ a) = a"
| "rule_action (LogicalRule _ _ _ a) = a"

fun rule_Match :: "rule_lib \<Rightarrow> net_state \<Rightarrow> rule_store \<Rightarrow> 'a rule \<Rightarrow> metadata \<Rightarrow> bool \<times> metadata" where
  "rule_Match L N store (DefaultRule r a) m = abstract_Match (route_item_Match L N store) r m"
| "rule_Match L N store (LogicalRule rules mode invert a) m =
     logical_Match L mode invert (map (\<lambda>r m'. rule_Match L N store r m') rules) m"

text \<open>
  A DNS rule first matches with the destination address conditions ignored
  (\<^verbatim>\<open>DefaultDNSRule.Match\<close> sets the flag and clears it when it returns), and again without
  ignoring them once there is an answer (\<^verbatim>\<open>MatchAddressLimit\<close>).
\<close>

definition DefaultDNSRule_Match ::
  "rule_lib \<Rightarrow> net_state \<Rightarrow> rule_store \<Rightarrow> route_item abstract_rule \<Rightarrow> metadata matcher" where
  "DefaultDNSRule_Match L N store r m =
     (case abstract_Match (route_item_Match L N store) r (m\<lparr>md_IgnoreDestinationIPCIDRMatch := True\<rparr>) of
        (b, m') \<Rightarrow> (b, m'\<lparr>md_IgnoreDestinationIPCIDRMatch := False\<rparr>))"

fun dns_Match :: "rule_lib \<Rightarrow> net_state \<Rightarrow> rule_store \<Rightarrow> 'a rule \<Rightarrow> metadata \<Rightarrow> bool \<times> metadata" where
  "dns_Match L N store (DefaultRule r a) m = DefaultDNSRule_Match L N store r m"
| "dns_Match L N store (LogicalRule rules mode invert a) m =
     logical_Match L mode invert (map (\<lambda>r m'. dns_Match L N store r m') rules) m"

fun dns_MatchAddressLimit ::
  "rule_lib \<Rightarrow> net_state \<Rightarrow> rule_store \<Rightarrow> 'a rule \<Rightarrow> metadata \<Rightarrow> bool \<times> metadata" where
  "dns_MatchAddressLimit L N store (DefaultRule r a) m = abstract_Match (route_item_Match L N store) r m"
| "dns_MatchAddressLimit L N store (LogicalRule rules mode invert a) m =
     logical_Match L mode invert (map (\<lambda>r m'. dns_MatchAddressLimit L N store r m') rules) m"

fun item_with_address_limit :: "rule_lib \<Rightarrow> rule_store \<Rightarrow> route_item \<Rightarrow> bool" where
  "item_with_address_limit L store (RuleSetItem tagList setList src acceptEmpty) =
     ContainsDestinationIPCIDRRule L store setList src"
| "item_with_address_limit L store (PlainItem i) = False"

definition DefaultDNSRule_WithAddressLimit :: "rule_lib \<Rightarrow> rule_store \<Rightarrow> route_item abstract_rule \<Rightarrow> bool" where
  "DefaultDNSRule_WithAddressLimit L store r \<longleftrightarrow>
     ar_destinationIPCIDRItems r \<noteq> [] \<or> list_ex (item_with_address_limit L store) (ar_items r)"

fun dns_WithAddressLimit :: "rule_lib \<Rightarrow> rule_store \<Rightarrow> 'a rule \<Rightarrow> bool" where
  "dns_WithAddressLimit L store (DefaultRule r a) = DefaultDNSRule_WithAddressLimit L store r"
| "dns_WithAddressLimit L store (LogicalRule rules mode invert a) =
     list_ex (\<lambda>r. dns_WithAddressLimit L store r) rules"

section \<open>Options\<close>

text \<open>
  \<^verbatim>\<open>option.RawDefaultRule\<close> and \<^verbatim>\<open>option.RawDefaultDNSRule\<close> in one record: \<open>ro_Client\<close> and
  \<open>ro_PreferredBy\<close> exist for route rules only, \<open>ro_QueryType\<close>, \<open>ro_IPAcceptAny\<close>, \<open>ro_Outbound\<close> and
  \<open>ro_RuleSetIPCIDRAcceptEmpty\<close> for DNS rules only.
\<close>

record rule_options =
  ro_Inbound :: "string list"
  ro_IPVersion :: int
  ro_QueryType :: "16 word list"
  ro_Network :: "string list"
  ro_AuthUser :: "string list"
  ro_Protocol :: "string list"
  ro_Client :: "string list"
  ro_Domain :: "string list"
  ro_DomainSuffix :: "string list"
  ro_DomainKeyword :: "string list"
  ro_DomainRegex :: "string list"
  ro_Geosite :: "string list"
  ro_SourceGeoIP :: "string list"
  ro_GeoIP :: "string list"
  ro_SourceIPCIDR :: "string list"
  ro_SourceIPIsPrivate :: bool
  ro_IPCIDR :: "string list"
  ro_IPIsPrivate :: bool
  ro_IPAcceptAny :: bool
  ro_SourcePort :: "16 word list"
  ro_SourcePortRange :: "string list"
  ro_Port :: "16 word list"
  ro_PortRange :: "string list"
  ro_ProcessName :: "string list"
  ro_ProcessPath :: "string list"
  ro_ProcessPathRegex :: "string list"
  ro_PackageName :: "string list"
  ro_User :: "string list"
  ro_UserID :: "int list"
  ro_Outbound :: "string list"
  ro_ClashMode :: string
  ro_NetworkType :: "interface_type list"
  ro_NetworkIsExpensive :: bool
  ro_NetworkIsConstrained :: bool
  ro_WIFISSID :: "string list"
  ro_WIFIBSSID :: "string list"
  ro_InterfaceAddress :: "(string \<times> prefix list) list"
  ro_NetworkInterfaceAddress :: "(interface_type \<times> prefix list) list"
  ro_DefaultInterfaceAddress :: "prefix list"
  ro_PreferredBy :: "string list"
  ro_RuleSet :: "string list"
  ro_RuleSetIPCIDRMatchSource :: bool
  ro_RuleSetIPCIDRAcceptEmpty :: bool
  ro_Deprecated_RulesetIPCIDRMatchSource :: bool
  ro_Invert :: bool

definition NoRuleOptions :: rule_options where
  "NoRuleOptions =
     \<lparr>ro_Inbound = [], ro_IPVersion = 0, ro_QueryType = [], ro_Network = [], ro_AuthUser = [],
      ro_Protocol = [], ro_Client = [], ro_Domain = [], ro_DomainSuffix = [], ro_DomainKeyword = [],
      ro_DomainRegex = [], ro_Geosite = [], ro_SourceGeoIP = [], ro_GeoIP = [], ro_SourceIPCIDR = [],
      ro_SourceIPIsPrivate = False, ro_IPCIDR = [], ro_IPIsPrivate = False, ro_IPAcceptAny = False,
      ro_SourcePort = [], ro_SourcePortRange = [], ro_Port = [], ro_PortRange = [],
      ro_ProcessName = [], ro_ProcessPath = [], ro_ProcessPathRegex = [], ro_PackageName = [],
      ro_User = [], ro_UserID = [], ro_Outbound = [], ro_ClashMode = [], ro_NetworkType = [],
      ro_NetworkIsExpensive = False, ro_NetworkIsConstrained = False, ro_WIFISSID = [],
      ro_WIFIBSSID = [], ro_InterfaceAddress = [], ro_NetworkInterfaceAddress = [],
      ro_DefaultInterfaceAddress = [], ro_PreferredBy = [], ro_RuleSet = [],
      ro_RuleSetIPCIDRMatchSource = False, ro_RuleSetIPCIDRAcceptEmpty = False,
      ro_Deprecated_RulesetIPCIDRMatchSource = False, ro_Invert = False\<rparr>"

definition plain :: "go_err + rule_item \<Rightarrow> go_err + route_item" where
  "plain x = (case x of Inl e \<Rightarrow> Inl e | Inr i \<Rightarrow> Inr (PlainItem i))"

definition geosite_removed :: go_err where
  "geosite_removed =
     ErrNew [''geosite database is deprecated in sing-box 1.8.0 and removed in sing-box 1.12.0'']"

definition geoip_removed :: go_err where
  "geoip_removed =
     ErrNew [''geoip database is deprecated in sing-box 1.8.0 and removed in sing-box 1.12.0'']"

definition match_source_option :: "rule_options \<Rightarrow> bool" where
  "match_source_option o1 = (ro_RuleSetIPCIDRMatchSource o1 \<or> ro_Deprecated_RulesetIPCIDRMatchSource o1)"

definition ip_version_step :: "rule_options \<Rightarrow> route_item step" where
  "ip_version_step o1 =
     (ro_IPVersion o1 > 0, GItems,
      if ro_IPVersion o1 = 4 \<or> ro_IPVersion o1 = 6
      then Inr (PlainItem (NewIPVersionItem (ro_IPVersion o1 = 6)))
      else Inl (ErrNew [''invalid ip version: '']))"

section \<open>Constructors\<close>

text \<open>The order of the steps is the order of the \<^verbatim>\<open>if\<close> statements in the source.\<close>

definition NewDefaultRule_address_steps :: "rule_lib \<Rightarrow> rule_options \<Rightarrow> route_item step list" where
  "NewDefaultRule_address_steps L o1 =
     [(ro_Inbound o1 \<noteq> [], GItems, Inr (PlainItem (NewInboundRule (ro_Inbound o1)))),
      ip_version_step o1,
      (ro_Network o1 \<noteq> [], GItems, Inr (PlainItem (NewNetworkItem (ro_Network o1)))),
      (ro_AuthUser o1 \<noteq> [], GItems, Inr (PlainItem (NewAuthUserItem (ro_AuthUser o1)))),
      (ro_Protocol o1 \<noteq> [], GItems, Inr (PlainItem (NewProtocolItem (ro_Protocol o1)))),
      (ro_Client o1 \<noteq> [], GItems, Inr (PlainItem (NewClientItem (ro_Client o1)))),
      (ro_Domain o1 \<noteq> [] \<or> ro_DomainSuffix o1 \<noteq> [], GDestinationAddress,
         plain (NewDomainItem L (ro_Domain o1) (ro_DomainSuffix o1))),
      (ro_DomainKeyword o1 \<noteq> [], GDestinationAddress,
         Inr (PlainItem (NewDomainKeywordItem (ro_DomainKeyword o1)))),
      (ro_DomainRegex o1 \<noteq> [], GDestinationAddress, plain (NewDomainRegexItem L (ro_DomainRegex o1))),
      (ro_Geosite o1 \<noteq> [], GItems, Inl geosite_removed),
      (ro_SourceGeoIP o1 \<noteq> [], GItems, Inl geoip_removed),
      (ro_GeoIP o1 \<noteq> [], GItems, Inl geoip_removed),
      (ro_SourceIPCIDR o1 \<noteq> [], GSourceAddress,
         cause ''source_ip_cidr'' (plain (NewIPCIDRItem L True (ro_SourceIPCIDR o1)))),
      (ro_SourceIPIsPrivate o1, GSourceAddress, Inr (PlainItem (NewIPIsPrivateItem True))),
      (ro_IPCIDR o1 \<noteq> [], GDestinationIPCIDR,
         cause ''ipcidr'' (plain (NewIPCIDRItem L False (ro_IPCIDR o1)))),
      (ro_IPIsPrivate o1, GDestinationIPCIDR, Inr (PlainItem (NewIPIsPrivateItem False)))]"

definition NewDefaultRule_other_steps :: "rule_lib \<Rightarrow> rule_options \<Rightarrow> route_item step list" where
  "NewDefaultRule_other_steps L o1 =
     [(ro_SourcePort o1 \<noteq> [], GSourcePort, Inr (PlainItem (NewPortItem True (ro_SourcePort o1)))),
      (ro_SourcePortRange o1 \<noteq> [], GSourcePort,
         cause ''source_port_range'' (plain (NewPortRangeItem True (ro_SourcePortRange o1)))),
      (ro_Port o1 \<noteq> [], GDestinationPort, Inr (PlainItem (NewPortItem False (ro_Port o1)))),
      (ro_PortRange o1 \<noteq> [], GDestinationPort,
         cause ''port_range'' (plain (NewPortRangeItem False (ro_PortRange o1)))),
      (ro_ProcessName o1 \<noteq> [], GItems, Inr (PlainItem (NewProcessItem (ro_ProcessName o1)))),
      (ro_ProcessPath o1 \<noteq> [], GItems, Inr (PlainItem (NewProcessPathItem (ro_ProcessPath o1)))),
      (ro_ProcessPathRegex o1 \<noteq> [], GItems,
         cause ''process_path_regex'' (plain (NewProcessPathRegexItem L (ro_ProcessPathRegex o1)))),
      (ro_PackageName o1 \<noteq> [], GItems, Inr (PlainItem (NewPackageNameItem (ro_PackageName o1)))),
      (ro_User o1 \<noteq> [], GItems, Inr (PlainItem (NewUserItem (ro_User o1)))),
      (ro_UserID o1 \<noteq> [], GItems, Inr (PlainItem (NewUserIDItem (ro_UserID o1)))),
      (ro_ClashMode o1 \<noteq> [], GItems, Inr (PlainItem (NewClashModeItem (ro_ClashMode o1)))),
      (ro_NetworkType o1 \<noteq> [], GItems, Inr (PlainItem (NewNetworkTypeItem (ro_NetworkType o1)))),
      (ro_NetworkIsExpensive o1, GItems, Inr (PlainItem NewNetworkIsExpensiveItem)),
      (ro_NetworkIsConstrained o1, GItems, Inr (PlainItem NewNetworkIsConstrainedItem)),
      (ro_WIFISSID o1 \<noteq> [], GItems, Inr (PlainItem (NewWIFISSIDItem (ro_WIFISSID o1)))),
      (ro_WIFIBSSID o1 \<noteq> [], GItems, Inr (PlainItem (NewWIFIBSSIDItem (ro_WIFIBSSID o1)))),
      (ro_InterfaceAddress o1 \<noteq> [], GItems,
         Inr (PlainItem (NewInterfaceAddressItem (ro_InterfaceAddress o1)))),
      (ro_NetworkInterfaceAddress o1 \<noteq> [], GItems,
         Inr (PlainItem (NewNetworkInterfaceAddressItem (ro_NetworkInterfaceAddress o1)))),
      (ro_DefaultInterfaceAddress o1 \<noteq> [], GItems,
         Inr (PlainItem (NewDefaultInterfaceAddressItem (ro_DefaultInterfaceAddress o1)))),
      (ro_PreferredBy o1 \<noteq> [], GItems, Inr (PlainItem (NewPreferredByItem (ro_PreferredBy o1)))),
      (ro_RuleSet o1 \<noteq> [], GItems, Inr (NewRuleSetItem (ro_RuleSet o1) (match_source_option o1) False))]"

definition NewDefaultRule_steps :: "rule_lib \<Rightarrow> rule_options \<Rightarrow> route_item step list" where
  "NewDefaultRule_steps L o1 = NewDefaultRule_address_steps L o1 @ NewDefaultRule_other_steps L o1"

definition NewDefaultRule :: "rule_lib \<Rightarrow> rule_options \<Rightarrow> 'a go_out \<Rightarrow> 'a rule go_out" where
  "NewDefaultRule L o1 action =
     (case action of
        Err e \<Rightarrow> Err (ErrCause e [''action''])
      | Panic p \<Rightarrow> Panic p
      | Ok a \<Rightarrow>
          (case build_rule (NewDefaultRule_steps L o1) (empty_rule (ro_Invert o1)) of
             Inl e \<Rightarrow> Err e | Inr r \<Rightarrow> Ok (DefaultRule r a)))"

definition NewDefaultDNSRule_address_steps :: "rule_lib \<Rightarrow> rule_options \<Rightarrow> route_item step list" where
  "NewDefaultDNSRule_address_steps L o1 =
     [(ro_Inbound o1 \<noteq> [], GItems, Inr (PlainItem (NewInboundRule (ro_Inbound o1)))),
      ip_version_step o1,
      (ro_QueryType o1 \<noteq> [], GItems, Inr (PlainItem (NewQueryTypeItem (ro_QueryType o1)))),
      (ro_Network o1 \<noteq> [], GItems, Inr (PlainItem (NewNetworkItem (ro_Network o1)))),
      (ro_AuthUser o1 \<noteq> [], GItems, Inr (PlainItem (NewAuthUserItem (ro_AuthUser o1)))),
      (ro_Protocol o1 \<noteq> [], GItems, Inr (PlainItem (NewProtocolItem (ro_Protocol o1)))),
      (ro_Domain o1 \<noteq> [] \<or> ro_DomainSuffix o1 \<noteq> [], GDestinationAddress,
         plain (NewDomainItem L (ro_Domain o1) (ro_DomainSuffix o1))),
      (ro_DomainKeyword o1 \<noteq> [], GDestinationAddress,
         Inr (PlainItem (NewDomainKeywordItem (ro_DomainKeyword o1)))),
      (ro_DomainRegex o1 \<noteq> [], GDestinationAddress,
         cause ''domain_regex'' (plain (NewDomainRegexItem L (ro_DomainRegex o1)))),
      (ro_Geosite o1 \<noteq> [], GItems, Inl geosite_removed),
      (ro_SourceGeoIP o1 \<noteq> [], GItems, Inl geoip_removed),
      (ro_GeoIP o1 \<noteq> [], GItems, Inl geoip_removed),
      (ro_SourceIPCIDR o1 \<noteq> [], GSourceAddress,
         cause ''source_ip_cidr'' (plain (NewIPCIDRItem L True (ro_SourceIPCIDR o1)))),
      (ro_IPCIDR o1 \<noteq> [], GDestinationIPCIDR,
         cause ''ip_cidr'' (plain (NewIPCIDRItem L False (ro_IPCIDR o1)))),
      (ro_SourceIPIsPrivate o1, GSourceAddress, Inr (PlainItem (NewIPIsPrivateItem True))),
      (ro_IPIsPrivate o1, GDestinationIPCIDR, Inr (PlainItem (NewIPIsPrivateItem False))),
      (ro_IPAcceptAny o1, GDestinationIPCIDR, Inr (PlainItem NewIPAcceptAnyItem))]"

definition NewDefaultDNSRule_other_steps :: "rule_lib \<Rightarrow> rule_options \<Rightarrow> route_item step list" where
  "NewDefaultDNSRule_other_steps L o1 =
     [(ro_SourcePort o1 \<noteq> [], GSourcePort, Inr (PlainItem (NewPortItem True (ro_SourcePort o1)))),
      (ro_SourcePortRange o1 \<noteq> [], GSourcePort,
         cause ''source_port_range'' (plain (NewPortRangeItem True (ro_SourcePortRange o1)))),
      (ro_Port o1 \<noteq> [], GDestinationPort, Inr (PlainItem (NewPortItem False (ro_Port o1)))),
      (ro_PortRange o1 \<noteq> [], GDestinationPort,
         cause ''port_range'' (plain (NewPortRangeItem False (ro_PortRange o1)))),
      (ro_ProcessName o1 \<noteq> [], GItems, Inr (PlainItem (NewProcessItem (ro_ProcessName o1)))),
      (ro_ProcessPath o1 \<noteq> [], GItems, Inr (PlainItem (NewProcessPathItem (ro_ProcessPath o1)))),
      (ro_ProcessPathRegex o1 \<noteq> [], GItems,
         cause ''process_path_regex'' (plain (NewProcessPathRegexItem L (ro_ProcessPathRegex o1)))),
      (ro_PackageName o1 \<noteq> [], GItems, Inr (PlainItem (NewPackageNameItem (ro_PackageName o1)))),
      (ro_User o1 \<noteq> [], GItems, Inr (PlainItem (NewUserItem (ro_User o1)))),
      (ro_UserID o1 \<noteq> [], GItems, Inr (PlainItem (NewUserIDItem (ro_UserID o1)))),
      (ro_Outbound o1 \<noteq> [], GItems, Inr (PlainItem (NewOutboundRule (ro_Outbound o1)))),
      (ro_ClashMode o1 \<noteq> [], GItems, Inr (PlainItem (NewClashModeItem (ro_ClashMode o1)))),
      (ro_NetworkType o1 \<noteq> [], GItems, Inr (PlainItem (NewNetworkTypeItem (ro_NetworkType o1)))),
      (ro_NetworkIsExpensive o1, GItems, Inr (PlainItem NewNetworkIsExpensiveItem)),
      (ro_NetworkIsConstrained o1, GItems, Inr (PlainItem NewNetworkIsConstrainedItem)),
      (ro_WIFISSID o1 \<noteq> [], GItems, Inr (PlainItem (NewWIFISSIDItem (ro_WIFISSID o1)))),
      (ro_WIFIBSSID o1 \<noteq> [], GItems, Inr (PlainItem (NewWIFIBSSIDItem (ro_WIFIBSSID o1)))),
      (ro_InterfaceAddress o1 \<noteq> [], GItems,
         Inr (PlainItem (NewInterfaceAddressItem (ro_InterfaceAddress o1)))),
      (ro_NetworkInterfaceAddress o1 \<noteq> [], GItems,
         Inr (PlainItem (NewNetworkInterfaceAddressItem (ro_NetworkInterfaceAddress o1)))),
      (ro_DefaultInterfaceAddress o1 \<noteq> [], GItems,
         Inr (PlainItem (NewDefaultInterfaceAddressItem (ro_DefaultInterfaceAddress o1)))),
      (ro_RuleSet o1 \<noteq> [], GItems,
         Inr (NewRuleSetItem (ro_RuleSet o1) (match_source_option o1) (ro_RuleSetIPCIDRAcceptEmpty o1)))]"

definition NewDefaultDNSRule_steps :: "rule_lib \<Rightarrow> rule_options \<Rightarrow> route_item step list" where
  "NewDefaultDNSRule_steps L o1 = NewDefaultDNSRule_address_steps L o1 @ NewDefaultDNSRule_other_steps L o1"

definition NewDefaultDNSRule :: "rule_lib \<Rightarrow> rule_options \<Rightarrow> 'a go_out \<Rightarrow> 'a rule go_out" where
  "NewDefaultDNSRule L o1 action =
     (case action of
        Err e \<Rightarrow> Err e
      | Panic p \<Rightarrow> Panic p
      | Ok a \<Rightarrow>
          (case build_rule (NewDefaultDNSRule_steps L o1) (empty_rule (ro_Invert o1)) of
             Inl e \<Rightarrow> Err e | Inr r \<Rightarrow> Ok (DefaultRule r a)))"

section \<open>Start\<close>

text \<open>
  \<^verbatim>\<open>abstractDefaultRule.Start\<close> starts every item of \<^verbatim>\<open>allItems\<close>. The items are shared by reference
  with the groups; the rule-set item, the only one here that changes, is replaced in both places.
\<close>

fun start_items :: "route_item list \<Rightarrow> rule_store \<Rightarrow> (go_err + route_item list) \<times> rule_store" where
  "start_items [] store = (Inr [], store)"
| "start_items (i # is) store =
     (case RuleSetItem_Start i store of
        (Inl e, store') \<Rightarrow> (Inl e, store')
      | (Inr i', store') \<Rightarrow>
          (case start_items is store' of
             (Inl e, store'') \<Rightarrow> (Inl e, store'')
           | (Inr is', store'') \<Rightarrow> (Inr (i' # is'), store'')))"

fun started_item :: "route_item \<Rightarrow> route_item" where
  "started_item (RuleSetItem tagList setList src acceptEmpty) =
     RuleSetItem tagList (setList @ tagList) src acceptEmpty"
| "started_item (PlainItem i) = PlainItem i"

definition DefaultRule_Start ::
  "route_item abstract_rule \<Rightarrow> rule_store \<Rightarrow> (go_err + route_item abstract_rule) \<times> rule_store" where
  "DefaultRule_Start r store =
     (case start_items (ar_allItems r) store of
        (Inl e, store') \<Rightarrow> (Inl e, store')
      | (Inr is, store') \<Rightarrow>
          (Inr (r\<lparr>ar_allItems := is, ar_items := map started_item (ar_items r)\<rparr>), store'))"

lemma rule_set_start_ok:
  "rule_set_start tags setList store = (Inr xs, store') \<Longrightarrow> xs = setList @ tags"
  by (induction tags setList store rule: rule_set_start.induct) (auto split: option.splits)

text \<open>What the items become agrees in both places.\<close>

lemma start_items_started: "start_items is store = (Inr is', store') \<Longrightarrow> is' = map started_item is"
proof (induction "is" arbitrary: store is' store')
  case (Cons i "is")
  then show ?case
    by (cases i) (auto split: prod.splits sum.splits dest: rule_set_start_ok)
qed simp

text \<open>
  \<^verbatim>\<open>abstractLogicalRule.Start\<close> starts the sub-rules in order up to the first that fails; all of them
  implement \<^verbatim>\<open>Start\<close>.
\<close>

fun rule_Start :: "'a rule \<Rightarrow> rule_store \<Rightarrow> (go_err + 'a rule) \<times> rule_store"
  and rules_Start :: "'a rule list \<Rightarrow> rule_store \<Rightarrow> (go_err + 'a rule list) \<times> rule_store" where
  "rule_Start (DefaultRule r a) store =
     (case DefaultRule_Start r store of
        (Inl e, store') \<Rightarrow> (Inl e, store') | (Inr r', store') \<Rightarrow> (Inr (DefaultRule r' a), store'))"
| "rule_Start (LogicalRule rules mode invert a) store =
     (case rules_Start rules store of
        (Inl e, store') \<Rightarrow> (Inl e, store')
      | (Inr rules', store') \<Rightarrow> (Inr (LogicalRule rules' mode invert a), store'))"
| "rules_Start [] store = (Inr [], store)"
| "rules_Start (r # rs) store =
     (case rule_Start r store of
        (Inl e, store') \<Rightarrow> (Inl e, store')
      | (Inr r', store') \<Rightarrow>
          (case rules_Start rs store' of
             (Inl e, store'') \<Rightarrow> (Inl e, store'') | (Inr rs', store'') \<Rightarrow> (Inr (r' # rs'), store'')))"

text \<open>The tags a rule refers to, with repetitions, and the references they add.\<close>

fun item_tags :: "route_item \<Rightarrow> string list" where
  "item_tags (RuleSetItem tagList setList src acceptEmpty) = tagList"
| "item_tags (PlainItem i) = []"

fun rule_tags :: "'a rule \<Rightarrow> string list" where
  "rule_tags (DefaultRule r a) = concat (map item_tags (ar_allItems r))"
| "rule_tags (LogicalRule rules mode invert a) = concat (map rule_tags rules)"

definition add_refs :: "string list \<Rightarrow> rule_store \<Rightarrow> rule_store" where
  "add_refs tags store tag =
     map_option (\<lambda>s. s\<lparr>lr_refs := lr_refs s + int (count_list tags tag)\<rparr>) (store tag)"

lemma add_refs_Nil [simp]: "add_refs [] store = store"
proof
  show "add_refs [] store tag = store tag" for tag by (cases "store tag") (simp_all add: add_refs_def)
qed

lemma add_refs_append: "add_refs (xs @ ys) store = add_refs ys (add_refs xs store)"
proof
  show "add_refs (xs @ ys) store tag = add_refs ys (add_refs xs store) tag" for tag
    by (cases "store tag") (simp_all add: add_refs_def)
qed

lemma add_refs_dom: "dom (add_refs tags store) = dom store"
  by (auto simp: add_refs_def dom_def)

lemma rule_set_start_refs:
  assumes "rule_set_start tags setList store = (Inr xs, store')"
  shows "store' = add_refs tags store \<and> set tags \<subseteq> dom store"
  using assms
proof (induction tags setList store rule: rule_set_start.induct)
  case (2 tag tags setList store)
  then obtain s where s: "store tag = Some s"
    and rest: "rule_set_start tags (setList @ [tag]) (store(tag \<mapsto> lr_IncRef s)) = (Inr xs, store')"
    by (auto split: option.splits)
  have one: "store(tag \<mapsto> lr_IncRef s) = add_refs [tag] store"
  proof
    show "(store(tag \<mapsto> lr_IncRef s)) x = add_refs [tag] store x" for x
      by (cases "store x") (auto simp: add_refs_def s lr_IncRef_def)
  qed
  from 2 s rest have "store' = add_refs tags (store(tag \<mapsto> lr_IncRef s)) \<and> set tags \<subseteq> dom (store(tag \<mapsto> lr_IncRef s))"
    by blast
  with s show ?case unfolding one add_refs_append [symmetric] by (auto simp: add_refs_dom)
qed simp

lemma start_items_refs:
  "start_items is store = (Inr is', store') \<Longrightarrow>
     store' = add_refs (concat (map item_tags is)) store \<and> set (concat (map item_tags is)) \<subseteq> dom store"
proof (induction "is" arbitrary: store is' store')
  case (Cons i "is")
  obtain i' store1 is1 where i: "RuleSetItem_Start i store = (Inr i', store1)"
    and rest: "start_items is store1 = (Inr is1, store')"
    using Cons.prems by (auto split: prod.splits sum.splits)
  have "store1 = add_refs (item_tags i) store \<and> set (item_tags i) \<subseteq> dom store"
    using i by (cases i) (auto split: prod.splits sum.splits dest: rule_set_start_refs)
  with Cons.IH [OF rest] show ?case by (simp add: add_refs_append add_refs_dom)
qed simp

lemma rule_Start_refs:
  fixes r :: "'a rule" and rs :: "'a rule list"
  shows "rule_Start r store = (Inr r', store') \<Longrightarrow>
     store' = add_refs (rule_tags r) store \<and> set (rule_tags r) \<subseteq> dom store"
  "rules_Start rs store = (Inr rs', store') \<Longrightarrow>
     store' = add_refs (concat (map rule_tags rs)) store \<and> set (concat (map rule_tags rs)) \<subseteq> dom store"
proof (induction r store and rs store arbitrary: r' store' and rs' store' rule: rule_Start_rules_Start.induct)
  case (1 r a store)
  then obtain is' where "start_items (ar_allItems r) store = (Inr is', store')"
    by (auto simp: DefaultRule_Start_def split: prod.splits sum.splits)
  from start_items_refs [OF this] show ?case by simp
next
  case (2 rules mode invert a store)
  then show ?case by (auto split: prod.splits sum.splits)
next
  case (4 r rs store)
  obtain r1 store1 rs1 where r: "rule_Start r store = (Inr r1, store1)"
    and rs: "rules_Start rs store1 = (Inr rs1, store')"
    using "4.prems" by (auto split: prod.splits sum.splits)
  from "4.IH"(1) [OF r] "4.IH"(2) [OF r [symmetric] refl rs]
  show ?case by (simp add: add_refs_append add_refs_dom)
qed simp

end
