(* ===== verification/Rule_Semantics.thy ===== *)
theory Rule_Semantics
  imports Rules
begin

text \<open>
  A declarative reading of rules, without flags or caches: a default rule holds when all its plain
  conditions hold and each group that is not empty has a member that holds, the two destination
  groups counting as one; a logical rule is the conjunction or disjunction of its sub-rules; both may
  be inverted. The functions of \<open>Rule_Sets\<close> and \<open>Rules\<close> are shown to compute it.
\<close>

section \<open>What rules mean\<close>

definition group_ok :: "('i \<Rightarrow> metadata \<Rightarrow> bool) \<Rightarrow> 'i list \<Rightarrow> metadata \<Rightarrow> bool" where
  "group_ok p is m \<longleftrightarrow> is = [] \<or> any_item p is m"

definition conditions_hold :: "('i \<Rightarrow> metadata \<Rightarrow> bool) \<Rightarrow> bool \<Rightarrow> 'i abstract_rule \<Rightarrow> metadata \<Rightarrow> bool" where
  "conditions_hold p ignore r m \<longleftrightarrow>
     (\<forall>i \<in> set (ar_items r). p i m) \<and>
     group_ok p (ar_sourceAddressItems r) m \<and>
     group_ok p (ar_sourcePortItems r) m \<and>
     group_ok p (ar_destinationAddressItems r @ (if ignore then [] else ar_destinationIPCIDRItems r)) m \<and>
     group_ok p (ar_destinationPortItems r) m"

definition default_holds :: "('i \<Rightarrow> metadata \<Rightarrow> bool) \<Rightarrow> 'i abstract_rule \<Rightarrow> metadata \<Rightarrow> bool" where
  "default_holds p r m \<longleftrightarrow> ar_allItems r = [] \<or> conditions_hold p False r m \<noteq> ar_invert r"

fun headless_holds :: "rule_lib \<Rightarrow> net_state \<Rightarrow> headless_rule \<Rightarrow> metadata \<Rightarrow> bool" where
  "headless_holds L N (DefaultHeadlessRule r) m = default_holds (item_Match L N) r m"
| "headless_holds L N (LogicalHeadlessRule rules mode invert) m =
     ((if mode = LogicalTypeAnd then list_all (\<lambda>r. headless_holds L N r m) rules
       else list_ex (\<lambda>r. headless_holds L N r m) rules) \<noteq> invert)"

fun headless_wf :: "headless_rule \<Rightarrow> bool" where
  "headless_wf (DefaultHeadlessRule r) = rule_wf r"
| "headless_wf (LogicalHeadlessRule rules mode invert) = list_all headless_wf rules"

section \<open>Default rules\<close>

lemma any_item_append: "any_item p (xs @ ys) m = (any_item p xs m \<or> any_item p ys m)"
  by (auto simp: any_item_def)

lemma rule_wf_all_empty:
  "rule_wf r \<Longrightarrow> ar_allItems r = [] \<longleftrightarrow>
     ar_items r = [] \<and> ar_sourceAddressItems r = [] \<and> ar_sourcePortItems r = [] \<and>
     ar_destinationAddressItems r = [] \<and> ar_destinationIPCIDRItems r = [] \<and> ar_destinationPortItems r = []"
proof -
  assume "rule_wf r"
  then have "set (ar_allItems r) = {} \<longleftrightarrow> set (ar_items r) \<union> set (ar_sourceAddressItems r) \<union>
      set (ar_sourcePortItems r) \<union> set (ar_destinationAddressItems r) \<union>
      set (ar_destinationIPCIDRItems r) \<union> set (ar_destinationPortItems r) = {}"
    unfolding rule_wf_def group_UN by (rule arg_cong)
  then show ?thesis by simp
qed

lemma flags_after_fresh:
  assumes "md_cache m = NoRuleCache"
  shows "flags_after p r m =
    NoRuleCache\<lparr>rc_SourceAddressMatch := any_item p (ar_sourceAddressItems r) m,
      rc_SourcePortMatch := any_item p (ar_sourcePortItems r) m,
      rc_DestinationAddressMatch := any_item p (ar_destinationAddressItems r) m \<or>
        \<not> md_IgnoreDestinationIPCIDRMatch m \<and> any_item p (ar_destinationIPCIDRItems r) m,
      rc_DestinationPortMatch := any_item p (ar_destinationPortItems r) m,
      rc_DidMatch := ar_sourceAddressItems r \<noteq> [] \<or> ar_sourcePortItems r \<noteq> [] \<or>
        ar_destinationAddressItems r \<noteq> [] \<or>
        \<not> md_IgnoreDestinationIPCIDRMatch m \<and> ar_destinationIPCIDRItems r \<noteq> [] \<and>
          \<not> any_item p (ar_destinationAddressItems r) m \<or>
        ar_destinationPortItems r \<noteq> [] \<or> ar_items r \<noteq> []\<rparr>"
  using assms by (simp add: flags_after_def NoRuleCache_def Let_def)

lemma any_item_nonempty: "any_item p is m \<Longrightarrow> is \<noteq> []"
  by auto

lemma match_result_fresh:
  assumes "md_cache m = NoRuleCache"
  shows "match_result r (m\<lparr>md_cache := flags_after p r m\<rparr>) =
    (if group_ok p (ar_sourceAddressItems r) m \<and> group_ok p (ar_sourcePortItems r) m \<and>
        group_ok p (ar_destinationAddressItems r @
          (if md_IgnoreDestinationIPCIDRMatch m then [] else ar_destinationIPCIDRItems r)) m \<and>
        group_ok p (ar_destinationPortItems r) m
     then rc_DidMatch (flags_after p r m) \<longrightarrow> \<not> ar_invert r else ar_invert r)"
  unfolding match_result_def Let_def group_ok_def any_item_append
  by (cases "md_IgnoreDestinationIPCIDRMatch m"; cases "ar_sourceAddressItems r = []";
      cases "ar_sourcePortItems r = []"; cases "ar_destinationPortItems r = []")
     (auto simp: flags_after_fresh [OF assms] any_item_append)

lemma abstract_Match_fresh:
  assumes "reads_only p" and "rule_wf r" and "md_cache m = NoRuleCache"
    and "\<not> md_IgnoreDestinationIPCIDRMatch m"
  shows "fst (abstract_Match (pure p) r m) = default_holds p r m"
proof (cases "ar_allItems r = []")
  case True
  then show ?thesis by (simp add: abstract_Match_def default_holds_def)
next
  case False
  have did: "rc_DidMatch (flags_after p r m)"
    using False rule_wf_all_empty [OF assms(2)] assms(4)
    by (auto simp: flags_after_fresh [OF assms(3)])
  show ?thesis
    unfolding abstract_Match_pure [OF assms(1) False] match_result_fresh [OF assms(3)]
    using False did assms(4) by (auto simp: default_holds_def conditions_hold_def)
qed

text \<open>With the address conditions ignored, as a DNS rule does before there is an answer.\<close>

lemma abstract_Match_ignore:
  assumes "reads_only p" and "rule_wf r" and "md_cache m = NoRuleCache"
    and "md_IgnoreDestinationIPCIDRMatch m"
  shows "fst (abstract_Match (pure p) r m) =
    (ar_allItems r = [] \<or> set (ar_allItems r) \<subseteq> set (ar_destinationIPCIDRItems r) \<and>
        ar_items r = [] \<and> ar_sourceAddressItems r = [] \<and> ar_sourcePortItems r = [] \<and>
        ar_destinationAddressItems r = [] \<and> ar_destinationPortItems r = [] \<or>
     conditions_hold p True r m \<noteq> ar_invert r)"
proof (cases "ar_allItems r = []")
  case True
  then show ?thesis by (simp add: abstract_Match_def)
next
  case False
  have did: "rc_DidMatch (flags_after p r m) \<longleftrightarrow> \<not> (ar_items r = [] \<and> ar_sourceAddressItems r = [] \<and>
      ar_sourcePortItems r = [] \<and> ar_destinationAddressItems r = [] \<and> ar_destinationPortItems r = [])"
    using assms(4) by (auto simp: flags_after_fresh [OF assms(3)])
  have only: "ar_items r = [] \<Longrightarrow> ar_sourceAddressItems r = [] \<Longrightarrow> ar_sourcePortItems r = [] \<Longrightarrow>
      ar_destinationAddressItems r = [] \<Longrightarrow> ar_destinationPortItems r = [] \<Longrightarrow>
      set (ar_allItems r) \<subseteq> set (ar_destinationIPCIDRItems r)"
    using assms(2) unfolding rule_wf_def group_UN by simp
  show ?thesis
    unfolding abstract_Match_pure [OF assms(1) False] match_result_fresh [OF assms(3)] did
    using False assms(4) only by (auto simp: conditions_hold_def group_ok_def)
qed

lemma abstract_Match_request: "reads_only p \<Longrightarrow> same_request m (snd (abstract_Match (pure p) r m))"
proof (cases "ar_allItems r = []")
  case True
  then show ?thesis by (simp add: abstract_Match_def)
next
  case False
  assume "reads_only p"
  from abstract_Match_pure [OF this False] show ?thesis by simp
qed

section \<open>Logical rules\<close>

text \<open>A matcher whose result on a reset cache is a function of the request, which it keeps.\<close>

definition matches_as :: "metadata matcher \<Rightarrow> metadata \<Rightarrow> bool \<Rightarrow> bool" where
  "matches_as f m b \<longleftrightarrow> (\<forall>m'. same_request m m' \<longrightarrow> fst (f (ResetRuleCache m')) = b \<and>
     same_request m (snd (f (ResetRuleCache m'))))"

lemma rl_All_matches:
  assumes "rule_lib_ok L" and "list_all2 (\<lambda>f b. matches_as f m b) fs bs" and "same_request m m'"
  shows "\<exists>m''. rl_All L (map (\<lambda>f m'. f (ResetRuleCache m')) fs) m' = (list_all id bs, m'') \<and> same_request m m''"
  using assms(2,3)
proof (induction arbitrary: m' rule: list_all2_induct)
  case Nil
  then show ?case by (simp add: rl_All_simps [OF assms(1)])
next
  case (Cons f fs b bs)
  obtain r m1 where f: "f (ResetRuleCache m') = (r, m1)" by fastforce
  with Cons.hyps(1) Cons.prems have r: "r = b" "same_request m m1" unfolding matches_as_def by fastforce+
  show ?case
  proof (cases b)
    case True
    with f r Cons.IH [OF r(2)] show ?thesis by (simp add: rl_All_simps [OF assms(1)])
  next
    case False
    with f r show ?thesis by (simp add: rl_All_simps [OF assms(1)])
  qed
qed

lemma rl_Any_matches:
  assumes "rule_lib_ok L" and "list_all2 (\<lambda>f b. matches_as f m b) fs bs" and "same_request m m'"
  shows "\<exists>m''. rl_Any L (map (\<lambda>f m'. f (ResetRuleCache m')) fs) m' = (list_ex id bs, m'') \<and> same_request m m''"
  using assms(2,3)
proof (induction arbitrary: m' rule: list_all2_induct)
  case Nil
  then show ?case by (simp add: rl_All_simps [OF assms(1)])
next
  case (Cons f fs b bs)
  obtain r m1 where f: "f (ResetRuleCache m') = (r, m1)" by fastforce
  with Cons.hyps(1) Cons.prems have r: "r = b" "same_request m m1" unfolding matches_as_def by fastforce+
  show ?case
  proof (cases b)
    case False
    with f r Cons.IH [OF r(2)] show ?thesis by (simp add: rl_All_simps [OF assms(1)])
  next
    case True
    with f r show ?thesis by (simp add: rl_All_simps [OF assms(1)])
  qed
qed

lemma logical_matches:
  assumes "rule_lib_ok L" and "list_all2 (\<lambda>f b. matches_as f m b) fs bs"
  shows "matches_as (logical_Match L mode invert fs) m
    ((if mode = LogicalTypeAnd then list_all id bs else list_ex id bs) \<noteq> invert)"
  unfolding matches_as_def
proof (intro allI impI)
  fix m' assume "same_request m m'"
  then have same: "same_request m (ResetRuleCache m')" by simp
  show "fst (logical_Match L mode invert fs (ResetRuleCache m')) =
      ((if mode = LogicalTypeAnd then list_all id bs else list_ex id bs) \<noteq> invert) \<and>
      same_request m (snd (logical_Match L mode invert fs (ResetRuleCache m')))"
    using rl_All_matches [OF assms same] rl_Any_matches [OF assms same]
    by (auto simp: logical_Match_def Let_def)
qed

lemma default_matches:
  assumes "rule_wf r" and "\<not> md_IgnoreDestinationIPCIDRMatch m"
  shows "matches_as (abstract_Match (pure (item_Match L N)) r) m (default_holds (item_Match L N) r (ResetRuleCache m))"
  unfolding matches_as_def
proof (intro allI impI)
  fix m' assume same: "same_request m m'"
  then have eq: "ResetRuleCache m' = ResetRuleCache m" by (simp add: same_request_def)
  show "fst (abstract_Match (pure (item_Match L N)) r (ResetRuleCache m')) =
      default_holds (item_Match L N) r (ResetRuleCache m) \<and>
      same_request m (snd (abstract_Match (pure (item_Match L N)) r (ResetRuleCache m')))"
    unfolding eq
    using abstract_Match_fresh [OF item_Match_reads_only assms(1), of "ResetRuleCache m"] assms(2)
      abstract_Match_request [OF item_Match_reads_only, of "ResetRuleCache m"]
    by simp
qed

lemma headless_matches:
  assumes "rule_lib_ok L" and "\<not> md_IgnoreDestinationIPCIDRMatch m"
  shows "headless_wf h \<Longrightarrow> matches_as (headless_Match L N h) m (headless_holds L N h (ResetRuleCache m))"
proof (induction h)
  case (DefaultHeadlessRule r)
  then have "matches_as (abstract_Match (pure (item_Match L N)) r) m
      (default_holds (item_Match L N) r (ResetRuleCache m))"
    using default_matches [OF _ assms(2)] by simp
  then show ?case by (simp add: matches_as_def)
next
  case (LogicalHeadlessRule rules mode invert)
  have "list_all2 (\<lambda>f b. matches_as f m b) (map (\<lambda>r m'. headless_Match L N r m') rules)
      (map (\<lambda>r. headless_holds L N r (ResetRuleCache m)) rules)"
    using LogicalHeadlessRule by (auto simp: list_all2_conv_all_nth list_all_iff)
  from logical_matches [OF assms(1) this, of mode invert]
  show ?case by (simp add: matches_as_def list_all_iff list_ex_iff)
qed

section \<open>Rules without rule-sets\<close>

text \<open>Two matchers that agree on the items of a rule give the same evaluation.\<close>

lemma match_any_cong: "(\<And>i. i \<in> set is \<Longrightarrow> f i = g i) \<Longrightarrow> match_any f is m = match_any g is m"
  by (induction "is" arbitrary: m) (auto split: prod.splits bool.splits)

lemma match_items_cong: "(\<And>i. i \<in> set is \<Longrightarrow> f i = g i) \<Longrightarrow> match_items f is m = match_items g is m"
  by (induction "is" arbitrary: m) (auto split: prod.splits bool.splits)

lemma match_group_cong:
  "(\<And>i. i \<in> set is \<Longrightarrow> f i = g i) \<Longrightarrow> match_group f is flag set_flag m = match_group g is flag set_flag m"
  using match_any_cong [of "is" f g "did_match m"] by (simp add: match_group_def)

definition groups_of :: "'i abstract_rule \<Rightarrow> 'i set" where
  "groups_of r = set (ar_sourceAddressItems r) \<union> set (ar_sourcePortItems r) \<union>
     set (ar_destinationAddressItems r) \<union> set (ar_destinationIPCIDRItems r) \<union> set (ar_destinationPortItems r)"

lemma match_groups_cong:
  assumes "\<And>i. i \<in> groups_of r \<Longrightarrow> f i = g i"
  shows "match_groups f r m = match_groups g r m"
proof -
  have "match_source_address f r = match_source_address g r"
    and "match_source_port f r = match_source_port g r"
    and "match_destination_address f r = match_destination_address g r"
    and "match_destination_port f r = match_destination_port g r"
    unfolding match_source_address_def match_source_port_def match_destination_address_def
      match_destination_port_def
    by (intro ext match_group_cong assms; simp add: groups_of_def)+
  moreover have "match_destination_ipcidr f r m' = match_destination_ipcidr g r m'" for m'
    unfolding match_destination_ipcidr_def
    using match_group_cong [of "ar_destinationIPCIDRItems r" f g] assms by (simp add: groups_of_def)
  ultimately show ?thesis by (simp add: match_groups_def)
qed

lemma abstract_Match_cong:
  assumes "\<And>i. i \<in> groups_of r \<union> set (ar_items r) \<Longrightarrow> f i = g i"
  shows "abstract_Match f r m = abstract_Match g r m"
proof (cases "ar_allItems r = []")
  case False
  have "match_groups f r m = match_groups g r m" by (rule match_groups_cong) (simp add: assms)
  moreover have "match_items f (ar_items r) m' = match_items g (ar_items r) m'" for m'
    by (rule match_items_cong) (simp add: assms)
  ultimately show ?thesis unfolding abstract_Match_groups [OF False] by simp
qed (simp add: abstract_Match_def)

text \<open>The condition a plain item stands for.\<close>

fun plain_Match :: "rule_lib \<Rightarrow> net_state \<Rightarrow> route_item \<Rightarrow> metadata \<Rightarrow> bool" where
  "plain_Match L N (PlainItem i) m = item_Match L N i m"
| "plain_Match L N (RuleSetItem _ _ _ _) m = False"

fun is_plain :: "route_item \<Rightarrow> bool" where
  "is_plain (PlainItem i) = True"
| "is_plain (RuleSetItem _ _ _ _) = False"

lemma plain_Match_reads_only: "reads_only (plain_Match L N)"
  unfolding reads_only_def
proof (intro allI impI)
  fix i and m :: metadata and c :: rule_cache
  assume "rc_IPCIDRMatchSource c = rc_IPCIDRMatchSource (md_cache m)"
    and "rc_IPCIDRAcceptEmpty c = rc_IPCIDRAcceptEmpty (md_cache m)"
  then show "plain_Match L N i (m\<lparr>md_cache := c\<rparr>) = plain_Match L N i m"
    using reads_onlyD [OF item_Match_reads_only] by (cases i) simp_all
qed

lemma route_item_plain: "is_plain i \<Longrightarrow> route_item_Match L N store i = pure (plain_Match L N) i"
  by (cases i) (auto simp: pure_def)

definition plain_default :: "route_item abstract_rule \<Rightarrow> bool" where
  "plain_default r \<longleftrightarrow> rule_wf r \<and> (\<forall>i \<in> groups_of r \<union> set (ar_items r). is_plain i)"

lemma plain_abstract_Match:
  "plain_default r \<Longrightarrow> abstract_Match (route_item_Match L N store) r = abstract_Match (pure (plain_Match L N)) r"
  by (intro ext abstract_Match_cong) (auto simp: plain_default_def route_item_plain)

fun rule_holds :: "rule_lib \<Rightarrow> net_state \<Rightarrow> 'a rule \<Rightarrow> metadata \<Rightarrow> bool" where
  "rule_holds L N (DefaultRule r a) m = default_holds (plain_Match L N) r m"
| "rule_holds L N (LogicalRule rules mode invert a) m =
     ((if mode = LogicalTypeAnd then list_all (\<lambda>r. rule_holds L N r m) rules
       else list_ex (\<lambda>r. rule_holds L N r m) rules) \<noteq> invert)"

fun plain_rule :: "'a rule \<Rightarrow> bool" where
  "plain_rule (DefaultRule r a) = plain_default r"
| "plain_rule (LogicalRule rules mode invert a) = list_all plain_rule rules"

lemma plain_default_matches:
  assumes "plain_default r" and "\<not> md_IgnoreDestinationIPCIDRMatch m"
  shows "matches_as (abstract_Match (route_item_Match L N store) r) m
    (default_holds (plain_Match L N) r (ResetRuleCache m))"
  unfolding matches_as_def plain_abstract_Match [OF assms(1)]
proof (intro allI impI)
  fix m' assume "same_request m m'"
  then have eq: "ResetRuleCache m' = ResetRuleCache m" by (simp add: same_request_def)
  have wf: "rule_wf r" using assms(1) by (simp add: plain_default_def)
  show "fst (abstract_Match (pure (plain_Match L N)) r (ResetRuleCache m')) =
      default_holds (plain_Match L N) r (ResetRuleCache m) \<and>
      same_request m (snd (abstract_Match (pure (plain_Match L N)) r (ResetRuleCache m')))"
    unfolding eq
    using abstract_Match_fresh [OF plain_Match_reads_only wf, of "ResetRuleCache m"] assms(2)
      abstract_Match_request [OF plain_Match_reads_only, of "ResetRuleCache m"]
    by simp
qed

lemma rule_matches:
  assumes "rule_lib_ok L" and "\<not> md_IgnoreDestinationIPCIDRMatch m"
  shows "plain_rule r \<Longrightarrow> matches_as (rule_Match L N store r) m (rule_holds L N r (ResetRuleCache m))"
proof (induction r)
  case (DefaultRule r a)
  then have "matches_as (abstract_Match (route_item_Match L N store) r) m
      (default_holds (plain_Match L N) r (ResetRuleCache m))"
    using plain_default_matches [OF _ assms(2)] by simp
  then show ?case by (simp add: matches_as_def)
next
  case (LogicalRule rules mode invert a)
  have "list_all2 (\<lambda>f b. matches_as f m b) (map (\<lambda>r m'. rule_Match L N store r m') rules)
      (map (\<lambda>r. rule_holds L N r (ResetRuleCache m)) rules)"
    using LogicalRule by (auto simp: list_all2_conv_all_nth list_all_iff)
  from logical_matches [OF assms(1) this, of mode invert]
  show ?case by (simp add: matches_as_def list_all_iff list_ex_iff)
qed

section \<open>Constructed rules are well-formed\<close>

lemma collect_Ok: "collect what xs = Ok rs \<Longrightarrow> list_all2 (\<lambda>x r. x = Ok r) xs rs"
  by (induction xs arbitrary: rs) (auto split: go_out.splits)

lemma NewDefaultHeadlessRule_wf: "NewDefaultHeadlessRule L nm o1 = Inr r \<Longrightarrow> rule_wf r"
  unfolding NewDefaultHeadlessRule_def by (erule build_rule_wf) simp

lemma NewHeadlessRule_wf: "NewHeadlessRule L nm opt = Ok h \<Longrightarrow> headless_wf h"
proof (induction opt arbitrary: h)
  case (DefaultHeadlessOpt o1)
  then show ?case
    by (auto split: if_splits sum.splits dest: NewDefaultHeadlessRule_wf)
next
  case (LogicalHeadlessOpt mode rules invert)
  obtain rs where rs: "collect ''sub rule'' (map (\<lambda>r. NewHeadlessRule L nm r) rules) = Ok rs"
    and h: "h = LogicalHeadlessRule rs mode invert"
    using LogicalHeadlessOpt.prems
    by (cases "HeadlessRule_IsValid L (LogicalHeadlessOpt mode rules invert)";
        cases "collect ''sub rule'' (map (\<lambda>r. NewHeadlessRule L nm r) rules)")
       (simp_all add: NewLogicalHeadlessRule_def del: HeadlessRule_IsValid.simps split: if_splits)
  have "headless_wf r" if mem: "r \<in> set rs" for r
  proof -
    obtain i where "i < length rs" "rs ! i = r" using mem by (auto simp: in_set_conv_nth)
    with collect_Ok [OF rs] have "NewHeadlessRule L nm (rules ! i) = Ok r" "rules ! i \<in> set rules"
      by (auto simp: list_all2_conv_all_nth)
    then show ?thesis using LogicalHeadlessOpt.IH by blast
  qed
  then show ?case by (simp add: h list_all_iff)
qed simp

end
