(* ===== verification/Rule_Theorems.thy ===== *)
theory Rule_Theorems
  imports Rule_Semantics
begin

text \<open>
  The properties of the rule engine: constructed headless rules and rules without rule-sets compute
  their declarative meaning, DNS rules do so in their two phases, a rule-set with one rule is merged
  into the rule that refers to it. Two theorems show where the flags of the metadata leak: between
  the rules of a rule-set, and out of a logical rule inside a rule-set.
\<close>

section \<open>Rules compute their meaning\<close>


definition demo_headless :: headless_opt where
  "demo_headless =
     LogicalHeadlessOpt ''or''
       [DefaultHeadlessOpt (NoHeadlessOptions\<lparr>ho_Network := [''udp''], ho_Port := [53]\<rparr>),
        DefaultHeadlessOpt (NoHeadlessOptions\<lparr>ho_Domain := [''example.org''], ho_Invert := True\<rparr>)] False"

lemmas demo_headless_simps = demo_headless_def NoHeadlessOptions_def LogicalTypeAnd_def LogicalTypeOr_def
  DefaultHeadlessRule_IsValid_def NewDefaultHeadlessRule_def NewLogicalHeadlessRule_def NewDomainItem_def empty_rule_def cause_def


text \<open>The items of a rule come from the steps of its constructor.\<close>

lemma build_rule_from:
  assumes "build_rule steps r = Inr r'" and "\<And>c g i. (c, g, Inr i) \<in> set steps \<Longrightarrow> c \<Longrightarrow> P i"
    and "\<And>i. i \<in> groups_of r \<union> set (ar_items r) \<Longrightarrow> P i"
  shows "i \<in> groups_of r' \<union> set (ar_items r') \<Longrightarrow> P i"
proof -
  have "group_items g r' = group_items g r @
      [i. (cond, g', item) \<leftarrow> steps, cond \<and> g' = g, i \<leftarrow> (case item of Inl _ \<Rightarrow> [] | Inr i \<Rightarrow> [i])]" for g
    by (rule build_rule_group [OF assms(1)])
  then have mem: "P i" if "i \<in> set (group_items g r')" "\<And>i. i \<in> set (group_items g r) \<Longrightarrow> P i" for i g
    using that assms(2) by (fastforce split: sum.splits if_splits)
  have old: "P i" if "i \<in> set (group_items g r)" for i g
    using that assms(3) [of i] by (cases g) (auto simp: groups_of_def)
  assume "i \<in> groups_of r' \<union> set (ar_items r')"
  then obtain g where "i \<in> set (group_items g r')"
    unfolding groups_of_def by (metis Un_iff group_items.simps)
  then show "P i" using mem old by blast
qed

lemma plain_is_plain: "plain x = Inr i \<Longrightarrow> is_plain i"
  by (auto simp: plain_def split: sum.splits)

lemma cause_Inr: "cause name x = Inr i \<Longrightarrow> x = Inr i"
  by (auto simp: cause_def split: sum.splits)

lemma NewDefaultRule_plain:
  assumes "NewDefaultRule L o1 action = Ok r" and "ro_RuleSet o1 = []"
  shows "plain_rule r"
proof -
  obtain r0 a where build: "build_rule (NewDefaultRule_steps L o1) (empty_rule (ro_Invert o1)) = Inr r0"
    and r: "r = DefaultRule r0 a"
    using assms(1) by (auto simp: NewDefaultRule_def split: go_out.splits sum.splits)
  have "is_plain i" if "(c, g, Inr i) \<in> set (NewDefaultRule_steps L o1)" "c" for c g i
    using that assms(2)
    by (auto simp: NewDefaultRule_steps_def NewDefaultRule_address_steps_def
        NewDefaultRule_other_steps_def ip_version_step_def split: if_splits
        dest!: cause_Inr plain_is_plain [OF sym] sym [of "Inr _"] plain_is_plain)
  moreover have "is_plain i" if "i \<in> groups_of (empty_rule (ro_Invert o1)) \<union> set (ar_items (empty_rule (ro_Invert o1)))"
    for i using that by (simp add: groups_of_def empty_rule_def)
  ultimately have "is_plain i" if "i \<in> groups_of r0 \<union> set (ar_items r0)" for i
    using build_rule_from [OF build, of is_plain i] that by blast
  moreover have "rule_wf r0" by (rule build_rule_wf [OF build]) simp
  ultimately show ?thesis by (simp add: r plain_default_def)
qed

text \<open>
  C8: a route rule, default or logical, that refers to no rule-set matches a request with a reset
  cache exactly when it holds, and keeps the request.
\<close>

theorem route_rule_correct:
  assumes "rule_lib_ok L" and "plain_rule r" and "\<not> md_IgnoreDestinationIPCIDRMatch m"
  shows "fst (rule_Match L N store r (ResetRuleCache m)) = rule_holds L N r (ResetRuleCache m) \<and>
    same_request m (snd (rule_Match L N store r (ResetRuleCache m)))"
  using rule_matches [OF assms(1,3,2), of N store] by (simp add: matches_as_def)

theorem route_rule_correct_witness:
  "\<exists>r. NewDefaultRule demo_lib (NoRuleOptions\<lparr>ro_Inbound := [''tun''], ro_Port := [443], ro_Invert := True\<rparr>) (Ok ()) = Ok r \<and>
     fst (rule_Match demo_lib demo_net Map.empty r (ResetRuleCache NoMetadata)) =
       rule_holds demo_lib demo_net r (ResetRuleCache NoMetadata)"
proof -
  let ?o = "NoRuleOptions\<lparr>ro_Inbound := [''tun''], ro_Port := [443], ro_Invert := True\<rparr>"
  have "\<exists>r. NewDefaultRule demo_lib ?o (Ok ()) = Ok r"
    by (simp add: NewDefaultRule_def NewDefaultRule_steps_def NewDefaultRule_address_steps_def
        NewDefaultRule_other_steps_def ip_version_step_def NoRuleOptions_def)
  then obtain r where r: "NewDefaultRule demo_lib ?o (Ok ()) = Ok r" ..
  have "ro_RuleSet ?o = []" by (simp add: NoRuleOptions_def)
  note plain = NewDefaultRule_plain [OF r this]
  have "\<not> md_IgnoreDestinationIPCIDRMatch NoMetadata" by (simp add: NoMetadata_def)
  from route_rule_correct [OF demo_lib_ok plain this] r show ?thesis by blast
qed

section \<open>DNS rules\<close>

text \<open>The rule has address conditions and nothing else.\<close>

definition only_address_conditions :: "'i abstract_rule \<Rightarrow> bool" where
  "only_address_conditions r \<longleftrightarrow>
     ar_items r = [] \<and> ar_sourceAddressItems r = [] \<and> ar_sourcePortItems r = [] \<and>
     ar_destinationAddressItems r = [] \<and> ar_destinationPortItems r = []"


definition demo_address_rule :: "route_item abstract_rule" where
  "demo_address_rule = push_item GDestinationIPCIDR (PlainItem NewIPAcceptAnyItem) (empty_rule True)"


section \<open>Merging a rule-set\<close>

text \<open>The rule with the conditions of a headless rule added to each of its groups.\<close>

definition merged_rule :: "route_item abstract_rule \<Rightarrow> rule_item abstract_rule \<Rightarrow> route_item abstract_rule" where
  "merged_rule r h =
     r\<lparr>ar_items := filter is_plain (ar_items r) @ map PlainItem (ar_items h),
       ar_sourceAddressItems := ar_sourceAddressItems r @ map PlainItem (ar_sourceAddressItems h),
       ar_sourcePortItems := ar_sourcePortItems r @ map PlainItem (ar_sourcePortItems h),
       ar_destinationAddressItems := ar_destinationAddressItems r @ map PlainItem (ar_destinationAddressItems h),
       ar_destinationIPCIDRItems := ar_destinationIPCIDRItems r @ map PlainItem (ar_destinationIPCIDRItems h),
       ar_destinationPortItems := ar_destinationPortItems r @ map PlainItem (ar_destinationPortItems h),
       ar_allItems := ar_allItems r @ map PlainItem (ar_allItems h)\<rparr>"

lemma match_items_append:
  "match_items mi (xs @ ys) m =
     (case match_items mi xs m of (False, m') \<Rightarrow> (False, m') | (True, m') \<Rightarrow> match_items mi ys m')"
  by (induction xs arbitrary: m) (auto split: prod.splits bool.splits)

lemma any_item_plain: "any_item (plain_Match L N) (map PlainItem is) m = any_item (item_Match L N) is m"
  by (simp add: any_item_def)

text \<open>The checks at the end, once something was looked at.\<close>

lemma match_result_did:
  assumes "rc_DidMatch c" and "\<not> md_IgnoreDestinationIPCIDRMatch m"
  shows "match_result r (m\<lparr>md_cache := c\<rparr>) =
    (((ar_sourceAddressItems r = [] \<or> rc_SourceAddressMatch c) \<and>
      (ar_sourcePortItems r = [] \<or> rc_SourcePortMatch c) \<and>
      (ar_destinationIPCIDRItems r = [] \<and> ar_destinationAddressItems r = [] \<or> rc_DestinationAddressMatch c) \<and>
      (ar_destinationPortItems r = [] \<or> rc_DestinationPortMatch c)) \<noteq> ar_invert r)"
  using assms by (auto simp: match_result_def Let_def)

text \<open>The flags of a request as the groups of a rule leave them for the rule-set.\<close>

definition set_flags :: "rule_lib \<Rightarrow> net_state \<Rightarrow> route_item abstract_rule \<Rightarrow> metadata \<Rightarrow> rule_cache" where
  "set_flags L N r m = (flags_after (plain_Match L N) (r\<lparr>ar_items := []\<rparr>) m)\<lparr>rc_DidMatch := True\<rparr>"

lemma rule_with_set:
  assumes items: "ar_items r = map PlainItem is @ [RuleSetItem tags [tag] False False]"
    and plain: "\<forall>i \<in> groups_of r. is_plain i" and all: "ar_allItems r \<noteq> []"
    and fresh: "md_cache m = NoRuleCache" and store: "store tag = Some s"
  shows "rule_Match L N store (DefaultRule r a) m =
    (if \<forall>i \<in> set is. item_Match L N i m
     then (case lr_Match L N s (m\<lparr>md_cache := set_flags L N r m\<rparr>) of
             (False, m') \<Rightarrow> (ar_invert r, m') | (True, m') \<Rightarrow> (match_result r m', m'))
     else (ar_invert r, snd (match_items (pure (plain_Match L N)) (map PlainItem is)
        (m\<lparr>md_cache := flags_after (plain_Match L N) (r\<lparr>ar_items := []\<rparr>) m\<rparr>))))"
proof -
  let ?p = "plain_Match L N" and ?mi = "route_item_Match L N store"
  let ?m1 = "m\<lparr>md_cache := flags_after ?p (r\<lparr>ar_items := []\<rparr>) m\<rparr>"
  have groups: "match_groups ?mi r m = ?m1"
    unfolding match_groups_pure [OF plain_Match_reads_only, symmetric]
    by (rule match_groups_cong) (use plain in \<open>auto simp: route_item_plain\<close>)
  have first: "match_items ?mi (map PlainItem is) ?m1 =
      (\<forall>i \<in> set is. item_Match L N i m, if is = [] then ?m1 else did_match ?m1)"
  proof -
    have "match_items ?mi (map PlainItem is) ?m1 = match_items (pure ?p) (map PlainItem is) ?m1"
      by (rule match_items_cong) (auto simp: route_item_plain)
    moreover have "?p i ?m1 = ?p i m" for i
      by (rule reads_only_kept(1) [OF plain_Match_reads_only flags_after_kept])
    ultimately show ?thesis by (simp add: match_items_pure [OF plain_Match_reads_only])
  qed
  have src: "rc_IPCIDRMatchSource (flags_after ?p (r\<lparr>ar_items := []\<rparr>) m) = False"
    "rc_IPCIDRAcceptEmpty (flags_after ?p (r\<lparr>ar_items := []\<rparr>) m) = False"
    using flags_after_kept [of ?p "r\<lparr>ar_items := []\<rparr>" m] fresh by (auto simp: flags_kept_def NoRuleCache_def)
  have reset: "(flags_after ?p (r\<lparr>ar_items := []\<rparr>) m)\<lparr>rc_DidMatch := True, rc_IPCIDRMatchSource := False,
      rc_IPCIDRAcceptEmpty := False\<rparr> = set_flags L N r m"
    using src by (simp add: set_flags_def rule_cache.equality)
  have second: "match_items ?mi [RuleSetItem tags [tag] False False] (if is = [] then ?m1 else did_match ?m1) =
      lr_Match L N s (m\<lparr>md_cache := set_flags L N r m\<rparr>)"
    unfolding reset [symmetric]
    by (cases "is") (simp_all add: did_match_def RuleSetItem_Match_def rule_set_match_def store
        split: prod.splits bool.splits)
  have snd1: "snd (match_items (pure ?p) (map PlainItem is) ?m1) = (if is = [] then ?m1 else did_match ?m1)"
    by (simp add: match_items_pure [OF plain_Match_reads_only])
  show ?thesis
    unfolding rule_Match.simps abstract_Match_groups [OF all] groups items match_items_append first snd1
    by (simp add: second del: match_items.simps split: bool.splits)
qed

lemma set_flags_fields:
  assumes "md_cache m = NoRuleCache" and "\<not> md_IgnoreDestinationIPCIDRMatch m"
  shows "rc_SourceAddressMatch (set_flags L N r m) = any_item (plain_Match L N) (ar_sourceAddressItems r) m"
    and "rc_SourcePortMatch (set_flags L N r m) = any_item (plain_Match L N) (ar_sourcePortItems r) m"
    and "rc_DestinationAddressMatch (set_flags L N r m) \<longleftrightarrow>
      any_item (plain_Match L N) (ar_destinationAddressItems r) m \<or> any_item (plain_Match L N) (ar_destinationIPCIDRItems r) m"
    and "rc_DestinationPortMatch (set_flags L N r m) = any_item (plain_Match L N) (ar_destinationPortItems r) m"
    and "rc_DidMatch (set_flags L N r m)"
    and "flags_kept (set_flags L N r m) m"
  using assms by (simp_all add: set_flags_def flags_after_fresh flags_kept_def NoRuleCache_def)

text \<open>The flags after a default headless rule that starts from the flags of the outer rule.\<close>

lemma flags_after_set:
  assumes "md_cache m = NoRuleCache" and "\<not> md_IgnoreDestinationIPCIDRMatch m"
    and c: "c = flags_after (item_Match L N) h (m\<lparr>md_cache := set_flags L N r m\<rparr>)"
  shows "rc_SourceAddressMatch c \<longleftrightarrow> any_item (plain_Match L N) (ar_sourceAddressItems (merged_rule r h)) m"
    and "rc_SourcePortMatch c \<longleftrightarrow> any_item (plain_Match L N) (ar_sourcePortItems (merged_rule r h)) m"
    and "rc_DestinationAddressMatch c \<longleftrightarrow> any_item (plain_Match L N)
      (ar_destinationAddressItems (merged_rule r h) @ ar_destinationIPCIDRItems (merged_rule r h)) m"
    and "rc_DestinationPortMatch c \<longleftrightarrow> any_item (plain_Match L N) (ar_destinationPortItems (merged_rule r h)) m"
    and "rc_DidMatch c"
  using set_flags_fields [OF assms(1,2), of L N r] assms(2)
  by (auto simp: c flags_after_def Let_def merged_rule_def any_item_append any_item_plain
      reads_only_kept [OF item_Match_reads_only])

text \<open>The rule-set of one headless rule on those flags: the conditions of both are checked together.\<close>

lemma lr_Match_single:
  assumes "lr_rules s = [DefaultHeadlessRule h]" and "ar_allItems h \<noteq> []"
    and "md_cache m = NoRuleCache" and "\<not> md_IgnoreDestinationIPCIDRMatch m"
    and c: "c = flags_after (item_Match L N) h (m\<lparr>md_cache := set_flags L N r m\<rparr>)"
  shows "lr_Match L N s (m\<lparr>md_cache := set_flags L N r m\<rparr>) =
    (if \<forall>i \<in> set (ar_items h). item_Match L N i m then match_result h (m\<lparr>md_cache := c\<rparr>) else ar_invert h,
     m\<lparr>md_cache := c\<rparr>)"
  using reads_only_kept(1) [OF item_Match_reads_only set_flags_fields(6) [OF assms(3,4)]]
  by (simp add: lr_Match_def assms(1) abstract_Match_pure [OF item_Match_reads_only assms(2)] c
      split: bool.splits)


text \<open>The rule with one rule-set, after it was started, and one port condition if given.\<close>

definition ruleset_rule :: "16 word list \<Rightarrow> string \<Rightarrow> route_item abstract_rule" where
  "ruleset_rule sourcePorts tag =
     push_item GItems (RuleSetItem [tag] [tag] False False)
       (if sourcePorts = [] then empty_rule False
        else push_item GSourcePort (PlainItem (NewPortItem True sourcePorts)) (empty_rule False))"

definition port_rule :: "16 word list \<Rightarrow> 16 word list \<Rightarrow> rule_item abstract_rule" where
  "port_rule sourcePorts ports =
     push_item GDestinationPort (NewPortItem False ports)
       (if sourcePorts = [] then empty_rule False
        else push_item GSourcePort (NewPortItem True sourcePorts) (empty_rule False))"

definition port_request :: "16 word \<Rightarrow> 16 word \<Rightarrow> metadata" where
  "port_request sourcePort port =
     NoMetadata\<lparr>md_Source := NoSocksaddr\<lparr>sa_Port := sourcePort\<rparr>,
       md_Destination := NoSocksaddr\<lparr>sa_Port := port\<rparr>\<rparr>"

lemmas port_rule_simps = ruleset_rule_def port_rule_def empty_rule_def NewPortItem_def

lemma ruleset_rule_wf: "rule_wf (ruleset_rule sourcePorts tag)"
  by (simp add: ruleset_rule_def push_item_wf del: push_item.simps)


section \<open>Where the flags leak\<close>

text \<open>The two rules of the rule-set below, as options.\<close>

definition leak_rules :: "headless_opt list" where
  "leak_rules =
     [DefaultHeadlessOpt (NoHeadlessOptions\<lparr>ho_SourcePort := [1], ho_Port := [1]\<rparr>),
      DefaultHeadlessOpt (NoHeadlessOptions\<lparr>ho_SourcePort := [2], ho_Port := [2]\<rparr>)]"

lemma leak_rules_built:
  "\<exists>s. NewLocalRuleSet_inline L nm tag leak_rules = Ok s \<and>
     lr_rules s = [DefaultHeadlessRule (port_rule [1] [1]), DefaultHeadlessRule (port_rule [2] [2])]"
  by (simp add: NewLocalRuleSet_inline_def leak_rules_def lr_reloadRules_def NewDefaultHeadlessRule_def
      NoHeadlessOptions_def DefaultHeadlessRule_IsValid_def port_rule_simps EmptyLocalRuleSet_def)

lemmas port_eval = port_rule_simps port_request_def NoMetadata_def NoRuleCache_def ResetRuleCache_def
  PortItem_Match_def item_port_def bool_map_def

lemmas match_eval = abstract_Match_def match_source_address_def match_source_port_def
  match_destination_address_def match_destination_ipcidr_def match_destination_port_def match_group_def
  did_match_def match_result_def pure_def lr_Match_def RuleSetItem_Match_def rule_set_match_def

text \<open>
  the flags that the first rule of a rule-set sets are still set when the second is matched. With
  the rules \<^verbatim>\<open>source_port 1, port 1\<close> and \<^verbatim>\<open>source_port 2, port 2\<close>, a request from port 1 to port 2
  satisfies neither rule, but the rule that has only this rule-set matches it.
\<close>

theorem rule_set_flags_leak:
  "\<exists>s. NewLocalRuleSet_inline L nm tag leak_rules = Ok s \<and>
     list_all (\<lambda>h. \<not> headless_holds L N h (ResetRuleCache (port_request 1 2))) (lr_rules s) \<and>
     fst (rule_Match L N [tag \<mapsto> s] (DefaultRule (ruleset_rule [] tag) a) (ResetRuleCache (port_request 1 2)))"
proof -
  obtain s where s: "NewLocalRuleSet_inline L nm tag leak_rules = Ok s"
    "lr_rules s = [DefaultHeadlessRule (port_rule [1] [1]), DefaultHeadlessRule (port_rule [2] [2])]"
    using leak_rules_built by blast
  have "list_all (\<lambda>h. \<not> headless_holds L N h (ResetRuleCache (port_request 1 2))) (lr_rules s)"
    by (simp add: s(2) default_holds_def conditions_hold_def group_ok_def any_item_def port_eval)
  moreover have "fst (rule_Match L N [tag \<mapsto> s] (DefaultRule (ruleset_rule [] tag) a) (ResetRuleCache (port_request 1 2)))"
    by (simp add: s(2) port_eval match_eval)
  ultimately show ?thesis using s(1) by blast
qed

text \<open>
  a logical rule resets the flags, also those of the rule whose rule-set it is in. The rule with
  \<^verbatim>\<open>source_port 1\<close> and a rule-set of one logical rule does not match a request from port 1, although
  the logical rule matches that request.
\<close>

theorem logical_rule_resets_outer:
  assumes "rule_lib_ok L"
  shows "\<not> fst (rule_Match L N [tag \<mapsto> (EmptyLocalRuleSet tag)\<lparr>lr_rules :=
        [LogicalHeadlessRule [DefaultHeadlessRule (port_rule [] [2])] LogicalTypeOr False]\<rparr>]
      (DefaultRule (ruleset_rule [1] tag) a) (ResetRuleCache (port_request 1 2))) \<and>
    fst (headless_Match L N (LogicalHeadlessRule [DefaultHeadlessRule (port_rule [] [2])] LogicalTypeOr False)
      (ResetRuleCache (port_request 1 2)))"
  by (simp add: port_eval match_eval logical_Match_def LogicalTypeAnd_def LogicalTypeOr_def
      rl_All_simps [OF assms])

theorem logical_rule_resets_outer_witness:
  "\<not> fst (rule_Match demo_lib demo_net [''s'' \<mapsto> (EmptyLocalRuleSet ''s'')\<lparr>lr_rules :=
        [LogicalHeadlessRule [DefaultHeadlessRule (port_rule [] [2])] LogicalTypeOr False]\<rparr>]
      (DefaultRule (ruleset_rule [1] ''s'') ()) (ResetRuleCache (port_request 1 2)))"
  using logical_rule_resets_outer [OF demo_lib_ok, of demo_net "''s''" "()"] by blast

text \<open>
  \<^verbatim>\<open>query_type\<close> makes the options of a headless rule valid, but no item is built for it: the
  rule with only this condition is accepted and matches every request.
\<close>

theorem headless_query_type_ignored:
  "\<exists>h. NewHeadlessRule L nm (DefaultHeadlessOpt (NoHeadlessOptions\<lparr>ho_QueryType := q # qs\<rparr>)) = Ok h \<and>
     (\<forall>m. fst (headless_Match L N h m))"
  by (simp add: NewDefaultHeadlessRule_def NoHeadlessOptions_def DefaultHeadlessRule_IsValid_def
      abstract_Match_def empty_rule_def)

end
