(* ===== verification/Bytes.thy ===== *)
theory Bytes
  imports Netip
begin

unbundle bit_operations_syntax

text \<open>
  Byte strings: the big-endian bytes of a word and back (\<^verbatim>\<open>encoding/binary\<close>), and the byte form of an
  address (\<^verbatim>\<open>netip.Addr.AsSlice\<close>, \<^verbatim>\<open>netip.AddrFromSlice\<close>).
\<close>

type_synonym bytes = "8 word list"

section \<open>Big-endian words\<close>

primrec be_bytes :: "nat \<Rightarrow> 'a::len word \<Rightarrow> bytes" where
  "be_bytes 0 w = []"
| "be_bytes (Suc n) w = ucast (drop_bit (8 * n) w) # be_bytes n w"

definition be_word :: "bytes \<Rightarrow> 'a::len word" where
  "be_word bs = foldl (\<lambda>a b. push_bit 8 a OR ucast b) 0 bs"

lemma length_be_bytes [simp]: "length (be_bytes n w) = n"
  by (induction n) simp_all

lemma be_step:
  fixes a w :: "'a::len word"
  shows "push_bit (8 * n) (push_bit 8 a OR ucast (ucast (drop_bit (8 * n) w) :: 8 word)) OR take_bit (8 * n) w =
    push_bit (8 * Suc n) a OR take_bit (8 * Suc n) w"
  by (rule bit_word_eqI) (auto simp: bit_simps add.commute)

lemma foldl_be_bytes:
  fixes a w :: "'a::len word"
  shows "foldl (\<lambda>a b. push_bit 8 a OR ucast b) a (be_bytes n w) = push_bit (8 * n) a OR take_bit (8 * n) w"
proof (induction n arbitrary: a)
  case (Suc n)
  show ?case unfolding be_bytes.simps foldl_Cons Suc.IH by (rule be_step)
qed simp

lemma be_word_be_bytes: "be_word (be_bytes n w) = take_bit (8 * n) w"
  by (simp add: be_word_def foldl_be_bytes)

lemma be_roundtrip [simp]:
  fixes w :: "'a::len word"
  shows "LENGTH('a) \<le> 8 * n \<Longrightarrow> be_word (be_bytes n w) = w"
  unfolding be_word_be_bytes by (rule bit_word_eqI) (auto simp: bit_simps add.commute)

lemma be_bytes_inj:
  fixes v w :: "'a::len word"
  shows "LENGTH('a) \<le> 8 * n \<Longrightarrow> be_bytes n v = be_bytes n w \<longleftrightarrow> v = w"
  using be_roundtrip by metis

section \<open>The bytes of an address\<close>

fun addr_AsSlice :: "addr \<Rightarrow> bytes" where
  "addr_AsSlice NoAddr = []"
| "addr_AsSlice (Addr4 a) = be_bytes 4 a"
| "addr_AsSlice (Addr6 a z) = be_bytes 16 a"

definition AddrFromSlice :: "bytes \<Rightarrow> addr" where
  "AddrFromSlice bs =
     (if length bs = 4 then Addr4 (be_word bs) else if length bs = 16 then Addr6 (be_word bs) [] else NoAddr)"

lemma AddrFromSlice_AsSlice [simp]:
  "\<not> addr_hasZone a \<Longrightarrow> AddrFromSlice (addr_AsSlice a) = a"
  by (cases a) (simp_all add: AddrFromSlice_def del: be_bytes.simps)

end
