(* ===== verification/DNS_Message.thy ===== *)
theory DNS_Message
  imports Bytes "HOL-Library.Sublist"
begin

unbundle bit_operations_syntax

text \<open>
  DNS messages as the code sees them (the structs of \<^verbatim>\<open>github.com/miekg/dns\<close>) and what the files
  \<^verbatim>\<open>dns/client.go\<close>, \<^verbatim>\<open>dns/client_log.go\<close> and \<^verbatim>\<open>dns/extension_edns0_subnet.go\<close> compute on a message
  alone: fixed responses, addresses of a response, negative and minimal times to live, the client
  subnet option. A message is a value: \<^verbatim>\<open>Msg.Copy\<close> is the identity.
\<close>

section \<open>Messages\<close>

text \<open>
  A resource record is its header and its data. Data of a kind the code does not look into is
  \<open>DataOther\<close>. \<^verbatim>\<open>net.IP\<close> values are byte strings; the values of an HTTPS record are keys with their
  presentation form.
\<close>

record dns_header =
  hd_Name :: string
  hd_Rrtype :: "16 word"
  hd_Class :: "16 word"
  hd_Ttl :: "32 word"

datatype edns_option =
    SubnetOption (so_Code: "16 word") (so_Family: "16 word") (so_SourceNetmask: "8 word") (so_Address: bytes)
  | OtherOption "16 word" bytes

datatype dns_data =
    DataA bytes
  | DataAAAA bytes
  | DataCNAME string
  | DataTXT "string list"
  | DataMX "16 word" string
  | DataSOA "32 word"
  | DataHTTPS "(16 word \<times> string) list"
  | DataOPT "edns_option list"
  | DataOther string

record dns_rr =
  rr_Hdr :: dns_header
  rr_Data :: dns_data

record dns_question =
  q_Name :: string
  q_Qtype :: "16 word"
  q_Qclass :: "16 word"

record dns_msg =
  m_Id :: "16 word"
  m_Response :: bool
  m_Opcode :: int
  m_Authoritative :: bool
  m_Truncated :: bool
  m_RecursionDesired :: bool
  m_RecursionAvailable :: bool
  m_Zero :: bool
  m_AuthenticatedData :: bool
  m_CheckingDisabled :: bool
  m_Rcode :: int
  m_Question :: "dns_question list"
  m_Answer :: "dns_rr list"
  m_Ns :: "dns_rr list"
  m_Extra :: "dns_rr list"

definition NoMsg :: dns_msg where
  "NoMsg =
     \<lparr>m_Id = 0, m_Response = False, m_Opcode = 0, m_Authoritative = False, m_Truncated = False,
      m_RecursionDesired = False, m_RecursionAvailable = False, m_Zero = False,
      m_AuthenticatedData = False, m_CheckingDisabled = False, m_Rcode = 0, m_Question = [],
      m_Answer = [], m_Ns = [], m_Extra = []\<rparr>"

text \<open>Numbers assigned to record types, classes and response codes.\<close>

abbreviation (input) "TypeA \<equiv> (1 :: 16 word)"
abbreviation (input) "TypeCNAME \<equiv> (5 :: 16 word)"
abbreviation (input) "TypeAAAA \<equiv> (28 :: 16 word)"
abbreviation (input) "TypeOPT \<equiv> (41 :: 16 word)"
abbreviation (input) "TypeHTTPS \<equiv> (65 :: 16 word)"
abbreviation (input) "ClassINET \<equiv> (1 :: 16 word)"
abbreviation (input) "SVCB_IPV4HINT \<equiv> (4 :: 16 word)"
abbreviation (input) "SVCB_IPV6HINT \<equiv> (6 :: 16 word)"
abbreviation (input) "EDNS0SUBNET \<equiv> (8 :: 16 word)"
abbreviation (input) "RcodeSuccess \<equiv> (0 :: int)"
abbreviation (input) "RcodeFormatError \<equiv> (1 :: int)"
abbreviation (input) "RcodeNameError \<equiv> (3 :: int)"
abbreviation (input) "RcodeRefused \<equiv> (5 :: int)"

text \<open>All records of a message, in the order of the loops over \<^verbatim>\<open>Answer\<close>, \<^verbatim>\<open>Ns\<close> and \<^verbatim>\<open>Extra\<close>.\<close>

definition msg_records :: "dns_msg \<Rightarrow> dns_rr list" where
  "msg_records m = m_Answer m @ m_Ns m @ m_Extra m"

abbreviation rr_Ttl :: "dns_rr \<Rightarrow> 32 word" where
  "rr_Ttl r \<equiv> hd_Ttl (rr_Hdr r)"

abbreviation rr_Rrtype :: "dns_rr \<Rightarrow> 16 word" where
  "rr_Rrtype r \<equiv> hd_Rrtype (rr_Hdr r)"

definition set_ttl :: "32 word \<Rightarrow> dns_rr \<Rightarrow> dns_rr" where
  "set_ttl t r = r\<lparr>rr_Hdr := (rr_Hdr r)\<lparr>hd_Ttl := t\<rparr>\<rparr>"

text \<open>A loop that edits the header of every record of a message.\<close>

definition map_records :: "(dns_rr \<Rightarrow> dns_rr) \<Rightarrow> dns_msg \<Rightarrow> dns_msg" where
  "map_records f m = m\<lparr>m_Answer := map f (m_Answer m), m_Ns := map f (m_Ns m), m_Extra := map f (m_Extra m)\<rparr>"

lemma set_ttl_simps [simp]:
  "rr_Ttl (set_ttl t r) = t" "rr_Data (set_ttl t r) = rr_Data r" "rr_Rrtype (set_ttl t r) = rr_Rrtype r"
  "hd_Name (rr_Hdr (set_ttl t r)) = hd_Name (rr_Hdr r)" "hd_Class (rr_Hdr (set_ttl t r)) = hd_Class (rr_Hdr r)"
  by (simp_all add: set_ttl_def)

lemma set_ttl_set_ttl [simp]: "set_ttl t (set_ttl u r) = set_ttl t r"
  by (simp add: set_ttl_def)

lemma map_records_simps [simp]:
  "m_Answer (map_records f m) = map f (m_Answer m)" "m_Ns (map_records f m) = map f (m_Ns m)"
  "m_Extra (map_records f m) = map f (m_Extra m)" "m_Rcode (map_records f m) = m_Rcode m"
  "m_Question (map_records f m) = m_Question m" "m_Id (map_records f m) = m_Id m"
  "msg_records (map_records f m) = map f (msg_records m)"
  by (simp_all add: map_records_def msg_records_def)

lemma map_records_compose: "map_records f (map_records g m) = map_records (\<lambda>r. f (g r)) m"
  by (simp add: map_records_def comp_def)

lemma map_records_cong:
  "(\<And>r. r \<in> set (msg_records m) \<Longrightarrow> f r = g r) \<Longrightarrow> map_records f m = map_records g m"
  by (simp add: map_records_def msg_records_def)

section \<open>The library of DNS messages\<close>

text \<open>
  Functions of \<^verbatim>\<open>miekg/dns\<close> and of \<^verbatim>\<open>sing\<close>: \<^verbatim>\<open>IsFqdn\<close>, \<^verbatim>\<open>Fqdn\<close>, the reading of an OPT record
  (\<^verbatim>\<open>Version\<close>, \<^verbatim>\<open>Do\<close>, \<^verbatim>\<open>UDPSize\<close>), \<^verbatim>\<open>Msg.IsEdns0\<close> and \<^verbatim>\<open>Msg.SetEdns0\<close>; \<^verbatim>\<open>M.AddrFromIP\<close>,
  \<^verbatim>\<open>M.ParseAddr\<close>, \<^verbatim>\<open>common.Filter\<close>.
\<close>

record dns_lib =
  dl_IsFqdn :: "string \<Rightarrow> bool"
  dl_Fqdn :: "string \<Rightarrow> string"
  dl_Version :: "dns_rr \<Rightarrow> 8 word"
  dl_Do :: "dns_rr \<Rightarrow> bool"
  dl_UDPSize :: "dns_rr \<Rightarrow> 16 word"
  dl_IsEdns0 :: "dns_msg \<Rightarrow> dns_rr option"
  dl_SetEdns0 :: "dns_msg \<Rightarrow> 16 word \<Rightarrow> bool \<Rightarrow> dns_msg"
  dl_AddrFromIP :: "bytes \<Rightarrow> addr"
  dl_ParseAddr :: "string \<Rightarrow> addr"
  dl_FilterRR :: "dns_rr list \<Rightarrow> (dns_rr \<Rightarrow> bool) \<Rightarrow> dns_rr list"
  dl_FilterKV :: "(16 word \<times> string) list \<Rightarrow> (16 word \<times> string \<Rightarrow> bool) \<Rightarrow> (16 word \<times> string) list"

text \<open>
  What the code relies on. The version of an OPT record is bits 16 to 23 of the field that other
  records use for the time to live, its DO flag is bit 15 and the UDP size is its class (RFC 6891);
  \<^verbatim>\<open>IsEdns0\<close> finds an OPT record of the additional section if there is one; \<^verbatim>\<open>SetEdns0\<close> appends an OPT
  record of version 0 with the given size and flag; \<^verbatim>\<open>AddrFromIP\<close> reads 4 or 16 bytes.
\<close>

definition opt_record :: "16 word \<Rightarrow> bool \<Rightarrow> dns_rr" where
  "opt_record sz dob =
     \<lparr>rr_Hdr = \<lparr>hd_Name = ''.'', hd_Rrtype = TypeOPT, hd_Class = sz, hd_Ttl = if dob then 0x8000 else 0\<rparr>,
      rr_Data = DataOPT []\<rparr>"

definition dns_lib_ok :: "dns_lib \<Rightarrow> bool" where
  "dns_lib_ok D \<longleftrightarrow>
     (\<forall>s. dl_IsFqdn D (s @ ''.'') \<or> suffix [CHR 0x5C] s) \<and> (\<forall>s. dl_IsFqdn D s \<longrightarrow> suffix ''.'' s) \<and>
     (\<forall>s. dl_Fqdn D s = (if dl_IsFqdn D s then s else s @ ''.'')) \<and>
     (\<forall>r. dl_Version D r = ucast (drop_bit 16 (rr_Ttl r))) \<and>
     (\<forall>r. dl_Do D r = bit (rr_Ttl r) 15) \<and>
     (\<forall>r. dl_UDPSize D r = hd_Class (rr_Hdr r)) \<and>
     (\<forall>m. dl_IsEdns0 D m = None \<longleftrightarrow> (\<forall>r \<in> set (m_Extra m). rr_Rrtype r \<noteq> TypeOPT)) \<and>
     (\<forall>m r. dl_IsEdns0 D m = Some r \<longrightarrow> r \<in> set (m_Extra m) \<and> rr_Rrtype r = TypeOPT) \<and>
     (\<forall>m sz dob. dl_SetEdns0 D m sz dob = m\<lparr>m_Extra := m_Extra m @ [opt_record sz dob]\<rparr>) \<and>
     (\<forall>bs. dl_AddrFromIP D bs = AddrFromSlice bs) \<and>
     (\<forall>xs p. dl_FilterRR D xs p = filter p xs) \<and> (\<forall>xs p. dl_FilterKV D xs p = filter p xs)"

text \<open>A library that meets this, for witnesses; it reads no textual addresses.\<close>

definition demo_dns_lib :: dns_lib where
  "demo_dns_lib =
     \<lparr>dl_IsFqdn = (\<lambda>s. suffix ''.'' s), dl_Fqdn = (\<lambda>s. if suffix ''.'' s then s else s @ ''.''),
      dl_Version = (\<lambda>r. ucast (drop_bit 16 (rr_Ttl r))), dl_Do = (\<lambda>r. bit (rr_Ttl r) 15),
      dl_UDPSize = (\<lambda>r. hd_Class (rr_Hdr r)),
      dl_IsEdns0 = (\<lambda>m. find (\<lambda>r. rr_Rrtype r = TypeOPT) (rev (m_Extra m))),
      dl_SetEdns0 = (\<lambda>m sz dob. m\<lparr>m_Extra := m_Extra m @ [opt_record sz dob]\<rparr>),
      dl_AddrFromIP = AddrFromSlice, dl_ParseAddr = (\<lambda>_. NoAddr),
      dl_FilterRR = (\<lambda>xs p. filter p xs), dl_FilterKV = (\<lambda>xs p. filter p xs)\<rparr>"

lemma demo_IsEdns0:
  "dl_IsEdns0 demo_dns_lib m = None \<longleftrightarrow> (\<forall>r \<in> set (m_Extra m). rr_Rrtype r \<noteq> TypeOPT)"
  "dl_IsEdns0 demo_dns_lib m = Some r \<Longrightarrow> r \<in> set (m_Extra m) \<and> rr_Rrtype r = TypeOPT"
  using find_some_mem [of "\<lambda>r. rr_Rrtype r = TypeOPT" "rev (m_Extra m)" r]
  by (simp_all add: demo_dns_lib_def find_eq_None)

lemma demo_dns_lib_ok: "dns_lib_ok demo_dns_lib"
  unfolding dns_lib_ok_def
  by (intro conjI allI impI demo_IsEdns0) (simp_all add: demo_dns_lib_def demo_IsEdns0 [unfolded demo_dns_lib_def, simplified])

lemma dns_lib_simps:
  assumes "dns_lib_ok D"
  shows "dl_Version D r = ucast (drop_bit 16 (rr_Ttl r))" "dl_Do D r = bit (rr_Ttl r) 15"
    "dl_UDPSize D r = hd_Class (rr_Hdr r)"
    "dl_SetEdns0 D m sz dob = m\<lparr>m_Extra := m_Extra m @ [opt_record sz dob]\<rparr>"
    "dl_AddrFromIP D bs = AddrFromSlice bs" "dl_FilterRR D xs p = filter p xs" "dl_FilterKV D kvs k = filter k kvs"
    "dl_Fqdn D s = (if dl_IsFqdn D s then s else s @ ''.'')"
  using assms by (simp_all add: dns_lib_ok_def)

lemma dns_lib_IsEdns0:
  assumes "dns_lib_ok D"
  shows "dl_IsEdns0 D m = None \<longleftrightarrow> (\<forall>r \<in> set (m_Extra m). rr_Rrtype r \<noteq> TypeOPT)"
    and "dl_IsEdns0 D m = Some r \<Longrightarrow> r \<in> set (m_Extra m) \<and> rr_Rrtype r = TypeOPT"
  using assms by (simp_all add: dns_lib_ok_def)

section \<open>Names\<close>

text \<open>A slice of all but the last byte.\<close>

definition FqdnToDomain :: "dns_lib \<Rightarrow> string \<Rightarrow> string" where
  "FqdnToDomain D fqdn = (if dl_IsFqdn D fqdn then butlast fqdn else fqdn)"

lemma FqdnToDomain_Fqdn:
  assumes "dns_lib_ok D" and "\<not> suffix [CHR 0x5C] d" and "\<not> dl_IsFqdn D d"
  shows "FqdnToDomain D (dl_Fqdn D d) = d"
  using assms(2,3) assms(1) [unfolded dns_lib_ok_def, THEN conjunct1, rule_format, of d]
  by (simp add: FqdnToDomain_def dns_lib_simps(8) [OF assms(1)])

section \<open>Fixed responses\<close>

definition fixed_header :: "16 word \<Rightarrow> int \<Rightarrow> dns_msg" where
  "fixed_header i rcode =
     NoMsg\<lparr>m_Id := i, m_Response := True, m_Authoritative := True, m_RecursionDesired := True,
           m_RecursionAvailable := True, m_Rcode := rcode\<rparr>"

definition FixedResponseStatus :: "dns_msg \<Rightarrow> int \<Rightarrow> dns_msg" where
  "FixedResponseStatus message rcode = (fixed_header (m_Id message) rcode)\<lparr>m_Question := m_Question message\<rparr>"

definition fixed_rr :: "dns_question \<Rightarrow> 16 word \<Rightarrow> 32 word \<Rightarrow> dns_data \<Rightarrow> dns_rr" where
  "fixed_rr q rrtype ttl data =
     \<lparr>rr_Hdr = \<lparr>hd_Name = q_Name q, hd_Rrtype = rrtype, hd_Class = ClassINET, hd_Ttl = ttl\<rparr>, rr_Data = data\<rparr>"

text \<open>Addresses of the family that was not asked for are left out.\<close>

fun fixed_answers :: "dns_question \<Rightarrow> 32 word \<Rightarrow> addr list \<Rightarrow> dns_rr list" where
  "fixed_answers q ttl [] = []"
| "fixed_answers q ttl (address # rest) =
     (if addr_Is4 address \<and> q_Qtype q = TypeA
      then fixed_rr q TypeA ttl (DataA (addr_AsSlice address)) # fixed_answers q ttl rest
      else if addr_Is6 address \<and> q_Qtype q = TypeAAAA
      then fixed_rr q TypeAAAA ttl (DataAAAA (addr_AsSlice address)) # fixed_answers q ttl rest
      else fixed_answers q ttl rest)"

definition FixedResponse :: "16 word \<Rightarrow> dns_question \<Rightarrow> addr list \<Rightarrow> 32 word \<Rightarrow> dns_msg" where
  "FixedResponse i q addresses ttl =
     (fixed_header i RcodeSuccess)\<lparr>m_Question := [q], m_Answer := fixed_answers q ttl addresses\<rparr>"

definition FixedResponseCNAME :: "16 word \<Rightarrow> dns_question \<Rightarrow> string \<Rightarrow> 32 word \<Rightarrow> dns_msg" where
  "FixedResponseCNAME i q target ttl =
     (fixed_header i RcodeSuccess)\<lparr>m_Question := [q], m_Answer := [fixed_rr q TypeCNAME ttl (DataCNAME target)]\<rparr>"

text \<open>The headers of these two carry the type of an address record.\<close>

definition FixedResponseTXT :: "16 word \<Rightarrow> dns_question \<Rightarrow> string list \<Rightarrow> 32 word \<Rightarrow> dns_msg" where
  "FixedResponseTXT i q txt ttl =
     (fixed_header i RcodeSuccess)\<lparr>m_Question := [q], m_Answer := [fixed_rr q TypeA ttl (DataTXT txt)]\<rparr>"

definition FixedResponseMX :: "16 word \<Rightarrow> dns_question \<Rightarrow> (16 word \<times> string) list \<Rightarrow> 32 word \<Rightarrow> dns_msg" where
  "FixedResponseMX i q mxs ttl =
     (fixed_header i RcodeSuccess)\<lparr>m_Question := [q],
        m_Answer := map (\<lambda>(pref, host). fixed_rr q TypeA ttl (DataMX pref host)) mxs\<rparr>"

section \<open>The addresses of a response\<close>

text \<open>\<^verbatim>\<open>strings.Split\<close> at commas: always at least one piece.\<close>

fun split_comma :: "string \<Rightarrow> string list" where
  "split_comma [] = [[]]"
| "split_comma (c # cs) =
     (if c = CHR '','' then [] # split_comma cs
      else (case split_comma cs of p # ps \<Rightarrow> (c # p) # ps | [] \<Rightarrow> [[c]]))"

fun hint_addresses :: "dns_lib \<Rightarrow> (16 word \<times> string) list \<Rightarrow> addr list" where
  "hint_addresses D [] = []"
| "hint_addresses D ((key, v) # kvs) =
     (if key = SVCB_IPV4HINT \<or> key = SVCB_IPV6HINT
      then map (dl_ParseAddr D) (split_comma v) @ hint_addresses D kvs
      else hint_addresses D kvs)"

fun data_addresses :: "dns_lib \<Rightarrow> dns_data \<Rightarrow> addr list" where
  "data_addresses D (DataA bs) = [dl_AddrFromIP D bs]"
| "data_addresses D (DataAAAA bs) = [dl_AddrFromIP D bs]"
| "data_addresses D (DataHTTPS kvs) = hint_addresses D kvs"
| "data_addresses D _ = []"

definition MessageToAddresses :: "dns_lib \<Rightarrow> dns_msg \<Rightarrow> addr list" where
  "MessageToAddresses D response =
     (if m_Rcode response \<noteq> RcodeSuccess then []
      else concat (map (\<lambda>r. data_addresses D (rr_Data r)) (m_Answer response)))"

lemma MessageToAddresses_map_records [simp]:
  "(\<And>r. rr_Data (f r) = rr_Data r) \<Longrightarrow> MessageToAddresses D (map_records f m) = MessageToAddresses D m"
  by (simp add: MessageToAddresses_def comp_def)

lemma MessageToAddresses_edits [simp]:
  "MessageToAddresses D (m\<lparr>m_Id := i\<rparr>) = MessageToAddresses D m"
  "MessageToAddresses D (m\<lparr>m_Extra := rs\<rparr>) = MessageToAddresses D m"
  by (simp_all add: MessageToAddresses_def)

definition of_family :: "16 word \<Rightarrow> addr \<Rightarrow> bool" where
  "of_family qtype a \<longleftrightarrow> qtype = TypeA \<and> addr_Is4 a \<or> qtype = TypeAAAA \<and> addr_Is6 a"

lemma fixed_answers_addresses:
  assumes "dns_lib_ok D" and "\<And>a. a \<in> set as \<Longrightarrow> \<not> addr_hasZone a"
  shows "concat (map (\<lambda>r. data_addresses D (rr_Data r)) (fixed_answers q ttl as)) = filter (of_family (q_Qtype q)) as"
  using assms(2)
  by (induction as) (auto simp: fixed_rr_def of_family_def dns_lib_simps(5) [OF assms(1)])

lemma FixedResponse_addresses:
  assumes "dns_lib_ok D" and "\<And>a. a \<in> set as \<Longrightarrow> \<not> addr_hasZone a"
  shows "MessageToAddresses D (FixedResponse i q as ttl) = filter (of_family (q_Qtype q)) as"
  using fixed_answers_addresses [OF assms]
  by (simp add: MessageToAddresses_def FixedResponse_def fixed_header_def NoMsg_def)

section \<open>Times to live\<close>

text \<open>The negative time to live: the first SOA record of the authority section decides.\<close>

fun negative_ttl :: "dns_rr list \<Rightarrow> 32 word option" where
  "negative_ttl [] = None"
| "negative_ttl (r # rs) =
     (case rr_Data r of
        DataSOA minttl \<Rightarrow> Some (if rr_Ttl r < minttl then rr_Ttl r else minttl)
      | _ \<Rightarrow> negative_ttl rs)"

definition extractNegativeTTL :: "dns_msg \<Rightarrow> 32 word option" where
  "extractNegativeTTL response = negative_ttl (m_Ns response)"

text \<open>
  The smallest positive time to live of a list of records, as the loops of \<^verbatim>\<open>Exchange\<close> and
  \<^verbatim>\<open>loadResponse\<close> compute it: a zero is overwritten by whatever comes.
\<close>

definition ttl_step :: "32 word \<Rightarrow> dns_rr \<Rightarrow> 32 word" where
  "ttl_step ttl r = (if ttl = 0 \<or> rr_Ttl r > 0 \<and> rr_Ttl r < ttl then rr_Ttl r else ttl)"

definition min_ttl :: "32 word \<Rightarrow> dns_rr list \<Rightarrow> 32 word" where
  "min_ttl ttl rs = foldl ttl_step ttl rs"

lemma min_ttl_Nil [simp]: "min_ttl t [] = t"
  and min_ttl_Cons [simp]: "min_ttl t (r # rs) = min_ttl (ttl_step t r) rs"
  by (simp_all add: min_ttl_def)

lemma min_ttl_uniform: "(\<And>r. r \<in> set rs \<Longrightarrow> rr_Ttl r = t) \<Longrightarrow> min_ttl t rs = t"
  by (induction rs) (auto simp: ttl_step_def)

lemma min_ttl_uniform0: "(\<And>r. r \<in> set rs \<Longrightarrow> rr_Ttl r = t) \<Longrightarrow> rs \<noteq> [] \<Longrightarrow> min_ttl 0 rs = t"
  by (cases rs) (simp_all add: ttl_step_def min_ttl_uniform)

lemma min_ttl_le: "0 < min_ttl t rs \<Longrightarrow> (t = 0 \<or> min_ttl t rs \<le> t) \<and> (\<forall>r \<in> set rs. rr_Ttl r = 0 \<or> min_ttl t rs \<le> rr_Ttl r)"
proof (induction rs arbitrary: t)
  case (Cons r rs)
  from Cons.IH [of "ttl_step t r"] Cons.prems show ?case
    by (auto simp: ttl_step_def word_neq_0_conv not_less split: if_splits intro: order_trans)
qed simp

lemma min_ttl_attained: "min_ttl t rs = t \<or> min_ttl t rs \<in> rr_Ttl ` set rs"
proof (induction rs arbitrary: t)
  case (Cons r rs)
  from Cons.IH [of "ttl_step t r"] show ?case by (auto simp: ttl_step_def)
qed simp

section \<open>The client subnet option\<close>

text \<open>
  The search of \<^verbatim>\<open>setClientSubnet\<close> for an OPT record and its subnet option, as positions. The type
  assertion writes the variables also when it fails, so unless a subnet option was found they
  describe the last record only: \<open>opt\<close> is the position of the record if it is an OPT record.
\<close>

fun subnet_position :: "nat \<Rightarrow> edns_option list \<Rightarrow> nat option" where
  "subnet_position j [] = None"
| "subnet_position j (o1 # os) =
     (case o1 of SubnetOption _ _ _ _ \<Rightarrow> Some j | _ \<Rightarrow> subnet_position (Suc j) os)"

fun find_subnet :: "nat \<Rightarrow> nat option \<Rightarrow> dns_rr list \<Rightarrow> nat option \<times> nat option" where
  "find_subnet i opt [] = (opt, None)"
| "find_subnet i opt (r # rs) =
     (case rr_Data r of
        DataOPT os \<Rightarrow>
          (case subnet_position 0 os of
             Some j \<Rightarrow> (Some i, Some j)
           | None \<Rightarrow> find_subnet (Suc i) (Some i) rs)
      | _ \<Rightarrow> find_subnet (Suc i) None rs)"

definition subnet_option :: "edns_option \<Rightarrow> prefix \<Rightarrow> edns_option" where
  "subnet_option o1 clientSubnet =
     SubnetOption (so_Code o1) (if addr_Is4 (px_addr clientSubnet) then 1 else 2)
       (word_of_int (px_bits clientSubnet)) (addr_AsSlice (px_addr clientSubnet))"

text \<open>The options of the OPT record after the edit: the option found is overwritten, or one is added.\<close>

definition edit_options :: "prefix \<Rightarrow> nat option \<Rightarrow> edns_option list \<Rightarrow> edns_option list" where
  "edit_options clientSubnet j os =
     (case j of
        Some k \<Rightarrow> os[k := subnet_option (os ! k) clientSubnet]
      | None \<Rightarrow> os @ [subnet_option (SubnetOption EDNS0SUBNET 0 0 []) clientSubnet])"

definition edit_opt :: "prefix \<Rightarrow> nat option \<Rightarrow> dns_rr \<Rightarrow> dns_rr" where
  "edit_opt clientSubnet j r =
     (case rr_Data r of DataOPT os \<Rightarrow> r\<lparr>rr_Data := DataOPT (edit_options clientSubnet j os)\<rparr> | _ \<Rightarrow> r)"

text \<open>The record that is added has class and flags zero.\<close>

definition new_opt :: dns_rr where
  "new_opt = \<lparr>rr_Hdr = \<lparr>hd_Name = ''.'', hd_Rrtype = TypeOPT, hd_Class = 0, hd_Ttl = 0\<rparr>, rr_Data = DataOPT []\<rparr>"

function setClientSubnet :: "dns_msg \<Rightarrow> prefix \<Rightarrow> bool \<Rightarrow> dns_msg" where
  "setClientSubnet message clientSubnet clone =
     (case find_subnet 0 None (m_Extra message) of
        (None, j) \<Rightarrow> message\<lparr>m_Extra := m_Extra message @ [edit_opt clientSubnet j new_opt]\<rparr>
      | (Some i, j) \<Rightarrow>
          if clone then setClientSubnet message clientSubnet False
          else message\<lparr>m_Extra := (m_Extra message)[i := edit_opt clientSubnet j (m_Extra message ! i)]\<rparr>)"

  by pat_completeness auto
termination
  by (relation "measure (\<lambda>(_, _, clone). if clone then 1 else 0)") (auto split: if_splits)

definition SetClientSubnet :: "dns_msg \<Rightarrow> prefix \<Rightarrow> dns_msg" where
  "SetClientSubnet message clientSubnet = setClientSubnet message clientSubnet True"

declare setClientSubnet.simps [simp del]

text \<open>The recursive call edits the copy: the subnet is set once, and only the additional section changes.\<close>

lemma SetClientSubnet_eq:
  "SetClientSubnet m p =
     m\<lparr>m_Extra := (case find_subnet 0 None (m_Extra m) of
        (None, j) \<Rightarrow> m_Extra m @ [edit_opt p j new_opt]
      | (Some i, j) \<Rightarrow> (m_Extra m)[i := edit_opt p j (m_Extra m ! i)])\<rparr>"
  by (simp add: SetClientSubnet_def setClientSubnet.simps [of m p True] setClientSubnet.simps [of m p False]
      split: prod.splits option.splits)

lemma SetClientSubnet_keeps [simp]:
  "m_Question (SetClientSubnet m p) = m_Question m" "m_Id (SetClientSubnet m p) = m_Id m"
  "m_Ns (SetClientSubnet m p) = m_Ns m"
  by (simp_all add: SetClientSubnet_eq)

text \<open>
  A message whose OPT record is not the last additional record gets a second OPT record, which RFC
  6891 forbids.
\<close>

lemma SetClientSubnet_second_opt:
  assumes "m_Extra m = [opt_record sz dob, r]" and "\<And>os. rr_Data r \<noteq> DataOPT os"
  shows "length (filter (\<lambda>r. rr_Rrtype r = TypeOPT) (m_Extra (SetClientSubnet m p))) \<ge> 2"
  using assms
  by (auto simp: SetClientSubnet_eq opt_record_def new_opt_def edit_opt_def split: dns_data.splits)

end
