(* ===== verification/Rule_Action.thy ===== *)
theory Rule_Action
  imports Rules DNS_Message
begin

text \<open>
  \<^verbatim>\<open>route/rule/rule_action.go\<close> and the construction of whole rules (\<^verbatim>\<open>NewRule\<close>, \<^verbatim>\<open>NewDNSRule\<close>):
  the actions of route and DNS rules, their construction from options, the flood counter of the
  \<^verbatim>\<open>reject\<close> action and the wildcard records of the \<^verbatim>\<open>predefined\<close> action.
\<close>

section \<open>Options of actions\<close>

text \<open>\<^verbatim>\<open>option.RawRouteOptionsActionOptions\<close>; durations are in nanoseconds.\<close>

record route_opts =
  rr_OverrideAddress :: string
  rr_OverridePort :: "16 word"
  rr_NetworkStrategy :: "nat option"
  rr_FallbackDelay :: "32 word"
  rr_UDPDisableDomainUnmapping :: bool
  rr_UDPConnect :: bool
  rr_UDPTimeout :: int
  rr_TLSFragment :: bool
  rr_TLSFragmentFallbackDelay :: int
  rr_TLSRecordFragment :: bool

definition NoRouteOpts :: route_opts where
  "NoRouteOpts =
     \<lparr>rr_OverrideAddress = [], rr_OverridePort = 0, rr_NetworkStrategy = None, rr_FallbackDelay = 0,
      rr_UDPDisableDomainUnmapping = False, rr_UDPConnect = False, rr_UDPTimeout = 0,
      rr_TLSFragment = False, rr_TLSFragmentFallbackDelay = 0, rr_TLSRecordFragment = False\<rparr>"

text \<open>
  \<^verbatim>\<open>option.RuleAction\<close> and \<^verbatim>\<open>option.DNSRuleAction\<close>. The dialer of a \<^verbatim>\<open>direct\<close> action is built by
  \<^verbatim>\<open>common/dialer\<close>: \<open>ao_Direct\<close> is what that construction ends with, the description of the dialer or
  an error. Records of a \<^verbatim>\<open>predefined\<close> action are built values.
\<close>

record resolve_opts =
  rs_Server :: string
  rs_Strategy :: nat
  rs_DisableCache :: bool
  rs_RewriteTTL :: "32 word option"
  rs_ClientSubnet :: "prefix option"

definition NoResolveOpts :: resolve_opts where
  "NoResolveOpts =
     \<lparr>rs_Server = [], rs_Strategy = 0, rs_DisableCache = False, rs_RewriteTTL = None, rs_ClientSubnet = None\<rparr>"

record action_opts =
  ao_Action :: string
  ao_Outbound :: string
  ao_Route :: route_opts
  ao_RouteOptions :: route_opts
  ao_BypassOutbound :: string
  ao_Bypass :: route_opts
  ao_Direct :: "go_err + string"
  ao_Method :: string
  ao_NoDrop :: bool
  ao_Sniffer :: "string list"
  ao_SniffTimeout :: int
  ao_Resolve :: resolve_opts

record dns_action_opts =
  do_Action :: string
  do_Route :: resolve_opts
  do_RouteOptions :: resolve_opts
  do_Method :: string
  do_NoDrop :: bool
  do_Rcode :: int
  do_Answer :: "dns_rr list"
  do_Ns :: "dns_rr list"
  do_Extra :: "dns_rr list"

definition NoActionOpts :: action_opts where
  "NoActionOpts =
     \<lparr>ao_Action = [], ao_Outbound = [], ao_Route = NoRouteOpts, ao_RouteOptions = NoRouteOpts,
      ao_BypassOutbound = [], ao_Bypass = NoRouteOpts, ao_Direct = Inr [], ao_Method = [], ao_NoDrop = False,
      ao_Sniffer = [], ao_SniffTimeout = 0, ao_Resolve = NoResolveOpts\<rparr>"

definition NoDNSActionOpts :: dns_action_opts where
  "NoDNSActionOpts =
     \<lparr>do_Action = [], do_Route = NoResolveOpts, do_RouteOptions = NoResolveOpts, do_Method = [],
      do_NoDrop = False, do_Rcode = 0, do_Answer = [], do_Ns = [], do_Extra = []\<rparr>"

section \<open>Actions\<close>

record route_options_action =
  ra_OverrideAddress :: socksaddr
  ra_OverridePort :: "16 word"
  ra_NetworkStrategy :: "nat option"
  ra_NetworkType :: "interface_type list"
  ra_FallbackNetworkType :: "interface_type list"
  ra_FallbackDelay :: int
  ra_UDPDisableDomainUnmapping :: bool
  ra_UDPConnect :: bool
  ra_UDPTimeout :: int
  ra_TLSFragment :: bool
  ra_TLSFragmentFallbackDelay :: int
  ra_TLSRecordFragment :: bool

datatype stream_sniffer = TLSClientHello | HTTPHost | StreamDomainNameQuery | BitTorrent | SSH | RDP

datatype packet_sniffer = QUICClientHello | DomainNameQuery | STUNMessage | UTP | UDPTracker | DTLSRecord | NTP

record sniff_action =
  sn_SnifferNames :: "string list"
  sn_StreamSniffers :: "stream_sniffer list"
  sn_PacketSniffers :: "packet_sniffer list"
  sn_Timeout :: int
  sn_OverrideDestination :: bool

record resolve_action =
  rv_Server :: string
  rv_Strategy :: nat
  rv_DisableCache :: bool
  rv_RewriteTTL :: "32 word option"
  rv_ClientSubnet :: prefix

text \<open>\<open>NilAction\<close> is the nil interface of an action that was not given.\<close>

datatype action =
    NilAction
  | ActionRoute string route_options_action
  | ActionRouteOptions route_options_action
  | ActionBypass string route_options_action
  | ActionDirect string
  | ActionReject string bool
  | ActionHijackDNS
  | ActionSniff sniff_action
  | ActionResolve resolve_action

datatype dns_action =
    NilDNSAction
  | ActionDNSRoute resolve_action
  | ActionDNSRouteOptions resolve_action
  | ActionDNSReject string bool
  | ActionPredefined int "dns_rr list" "dns_rr list" "dns_rr list"

text \<open>The method \<^verbatim>\<open>Type\<close>; on the nil interface the call panics.\<close>

fun action_Type :: "action \<Rightarrow> string go_out" where
  "action_Type NilAction = Panic ''nil pointer dereference''"
| "action_Type (ActionRoute _ _) = Ok ''route''"
| "action_Type (ActionRouteOptions _) = Ok ''route-options''"
| "action_Type (ActionBypass _ _) = Ok ''bypass''"
| "action_Type (ActionDirect _) = Ok ''direct''"
| "action_Type (ActionReject _ _) = Ok ''reject''"
| "action_Type ActionHijackDNS = Ok ''hijack-dns''"
| "action_Type (ActionSniff _) = Ok ''sniff''"
| "action_Type (ActionResolve _) = Ok ''resolve''"

section \<open>Construction\<close>

text \<open>
  \<^verbatim>\<open>M.ParseSocksaddrHostPort\<close>, \<^verbatim>\<open>common.Filter\<close> and \<^verbatim>\<open>common.Map\<close> are functions of \<^verbatim>\<open>sing\<close>.
\<close>

record action_lib =
  al_ParseSocksaddrHostPort :: "string \<Rightarrow> 16 word \<Rightarrow> socksaddr"
  al_Filter :: "int list \<Rightarrow> (int \<Rightarrow> bool) \<Rightarrow> int list"
  al_Map :: "dns_rr list \<Rightarrow> (dns_rr \<Rightarrow> dns_rr) \<Rightarrow> dns_rr list"

definition action_lib_ok :: "action_lib \<Rightarrow> bool" where
  "action_lib_ok A \<longleftrightarrow> (\<forall>xs p. al_Filter A xs p = filter p xs) \<and> (\<forall>xs f. al_Map A xs f = map f xs)"

definition demo_action_lib :: action_lib where
  "demo_action_lib =
     \<lparr>al_ParseSocksaddrHostPort = (\<lambda>h p. \<lparr>sa_Addr = NoAddr, sa_Port = p, sa_Fqdn = h\<rparr>),
      al_Filter = (\<lambda>xs p. filter p xs), al_Map = (\<lambda>xs f. map f xs)\<rparr>"

lemma demo_action_lib_ok: "action_lib_ok demo_action_lib"
  by (simp add: action_lib_ok_def demo_action_lib_def)

text \<open>
  The options of a \<^verbatim>\<open>route\<close> or \<^verbatim>\<open>bypass\<close> action: the UDP timeout is not copied, and neither of the
  lists of network types is.
\<close>

definition route_action_options :: "action_lib \<Rightarrow> route_opts \<Rightarrow> route_options_action" where
  "route_action_options A o1 =
     \<lparr>ra_OverrideAddress = al_ParseSocksaddrHostPort A (rr_OverrideAddress o1) 0,
      ra_OverridePort = rr_OverridePort o1, ra_NetworkStrategy = rr_NetworkStrategy o1,
      ra_NetworkType = [], ra_FallbackNetworkType = [], ra_FallbackDelay = uint (rr_FallbackDelay o1),
      ra_UDPDisableDomainUnmapping = rr_UDPDisableDomainUnmapping o1, ra_UDPConnect = rr_UDPConnect o1,
      ra_UDPTimeout = 0, ra_TLSFragment = rr_TLSFragment o1,
      ra_TLSFragmentFallbackDelay = rr_TLSFragmentFallbackDelay o1,
      ra_TLSRecordFragment = rr_TLSRecordFragment o1\<rparr>"

definition route_options_options :: "action_lib \<Rightarrow> route_opts \<Rightarrow> route_options_action" where
  "route_options_options A o1 = (route_action_options A o1)\<lparr>ra_UDPTimeout := rr_UDPTimeout o1\<rparr>"

fun build_sniffers ::
  "string list \<Rightarrow> stream_sniffer list \<Rightarrow> packet_sniffer list \<Rightarrow>
   go_err + stream_sniffer list \<times> packet_sniffer list" where
  "build_sniffers [] ss ps = Inr (ss, ps)"
| "build_sniffers (name # names) ss ps =
     (if name = ''tls'' then build_sniffers names (ss @ [TLSClientHello]) ps
      else if name = ''http'' then build_sniffers names (ss @ [HTTPHost]) ps
      else if name = ''quic'' then build_sniffers names ss (ps @ [QUICClientHello])
      else if name = ''dns'' then build_sniffers names (ss @ [StreamDomainNameQuery]) (ps @ [DomainNameQuery])
      else if name = ''stun'' then build_sniffers names ss (ps @ [STUNMessage])
      else if name = ''bittorrent'' then build_sniffers names (ss @ [BitTorrent]) (ps @ [UTP, UDPTracker])
      else if name = ''dtls'' then build_sniffers names ss (ps @ [DTLSRecord])
      else if name = ''ssh'' then build_sniffers names (ss @ [SSH]) ps
      else if name = ''rdp'' then build_sniffers names (ss @ [RDP]) ps
      else if name = ''ntp'' then build_sniffers names ss (ps @ [NTP])
      else Inl (ErrNew [''unknown sniffer: '', name]))"

definition resolve_of :: "resolve_opts \<Rightarrow> resolve_action" where
  "resolve_of o1 =
     \<lparr>rv_Server = rs_Server o1, rv_Strategy = rs_Strategy o1, rv_DisableCache = rs_DisableCache o1,
      rv_RewriteTTL = rs_RewriteTTL o1,
      rv_ClientSubnet = (case rs_ClientSubnet o1 of None \<Rightarrow> NoPrefix | Some p \<Rightarrow> p)\<rparr>"

definition NewRuleAction :: "action_lib \<Rightarrow> action_opts \<Rightarrow> action go_out" where
  "NewRuleAction A o1 =
     (if ao_Action o1 = [] then Ok NilAction
      else if ao_Action o1 = ''route'' then Ok (ActionRoute (ao_Outbound o1) (route_action_options A (ao_Route o1)))
      else if ao_Action o1 = ''route-options'' then Ok (ActionRouteOptions (route_options_options A (ao_RouteOptions o1)))
      else if ao_Action o1 = ''bypass''
      then Ok (ActionBypass (ao_BypassOutbound o1) (route_action_options A (ao_Bypass o1)))
      else if ao_Action o1 = ''direct''
      then (case ao_Direct o1 of Inl e \<Rightarrow> Err e | Inr description \<Rightarrow> Ok (ActionDirect description))
      else if ao_Action o1 = ''reject'' then Ok (ActionReject (ao_Method o1) (ao_NoDrop o1))
      else if ao_Action o1 = ''hijack-dns'' then Ok ActionHijackDNS
      else if ao_Action o1 = ''sniff''
      then (case build_sniffers (ao_Sniffer o1) [] [] of
              Inl e \<Rightarrow> Err e
            | Inr (ss, ps) \<Rightarrow>
                Ok (ActionSniff \<lparr>sn_SnifferNames = ao_Sniffer o1, sn_StreamSniffers = ss,
                      sn_PacketSniffers = ps, sn_Timeout = ao_SniffTimeout o1, sn_OverrideDestination = False\<rparr>))
      else if ao_Action o1 = ''resolve'' then Ok (ActionResolve (resolve_of (ao_Resolve o1)))
      else Panic (''unknown rule action: '' @ ao_Action o1))"

text \<open>The constructor of DNS rule actions; the server of \<^verbatim>\<open>route\<close> is a field of \<^verbatim>\<open>RouteOptions\<close>.\<close>

definition NewDNSRuleAction :: "dns_action_opts \<Rightarrow> dns_action go_out" where
  "NewDNSRuleAction o1 =
     (if do_Action o1 = [] then Ok NilDNSAction
      else if do_Action o1 = ''route'' then Ok (ActionDNSRoute (resolve_of (do_Route o1)))
      else if do_Action o1 = ''route-options'' then Ok (ActionDNSRouteOptions (resolve_of (do_RouteOptions o1)))
      else if do_Action o1 = ''reject'' then Ok (ActionDNSReject (do_Method o1) (do_NoDrop o1))
      else if do_Action o1 = ''predefined''
      then Ok (ActionPredefined (do_Rcode o1) (do_Answer o1) (do_Ns o1) (do_Extra o1))
      else Panic (''unknown rule action: '' @ do_Action o1))"

section \<open>Whole rules\<close>

text \<open>
  \<^verbatim>\<open>option.Rule\<close> and \<^verbatim>\<open>option.DNSRule\<close> with the options of their actions.
\<close>

datatype 'o rule_opt =
    DefaultOpt rule_options 'o
  | LogicalOpt string "'o rule_opt list" bool 'o
  | UnknownOpt string

text \<open>A default rule is valid when something but \<^verbatim>\<open>Invert\<close> differs from the zero value.\<close>

definition DefaultRule_IsValid :: "'o \<Rightarrow> rule_options \<Rightarrow> 'o \<Rightarrow> bool" where
  "DefaultRule_IsValid noAction o1 a \<longleftrightarrow>
     (o1, a) \<noteq> (NoRuleOptions\<lparr>ro_Invert := ro_Invert o1\<rparr>, noAction)"

fun Rule_IsValid :: "rule_lib \<Rightarrow> 'o \<Rightarrow> 'o rule_opt \<Rightarrow> bool go_out" where
  "Rule_IsValid L noAction (DefaultOpt o1 a) = Ok (DefaultRule_IsValid noAction o1 a)"
| "Rule_IsValid L noAction (LogicalOpt mode rules invert a) =
     (if rules = [] then Ok False else rl_AllValid L (map (\<lambda>r. Rule_IsValid L noAction r) rules))"
| "Rule_IsValid L noAction (UnknownOpt t) = Panic (''unknown rule type: '' @ t)"

text \<open>The shared end of \<^verbatim>\<open>NewLogicalRule\<close> and \<^verbatim>\<open>NewLogicalDNSRule\<close>: the mode, then the sub-rules.\<close>

definition logical_rule :: "string \<Rightarrow> 'a rule go_out list \<Rightarrow> bool \<Rightarrow> 'a \<Rightarrow> 'a rule go_out" where
  "logical_rule mode subs invert a =
     (if mode \<noteq> LogicalTypeAnd \<and> mode \<noteq> LogicalTypeOr
      then Err (ErrNew [''unknown logical mode: '', mode])
      else (case collect ''sub rule'' subs of
              Ok rs \<Rightarrow> Ok (LogicalRule rs mode invert a)
            | Err e \<Rightarrow> Err e
            | Panic p \<Rightarrow> Panic p))"

definition NewLogicalRule ::
  "string \<Rightarrow> action rule go_out list \<Rightarrow> bool \<Rightarrow> action go_out \<Rightarrow> action rule go_out" where
  "NewLogicalRule mode subs invert action =
     (case action of
        Err e \<Rightarrow> Err (ErrCause e [''action''])
      | Panic p \<Rightarrow> Panic p
      | Ok a \<Rightarrow> logical_rule mode subs invert a)"

definition missing_outbound :: "bool \<Rightarrow> action_opts \<Rightarrow> bool" where
  "missing_outbound checkOutbound a \<longleftrightarrow>
     (ao_Action a = [] \<or> ao_Action a = ''route'') \<and> ao_Outbound a = [] \<and> checkOutbound"

fun NewRule :: "rule_lib \<Rightarrow> action_lib \<Rightarrow> bool \<Rightarrow> action_opts rule_opt \<Rightarrow> action rule go_out" where
  "NewRule L A checkOutbound (DefaultOpt o1 a) =
     (if \<not> DefaultRule_IsValid NoActionOpts o1 a then Err (ErrNew [''missing conditions''])
      else if missing_outbound checkOutbound a then Err (ErrNew [''missing outbound field''])
      else NewDefaultRule L o1 (NewRuleAction A a))"
| "NewRule L A checkOutbound (LogicalOpt mode rules invert a) =
     (case Rule_IsValid L NoActionOpts (LogicalOpt mode rules invert a) of
        Panic p \<Rightarrow> Panic p
      | Err e \<Rightarrow> Err e
      | Ok valid \<Rightarrow>
          if \<not> valid then Err (ErrNew [''missing conditions''])
          else if missing_outbound checkOutbound a then Err (ErrNew [''missing outbound field''])
          else NewLogicalRule mode (map (\<lambda>r. NewRule L A False r) rules) invert (NewRuleAction A a))"
| "NewRule L A checkOutbound (UnknownOpt t) = Err (ErrNew [''unknown rule type: '', t])"

definition NewLogicalDNSRule ::
  "string \<Rightarrow> dns_action rule go_out list \<Rightarrow> bool \<Rightarrow> dns_action go_out \<Rightarrow> dns_action rule go_out" where
  "NewLogicalDNSRule mode subs invert action =
     (case action of
        Err e \<Rightarrow> Err e | Panic p \<Rightarrow> Panic p | Ok a \<Rightarrow> logical_rule mode subs invert a)"

definition missing_server :: "bool \<Rightarrow> dns_action_opts \<Rightarrow> bool" where
  "missing_server checkServer a \<longleftrightarrow>
     (do_Action a = [] \<or> do_Action a = ''route'') \<and> rs_Server (do_Route a) = [] \<and> checkServer"

fun NewDNSRule :: "rule_lib \<Rightarrow> bool \<Rightarrow> dns_action_opts rule_opt \<Rightarrow> dns_action rule go_out" where
  "NewDNSRule L checkServer (DefaultOpt o1 a) =
     (if \<not> DefaultRule_IsValid NoDNSActionOpts o1 a then Err (ErrNew [''missing conditions''])
      else if missing_server checkServer a then Err (ErrNew [''missing server field''])
      else NewDefaultDNSRule L o1 (NewDNSRuleAction a))"
| "NewDNSRule L checkServer (LogicalOpt mode rules invert a) =
     (case Rule_IsValid L NoDNSActionOpts (LogicalOpt mode rules invert a) of
        Panic p \<Rightarrow> Panic p
      | Err e \<Rightarrow> Err e
      | Ok valid \<Rightarrow>
          if \<not> valid then Err (ErrNew [''missing conditions''])
          else if missing_server checkServer a then Err (ErrNew [''missing server field''])
          else NewLogicalDNSRule mode (map (\<lambda>r. NewDNSRule L False r) rules) invert (NewDNSRuleAction a))"
| "NewDNSRule L checkServer (UnknownOpt t) = Err (ErrNew [''unknown rule type: '', t])"

section \<open>Rejecting\<close>

text \<open>The wrapped errors \<^verbatim>\<open>tun.ErrReset\<close> and \<^verbatim>\<open>tun.ErrDrop\<close>.\<close>

definition RejectedReset :: go_err where
  "RejectedReset = ErrCause (ErrExt ''tun.ErrReset'') [''rejected'']"

definition RejectedDrop :: go_err where
  "RejectedDrop = ErrCause (ErrExt ''tun.ErrDrop'') [''rejected'']"

definition drop_window :: int where
  "drop_window = 30 * 1000000000"

text \<open>
  \<^verbatim>\<open>RuleActionReject.Error\<close> at time \<open>now\<close> (nanoseconds of the monotonic clock) with the counter of
  earlier calls; \<open>Ok\<close> is the nil error.
\<close>

definition RuleActionReject_Error ::
  "action_lib \<Rightarrow> string \<Rightarrow> bool \<Rightarrow> int \<Rightarrow> int list \<Rightarrow> unit go_out \<times> int list" where
  "RuleActionReject_Error A method noDrop now dropCounter =
     (if method = ''default''
      then if noDrop then (Err RejectedReset, dropCounter)
           else
             let dropCounter1 = al_Filter A dropCounter (\<lambda>t. now - t \<le> drop_window) @ [now]
             in if length dropCounter1 > 50 then (Err RejectedDrop, dropCounter1)
                else (Err RejectedReset, dropCounter1)
      else if method = ''drop'' then (Err RejectedDrop, dropCounter)
      else if method = ''reply'' then (Ok (), dropCounter)
      else (Panic (''unknown reject method: '' @ method), dropCounter))"

text \<open>A rule that rejects connections at the given times, one after the other.\<close>

fun reject_run :: "action_lib \<Rightarrow> int list \<Rightarrow> int list \<Rightarrow> unit go_out list" where
  "reject_run A [] counter = []"
| "reject_run A (now # ts) counter =
     (case RuleActionReject_Error A ''default'' False now counter of
        (r, counter') \<Rightarrow> r # reject_run A ts counter')"

lemma reject_run_window:
  assumes "action_lib_ok A"
  shows "sorted (hist @ ts) \<Longrightarrow> (\<And>x. x \<in> set hist \<Longrightarrow> x \<le> l) \<Longrightarrow> (\<And>t. t \<in> set ts \<Longrightarrow> l \<le> t) \<Longrightarrow>
    counter = filter (\<lambda>x. l - x \<le> drop_window) hist \<Longrightarrow> k < length ts \<Longrightarrow>
    reject_run A ts counter ! k =
      (if length (filter (\<lambda>x. ts ! k - x \<le> drop_window) (hist @ take (Suc k) ts)) > 50
       then Err RejectedDrop else Err RejectedReset)"
proof (induction ts arbitrary: hist l counter k)
  case (Cons now ts)
  have filt: "al_Filter A xs p = filter p xs" for xs p using assms by (simp add: action_lib_ok_def)
  have "l \<le> now" using Cons.prems(3) by simp
  then have "now - x \<le> drop_window \<Longrightarrow> l - x \<le> drop_window" for x by simp
  then have new: "filter (\<lambda>t. now - t \<le> drop_window) counter @ [now] =
      filter (\<lambda>x. now - x \<le> drop_window) (hist @ [now])"
    unfolding Cons.prems(4) filter_filter by (auto simp: drop_window_def intro: filter_cong)
  show ?case
  proof (cases k)
    case 0
    have len: "Suc (length (filter (\<lambda>t. now - t \<le> drop_window) counter)) =
        length (filter (\<lambda>x. now - x \<le> drop_window) (hist @ [now]))"
      using arg_cong [OF new, of length] by simp
    show ?thesis unfolding 0 using len
      by (simp add: RuleActionReject_Error_def filt Let_def split: prod.splits)
  next
    case (Suc j)
    have "reject_run A ts (filter (\<lambda>x. now - x \<le> drop_window) (hist @ [now])) ! j =
        (if length (filter (\<lambda>x. ts ! j - x \<le> drop_window) ((hist @ [now]) @ take (Suc j) ts)) > 50
         then Err RejectedDrop else Err RejectedReset)"
      by (rule Cons.IH [OF _ _ _ refl]) (use Cons.prems Suc in \<open>auto simp: sorted_append\<close>)
    moreover have "snd (RuleActionReject_Error A ''default'' False now counter) =
        filter (\<lambda>x. now - x \<le> drop_window) (hist @ [now])"
      unfolding new [symmetric] by (simp add: RuleActionReject_Error_def filt Let_def)
    ultimately show ?thesis unfolding Suc
      by (simp add: case_prod_beta del: filter.simps filter_append)
  qed
qed simp



section \<open>Predefined answers\<close>

text \<open>
  \<^verbatim>\<open>rewriteRecords\<close>: a record whose name starts with an asterisk takes the name of the question when
  the rest of its name is a suffix of it. The record of the action is copied, not changed.
\<close>

definition rewrite_record :: "string \<Rightarrow> dns_rr \<Rightarrow> dns_rr" where
  "rewrite_record qname rr =
     (case hd_Name (rr_Hdr rr) of
        CHR ''*'' # rest \<Rightarrow>
          if suffix rest qname then rr\<lparr>rr_Hdr := (rr_Hdr rr)\<lparr>hd_Name := qname\<rparr>\<rparr> else rr
      | _ \<Rightarrow> rr)"

definition rewriteRecords :: "action_lib \<Rightarrow> dns_rr list \<Rightarrow> dns_question \<Rightarrow> dns_rr list" where
  "rewriteRecords A records question = al_Map A records (rewrite_record (q_Name question))"

definition predefined_Response ::
  "action_lib \<Rightarrow> int \<Rightarrow> dns_rr list \<Rightarrow> dns_rr list \<Rightarrow> dns_rr list \<Rightarrow> dns_msg \<Rightarrow> dns_msg go_out" where
  "predefined_Response A rcode answer ns extra request =
     (case m_Question request of
        [] \<Rightarrow> Panic ''index out of range''
      | q # _ \<Rightarrow>
          Ok ((fixed_header (m_Id request) rcode)\<lparr>m_Question := m_Question request, m_Answer := rewriteRecords A answer q,
                m_Ns := rewriteRecords A ns q, m_Extra := rewriteRecords A extra q\<rparr>))"

end
