(* ===== verification/Sniff.thy ===== *)
theory Sniff
  imports Rule_Action
begin

text \<open>
  \<^verbatim>\<open>common/sniff/sniff.go\<close> and \<^verbatim>\<open>Router.actionSniff\<close> of \<^verbatim>\<open>route/route.go\<close>: reading the first bytes or
  packets of a connection, trying sniffers on them, and keeping what was read for the outbound. The
  connection is the list of events its reads will produce. The sniffers themselves are functions of
  the environment.
\<close>

type_synonym packet = "bytes \<times> socksaddr"

text \<open>
  \<open>se_Errors\<close> is \<^verbatim>\<open>E.Errors\<close> of \<^verbatim>\<open>sing\<close>, \<open>se_NeedMoreData\<close> and \<open>se_DeadlineExceeded\<close> are
  \<^verbatim>\<open>errors.Is\<close> with \<^verbatim>\<open>ErrNeedMoreData\<close> and \<^verbatim>\<open>context.DeadlineExceeded\<close>, \<open>se_IsDomainName\<close> is
  \<^verbatim>\<open>M.IsDomainName\<close>; \<open>se_timeout\<close> is the error of a read that its deadline ends.
\<close>

record sniff_env =
  se_stream :: "stream_sniffer \<Rightarrow> metadata \<Rightarrow> bytes list \<Rightarrow> go_err option \<times> metadata"
  se_packet :: "packet_sniffer \<Rightarrow> metadata \<Rightarrow> bytes \<Rightarrow> go_err option \<times> metadata"
  se_Errors :: "go_err option list \<Rightarrow> go_err option"
  se_NeedMoreData :: "go_err \<Rightarrow> bool"
  se_DeadlineExceeded :: "go_err \<Rightarrow> bool"
  se_IsDomainName :: "string \<Rightarrow> bool"
  se_timeout :: go_err

definition need_more :: "sniff_env \<Rightarrow> go_err option \<Rightarrow> bool" where
  "need_more E e \<longleftrightarrow> (case e of None \<Rightarrow> False | Some x \<Rightarrow> se_NeedMoreData E x)"

definition Skip :: "metadata \<Rightarrow> bool" where
  "Skip m \<longleftrightarrow> sa_Port (md_Destination m) \<in> {25, 465, 587, 143, 993, 110, 995}"

section \<open>Streams\<close>

text \<open>
  What a read of the connection ends with: payload, an error, or an error of \<^verbatim>\<open>SetReadDeadline\<close>
  before the read. After the last event a read ends with its deadline.
\<close>

datatype read_event = Payload bytes | ReadError go_err | DeadlineError go_err

fun stream_bytes :: "read_event list \<Rightarrow> bytes" where
  "stream_bytes [] = []"
| "stream_bytes (Payload d # es) = d @ stream_bytes es"
| "stream_bytes (ReadError e # es) = stream_bytes es"
| "stream_bytes (DeadlineError e # es) = stream_bytes es"

text \<open>
  One round over the sniffers, on all bytes read so far: a sniffer reads the buffers one after the other
  (\<^verbatim>\<open>io.MultiReader\<close>), and a single read does not cross the end of a buffer.
\<close>

fun stream_round ::
  "sniff_env \<Rightarrow> stream_sniffer list \<Rightarrow> bytes list \<Rightarrow> go_err option \<Rightarrow> metadata \<Rightarrow>
   (bool \<times> go_err option) \<times> metadata" where
  "stream_round E [] bs sniffError m = ((False, sniffError), m)"
| "stream_round E (s # ss) bs sniffError m =
     (case se_stream E s m bs of
        (None, m') \<Rightarrow> ((True, None), m')
      | (Some e, m') \<Rightarrow> stream_round E ss bs (se_Errors E [sniffError, Some e]) m')"

text \<open>
  The loop of \<^verbatim>\<open>PeekStream\<close>: \<open>again\<close> is \<^verbatim>\<open>i > 0\<close>, \<open>prior\<close> the buffers of earlier
  sniff actions, \<open>buffer\<close> the one being filled.
\<close>

fun peek_loop ::
  "sniff_env \<Rightarrow> stream_sniffer list \<Rightarrow> bytes list \<Rightarrow> bool \<Rightarrow> go_err option \<Rightarrow> bytes \<Rightarrow> read_event list \<Rightarrow>
   metadata \<Rightarrow> go_err option \<times> bytes \<times> read_event list \<times> metadata" where
  "peek_loop E ss prior again sniffError buffer [] m =
     (if again then sniffError else Some (ErrCause (se_timeout E) [''read payload'']), buffer, [], m)"
| "peek_loop E ss prior again sniffError buffer (DeadlineError e # es) m =
     (Some (ErrCause e [''set read deadline'']), buffer, es, m)"
| "peek_loop E ss prior again sniffError buffer (ReadError e # es) m =
     (if again then sniffError else Some (ErrCause e [''read payload'']), buffer, es, m)"
| "peek_loop E ss prior again sniffError buffer (Payload d # es) m =
     (case stream_round E ss (prior @ [buffer @ d]) None m of
        ((True, _), m') \<Rightarrow> (None, buffer @ d, es, m')
      | ((False, err), m') \<Rightarrow>
          if need_more E err then peek_loop E ss prior True err (buffer @ d) es m'
          else (err, buffer @ d, es, m'))"

definition PeekStream ::
  "sniff_env \<Rightarrow> stream_sniffer list \<Rightarrow> bytes list \<Rightarrow> read_event list \<Rightarrow> metadata \<Rightarrow>
   go_err option \<times> bytes \<times> read_event list \<times> metadata" where
  "PeekStream E ss buffers es m = peek_loop E ss buffers False None [] es m"

section \<open>Packets\<close>

fun packet_round ::
  "sniff_env \<Rightarrow> packet_sniffer list \<Rightarrow> bytes \<Rightarrow> go_err option list \<Rightarrow> metadata \<Rightarrow> go_err option \<times> metadata" where
  "packet_round E [] bs errs m = (se_Errors E errs, m)"
| "packet_round E (s # ss) bs errs m =
     (case se_packet E s m bs of
        (None, m') \<Rightarrow> (None, m')
      | (Some e, m') \<Rightarrow> packet_round E ss bs (errs @ [Some e]) m')"

definition PeekPacket ::
  "sniff_env \<Rightarrow> packet_sniffer list \<Rightarrow> bytes \<Rightarrow> metadata \<Rightarrow> go_err option \<times> metadata" where
  "PeekPacket E ss bs m = packet_round E ss bs [] m"

text \<open>What a read of a packet connection ends with; the context may be done before.\<close>

datatype packet_event = PacketIn bytes socksaddr | PacketError go_err | ContextDone go_err

section \<open>The sniff action\<close>

definition default_stream_sniffers :: "stream_sniffer list" where
  "default_stream_sniffers = [TLSClientHello, HTTPHost, StreamDomainNameQuery, BitTorrent, SSH, RDP]"

definition default_packet_sniffers :: "packet_sniffer list" where
  "default_packet_sniffers = [DomainNameQuery, QUICClientHello, STUNMessage, UTP, UDPTracker, DTLSRecord, NTP]"

definition same_names :: "sniff_action \<Rightarrow> metadata \<Rightarrow> bool" where
  "same_names a m \<longleftrightarrow> md_SnifferNames m = sn_SnifferNames a"

definition failed_before :: "sniff_env \<Rightarrow> sniff_action \<Rightarrow> metadata \<Rightarrow> bool" where
  "failed_before E a m \<longleftrightarrow>
     same_names a m \<and> md_SniffError m \<noteq> None \<and> \<not> need_more E (md_SniffError m)"

definition record_sniff :: "sniff_action \<Rightarrow> go_err option \<Rightarrow> metadata \<Rightarrow> metadata" where
  "record_sniff a err m = m\<lparr>md_SnifferNames := sn_SnifferNames a, md_SniffError := err\<rparr>"

definition override_destination :: "sniff_env \<Rightarrow> sniff_action \<Rightarrow> go_err option \<Rightarrow> metadata \<Rightarrow> metadata" where
  "override_destination E a err m =
     (if err = None \<and> sn_OverrideDestination a \<and> se_IsDomainName E (md_Domain m)
      then m\<lparr>md_Destination := \<lparr>sa_Addr = NoAddr, sa_Port = sa_Port (md_Destination m), sa_Fqdn = md_Domain m\<rparr>\<rparr>
      else m)"

text \<open>The stream branch of \<^verbatim>\<open>actionSniff\<close>: the new buffer, if it is not empty.\<close>

definition sniff_stream ::
  "sniff_env \<Rightarrow> sniff_action \<Rightarrow> bytes list \<Rightarrow> read_event list \<Rightarrow> metadata \<Rightarrow>
   bytes option \<times> read_event list \<times> metadata" where
  "sniff_stream E a buffers es m =
     (if sn_StreamSniffers a = [] \<and> sn_PacketSniffers a \<noteq> [] then (None, es, m)
      else if failed_before E a m then (None, es, m)
      else
        let ss = (if sn_StreamSniffers a \<noteq> [] then sn_StreamSniffers a else default_stream_sniffers)
        in case PeekStream E ss buffers es m of
             (err, buffer, es', m') \<Rightarrow>
               (if buffer = [] then None else Some buffer, es',
                override_destination E a err (record_sniff a err m')))"

text \<open>
  The sniffers tried on a packet: only QUIC while the previous packets were an incomplete QUIC hello.
\<close>

definition packet_sniffers_now :: "sniff_env \<Rightarrow> sniff_action \<Rightarrow> packet_sniffer list \<Rightarrow> metadata \<Rightarrow> packet_sniffer list" where
  "packet_sniffers_now E a ss m =
     (if same_names a m \<and> need_more E (md_SniffError m) then [QUICClientHello] else ss)"

definition peek_packet ::
  "sniff_env \<Rightarrow> sniff_action \<Rightarrow> packet_sniffer list \<Rightarrow> bytes \<Rightarrow> metadata \<Rightarrow> go_err option \<times> metadata" where
  "peek_packet E a ss bs m =
     (case PeekPacket E (packet_sniffers_now E a ss m) bs m of (err, m') \<Rightarrow> (err, record_sniff a err m'))"

text \<open>The loop over the packets that are cached already: true when it went to \<^verbatim>\<open>finally\<close>.\<close>

fun sniff_cached ::
  "sniff_env \<Rightarrow> sniff_action \<Rightarrow> packet_sniffer list \<Rightarrow> packet list \<Rightarrow> go_err option \<Rightarrow> metadata \<Rightarrow>
   bool \<times> go_err option \<times> metadata" where
  "sniff_cached E a ss [] err m = (False, err, m)"
| "sniff_cached E a ss ((bs, dst) # ps) err m =
     (case peek_packet E a ss bs m of
        (err', m') \<Rightarrow> if need_more E err' then sniff_cached E a ss ps err' m' else (True, err', m'))"

text \<open>
  The loop that reads packets: the fatal error, the last error, the packets, the rest of the events.
\<close>

fun sniff_read ::
  "sniff_env \<Rightarrow> sniff_action \<Rightarrow> packet_sniffer list \<Rightarrow> packet list \<Rightarrow> packet_event list \<Rightarrow> metadata \<Rightarrow>
   go_err option \<times> go_err option \<times> packet list \<times> packet_event list \<times> metadata" where
  "sniff_read E a ss ps [] m =
     (if \<not> se_DeadlineExceeded E (se_timeout E) then (Some (se_timeout E), None, ps, [], m)
      else (None, Some (se_timeout E), ps, [], m))"
| "sniff_read E a ss ps (ContextDone e # es) m = (Some e, None, ps, es, m)"
| "sniff_read E a ss ps (PacketError e # es) m =
     (if \<not> se_DeadlineExceeded E e then (Some e, None, ps, es, m) else (None, Some e, ps, es, m))"
| "sniff_read E a ss ps (PacketIn bs dst # es) m =
     (case peek_packet E a ss bs m of
        (err, m') \<Rightarrow>
          if need_more E err then sniff_read E a ss (ps @ [(bs, dst)]) es m'
          else (None, err, ps @ [(bs, dst)], es, m'))"

text \<open>The packet branch of \<^verbatim>\<open>actionSniff\<close>: the fatal error and the packets it returns.\<close>

definition sniff_packets ::
  "sniff_env \<Rightarrow> sniff_action \<Rightarrow> packet list \<Rightarrow> packet_event list \<Rightarrow> metadata \<Rightarrow>
   go_err option \<times> packet list \<times> packet_event list \<times> metadata" where
  "sniff_packets E a cached es m =
     (if sn_PacketSniffers a = [] \<and> sn_StreamSniffers a \<noteq> [] then (None, [], es, m)
      else if failed_before E a m then (None, [], es, m)
      else
        let ss = (if sn_PacketSniffers a \<noteq> [] then sn_PacketSniffers a else default_packet_sniffers)
        in case sniff_cached E a ss cached None m of
             (True, err, m1) \<Rightarrow> (None, [], es, override_destination E a err m1)
           | (False, _, m1) \<Rightarrow>
               (case sniff_read E a ss cached es m1 of
                  (Some fatal, _, ps, es', m2) \<Rightarrow> (Some fatal, ps, es', m2)
                | (None, err, ps, es', m2) \<Rightarrow> (None, ps, es', override_destination E a err m2)))"

section \<open>What is read is kept\<close>

lemma peek_loop_bytes:
  "peek_loop E ss prior again err buffer es m = (err', buffer', es', m') \<Longrightarrow>
     buffer' @ stream_bytes es' = buffer @ stream_bytes es"
proof (induction E ss prior again err buffer es m rule: peek_loop.induct)
  case (4 E ss prior again sniffError buffer d es m)
  then show ?case by (auto split: prod.splits bool.splits if_splits)
qed (auto split: if_splits)

lemma PeekStream_bytes:
  "PeekStream E ss buffers es m = (err, buffer, es', m') \<Longrightarrow> buffer @ stream_bytes es' = stream_bytes es"
  unfolding PeekStream_def using peek_loop_bytes by fastforce

text \<open>The buffer a sniff action returns, followed by what is left of the stream, is the stream.\<close>

lemma sniff_stream_bytes:
  assumes "sniff_stream E a buffers es m = (b, es', m')"
  shows "(case b of None \<Rightarrow> [] | Some d \<Rightarrow> d) @ stream_bytes es' = stream_bytes es"
proof -
  obtain err buffer es1 m1 where p: "PeekStream E (if sn_StreamSniffers a \<noteq> [] then sn_StreamSniffers a
      else default_stream_sniffers) buffers es m = (err, buffer, es1, m1)"
    by (cases "PeekStream E (if sn_StreamSniffers a \<noteq> [] then sn_StreamSniffers a
      else default_stream_sniffers) buffers es m")
  from assms show ?thesis
    unfolding sniff_stream_def p Let_def
    using PeekStream_bytes [OF p] by (auto split: if_splits)
qed

text \<open>
  \<^verbatim>\<open>PeekStream\<close> tries the sniffers on everything read so far only after another read succeeds: when
  the client waits for an answer, a second action on the same bytes ends without running a sniffer.
\<close>

lemma PeekStream_needs_read: "PeekStream E ss buffers [] m = (Some (ErrCause (se_timeout E) [''read payload'']), [], [], m)"
  by (simp add: PeekStream_def)

end
