(* ===== verification/Router.thy ===== *)
theory Router
  imports Sniff FakeIP Outbound_Manager Inbound_Manager DNS_Transport_Manager
begin

text \<open>
  \<^verbatim>\<open>route/route.go\<close>: how the router treats a connection. \<^verbatim>\<open>matchRule\<close> prepares the metadata (process,
  fake-IP domain, reverse mapping, deprecated inbound options), walks over the rules and applies
  their actions; \<^verbatim>\<open>routeConnection\<close> and \<^verbatim>\<open>routePacketConnection\<close> hand the connection to an outbound,
  \<^verbatim>\<open>PreMatch\<close> decides before a connection is accepted.
\<close>

section \<open>The router and its surroundings\<close>

text \<open>
  The managers, the rule library, the rule-sets, the fake-IP store of the fake-IP transport if there
  is one, and functions for what lies outside: the process searcher (if there is one), the reverse
  mapping and the look-up of the DNS router, the type assertions on inbounds and outbounds, the
  reserved domain names of multiplex and UoT, \<^verbatim>\<open>common.Contains\<close>. Trackers are numbered.
\<close>

record 's router_env =
  rt_L :: rule_lib
  rt_A :: action_lib
  rt_S :: "comp sing_common"
  rt_N :: net_state
  rt_E :: sniff_env
  rt_rules :: "action rule list"
  rt_store :: rule_store
  rt_em :: endpoint_manager
  rt_im :: inbound_manager
  rt_om :: outbound_manager
  rt_tm :: transport_manager
  rt_ops :: "'s storage_ops"
  rt_fakeip :: "'s fakeip_store option"
  rt_FindProcess :: "(string \<Rightarrow> socksaddr \<Rightarrow> socksaddr option \<Rightarrow> go_err + connection_owner) option"
  rt_LookupReverseMapping :: "addr \<Rightarrow> string option"
  rt_Lookup :: "metadata \<Rightarrow> string \<Rightarrow> comp option \<Rightarrow> resolve_action \<Rightarrow> go_err + addr list"
  rt_TCPInjectable :: "comp \<Rightarrow> bool"
  rt_UDPInjectable :: "comp \<Rightarrow> bool"
  rt_DirectRoute :: "comp \<Rightarrow> bool"
  rt_NewDirectRouteConnection :: "comp \<Rightarrow> metadata \<Rightarrow> go_err option"
  rt_mux_Fqdn :: string
  rt_vmess_mux_Fqdn :: string
  rt_uot_Magic :: string
  rt_uot_LegacyMagic :: string
  rt_trackers :: "nat list"

text \<open>The connection a rule is matched for: a stream, a packet connection, or none (\<^verbatim>\<open>PreMatch\<close>).\<close>

datatype input = StreamInput | PacketInput | NoInput

record flow =
  fl_meta :: metadata
  fl_buffers :: "bytes list"
  fl_packets :: "packet list"
  fl_reads :: "read_event list"
  fl_events :: "packet_event list"

section \<open>Preparing the metadata\<close>

definition find_process :: "'s router_env \<Rightarrow> metadata \<Rightarrow> metadata" where
  "find_process E m =
     (case rt_FindProcess E of
        None \<Rightarrow> m
      | Some search \<Rightarrow>
          if md_ProcessInfo m \<noteq> None then m
          else
            let origin = (if rl_IsValid (rt_L E) (md_OriginDestination m) then Some (md_OriginDestination m)
                          else if rl_IsIP (rt_L E) (md_Destination m) then Some (md_Destination m) else None)
            in case search (md_Network m) (md_Source m) origin of
                 Inl e \<Rightarrow> m | Inr info \<Rightarrow> m\<lparr>md_ProcessInfo := Some info\<rparr>)"

definition reverse_mapping :: "'s router_env \<Rightarrow> metadata \<Rightarrow> metadata" where
  "reverse_mapping E m =
     (if md_Domain m = []
      then (case rt_LookupReverseMapping E (sa_Addr (md_Destination m)) of
              None \<Rightarrow> m | Some domain \<Rightarrow> m\<lparr>md_Domain := domain\<rparr>)
      else m)"

definition fakeip_domain :: "'s router_env \<Rightarrow> metadata \<Rightarrow> metadata go_out" where
  "fakeip_domain E m =
     (case rt_fakeip E of
        None \<Rightarrow> Ok (reverse_mapping E m)
      | Some store \<Rightarrow>
          if \<not> (addr_IsValid (sa_Addr (md_Destination m)) \<and> fs_Contains store (sa_Addr (md_Destination m)))
          then Ok (reverse_mapping E m)
          else (case fs_Lookup (rt_ops E) (sa_Addr (md_Destination m)) store of
                  Panic p \<Rightarrow> Panic p
                | Err e \<Rightarrow> Err e
                | Ok None \<Rightarrow> Err (ErrNew [''missing fakeip record, try enable `experimental.cache_file`''])
                | Ok (Some domain) \<Rightarrow>
                    if domain = [] then Ok m
                    else Ok (m\<lparr>md_OriginDestination := md_Destination m,
                               md_Destination := \<lparr>sa_Addr = NoAddr, sa_Port = sa_Port (md_Destination m), sa_Fqdn = domain\<rparr>,
                               md_FakeIP := True\<rparr>)))"

definition set_ip_version :: "'s router_env \<Rightarrow> metadata \<Rightarrow> metadata" where
  "set_ip_version E m =
     (if rl_IsIPv4 (rt_L E) (md_Destination m) then m\<lparr>md_IPVersion := 4\<rparr>
      else if rl_IsIPv6 (rt_L E) (md_Destination m) then m\<lparr>md_IPVersion := 6\<rparr> else m)"

section \<open>Actions\<close>

definition actionResolve :: "'s router_env \<Rightarrow> resolve_action \<Rightarrow> metadata \<Rightarrow> go_err option \<times> metadata" where
  "actionResolve E a m =
     (if \<not> rl_IsFqdn (rt_L E) (md_Destination m) then (None, m)
      else if rv_Server a \<noteq> [] \<and> tm_Transport (rt_tm E) (rv_Server a) = None
      then (Some (ErrNew [''DNS server not found: '', rv_Server a]), m)
      else
        let transport = (if rv_Server a = [] then None else tm_Transport (rt_tm E) (rv_Server a))
        in case rt_Lookup E m (sa_Fqdn (md_Destination m)) transport a of
             Inl e \<Rightarrow> (Some e, m)
           | Inr addresses \<Rightarrow> (None, m\<lparr>md_DestinationAddresses := addresses\<rparr>))"

text \<open>
  \<^verbatim>\<open>actionSniff\<close>: the new buffer of a stream, or the packets returned for a packet connection, and
  the fatal error.
\<close>

definition actionSniff ::
  "'s router_env \<Rightarrow> input \<Rightarrow> sniff_action \<Rightarrow> bytes list \<Rightarrow> packet list \<Rightarrow> flow \<Rightarrow>
   bytes option \<times> packet list \<times> go_err option \<times> flow" where
  "actionSniff E input a buffers packets f =
     (if Skip (fl_meta f) \<or> md_Protocol (fl_meta f) \<noteq> [] then (None, [], None, f)
      else (case input of
              NoInput \<Rightarrow> (None, [], None, f)
            | StreamInput \<Rightarrow>
                (case sniff_stream (rt_E E) a buffers (fl_reads f) (fl_meta f) of
                   (b, es, m) \<Rightarrow> (b, [], None, f\<lparr>fl_reads := es, fl_meta := m\<rparr>))
            | PacketInput \<Rightarrow>
                (case sniff_packets (rt_E E) a packets (fl_events f) (fl_meta f) of
                   (fatal, ps, es, m) \<Rightarrow> (None, ps, fatal, f\<lparr>fl_events := es, fl_meta := m\<rparr>))))"

text \<open>A sniff action of a rule: the returned buffers are appended to those the router has.\<close>

definition rule_sniff :: "'s router_env \<Rightarrow> input \<Rightarrow> sniff_action \<Rightarrow> flow \<Rightarrow> go_err option \<times> flow" where
  "rule_sniff E input a f =
     (case actionSniff E input a (fl_buffers f) (fl_packets f) f of
        (newBuffer, newPacketBuffers, newErr, f1) \<Rightarrow>
          (newErr,
           case newBuffer of
             Some b \<Rightarrow> f1\<lparr>fl_buffers := fl_buffers f1 @ [b]\<rparr>
           | None \<Rightarrow> if newPacketBuffers \<noteq> [] then f1\<lparr>fl_packets := fl_packets f1 @ newPacketBuffers\<rparr> else f1))"

text \<open>
  The deprecated options of the inbound: sniff, resolve, and the unmapping flag, once. Its sniff
  action has no names.
\<close>

definition inbound_sniff_action :: "inbound_options \<Rightarrow> sniff_action" where
  "inbound_sniff_action o1 =
     \<lparr>sn_SnifferNames = [], sn_StreamSniffers = [], sn_PacketSniffers = [],
      sn_Timeout = io_SniffTimeout o1, sn_OverrideDestination = io_SniffOverrideDestination o1\<rparr>"

definition inbound_sniff :: "'s router_env \<Rightarrow> bool \<Rightarrow> input \<Rightarrow> flow \<Rightarrow> go_err option \<times> flow" where
  "inbound_sniff E preMatch input f =
     (if \<not> preMatch \<and> io_SniffEnabled (md_InboundOptions (fl_meta f))
      then (case actionSniff E input (inbound_sniff_action (md_InboundOptions (fl_meta f))) [] [] f of
              (newBuffer, newPackets, newErr, f1) \<Rightarrow>
                (newErr,
                 case newBuffer of
                   Some b \<Rightarrow> f1\<lparr>fl_buffers := [b]\<rparr>
                 | None \<Rightarrow> if newPackets \<noteq> [] then f1\<lparr>fl_packets := newPackets\<rparr> else f1))
      else (None, f))"

definition inbound_resolve :: "'s router_env \<Rightarrow> flow \<Rightarrow> go_err option \<times> flow" where
  "inbound_resolve E f =
     (if io_DomainStrategy (md_InboundOptions (fl_meta f)) = 0 then (None, f)
      else (case actionResolve E
              \<lparr>rv_Server = [], rv_Strategy = io_DomainStrategy (md_InboundOptions (fl_meta f)),
               rv_DisableCache = False, rv_RewriteTTL = None, rv_ClientSubnet = NoPrefix\<rparr> (fl_meta f) of
              (e, m) \<Rightarrow> (e, f\<lparr>fl_meta := m\<rparr>)))"

definition inbound_options_step :: "'s router_env \<Rightarrow> bool \<Rightarrow> input \<Rightarrow> flow \<Rightarrow> go_err option \<times> flow" where
  "inbound_options_step E preMatch input f =
     (if md_InboundOptions (fl_meta f) = NoInboundOptions then (None, f)
      else (case inbound_sniff E preMatch input f of
              (Some e, f1) \<Rightarrow> (Some e, f1)
            | (None, f1) \<Rightarrow>
                (case inbound_resolve E f1 of
                   (Some e, f2) \<Rightarrow> (Some e, f2)
                 | (None, f2) \<Rightarrow>
                     (None, f2\<lparr>fl_meta := (fl_meta f2)
                        \<lparr>md_UDPDisableDomainUnmapping := md_UDPDisableDomainUnmapping (fl_meta f2) \<or>
                           io_UDPDisableDomainUnmapping (md_InboundOptions (fl_meta f2)),
                         md_InboundOptions := NoInboundOptions\<rparr>\<rparr>))))"

section \<open>Matching the rules\<close>

definition apply_override :: "'s router_env \<Rightarrow> route_options_action \<Rightarrow> metadata \<Rightarrow> metadata" where
  "apply_override E o1 m =
     (let valid = rl_IsValid (rt_L E) (ra_OverrideAddress o1);
          m1 = (if (valid \<or> ra_OverridePort o1 > 0) \<and> \<not> rl_IsValid (rt_L E) (md_RouteOriginalDestination m)
                then m\<lparr>md_RouteOriginalDestination := md_Destination m\<rparr> else m);
          m2 = (if valid
                then m1\<lparr>md_Destination := (md_Destination m1)\<lparr>sa_Addr := sa_Addr (ra_OverrideAddress o1),
                                                               sa_Fqdn := sa_Fqdn (ra_OverrideAddress o1)\<rparr>,
                        md_DestinationAddresses := []\<rparr>
                else m1)
      in if ra_OverridePort o1 > 0
         then m2\<lparr>md_Destination := (md_Destination m2)\<lparr>sa_Port := ra_OverridePort o1\<rparr>\<rparr> else m2)"

definition apply_dial_options :: "route_options_action \<Rightarrow> metadata \<Rightarrow> metadata" where
  "apply_dial_options o1 m =
     m\<lparr>md_NetworkStrategy := (if ra_NetworkStrategy o1 \<noteq> None then ra_NetworkStrategy o1 else md_NetworkStrategy m),
       md_NetworkType := (if ra_NetworkType o1 \<noteq> [] then ra_NetworkType o1 else md_NetworkType m),
       md_FallbackNetworkType :=
         (if ra_FallbackNetworkType o1 \<noteq> [] then ra_FallbackNetworkType o1 else md_FallbackNetworkType m),
       md_FallbackDelay := (if ra_FallbackDelay o1 \<noteq> 0 then ra_FallbackDelay o1 else md_FallbackDelay m),
       md_UDPDisableDomainUnmapping := md_UDPDisableDomainUnmapping m \<or> ra_UDPDisableDomainUnmapping o1,
       md_UDPConnect := md_UDPConnect m \<or> ra_UDPConnect o1,
       md_UDPTimeout := (if ra_UDPTimeout o1 > 0 then ra_UDPTimeout o1 else md_UDPTimeout m),
       md_TLSFragment := md_TLSFragment m \<or> ra_TLSFragment o1,
       md_TLSFragmentFallbackDelay :=
         (if ra_TLSFragment o1 then ra_TLSFragmentFallbackDelay o1 else md_TLSFragmentFallbackDelay m),
       md_TLSRecordFragment := md_TLSRecordFragment m \<or> ra_TLSRecordFragment o1\<rparr>"

definition apply_route_options :: "'s router_env \<Rightarrow> action \<Rightarrow> metadata \<Rightarrow> metadata" where
  "apply_route_options E a m =
     (case a of
        ActionRoute _ o1 \<Rightarrow> apply_dial_options o1 (apply_override E o1 m)
      | ActionRouteOptions o1 \<Rightarrow> apply_dial_options o1 (apply_override E o1 m)
      | _ \<Rightarrow> m)"

text \<open>What the loop does after a rule has matched: go on, select the rule, return an error, panic.\<close>

datatype step_result = Continue | Select | Fail go_err | Crash string

text \<open>The switch over sniff and resolve; \<open>Select\<close> is the sniff rule that ends a pre-match.\<close>

definition action_step :: "'s router_env \<Rightarrow> bool \<Rightarrow> input \<Rightarrow> action \<Rightarrow> flow \<Rightarrow> step_result \<times> flow" where
  "action_step E preMatch input a f =
     (case a of
        ActionSniff s \<Rightarrow>
          if \<not> preMatch
          then (case rule_sniff E input s f of
                  (Some e, f1) \<Rightarrow> (Fail e, f1) | (None, f1) \<Rightarrow> (Continue, f1))
          else if md_Network (fl_meta f) \<noteq> ''icmp'' then (Select, f) else (Continue, f)
      | ActionResolve r \<Rightarrow>
          (case actionResolve E r (fl_meta f) of
             (Some e, m) \<Rightarrow> (Fail e, f\<lparr>fl_meta := m\<rparr>) | (None, m) \<Rightarrow> (Continue, f\<lparr>fl_meta := m\<rparr>))
      | _ \<Rightarrow> (Continue, f))"

definition type_step :: "bool \<Rightarrow> action \<Rightarrow> step_result" where
  "type_step supportBypass a =
     (case action_Type a of
        Panic p \<Rightarrow> Crash p
      | Err e \<Rightarrow> Fail e
      | Ok t \<Rightarrow>
          if t = ''route'' \<or> t = ''reject'' \<or> t = ''hijack-dns'' then Select
          else if t = ''bypass''
          then (case a of
                  ActionBypass outbound _ \<Rightarrow>
                    if \<not> supportBypass \<and> outbound = [] then Continue else Select
                | _ \<Rightarrow> Crash ''interface conversion'')
          else Continue)"

text \<open>The body of the loop for a rule that has matched; in a pre-match the type is read first, for the log.\<close>

definition matched_rule ::
  "'s router_env \<Rightarrow> bool \<Rightarrow> bool \<Rightarrow> input \<Rightarrow> action \<Rightarrow> flow \<Rightarrow> step_result \<times> flow" where
  "matched_rule E preMatch supportBypass input a f =
     (if preMatch \<and> is_panic (action_Type a) then (Crash ''nil pointer dereference'', f)
      else
        let f1 = f\<lparr>fl_meta := apply_route_options E a (fl_meta f)\<rparr>
        in case action_step E preMatch input a f1 of
             (Continue, f2) \<Rightarrow> (type_step supportBypass a, f2)
           | (r, f2) \<Rightarrow> (r, f2))"

fun match_rules ::
  "'s router_env \<Rightarrow> bool \<Rightarrow> bool \<Rightarrow> input \<Rightarrow> nat \<Rightarrow> action rule list \<Rightarrow> flow \<Rightarrow>
   (action rule \<times> nat) option go_out \<times> flow" where
  "match_rules E preMatch supportBypass input i [] f = (Ok None, f)"
| "match_rules E preMatch supportBypass input i (r # rs) f =
     (case rule_Match (rt_L E) (rt_N E) (rt_store E) r (ResetRuleCache (fl_meta f)) of
        (False, m) \<Rightarrow> match_rules E preMatch supportBypass input (Suc i) rs (f\<lparr>fl_meta := m\<rparr>)
      | (True, m) \<Rightarrow>
          (case matched_rule E preMatch supportBypass input (rule_action r) (f\<lparr>fl_meta := m\<rparr>) of
             (Continue, f1) \<Rightarrow> match_rules E preMatch supportBypass input (Suc i) rs f1
           | (Select, f1) \<Rightarrow> (Ok (Some (r, i)), f1)
           | (Fail e, f1) \<Rightarrow> (Err e, f1)
           | (Crash p, f1) \<Rightarrow> (Panic p, f1)))"

definition matchRule ::
  "'s router_env \<Rightarrow> bool \<Rightarrow> bool \<Rightarrow> input \<Rightarrow> flow \<Rightarrow> (action rule \<times> nat) option go_out \<times> flow" where
  "matchRule E preMatch supportBypass input f =
     (case fakeip_domain E (find_process E (fl_meta f)) of
        Panic p \<Rightarrow> (Panic p, f)
      | Err e \<Rightarrow> (Err e, f\<lparr>fl_meta := find_process E (fl_meta f)\<rparr>)
      | Ok m \<Rightarrow>
          (case inbound_options_step E preMatch input (f\<lparr>fl_meta := set_ip_version E m\<rparr>) of
             (Some e, f1) \<Rightarrow> (Err e, f1)
           | (None, f1) \<Rightarrow> match_rules E preMatch supportBypass input 0 (rt_rules E) f1))"

section \<open>Routing connections\<close>

text \<open>
  The connection as it is wrapped on its way: a deadline wrapper, cached bytes or packets, trackers,
  the address translation of fake IPs.
\<close>

datatype conn =
    InputConn
  | DeadlineConn conn
  | CachedConn conn bytes
  | CachedPacketConn conn bytes socksaddr
  | TrackedConn nat conn
  | NATPacketConn conn socksaddr socksaddr

text \<open>
  How a routing call that returns nil has ended: the connection was given to another inbound, to the
  DNS router, or to an outbound; or it was left alone.
\<close>

datatype routed =
    Injected comp metadata
  | HijackedStream conn metadata
  | HijackedPacket conn "packet list" metadata
  | Dispatched comp conn metadata
  | Ignored

text \<open>The flood counters of the reject actions, by the index of their rule.\<close>

type_synonym drops = "nat \<Rightarrow> int list"

definition cache_buffers :: "bytes list \<Rightarrow> conn \<Rightarrow> conn" where
  "cache_buffers buffers conn = foldl CachedConn conn buffers"

definition cache_packets :: "packet list \<Rightarrow> conn \<Rightarrow> conn" where
  "cache_packets packets conn = foldl (\<lambda>c (b, dst). CachedPacketConn c b dst) conn packets"

definition track :: "nat list \<Rightarrow> conn \<Rightarrow> conn" where
  "track trackers conn = foldl (\<lambda>c t. TrackedConn t c) conn trackers"

text \<open>An outbound by its tag, if it supports the network.\<close>

definition select_outbound :: "'s router_env \<Rightarrow> string \<Rightarrow> string \<Rightarrow> string \<Rightarrow> comp go_out" where
  "select_outbound E network NETWORK tag =
     (case om_Outbound (rt_em E) (rt_om E) tag of
        None \<Rightarrow> Err (ErrNew [''outbound not found: '', tag])
      | Some outbound \<Rightarrow>
          if \<not> sc_ContainsString (rt_S E) (c_network outbound) network
          then Err (ErrNew [NETWORK, '' is not supported by outbound: '', c_tag outbound])
          else Ok outbound)"

definition select_default :: "'s router_env \<Rightarrow> string \<Rightarrow> string list \<Rightarrow> comp go_out" where
  "select_default E network msg =
     (case om_Default (rt_om E) of
        None \<Rightarrow> Panic ''nil pointer dereference''
      | Some outbound \<Rightarrow>
          if \<not> sc_ContainsString (rt_S E) (c_network outbound) network
          then Err (ErrNew (msg @ [c_tag outbound]))
          else Ok outbound)"

text \<open>What the action of the selected rule asks for.\<close>

datatype selection = ToOutbound comp | ToNil | Rejects string bool | HijacksDNS

definition select_action :: "'s router_env \<Rightarrow> string \<Rightarrow> string \<Rightarrow> action \<Rightarrow> selection go_out" where
  "select_action E network NETWORK a =
     (case a of
        ActionRoute outbound _ \<Rightarrow>
          (case select_outbound E network NETWORK outbound of
             Ok c \<Rightarrow> Ok (ToOutbound c) | Err e \<Rightarrow> Err e | Panic p \<Rightarrow> Panic p)
      | ActionBypass outbound _ \<Rightarrow>
          if outbound = [] then Ok ToNil
          else (case select_outbound E network NETWORK outbound of
                  Ok c \<Rightarrow> Ok (ToOutbound c) | Err e \<Rightarrow> Err e | Panic p \<Rightarrow> Panic p)
      | ActionReject method noDrop \<Rightarrow> Ok (Rejects method noDrop)
      | ActionHijackDNS \<Rightarrow> Ok HijacksDNS
      | _ \<Rightarrow> Ok ToNil)"

definition reject_selected ::
  "'s router_env \<Rightarrow> string \<Rightarrow> int \<Rightarrow> nat \<Rightarrow> string \<Rightarrow> bool \<Rightarrow> drops \<Rightarrow> routed go_out \<times> drops" where
  "reject_selected E NETWORK now i method noDrop d =
     (if method = ''reply''
      then (Err (ErrNew [''reject method `reply` is not supported for '', NETWORK, '' connections'']), d)
      else (case RuleActionReject_Error (rt_A E) method noDrop now (d i) of
              (Ok _, counter) \<Rightarrow> (Ok Ignored, d(i := counter))
            | (Err e, counter) \<Rightarrow> (Err e, d(i := counter))
            | (Panic p, counter) \<Rightarrow> (Panic p, d(i := counter))))"

text \<open>The detour to another inbound at the start of both routing functions.\<close>

definition inbound_detour ::
  "'s router_env \<Rightarrow> (comp \<Rightarrow> bool) \<Rightarrow> string \<Rightarrow> metadata \<Rightarrow> routed go_out" where
  "inbound_detour E injectable NETWORK m =
     (if md_LastInbound m = md_InboundDetour m
      then Err (ErrNew [''routing loop on detour: '', md_InboundDetour m])
      else (case im_Get (rt_em E) (rt_im E) (md_InboundDetour m) of
              None \<Rightarrow> Err (ErrNew [''inbound detour not found: '', md_InboundDetour m])
            | Some detour \<Rightarrow>
                if \<not> injectable detour
                then Err (ErrNew [''inbound detour is not '', NETWORK, '' injectable: '', md_InboundDetour m])
                else Ok (Injected detour (m\<lparr>md_LastInbound := md_Inbound m, md_Inbound := md_InboundDetour m,
                                            md_InboundDetour := []\<rparr>))))"

definition reserved_destination :: "'s router_env \<Rightarrow> string \<Rightarrow> go_err option" where
  "reserved_destination E fqdn =
     (if fqdn = rt_mux_Fqdn E
      then Some (ErrNew [''global multiplex is deprecated since sing-box v1.7.0, enable multiplex in Inbound fields instead.''])
      else if fqdn = rt_vmess_mux_Fqdn E
      then Some (ErrNew [''global multiplex (v2ray legacy) not supported since sing-box v1.7.0.''])
      else if fqdn = rt_uot_Magic E then Some (ErrNew [''global UoT not supported since sing-box v1.7.0.''])
      else if fqdn = rt_uot_LegacyMagic E
      then Some (ErrNew [''global UoT (legacy) not supported since sing-box v1.7.0.''])
      else None)"

definition start_flow :: "metadata \<Rightarrow> read_event list \<Rightarrow> packet_event list \<Rightarrow> flow" where
  "start_flow m es ps = \<lparr>fl_meta = m, fl_buffers = [], fl_packets = [], fl_reads = es, fl_events = ps\<rparr>"

text \<open>
  \<^verbatim>\<open>routeConnection\<close> at time \<open>now\<close>, for a connection that needs the deadline wrapper or not. The flow
  that is returned beside the result shows what was read from the connection.
\<close>

definition routeConnection ::
  "'s router_env \<Rightarrow> int \<Rightarrow> bool \<Rightarrow> metadata \<Rightarrow> read_event list \<Rightarrow> drops \<Rightarrow> routed go_out \<times> flow \<times> drops" where
  "routeConnection E now needDeadline m es d =
     (if md_InboundDetour m \<noteq> [] then (inbound_detour E (rt_TCPInjectable E) ''TCP'' m, start_flow m es [], d)
      else
        let m1 = m\<lparr>md_Network := ''tcp''\<rparr>;
            conn = (if needDeadline then DeadlineConn InputConn else InputConn)
        in case reserved_destination E (sa_Fqdn (md_Destination m1)) of
             Some e \<Rightarrow> (Err e, start_flow m1 es [], d)
           | None \<Rightarrow>
               (case matchRule E False False StreamInput (start_flow m1 es []) of
                  (Err e, f) \<Rightarrow> (Err e, f, d)
                | (Panic p, f) \<Rightarrow> (Panic p, f, d)
                | (Ok selected, f) \<Rightarrow>
                    let dispatch = (\<lambda>c. Dispatched c (track (rt_trackers E) (cache_buffers (fl_buffers f) conn)) (fl_meta f))
                    in case selected of
                         None \<Rightarrow>
                           (case select_default E ''tcp'' [''TCP is not supported by default outbound: ''] of
                              Ok c \<Rightarrow> (Ok (dispatch c), f, d) | Err e \<Rightarrow> (Err e, f, d) | Panic p \<Rightarrow> (Panic p, f, d))
                       | Some (r, i) \<Rightarrow>
                           (case select_action E ''tcp'' ''TCP'' (rule_action r) of
                              Err e \<Rightarrow> (Err e, f, d)
                            | Panic p \<Rightarrow> (Panic p, f, d)
                            | Ok (ToOutbound c) \<Rightarrow> (Ok (dispatch c), f, d)
                            | Ok ToNil \<Rightarrow> (Panic ''nil pointer dereference'', f, d)
                            | Ok (Rejects method noDrop) \<Rightarrow>
                                (case reject_selected E ''TCP'' now i method noDrop d of (x, d1) \<Rightarrow> (x, f, d1))
                            | Ok HijacksDNS \<Rightarrow>
                                (Ok (HijackedStream (cache_buffers (fl_buffers f) conn) (fl_meta f)), f, d))))"

text \<open>
  \<^verbatim>\<open>routePacketConnection\<close>; the flag \<^verbatim>\<open>selectReturn\<close> of the source is never set.
\<close>

definition dispatch_packets :: "'s router_env \<Rightarrow> flow \<Rightarrow> comp \<Rightarrow> routed" where
  "dispatch_packets E f c =
     (let conn = track (rt_trackers E) (cache_packets (fl_packets f) InputConn);
          m = fl_meta f
      in Dispatched c (if md_FakeIP m then NATPacketConn conn (md_OriginDestination m) (md_Destination m) else conn) m)"

definition routePacketConnection ::
  "'s router_env \<Rightarrow> int \<Rightarrow> metadata \<Rightarrow> packet_event list \<Rightarrow> drops \<Rightarrow> routed go_out \<times> flow \<times> drops" where
  "routePacketConnection E now m ps d =
     (if md_InboundDetour m \<noteq> [] then (inbound_detour E (rt_UDPInjectable E) ''UDP'' m, start_flow m [] ps, d)
      else
        (case matchRule E False False PacketInput (start_flow (m\<lparr>md_Network := ''udp''\<rparr>) [] ps) of
           (Err e, f) \<Rightarrow> (Err e, f, d)
         | (Panic p, f) \<Rightarrow> (Panic p, f, d)
         | (Ok None, f) \<Rightarrow>
             (case select_default E ''udp'' [''UDP is not supported by outbound: ''] of
                Ok c \<Rightarrow> (Ok (dispatch_packets E f c), f, d) | Err e \<Rightarrow> (Err e, f, d) | Panic p \<Rightarrow> (Panic p, f, d))
         | (Ok (Some (r, i)), f) \<Rightarrow>
             (case select_action E ''udp'' ''UDP'' (rule_action r) of
                Err e \<Rightarrow> (Err e, f, d)
              | Panic p \<Rightarrow> (Panic p, f, d)
              | Ok (ToOutbound c) \<Rightarrow> (Ok (dispatch_packets E f c), f, d)
              | Ok ToNil \<Rightarrow> (Panic ''nil pointer dereference'', f, d)
              | Ok (Rejects method noDrop) \<Rightarrow>
                  (case reject_selected E ''UDP'' now i method noDrop d of (x, d1) \<Rightarrow> (x, f, d1))
              | Ok HijacksDNS \<Rightarrow> (Ok (HijackedPacket InputConn (fl_packets f) (fl_meta f)), f, d))))"

section \<open>Pre-matching\<close>

text \<open>
  \<^verbatim>\<open>PreMatch\<close> returns no destination, or one of an outbound, with the address its answers are
  rewritten from if the destination was a domain.
\<close>

datatype prematched = NoDestination | DirectDestination comp metadata "addr option"

definition BypassedError :: go_err where
  "BypassedError = ErrCause (ErrExt ''tun.ErrBypass'') [''bypassed'']"

definition direct_outbound :: "'s router_env \<Rightarrow> metadata \<Rightarrow> string \<Rightarrow> comp go_out" where
  "direct_outbound E m tag =
     (case om_Outbound (rt_em E) (rt_om E) tag of
        None \<Rightarrow> Err (ErrNew [''outbound not found: '', tag])
      | Some outbound \<Rightarrow>
          if \<not> sc_ContainsString (rt_S E) (c_network outbound) (md_Network m)
          then Err (ErrNew [md_Network m, '' is not supported by outbound: '', tag])
          else if \<not> rt_DirectRoute E outbound then Panic ''interface conversion''
          else Ok outbound)"

definition default_direct_outbound :: "'s router_env \<Rightarrow> metadata \<Rightarrow> comp go_out" where
  "default_direct_outbound E m =
     (case select_default E (md_Network m) [md_Network m, '' is not supported by default outbound: ''] of
        Ok c \<Rightarrow> if \<not> rt_DirectRoute E c then Panic ''interface conversion'' else Ok c
      | Err e \<Rightarrow> Err e
      | Panic p \<Rightarrow> Panic p)"

text \<open>The end of \<^verbatim>\<open>PreMatch\<close>: a domain is resolved to an address of the family of the source.\<close>

definition direct_route :: "'s router_env \<Rightarrow> comp \<Rightarrow> metadata \<Rightarrow> prematched go_out" where
  "direct_route E c m =
     (if \<not> rl_IsFqdn (rt_L E) (md_Destination m)
      then (case rt_NewDirectRouteConnection E c m of
              Some e \<Rightarrow> Err e | None \<Rightarrow> Ok (DirectDestination c m None))
      else
        let v4 = rl_IsIPv4 (rt_L E) (md_Source m)
        in case (if md_DestinationAddresses m = []
                 then actionResolve E \<lparr>rv_Server = [], rv_Strategy = (if v4 then 3 else 4), rv_DisableCache = False,
                        rv_RewriteTTL = None, rv_ClientSubnet = NoPrefix\<rparr> m
                 else (None, m)) of
             (Some e, m1) \<Rightarrow> Err e
           | (None, m1) \<Rightarrow>
               (case find (if v4 then addr_Is4 else addr_Is6) (md_DestinationAddresses m1) of
                  None \<Rightarrow>
                    Err (ErrNew [if v4 then ''no IPv4 address found for domain: '' else ''no IPv6 address found for domain: '',
                           sa_Fqdn (md_Destination m1)])
                | Some newDestination \<Rightarrow>
                    let m2 = m1\<lparr>md_Destination := \<lparr>sa_Addr = newDestination, sa_Port = 0, sa_Fqdn = []\<rparr>\<rparr>
                    in case rt_NewDirectRouteConnection E c m2 of
                         Some e \<Rightarrow> Err e | None \<Rightarrow> Ok (DirectDestination c m2 (Some newDestination))))"

text \<open>
  \<^verbatim>\<open>PreMatch\<close>; \<open>hasContext\<close> tells whether a route context was passed. A reject action answers with
  its error, \<^verbatim>\<open>nil\<close> included.
\<close>

definition PreMatch ::
  "'s router_env \<Rightarrow> int \<Rightarrow> metadata \<Rightarrow> bool \<Rightarrow> bool \<Rightarrow> drops \<Rightarrow> prematched go_out \<times> drops" where
  "PreMatch E now m hasContext supportBypass d =
     (case matchRule E True supportBypass NoInput (start_flow m [] []) of
        (Err e, f) \<Rightarrow> (Err e, d)
      | (Panic p, f) \<Rightarrow> (Panic p, d)
      | (Ok None, f) \<Rightarrow>
          if md_Network (fl_meta f) \<noteq> ''icmp'' then (Ok NoDestination, d)
          else (case default_direct_outbound E (fl_meta f) of
                  Ok c \<Rightarrow> (direct_route E c (fl_meta f), d) | Err e \<Rightarrow> (Err e, d) | Panic p \<Rightarrow> (Panic p, d))
      | (Ok (Some (r, i)), f) \<Rightarrow>
          (let direct = (\<lambda>tag. if \<not> hasContext then (Ok NoDestination, d)
                 else (case direct_outbound E (fl_meta f) tag of
                         Ok c \<Rightarrow> (direct_route E c (fl_meta f), d) | Err e \<Rightarrow> (Err e, d) | Panic p \<Rightarrow> (Panic p, d)))
           in case rule_action r of
                ActionReject method noDrop \<Rightarrow>
                  if method = ''reply'' \<and> md_Network (fl_meta f) = ''tcp''
                  then (Err (ErrNew [''reject method `reply` is not supported for TCP connections'']), d)
                  else if method = ''reply'' \<and> md_Network (fl_meta f) = ''udp''
                  then (Err (ErrNew [''reject method `reply` is not supported for UDP connections'']), d)
                  else (case RuleActionReject_Error (rt_A E) method noDrop now (d i) of
                          (Ok _, counter) \<Rightarrow> (Ok NoDestination, d(i := counter))
                        | (Err e, counter) \<Rightarrow> (Err e, d(i := counter))
                        | (Panic p, counter) \<Rightarrow> (Panic p, d(i := counter)))
              | ActionBypass outbound _ \<Rightarrow> if supportBypass then (Err BypassedError, d) else direct outbound
              | ActionRoute outbound _ \<Rightarrow> direct outbound
              | _ \<Rightarrow> (Ok NoDestination, d)))"

end
