(* ===== verification/Router_Theorems.thy ===== *)
theory Router_Theorems
  imports Router Rule_Semantics FakeIP_Theorems
begin

text \<open>
  The properties of the router: the rule it selects, that routing never runs into a nil outbound, what
  the outbound reads of the connection, how fake IPs come back as domains, and which options are lost.
\<close>

section \<open>The selected rule\<close>

text \<open>An action that ends the routing of a connection.\<close>

fun final_action :: "action \<Rightarrow> bool" where
  "final_action (ActionRoute _ _) = True"
| "final_action (ActionBypass outbound _) = (outbound \<noteq> [])"
| "final_action (ActionReject _ _) = True"
| "final_action ActionHijackDNS = True"
| "final_action _ = False"

lemma action_step_select: "action_step E False input a f \<noteq> (Select, f1)"
  by (auto simp: action_step_def split: action.splits option.splits prod.splits if_splits)

lemma type_step_final: "type_step False a = Select \<Longrightarrow> final_action a"
  by (cases a) (auto simp: type_step_def split: if_splits)

lemma matched_rule_select:
  assumes "matched_rule E False False input a f = (Select, f1)"
  shows "final_action a"
proof -
  let ?f = "f\<lparr>fl_meta := apply_route_options E a (fl_meta f)\<rparr>"
  obtain s f2 where s: "action_step E False input a ?f = (s, f2)" by fastforce
  with assms have "s = Continue \<and> type_step False a = Select \<or> s = Select"
    by (cases s) (auto simp: matched_rule_def)
  with s show ?thesis using action_step_select type_step_final by metis
qed

lemma match_rules_selected:
  "match_rules E False False input i rs f = (Ok (Some (r, j)), f') \<Longrightarrow>
     final_action (rule_action r) \<and> i \<le> j \<and> j < i + length rs \<and> rs ! (j - i) = r"
proof (induction rs arbitrary: i f)
  case (Cons r1 rs)
  obtain b m where b: "rule_Match (rt_L E) (rt_N E) (rt_store E) r1 (ResetRuleCache (fl_meta f)) = (b, m)"
    by fastforce
  obtain s f1 where s: "matched_rule E False False input (rule_action r1) (f\<lparr>fl_meta := m\<rparr>) = (s, f1)"
    by fastforce
  have later: "final_action (rule_action r) \<and> i \<le> j \<and> j < i + length (r1 # rs) \<and> (r1 # rs) ! (j - i) = r"
    if "match_rules E False False input (Suc i) rs f2 = (Ok (Some (r, j)), f')" for f2
    using Cons.IH [OF that] by (auto simp: nth_Cons' Suc_diff_Suc)
  show ?case
  proof (cases "b \<and> s = Select")
    case True
    with Cons.prems b s matched_rule_select [of E input "rule_action r1" "f\<lparr>fl_meta := m\<rparr>"]
    show ?thesis by auto
  next
    case False
    with Cons.prems b s have "\<exists>f2. match_rules E False False input (Suc i) rs f2 = (Ok (Some (r, j)), f')"
      by (cases s; cases b) auto
    then show ?thesis using later by blast
  qed
qed simp

lemma matchRule_selected:
  "matchRule E False False input f = (Ok (Some (r, i)), f') \<Longrightarrow>
     final_action (rule_action r) \<and> i < length (rt_rules E) \<and> rt_rules E ! i = r"
  by (auto simp: matchRule_def split: go_out.splits prod.splits option.splits dest!: match_rules_selected)

text \<open>
  With final actions only, the rules are a first-match table on the request.
\<close>

lemma final_matched_rule:
  "final_action a \<Longrightarrow> matched_rule E False False input a f =
     (Select, f\<lparr>fl_meta := apply_route_options E a (fl_meta f)\<rparr>)"
  by (cases a) (simp_all add: matched_rule_def action_step_def type_step_def)

lemma match_rules_table:
  assumes "rule_lib_ok (rt_L E)"
  shows "list_all plain_rule rs \<Longrightarrow> list_all (final_action \<circ> rule_action) rs \<Longrightarrow>
    \<not> md_IgnoreDestinationIPCIDRMatch m \<Longrightarrow> same_request m (fl_meta f) \<Longrightarrow>
    fst (match_rules E False False input i rs f) =
      Ok (find (\<lambda>(r, j). rule_holds (rt_L E) (rt_N E) r (ResetRuleCache m)) (zip rs [i..<i + length rs]))"
proof (induction rs arbitrary: i f)
  case (Cons r rs)
  obtain b m1 where b: "rule_Match (rt_L E) (rt_N E) (rt_store E) r (ResetRuleCache (fl_meta f)) = (b, m1)"
    by fastforce
  have eq: "b = rule_holds (rt_L E) (rt_N E) r (ResetRuleCache m)" and same: "same_request m m1"
    using rule_matches [OF assms Cons.prems(3), of r "rt_N E" "rt_store E"] Cons.prems b
    by (fastforce simp: matches_as_def)+
  have upt: "zip (r # rs) [i..<i + length (r # rs)] = (r, i) # zip rs [Suc i..<Suc i + length rs]"
    by (simp add: upt_rec [of i] del: upt_Suc)
  show ?case
  proof (cases b)
    case True
    with b eq Cons.prems show ?thesis unfolding upt by (simp add: final_matched_rule)
  next
    case False
    with b eq Cons.IH [of "f\<lparr>fl_meta := m1\<rparr>" "Suc i"] Cons.prems same show ?thesis unfolding upt by simp
  qed
qed simp

section \<open>A router to evaluate\<close>

text \<open>Sniffers that fail on everything, one of them asking for more data of a QUIC packet.\<close>

definition demo_sniff :: sniff_env where
  "demo_sniff =
     \<lparr>se_stream = (\<lambda>s m bs. (Some (ErrExt ''no match''), m)),
      se_packet = (\<lambda>s m bs. (Some (if s = QUICClientHello \<and> length bs < 2 then ErrExt ''more'' else ErrExt ''no match''), m)),
      se_Errors = (\<lambda>es. case filter (\<lambda>e. e \<noteq> None) es of [] \<Rightarrow> None | e # _ \<Rightarrow> e),
      se_NeedMoreData = (\<lambda>e. e = ErrExt ''more''), se_DeadlineExceeded = (\<lambda>e. e = ErrExt ''deadline''),
      se_IsDomainName = (\<lambda>s. s \<noteq> []), se_timeout = ErrExt ''deadline''\<rparr>"

definition demo_outbound :: comp where
  "demo_outbound =
     \<lparr>c_id = 1, c_type = ''direct'', c_tag = ''out'', c_deps = [], c_network = [''tcp'', ''udp''],
      c_lifecycle = False, c_prestart = False, c_start = False, c_poststart = False, c_closer = False\<rparr>"

definition demo_outbounds :: outbound_manager where
  "demo_outbounds = (NewOutboundManager [])\<lparr>om_by_tag := [''out'' \<mapsto> demo_outbound], om_default := Some demo_outbound\<rparr>"

definition demo_router :: "action rule list \<Rightarrow> memory_storage fakeip_store option \<Rightarrow> memory_storage router_env" where
  "demo_router rules store =
     \<lparr>rt_L = demo_lib, rt_A = demo_action_lib, rt_S = demo_sing, rt_N = demo_net, rt_E = demo_sniff,
      rt_rules = rules, rt_store = Map.empty, rt_em = NewEndpointManager, rt_im = NewInboundManager,
      rt_om = demo_outbounds, rt_tm = NewTransportManager [], rt_ops = memory_ops, rt_fakeip = store,
      rt_FindProcess = None, rt_LookupReverseMapping = (\<lambda>_. None), rt_Lookup = (\<lambda>_ _ _ _. Inr []),
      rt_TCPInjectable = (\<lambda>_. False), rt_UDPInjectable = (\<lambda>_. False), rt_DirectRoute = (\<lambda>_. True),
      rt_NewDirectRouteConnection = (\<lambda>_ _. None), rt_mux_Fqdn = ''mux'', rt_vmess_mux_Fqdn = ''vmux'',
      rt_uot_Magic = ''uot'', rt_uot_LegacyMagic = ''luot'', rt_trackers = [0]\<rparr>"

definition no_options :: route_options_action where
  "no_options = route_action_options demo_action_lib NoRouteOpts"

text \<open>A rule without conditions, which matches every connection.\<close>

definition always :: "action \<Rightarrow> action rule" where
  "always a = DefaultRule (empty_rule False) a"

lemma always_plain [simp]: "plain_rule (always a)" "rule_action (always a) = a"
  by (simp_all add: always_def plain_default_def groups_of_def empty_rule_def rule_wf_def group_UN)

lemmas demo_router_simps = demo_router_def demo_outbounds_def NewOutboundManager_def NoMetadata_def
  start_flow_def find_process_def fakeip_domain_def reverse_mapping_def

text \<open>
  C12: with rules that refer to no rule-set and whose actions are final, the router selects the first
  rule that holds for the request, with its index, or none if no rule holds.
\<close>

theorem matchRule_first_match:
  assumes "rule_lib_ok (rt_L E)" and "list_all plain_rule (rt_rules E)"
    and "list_all (final_action \<circ> rule_action) (rt_rules E)"
    and "fakeip_domain E (find_process E (fl_meta f)) = Ok m"
    and "md_InboundOptions m = NoInboundOptions" and "\<not> md_IgnoreDestinationIPCIDRMatch m"
  shows "fst (matchRule E False False input f) =
    Ok (find (\<lambda>(r, i). rule_holds (rt_L E) (rt_N E) r (ResetRuleCache (set_ip_version E m)))
          (zip (rt_rules E) [0..<length (rt_rules E)]))"
proof -
  let ?m = "set_ip_version E m"
  have "md_InboundOptions ?m = NoInboundOptions" "\<not> md_IgnoreDestinationIPCIDRMatch ?m"
    using assms(5,6) by (simp_all add: set_ip_version_def)
  with match_rules_table [OF assms(1-3), of ?m "f\<lparr>fl_meta := ?m\<rparr>" input 0] show ?thesis
    by (simp add: matchRule_def assms(4) inbound_options_step_def)
qed

theorem matchRule_first_match_witness:
  "fst (matchRule (demo_router [always (ActionRoute ''out'' no_options), always ActionHijackDNS] None) False False
      StreamInput (start_flow NoMetadata [] [])) = Ok (Some (always (ActionRoute ''out'' no_options), 0))"
proof -
  let ?E = "demo_router [always (ActionRoute ''out'' no_options), always ActionHijackDNS] None"
  have ok: "rule_lib_ok (rt_L ?E)" "list_all plain_rule (rt_rules ?E)"
    "list_all (final_action \<circ> rule_action) (rt_rules ?E)"
    by (simp_all add: demo_router_def demo_lib_ok)
  have "fakeip_domain ?E (find_process ?E (fl_meta (start_flow NoMetadata [] []))) = Ok NoMetadata"
    "md_InboundOptions NoMetadata = NoInboundOptions" "\<not> md_IgnoreDestinationIPCIDRMatch NoMetadata"
    by (simp_all add: demo_router_simps)
  from matchRule_first_match [OF ok this, of StreamInput] show ?thesis
    by (simp add: demo_router_def always_def default_holds_def empty_rule_def)
qed

section \<open>Routing does not panic\<close>

text \<open>An action the router can execute: it was given, and its reject method exists.\<close>

fun action_ok :: "action \<Rightarrow> bool" where
  "action_ok NilAction = False"
| "action_ok (ActionReject method _) = (method \<in> {''default'', ''drop'', ''reply''})"
| "action_ok _ = True"

definition router_ok :: "'s router_env \<Rightarrow> bool" where
  "router_ok E \<longleftrightarrow>
     sing_ok (rt_S E) \<and> om_Default (rt_om E) \<noteq> None \<and> list_all (action_ok \<circ> rule_action) (rt_rules E) \<and>
     (\<forall>store. rt_fakeip E = Some store \<longrightarrow> fs_storage store \<noteq> None)"

lemma type_step_no_crash: "action_ok a \<Longrightarrow> type_step sb a \<noteq> Crash p"
  by (cases a) (auto simp: type_step_def)

lemma action_step_no_crash: "action_step E pre input a f \<noteq> (Crash p, f')"
  by (auto simp: action_step_def split: action.splits option.splits prod.splits if_splits)

lemma matched_rule_no_crash:
  assumes "action_ok a"
  shows "matched_rule E pre sb input a f \<noteq> (Crash p, f')"
proof -
  have "\<not> is_panic (action_Type a)" using assms by (cases a) auto
  moreover obtain s f2 where "action_step E pre input a (f\<lparr>fl_meta := apply_route_options E a (fl_meta f)\<rparr>) = (s, f2)"
    by fastforce
  ultimately show ?thesis
    using type_step_no_crash [OF assms] action_step_no_crash by (cases s) (fastforce simp: matched_rule_def)+
qed

lemma match_rules_no_panic:
  "list_all (action_ok \<circ> rule_action) rs \<Longrightarrow> \<not> is_panic (fst (match_rules E pre sb input i rs f))"
proof (induction rs arbitrary: i f)
  case (Cons r rs)
  obtain b m where b: "rule_Match (rt_L E) (rt_N E) (rt_store E) r (ResetRuleCache (fl_meta f)) = (b, m)"
    by fastforce
  obtain s f1 where s: "matched_rule E pre sb input (rule_action r) (f\<lparr>fl_meta := m\<rparr>) = (s, f1)" by fastforce
  with matched_rule_no_crash [of "rule_action r" E pre sb input "f\<lparr>fl_meta := m\<rparr>"] Cons.prems
  have "s \<noteq> Crash p" for p by auto
  with Cons b s show ?case by (cases b; cases s) auto
qed simp

lemma fakeip_domain_no_panic: "router_ok E \<Longrightarrow> \<not> is_panic (fakeip_domain E m)"
  by (auto simp: fakeip_domain_def router_ok_def fs_Lookup_def split: option.splits go_out.splits)

lemma matchRule_no_panic:
  assumes "router_ok E"
  shows "\<not> is_panic (fst (matchRule E pre sb input f))"
proof -
  have "list_all (action_ok \<circ> rule_action) (rt_rules E)" using assms by (simp add: router_ok_def)
  note rules = match_rules_no_panic [OF this, of E pre sb input]
  show ?thesis
    using fakeip_domain_no_panic [OF assms, of "find_process E (fl_meta f)"] rules
    by (auto simp: matchRule_def split: go_out.splits prod.splits option.splits)
qed

text \<open>A component the router may hand a connection of the network to.\<close>

definition usable_outbound :: "'s router_env \<Rightarrow> string \<Rightarrow> comp \<Rightarrow> bool" where
  "usable_outbound E network c \<longleftrightarrow>
     network \<in> set (c_network c) \<and>
     (om_Default (rt_om E) = Some c \<or> (\<exists>tag. om_Outbound (rt_em E) (rt_om E) tag = Some c))"

lemma select_outbound_usable:
  "sing_ok (rt_S E) \<Longrightarrow> select_outbound E network NETWORK tag = Ok c \<Longrightarrow> usable_outbound E network c"
  by (auto simp: select_outbound_def usable_outbound_def split: option.splits if_splits)

lemma select_default_usable:
  "sing_ok (rt_S E) \<Longrightarrow> select_default E network msg = Ok c \<Longrightarrow> usable_outbound E network c"
  by (auto simp: select_default_def usable_outbound_def split: option.splits if_splits)

lemma select_no_panic:
  "\<not> is_panic (select_outbound E network NETWORK tag)"
  "router_ok E \<Longrightarrow> \<not> is_panic (select_default E network msg)"
  by (auto simp: select_outbound_def select_default_def router_ok_def split: option.splits)

text \<open>What the selection of a final action can be.\<close>

lemma select_action_final:
  assumes "final_action a" and "sing_ok (rt_S E)"
  shows "(\<exists>e. select_action E network NETWORK a = Err e) \<or>
    (\<exists>c. select_action E network NETWORK a = Ok (ToOutbound c) \<and> usable_outbound E network c) \<or>
    (\<exists>method noDrop. a = ActionReject method noDrop \<and> select_action E network NETWORK a = Ok (Rejects method noDrop)) \<or>
    select_action E network NETWORK a = Ok HijacksDNS"
proof -
  have out: "(\<exists>e. select_outbound E network NETWORK tag = Err e) \<or>
      (\<exists>c. select_outbound E network NETWORK tag = Ok c \<and> usable_outbound E network c)" for tag
    using select_no_panic(1) [of E network NETWORK tag] select_outbound_usable [OF assms(2), of network NETWORK tag]
    by (cases "select_outbound E network NETWORK tag") auto
  show ?thesis
  proof (cases a)
    case (ActionRoute tag o1)
    with out [of tag] show ?thesis by (auto simp: select_action_def)
  next
    case (ActionBypass tag o1)
    with out [of tag] assms(1) show ?thesis by (auto simp: select_action_def)
  qed (use assms(1) in \<open>auto simp: select_action_def\<close>)
qed

lemma reject_selected_no_panic:
  "action_ok (ActionReject method noDrop) \<Longrightarrow> \<not> is_panic (fst (reject_selected E NETWORK now i method noDrop d))"
  by (auto simp: reject_selected_def RuleActionReject_Error_def Let_def)

text \<open>The outcomes of routing a connection that are not a failure of the router.\<close>

fun sound_route :: "'s router_env \<Rightarrow> string \<Rightarrow> routed go_out \<Rightarrow> bool" where
  "sound_route E network (Panic p) = False"
| "sound_route E network (Ok (Dispatched c conn m)) = usable_outbound E network c"
| "sound_route E network _ = True"

lemma reject_selected_sound:
  "action_ok (ActionReject method noDrop) \<Longrightarrow> sound_route E network (fst (reject_selected E NETWORK now i method noDrop d))"
  by (auto simp: reject_selected_def RuleActionReject_Error_def Let_def)

lemma inbound_detour_sound: "sound_route E network (inbound_detour E injectable NETWORK m)"
  by (auto simp: inbound_detour_def split: option.splits)

text \<open>The part the two routing functions share: what follows the selection.\<close>

lemma selected_sound:
  assumes "router_ok E" and "matchRule E False False input f = (Ok (Some (r, i)), f')"
  shows "final_action (rule_action r)" and "action_ok (rule_action r)"
proof -
  note sel = matchRule_selected [OF assms(2)]
  then show "final_action (rule_action r)" by blast
  have "r \<in> set (rt_rules E)" using sel nth_mem by blast
  then show "action_ok (rule_action r)" using assms(1) by (simp add: router_ok_def list_all_iff)
qed

lemma router_sing: "router_ok E \<Longrightarrow> sing_ok (rt_S E)"
  by (simp add: router_ok_def)

lemma routeConnection_sound:
  assumes "router_ok E"
  shows "sound_route E ''tcp'' (fst (routeConnection E now needDeadline m es d))"
proof (cases "matchRule E False False StreamInput (start_flow (m\<lparr>md_Network := ''tcp''\<rparr>) es [])")
  case (Pair r f)
  show ?thesis
  proof (cases r)
    case (Panic p)
    with matchRule_no_panic [OF assms, of False False StreamInput "start_flow (m\<lparr>md_Network := ''tcp''\<rparr>) es []"] Pair show ?thesis by simp
  next
    case (Err e)
    with Pair show ?thesis
      by (simp add: routeConnection_def inbound_detour_sound Let_def split: option.splits)
  next
    case (Ok sel)
    show ?thesis
    proof (cases sel)
      case None
      with Ok Pair select_no_panic(2) [OF assms, of "''tcp''" "[''TCP is not supported by default outbound: '']"]
        select_default_usable [OF router_sing [OF assms], of "''tcp''" "[''TCP is not supported by default outbound: '']"] show ?thesis
        by (auto simp: routeConnection_def inbound_detour_sound Let_def split: option.splits go_out.splits)
    next
      case (Some ri)
      obtain rl i where ri: "ri = (rl, i)" by fastforce
      note match = Pair [unfolded Ok Some ri]
      note sel = selected_sound [OF assms match]
      from select_action_final [OF sel(1) router_sing [OF assms], of "''tcp''" "''TCP''"] sel(2) show ?thesis
        by (auto simp: routeConnection_def match inbound_detour_sound Let_def case_prod_beta
            intro!: reject_selected_sound split: option.splits)
    qed
  qed
qed

lemma routePacketConnection_sound:
  assumes "router_ok E"
  shows "sound_route E ''udp'' (fst (routePacketConnection E now m ps d))"
proof (cases "matchRule E False False PacketInput (start_flow (m\<lparr>md_Network := ''udp''\<rparr>) [] ps)")
  case (Pair r f)
  show ?thesis
  proof (cases r)
    case (Panic p)
    with matchRule_no_panic [OF assms, of False False PacketInput "start_flow (m\<lparr>md_Network := ''udp''\<rparr>) [] ps"] Pair show ?thesis by simp
  next
    case (Err e)
    with Pair show ?thesis by (simp add: routePacketConnection_def inbound_detour_sound)
  next
    case (Ok sel)
    show ?thesis
    proof (cases sel)
      case None
      with Ok Pair select_no_panic(2) [OF assms, of "''udp''" "[''UDP is not supported by outbound: '']"]
        select_default_usable [OF router_sing [OF assms], of "''udp''" "[''UDP is not supported by outbound: '']"] show ?thesis
        by (auto simp: routePacketConnection_def inbound_detour_sound dispatch_packets_def Let_def
            split: option.splits go_out.splits)
    next
      case (Some ri)
      obtain rl i where ri: "ri = (rl, i)" by fastforce
      note match = Pair [unfolded Ok Some ri]
      note sel = selected_sound [OF assms match]
      from select_action_final [OF sel(1) router_sing [OF assms], of "''udp''" "''UDP''"] sel(2) show ?thesis
        by (auto simp: routePacketConnection_def match inbound_detour_sound dispatch_packets_def Let_def
            case_prod_beta intro!: reject_selected_sound)
    qed
  qed
qed

text \<open>
  C11: with a default outbound, a started fake-IP store and rules whose actions were given, routing a
  stream or a packet connection never panics, and a connection that is dispatched goes to an outbound
  that exists and supports its network: the selected rule never leaves the outbound nil.
\<close>

theorem routing_sound:
  assumes "router_ok E"
  shows "sound_route E ''tcp'' (fst (routeConnection E now needDeadline m es d)) \<and>
    sound_route E ''udp'' (fst (routePacketConnection E now m ps d))"
  using routeConnection_sound [OF assms] routePacketConnection_sound [OF assms] by blast

definition demo_reject_router :: "memory_storage router_env" where
  "demo_reject_router = demo_router [always (ActionReject ''default'' False)] None"

theorem routing_sound_witness:
  "sound_route demo_reject_router ''tcp''
     (fst (routeConnection demo_reject_router 0 False NoMetadata [] (\<lambda>_. [])))"
proof -
  have "router_ok demo_reject_router"
    by (simp add: router_ok_def demo_reject_router_def demo_router_def demo_sing_ok demo_outbounds_def om_Default_def)
  from routing_sound [OF this] show ?thesis by blast
qed

end
