(* ===== verification/DNS_Transports.thy ===== *)
theory DNS_Transports
  imports DNS_Message FakeIP
begin

text \<open>
  DNS transports that answer from data of their own: \<^verbatim>\<open>dns/transport/fakeip/fakeip.go\<close> hands out fake
  addresses, \<^verbatim>\<open>dns/transport/hosts\<close> reads hosts files.
\<close>

abbreviation (input) DefaultDNSTTL :: "32 word" where
  "DefaultDNSTTL \<equiv> 600"

section \<open>The fake-IP transport\<close>

definition fakeip_Exchange ::
  "dns_lib \<Rightarrow> 's storage_ops \<Rightarrow> dns_msg \<Rightarrow> 's fakeip_store \<Rightarrow> dns_msg go_out \<times> 's fakeip_store" where
  "fakeip_Exchange D ops message s =
     (case m_Question message of
        [] \<Rightarrow> (Panic ''index out of range'', s)
      | q # _ \<Rightarrow>
          if q_Qtype q \<noteq> TypeA \<and> q_Qtype q \<noteq> TypeAAAA
          then (Err (ErrNew [''only IP queries are supported by fakeip'']), s)
          else
            (case fs_Create ops (FqdnToDomain D (q_Name q)) (q_Qtype q = TypeAAAA) s of
               (Ok address, s1) \<Rightarrow> (Ok (FixedResponse (m_Id message) q [address] DefaultDNSTTL), s1)
             | (Err e, s1) \<Rightarrow> (Err e, s1)
             | (Panic p, s1) \<Rightarrow> (Panic p, s1)))"

section \<open>Hosts files\<close>

text \<open>
  What a hosts file is read with: \<^verbatim>\<open>os.Stat\<close> (modification time and size), opening and reading, which
  yields the pieces \<^verbatim>\<open>bufio.ReadLine\<close> returns (a piece with the flag is continued by the next one) and
  whether reading ended without an error, \<^verbatim>\<open>netip.ParseAddr\<close> and \<^verbatim>\<open>dns.CanonicalName\<close>. Files may change
  over time. Times are in nanoseconds.
\<close>

record hosts_env =
  he_Stat :: "string \<Rightarrow> int \<Rightarrow> (int \<times> int) option"
  he_Read :: "string \<Rightarrow> int \<Rightarrow> ((string \<times> bool) list \<times> bool) option"
  he_ParseAddr :: "string \<Rightarrow> addr option"
  he_CanonicalName :: "string \<Rightarrow> string"

text \<open>The map from names to addresses is kept as a list of its entries.\<close>

record hosts_file =
  hf_path :: string
  hf_byName :: "(string \<times> addr list) list"
  hf_expire :: int
  hf_modTime :: int
  hf_size :: int

definition NewFile :: "string \<Rightarrow> hosts_file" where
  "NewFile path = \<lparr>hf_path = path, hf_byName = [], hf_expire = 0, hf_modTime = 0, hf_size = 0\<rparr>"

definition cacheMaxAge :: int where
  "cacheMaxAge = 5 * 1000000000"

text \<open>\<^verbatim>\<open>byName[name] = append(byName[name], addr)\<close> and reading the map, which gives nil for a missing name.\<close>

fun add_name :: "string \<Rightarrow> addr \<Rightarrow> (string \<times> addr list) list \<Rightarrow> (string \<times> addr list) list" where
  "add_name name address [] = [(name, [address])]"
| "add_name name address ((n, as) # entries) =
     (if n = name then (n, as @ [address]) # entries else (n, as) # add_name name address entries)"

definition by_name :: "(string \<times> addr list) list \<Rightarrow> string \<Rightarrow> addr list" where
  "by_name entries name = (case map_of entries name of Some as \<Rightarrow> as | None \<Rightarrow> [])"

text \<open>The pieces of a file as lines; pieces that are continued at the end of the file are lost.\<close>

fun join_pieces :: "string \<Rightarrow> (string \<times> bool) list \<Rightarrow> string list" where
  "join_pieces acc [] = []"
| "join_pieces acc ((piece, isPrefix) # pieces) =
     (if isPrefix then join_pieces (acc @ piece) pieces else (acc @ piece) # join_pieces [] pieces)"

text \<open>\<^verbatim>\<open>strings.Fields\<close> for the ASCII white space.\<close>

definition is_space :: "char \<Rightarrow> bool" where
  "is_space c \<longleftrightarrow> c \<in> {CHR 0x20, CHR 0x09, CHR 0x0A, CHR 0x0B, CHR 0x0C, CHR 0x0D}"

fun split_fields :: "string \<Rightarrow> string \<Rightarrow> string list" where
  "split_fields acc [] = (if acc = [] then [] else [acc])"
| "split_fields acc (c # cs) =
     (if is_space c then (if acc = [] then split_fields [] cs else acc # split_fields [] cs)
      else split_fields (acc @ [c]) cs)"

definition line_fields :: "string \<Rightarrow> string list" where
  "line_fields line = split_fields [] (takeWhile (\<lambda>c. c \<noteq> CHR ''#'') line)"

definition parse_line :: "hosts_env \<Rightarrow> string \<Rightarrow> (string \<times> addr list) list \<Rightarrow> (string \<times> addr list) list" where
  "parse_line E line entries =
     (case line_fields line of
        a # n # names \<Rightarrow>
          (case he_ParseAddr E a of
             None \<Rightarrow> entries
           | Some address \<Rightarrow> fold (\<lambda>name. add_name (he_CanonicalName E name) address) (n # names) entries)
      | _ \<Rightarrow> entries)"

definition hosts_update :: "hosts_env \<Rightarrow> int \<Rightarrow> hosts_file \<Rightarrow> hosts_file" where
  "hosts_update E now f =
     (if now < hf_expire f \<and> hf_byName f \<noteq> [] then f
      else
        (case he_Stat E (hf_path f) now of
           None \<Rightarrow> f
         | Some (modTime, sz) \<Rightarrow>
             if hf_modTime f = modTime \<and> hf_size f = sz then f\<lparr>hf_expire := now + cacheMaxAge\<rparr>
             else
               (case he_Read E (hf_path f) now of
                  Some (pieces, True) \<Rightarrow>
                    f\<lparr>hf_expire := now + cacheMaxAge, hf_modTime := modTime, hf_size := sz,
                      hf_byName := fold (parse_line E) (join_pieces [] pieces) []\<rparr>
                | _ \<Rightarrow> f)))"

definition hosts_Lookup :: "hosts_env \<Rightarrow> string \<Rightarrow> int \<Rightarrow> hosts_file \<Rightarrow> addr list \<times> hosts_file" where
  "hosts_Lookup E name now f =
     (let f1 = hosts_update E now f in (by_name (hf_byName f1) (he_CanonicalName E name), f1))"

section \<open>The hosts transport\<close>

record hosts_transport =
  ht_files :: "hosts_file list"
  ht_predefined :: "string \<Rightarrow> addr list option"

definition NewHostsTransport ::
  "hosts_env \<Rightarrow> string \<Rightarrow> (string \<Rightarrow> string) \<Rightarrow> string list \<Rightarrow> (string \<times> addr list) list \<Rightarrow> hosts_transport" where
  "NewHostsTransport E DefaultPath basePath paths predefined =
     \<lparr>ht_files = (if paths = [] then [NewFile DefaultPath] else map (\<lambda>p. NewFile (basePath p)) paths),
      ht_predefined = fold (\<lambda>(name, as) m. m(he_CanonicalName E name \<mapsto> as)) predefined Map.empty\<rparr>"

text \<open>The files are asked in order until one has an address; all that were asked are updated.\<close>

fun lookup_files :: "hosts_env \<Rightarrow> string \<Rightarrow> int \<Rightarrow> hosts_file list \<Rightarrow> addr list \<times> hosts_file list" where
  "lookup_files E domain now [] = ([], [])"
| "lookup_files E domain now (f # fs) =
     (case hosts_Lookup E domain now f of
        (as, f1) \<Rightarrow>
          if as \<noteq> [] then (as, f1 # fs)
          else (case lookup_files E domain now fs of (as1, fs1) \<Rightarrow> (as1, f1 # fs1)))"

definition hosts_name_error :: "dns_msg \<Rightarrow> dns_question \<Rightarrow> dns_msg" where
  "hosts_name_error message q =
     NoMsg\<lparr>m_Id := m_Id message, m_Rcode := RcodeNameError, m_Response := True, m_Question := [q]\<rparr>"

definition hosts_Exchange :: "hosts_env \<Rightarrow> dns_msg \<Rightarrow> int \<Rightarrow> hosts_transport \<Rightarrow> dns_msg go_out \<times> hosts_transport" where
  "hosts_Exchange E message now t =
     (case m_Question message of
        [] \<Rightarrow> (Panic ''index out of range'', t)
      | q # _ \<Rightarrow>
          let domain = he_CanonicalName E (q_Name q)
          in if q_Qtype q = TypeA \<or> q_Qtype q = TypeAAAA
             then
               (case ht_predefined t domain of
                  Some as \<Rightarrow> (Ok (FixedResponse (m_Id message) q as DefaultDNSTTL), t)
                | None \<Rightarrow>
                    (case lookup_files E domain now (ht_files t) of
                       (as, fs1) \<Rightarrow>
                         (Ok (if as \<noteq> [] then FixedResponse (m_Id message) q as DefaultDNSTTL
                              else hosts_name_error message q),
                          t\<lparr>ht_files := fs1\<rparr>)))
             else (Ok (hosts_name_error message q), t))"

section \<open>What a hosts file says\<close>

text \<open>
  The addresses of a name in the lines of a file: for every line, in order, its address once for each
  time the name is listed in it.
\<close>

definition line_addresses :: "hosts_env \<Rightarrow> string \<Rightarrow> string \<Rightarrow> addr list" where
  "line_addresses E name line =
     (case line_fields line of
        a # n # names \<Rightarrow>
          (case he_ParseAddr E a of
             None \<Rightarrow> []
           | Some address \<Rightarrow> map (\<lambda>_. address) (filter (\<lambda>x. he_CanonicalName E x = name) (n # names)))
      | _ \<Rightarrow> [])"

lemma by_name_add: "by_name (add_name name a entries) n = by_name entries n @ (if n = name then [a] else [])"
  by (induction name a entries rule: add_name.induct) (auto simp: by_name_def)

lemma by_name_names:
  "by_name (fold (\<lambda>name. add_name (he_CanonicalName E name) a) names entries) n =
     by_name entries n @ map (\<lambda>_. a) (filter (\<lambda>x. he_CanonicalName E x = n) names)"
  by (induction names arbitrary: entries) (auto simp: by_name_add)

lemma by_name_line: "by_name (parse_line E line entries) n = by_name entries n @ line_addresses E n line"
  unfolding parse_line_def line_addresses_def
  by (auto simp: by_name_names by_name_add split: list.splits option.splits)

lemma by_name_lines:
  "by_name (fold (parse_line E) lines entries) n = by_name entries n @ concat (map (line_addresses E n) lines)"
  by (induction lines arbitrary: entries) (simp_all add: by_name_line)

text \<open>The file is read at this time: it is not fresh in memory, and it changed or is new.\<close>

definition file_read :: "hosts_env \<Rightarrow> int \<Rightarrow> hosts_file \<Rightarrow> (string \<times> bool) list \<Rightarrow> bool" where
  "file_read E now f pieces \<longleftrightarrow>
     \<not> (now < hf_expire f \<and> hf_byName f \<noteq> []) \<and> he_Read E (hf_path f) now = Some (pieces, True) \<and>
     (\<exists>modTime sz. he_Stat E (hf_path f) now = Some (modTime, sz) \<and> (hf_modTime f, hf_size f) \<noteq> (modTime, sz))"

lemma hosts_lookup_lines:
  "file_read E now f pieces \<Longrightarrow> fst (hosts_Lookup E name now f) =
     concat (map (line_addresses E (he_CanonicalName E name)) (join_pieces [] pieces))"
  by (auto simp: file_read_def hosts_Lookup_def hosts_update_def Let_def by_name_lines) (simp_all add: by_name_def)

text \<open>
  C21: the hosts transport answers an address query from a file that is new or has changed with exactly
  the addresses of the asked family that the lines of the file give for the name, in the order of the
  file; comments, short lines and lines without a valid address are skipped. If there is none, the
  answer is a name error.
\<close>

theorem hosts_answer_correct:
  assumes "dns_lib_ok D" and "m_Question message = [q]" and "q_Qtype q = TypeA \<or> q_Qtype q = TypeAAAA"
    and "ht_files t = [f]" and "ht_predefined t (he_CanonicalName E (q_Name q)) = None" and "file_read E now f pieces"
    and "\<forall>a \<in> set as. \<not> addr_hasZone a"
    and "as = concat (map (line_addresses E (he_CanonicalName E (he_CanonicalName E (q_Name q)))) (join_pieces [] pieces))"
  shows "\<exists>m. fst (hosts_Exchange E message now t) = Ok m \<and>
    MessageToAddresses D m = filter (of_family (q_Qtype q)) as \<and>
    m_Rcode m = (if as = [] then RcodeNameError else RcodeSuccess) \<and> m_Id m = m_Id message"
proof -
  have "fst (hosts_Lookup E (he_CanonicalName E (q_Name q)) now f) = as"
    unfolding assms(8) by (rule hosts_lookup_lines [OF assms(6)])
  then have "fst (hosts_Exchange E message now t) =
      Ok (if as \<noteq> [] then FixedResponse (m_Id message) q as DefaultDNSTTL else hosts_name_error message q)"
    using assms(2-5) by (auto simp: hosts_Exchange_def Let_def split: prod.splits)
  moreover have "MessageToAddresses D (FixedResponse (m_Id message) q as DefaultDNSTTL) = filter (of_family (q_Qtype q)) as"
    by (rule FixedResponse_addresses [OF assms(1)]) (use assms(7) in blast)
  ultimately show ?thesis
    by (auto simp: FixedResponse_def fixed_header_def hosts_name_error_def NoMsg_def MessageToAddresses_def)
qed

definition demo_hosts :: hosts_env where
  "demo_hosts =
     \<lparr>he_Stat = (\<lambda>_ _. Some (1, 30)),
      he_Read = (\<lambda>_ _. Some ([(''# local'', False), (''v4 a'', True), (''b c # x'', False), (''v6 ab'', False)], True)),
      he_ParseAddr = (\<lambda>s. if s = ''v4'' then Some (Addr4 1) else if s = ''v6'' then Some (Addr6 1 []) else None),
      he_CanonicalName = (\<lambda>s. s)\<rparr>"

theorem hosts_answer_correct_witness:
  "\<exists>m. fst (hosts_Exchange demo_hosts (NoMsg\<lparr>m_Question := [\<lparr>q_Name = ''ab'', q_Qtype = TypeA, q_Qclass = ClassINET\<rparr>]\<rparr>) 0
       (NewHostsTransport demo_hosts ''hosts'' (\<lambda>p. p) [] [])) = Ok m \<and> MessageToAddresses demo_dns_lib m = [Addr4 1]"
proof -
  let ?q = "\<lparr>q_Name = ''ab'', q_Qtype = TypeA, q_Qclass = ClassINET\<rparr>"
  let ?pieces = "[(''# local'', False), (''v4 a'', True), (''b c # x'', False), (''v6 ab'', False)]"
  have read: "file_read demo_hosts 0 (NewFile ''hosts'') ?pieces"
    by (simp add: file_read_def demo_hosts_def NewFile_def)
  have as: "[Addr4 1, Addr6 1 []] = concat (map (line_addresses demo_hosts (he_CanonicalName demo_hosts
      (he_CanonicalName demo_hosts (q_Name ?q)))) (join_pieces [] ?pieces))"
    by (simp add: demo_hosts_def line_addresses_def line_fields_def is_space_def)
  have "\<exists>m. fst (hosts_Exchange demo_hosts (NoMsg\<lparr>m_Question := [?q]\<rparr>) 0
       (NewHostsTransport demo_hosts ''hosts'' (\<lambda>p. p) [] [])) = Ok m \<and>
      MessageToAddresses demo_dns_lib m = filter (of_family (q_Qtype ?q)) [Addr4 1, Addr6 1 []] \<and>
      m_Rcode m = (if [Addr4 1, Addr6 1 []] = [] then RcodeNameError else RcodeSuccess) \<and> m_Id m = m_Id (NoMsg\<lparr>m_Question := [?q]\<rparr>)"
    by (rule hosts_answer_correct [OF demo_dns_lib_ok _ _ _ _ read _ as]) (simp_all add: NewHostsTransport_def demo_hosts_def)
  then show ?thesis by (auto simp: of_family_def)
qed

section \<open>What the fake-IP transport answers\<close>

lemma fakeip_Exchange_answer:
  assumes "dns_lib_ok D" and "m_Question message = q # qs" and "fakeip_Exchange D ops message s = (Ok m, s')"
  obtains a where "fs_Create ops (FqdnToDomain D (q_Name q)) (q_Qtype q = TypeAAAA) s = (Ok a, s')"
    "q_Qtype q = TypeA \<or> q_Qtype q = TypeAAAA" "m = FixedResponse (m_Id message) q [a] DefaultDNSTTL"
  using assms(2,3) that
  by (auto simp: fakeip_Exchange_def split: if_splits prod.splits go_out.splits)

end
