(* ===== verification/Router_Buffers.thy ===== *)
theory Router_Buffers
  imports Router_Theorems DNS_Transports
begin

text \<open>
  What becomes of the bytes and packets that are read while a connection is routed. Nothing that was
  read from a stream is lost, but the buffers of several sniff actions reach the outbound in reverse
  order; packets that are cached when a further sniff action reads are cached twice.
\<close>

section \<open>Streams\<close>

text \<open>The bytes of the connection: those in the buffers, then those still to be read.\<close>

definition flow_bytes :: "flow \<Rightarrow> bytes" where
  "flow_bytes f = concat (fl_buffers f) @ stream_bytes (fl_reads f)"

lemma actionSniff_stream:
  assumes "actionSniff E StreamInput a buffers packets f = (b, ps, err, f')"
  shows "(case b of None \<Rightarrow> [] | Some d \<Rightarrow> d) @ stream_bytes (fl_reads f') = stream_bytes (fl_reads f)"
    and "fl_buffers f' = fl_buffers f" and "ps = []"
  using assms sniff_stream_bytes [of "rt_E E" a buffers "fl_reads f" "fl_meta f"]
  by (auto simp: actionSniff_def split: if_splits prod.splits)

lemma rule_sniff_bytes:
  "rule_sniff E StreamInput a f = (err, f') \<Longrightarrow> flow_bytes f' = flow_bytes f"
proof -
  assume r: "rule_sniff E StreamInput a f = (err, f')"
  obtain b ps e f1 where s: "actionSniff E StreamInput a (fl_buffers f) (fl_packets f) f = (b, ps, e, f1)"
    by (metis prod_cases4)
  note facts = actionSniff_stream [OF s]
  from r s facts show ?thesis
    by (cases b) (auto simp: rule_sniff_def flow_bytes_def)
qed

lemma inbound_sniff_bytes:
  assumes "inbound_sniff E pre StreamInput f = (err, f')" and "fl_buffers f = []"
  shows "flow_bytes f' = flow_bytes f"
proof -
  let ?a = "inbound_sniff_action (md_InboundOptions (fl_meta f))"
  obtain b ps e f1 where s: "actionSniff E StreamInput ?a [] [] f = (b, ps, e, f1)"
    by (metis prod_cases4)
  note facts = actionSniff_stream [OF s]
  from assms s facts show ?thesis
    by (cases b) (auto simp: inbound_sniff_def flow_bytes_def split: if_splits)
qed

lemma flow_bytes_meta [simp]: "flow_bytes (f\<lparr>fl_meta := m\<rparr>) = flow_bytes f"
  by (simp add: flow_bytes_def)

lemma inbound_resolve_bytes: "inbound_resolve E f = (err, f') \<Longrightarrow> flow_bytes f' = flow_bytes f"
  by (auto simp: inbound_resolve_def split: if_splits prod.splits)

lemma inbound_options_bytes:
  assumes "inbound_options_step E pre StreamInput f = (err, f')" and "fl_buffers f = []"
  shows "flow_bytes f' = flow_bytes f"
proof -
  obtain e1 f1 where s: "inbound_sniff E pre StreamInput f = (e1, f1)" by fastforce
  obtain e2 f2 where r: "inbound_resolve E f1 = (e2, f2)" by fastforce
  from assms s r inbound_sniff_bytes [OF s assms(2)] inbound_resolve_bytes [OF r]
  show ?thesis by (auto simp: inbound_options_step_def split: if_splits option.splits)
qed

lemma action_step_bytes: "action_step E pre StreamInput a f = (r, f') \<Longrightarrow> flow_bytes f' = flow_bytes f"
  by (cases a) (auto simp: action_step_def split: if_splits prod.splits option.splits dest: rule_sniff_bytes)

lemma matched_rule_bytes:
  assumes "matched_rule E pre sb StreamInput a f = (r, f')"
  shows "flow_bytes f' = flow_bytes f"
proof -
  obtain s f2 where s: "action_step E pre StreamInput a (f\<lparr>fl_meta := apply_route_options E a (fl_meta f)\<rparr>) = (s, f2)"
    by fastforce
  from assms s action_step_bytes [OF s] show ?thesis
    by (cases s) (auto simp: matched_rule_def Let_def split: if_splits)
qed

lemma match_rules_bytes: "match_rules E pre sb StreamInput i rs f = (r, f') \<Longrightarrow> flow_bytes f' = flow_bytes f"
proof (induction rs arbitrary: i f)
  case (Cons r1 rs)
  obtain b m where b: "rule_Match (rt_L E) (rt_N E) (rt_store E) r1 (ResetRuleCache (fl_meta f)) = (b, m)"
    by fastforce
  obtain s f1 where s: "matched_rule E pre sb StreamInput (rule_action r1) (f\<lparr>fl_meta := m\<rparr>) = (s, f1)" by fastforce
  have f1: "flow_bytes f1 = flow_bytes f" using matched_rule_bytes [OF s] by simp
  show ?case
  proof (cases b)
    case False
    with Cons.prems b have "match_rules E pre sb StreamInput (Suc i) rs (f\<lparr>fl_meta := m\<rparr>) = (r, f')" by simp
    from Cons.IH [OF this] show ?thesis by simp
  next
    case True
    with Cons.prems b s f1 show ?thesis by (cases s) (auto dest: Cons.IH)
  qed
qed simp

lemma matchRule_bytes:
  assumes "matchRule E pre sb StreamInput f = (r, f')" and "fl_buffers f = []"
  shows "flow_bytes f' = flow_bytes f"
proof (cases "fakeip_domain E (find_process E (fl_meta f))")
  case (Ok m)
  obtain e f1 where s: "inbound_options_step E pre StreamInput (f\<lparr>fl_meta := set_ip_version E m\<rparr>) = (e, f1)"
    by fastforce
  have "flow_bytes f1 = flow_bytes f" using inbound_options_bytes [OF s] assms(2) by simp
  with assms(1) Ok s show ?thesis by (cases e) (auto simp: matchRule_def dest: match_rules_bytes)
qed (use assms in \<open>auto simp: matchRule_def\<close>)

text \<open>
  Reading from a wrapped connection, for a peer that sends \<open>s\<close>: \<^verbatim>\<open>bufio.CachedConn\<close> gives its buffer
  first, the deadline wrapper and the trackers pass everything on.
\<close>

locale stream_conn =
  fixes reads :: "bytes \<Rightarrow> conn \<Rightarrow> bytes"
  assumes reads_input: "reads s InputConn = s"
    and reads_deadline: "reads s (DeadlineConn c) = reads s c"
    and reads_cached: "reads s (CachedConn c b) = b @ reads s c"
    and reads_tracked: "reads s (TrackedConn t c) = reads s c"
begin

lemma reads_track: "reads s (track ts c) = reads s c"
  unfolding track_def by (induction ts arbitrary: c) (simp_all add: reads_tracked)

lemma reads_cache_buffers: "reads s (cache_buffers bs c) = concat (rev bs) @ reads s c"
  unfolding cache_buffers_def by (induction bs arbitrary: c) (simp_all add: reads_cached)

lemmas reads_simps = reads_input reads_deadline reads_track reads_cache_buffers

end

fun conn_bytes :: "bytes \<Rightarrow> conn \<Rightarrow> bytes" where
  "conn_bytes s InputConn = s"
| "conn_bytes s (DeadlineConn c) = conn_bytes s c"
| "conn_bytes s (CachedConn c b) = b @ conn_bytes s c"
| "conn_bytes s (TrackedConn t c) = conn_bytes s c"
| "conn_bytes s (CachedPacketConn c b dst) = []"
| "conn_bytes s (NATPacketConn c a b) = []"

interpretation cb: stream_conn conn_bytes
  by unfold_locales simp_all

text \<open>What is dispatched: the tracked connection with the buffers of the flow.\<close>

lemma routeConnection_dispatched:
  assumes "routeConnection E now needDeadline m es d = (Ok (Dispatched c conn m'), f, d')"
  shows "\<exists>r. matchRule E False False StreamInput (start_flow (m\<lparr>md_Network := ''tcp''\<rparr>) es []) = (Ok r, f) \<and>
    conn = track (rt_trackers E) (cache_buffers (fl_buffers f) (if needDeadline then DeadlineConn InputConn else InputConn))"
proof (cases "matchRule E False False StreamInput (start_flow (m\<lparr>md_Network := ''tcp''\<rparr>) es [])")
  case (Pair r g)
  have detour: "inbound_detour E inj N' m \<noteq> Ok (Dispatched c conn m')" for inj N'
    by (auto simp: inbound_detour_def split: option.splits)
  have reject: "reject_selected E NETWORK now i k nd d \<noteq> (Ok (Dispatched c conn m'), d')" for NETWORK i k nd
    by (auto simp: reject_selected_def split: prod.splits go_out.splits)
  from assms Pair detour reject show ?thesis
    by (auto simp: routeConnection_def Let_def split: if_splits option.splits go_out.splits prod.splits selection.splits)
qed

text \<open>
  C13: all the bytes of a stream reach the outbound, none twice: those sniffed and those still to
  come. The buffers of several sniff actions reach it in reverse order, though: the outbound reads
  exactly what the client sent if at most one sniff action has read something.
\<close>

theorem routed_stream_bytes:
  assumes "stream_conn reads"
    and "routeConnection E now needDeadline m es d = (Ok (Dispatched c conn m'), f, d')"
  shows "stream_bytes es = concat (fl_buffers f) @ stream_bytes (fl_reads f) \<and>
    reads (stream_bytes (fl_reads f)) conn = concat (rev (fl_buffers f)) @ stream_bytes (fl_reads f) \<and>
    (length (fl_buffers f) \<le> 1 \<longrightarrow> reads (stream_bytes (fl_reads f)) conn = stream_bytes es)"
proof -
  obtain r where match: "matchRule E False False StreamInput (start_flow (m\<lparr>md_Network := ''tcp''\<rparr>) es []) = (Ok r, f)"
    and conn: "conn = track (rt_trackers E) (cache_buffers (fl_buffers f) (if needDeadline then DeadlineConn InputConn else InputConn))"
    using routeConnection_dispatched [OF assms(2)] by blast
  have sent: "stream_bytes es = concat (fl_buffers f) @ stream_bytes (fl_reads f)"
    using matchRule_bytes [OF match] by (simp add: flow_bytes_def start_flow_def)
  have got: "reads (stream_bytes (fl_reads f)) conn = concat (rev (fl_buffers f)) @ stream_bytes (fl_reads f)"
    by (simp add: conn stream_conn.reads_simps [OF assms(1)])
  have "concat (rev (fl_buffers f)) = concat (fl_buffers f)" if "length (fl_buffers f) \<le> 1"
    using that by (cases "fl_buffers f") auto
  with sent got show ?thesis by simp
qed

definition sniff_with :: "string list \<Rightarrow> stream_sniffer list \<Rightarrow> packet_sniffer list \<Rightarrow> action" where
  "sniff_with names ss ps =
     ActionSniff \<lparr>sn_SnifferNames = names, sn_StreamSniffers = ss, sn_PacketSniffers = ps, sn_Timeout = 0,
       sn_OverrideDestination = False\<rparr>"

text \<open>Two sniff actions in a row, then the outbound.\<close>

definition two_sniffs :: "memory_storage router_env" where
  "two_sniffs =
     demo_router [always (sniff_with [''tls''] [TLSClientHello] []), always (sniff_with [''http''] [HTTPHost] []),
       always (ActionRoute ''out'' no_options)] None"

lemmas sniff_eval = actionSniff_def rule_sniff_def sniff_stream_def failed_before_def same_names_def
  PeekStream_def need_more_def record_sniff_def override_destination_def Skip_def demo_sniff_def

lemmas route_eval = matchRule_def matched_rule_def action_step_def type_step_def inbound_options_step_def
  set_ip_version_def apply_route_options_def apply_dial_options_def apply_override_def no_options_def
  route_action_options_def NoRouteOpts_def select_action_def select_outbound_def om_Outbound_def
  demo_action_lib_def demo_lib_def demo_sing_def demo_outbound_def always_def empty_rule_def abstract_Match_def
  reserved_destination_def ResetRuleCache_def NoInboundOptions_def NoSocksaddr_def

lemma two_sniffs_routed:
  "\<exists>m' f. routeConnection two_sniffs 0 False NoMetadata [Payload [1], Payload [2]] d =
     (Ok (Dispatched demo_outbound (TrackedConn 0 (CachedConn (CachedConn InputConn [1]) [2])) m'), f, d) \<and>
     fl_buffers f = [[1], [2]] \<and> fl_reads f = []"
  by (simp add: two_sniffs_def sniff_with_def routeConnection_def demo_router_simps route_eval sniff_eval
      cache_buffers_def track_def)

theorem routed_stream_bytes_witness:
  "\<exists>c conn m' f. routeConnection two_sniffs 0 False NoMetadata [Payload [1], Payload [2]] (\<lambda>_. []) =
     (Ok (Dispatched c conn m'), f, \<lambda>_. []) \<and> conn_bytes (stream_bytes (fl_reads f)) conn = [2, 1]"
proof -
  obtain m' f where r: "routeConnection two_sniffs 0 False NoMetadata [Payload [1], Payload [2]] (\<lambda>_. []) =
      (Ok (Dispatched demo_outbound (TrackedConn 0 (CachedConn (CachedConn InputConn [1]) [2])) m'), f, \<lambda>_. [])"
    and f: "fl_buffers f = [[1], [2]]" "fl_reads f = []"
    using two_sniffs_routed by blast
  from routed_stream_bytes [OF cb.stream_conn_axioms r] f r show ?thesis by auto
qed

text \<open>
  two sniff actions that both read from the connection swap what they read: of a client that
  sends the bytes 1 and 2, the outbound reads 2 before 1.
\<close>

theorem two_sniffs_swap_bytes:
  "\<exists>c conn m' f. routeConnection two_sniffs 0 False NoMetadata [Payload [1], Payload [2]] d =
     (Ok (Dispatched c conn m'), f, d) \<and>
     conn_bytes (stream_bytes (fl_reads f)) conn = [2, 1]"
  using two_sniffs_routed [of d] by auto

section \<open>Packets\<close>

lemma sniff_read_extends:
  "sniff_read E a ss ps es m = (fatal, err, ps', es', m') \<Longrightarrow> \<exists>new. ps' = ps @ new"
proof (induction E a ss ps es m rule: sniff_read.induct)
  case (4 E a ss ps bs dst es m)
  then show ?case by (fastforce split: prod.splits if_splits)
qed (auto split: if_splits)

lemma sniff_packets_extends:
  assumes "sniff_packets E a cached es m = (fatal, ps, es', m')"
  shows "ps = [] \<or> (\<exists>new. ps = cached @ new)"
proof -
  let ?ss = "if sn_PacketSniffers a \<noteq> [] then sn_PacketSniffers a else default_packet_sniffers"
  obtain fin e1 m1 where c: "sniff_cached E a ?ss cached None m = (fin, e1, m1)" by (metis prod_cases3)
  obtain fatal1 e2 ps1 es1 m2 where r: "sniff_read E a ?ss cached es m1 = (fatal1, e2, ps1, es1, m2)" by (metis prod_cases5)
  from assms c r sniff_read_extends [OF r] show ?thesis
    by (cases fatal1; cases fin) (auto simp: sniff_packets_def Let_def split: if_splits)
qed

text \<open>
  when a sniff action adds packets to those the router has cached already, it adds the cached
  ones again: every packet cached before is delivered twice.
\<close>

theorem sniff_duplicates_packets:
  assumes "rule_sniff E PacketInput a f = (err, f')" and "fl_packets f' \<noteq> fl_packets f"
  shows "\<exists>new. fl_packets f' = fl_packets f @ fl_packets f @ new"
proof -
  obtain fatal ps es' m' where s: "sniff_packets (rt_E E) a (fl_packets f) (fl_events f) (fl_meta f) = (fatal, ps, es', m')"
    by (metis prod_cases4)
  from assms s sniff_packets_extends [OF s] show ?thesis
    by (auto simp: rule_sniff_def actionSniff_def split: if_splits)
qed

text \<open>A packet cached by a DNS sniff, taken for an incomplete QUIC hello by the next action.\<close>

definition demo_packet_flow :: flow where
  "demo_packet_flow =
     (start_flow NoMetadata [] [PacketIn [2, 2] NoSocksaddr])\<lparr>fl_packets := [([1], NoSocksaddr)]\<rparr>"

definition quic_action :: sniff_action where
  "quic_action =
     \<lparr>sn_SnifferNames = [''quic''], sn_StreamSniffers = [], sn_PacketSniffers = [QUICClientHello],
      sn_Timeout = 0, sn_OverrideDestination = False\<rparr>"

theorem sniff_duplicates_packets_witness:
  "\<exists>new. fl_packets (snd (rule_sniff two_sniffs PacketInput quic_action demo_packet_flow)) =
     [([1], NoSocksaddr), ([1], NoSocksaddr)] @ new"
proof -
  let ?r = "rule_sniff two_sniffs PacketInput quic_action demo_packet_flow"
  have "fl_packets (snd ?r) \<noteq> fl_packets demo_packet_flow"
    by (simp add: two_sniffs_def demo_router_def quic_action_def demo_packet_flow_def start_flow_def
        NoMetadata_def NoSocksaddr_def sniff_eval sniff_packets_def peek_packet_def packet_sniffers_now_def PeekPacket_def)
  from sniff_duplicates_packets [OF surjective_pairing this] show ?thesis
    by (simp add: demo_packet_flow_def)
qed

section \<open>Fake IPs\<close>

lemma fakeip_domain_created:
  assumes "ranges_ok r4 r6" and "memory_reach r4 r6 s"
    and "fs_Create memory_ops domain isIPv6 s = (Ok a, s')" and "domain \<noteq> []"
    and "rt_fakeip E = Some s'" and "rt_ops E = memory_ops" and "sa_Addr (md_Destination m) = a"
  shows "fakeip_domain E m =
    Ok (m\<lparr>md_OriginDestination := md_Destination m,
          md_Destination := \<lparr>sa_Addr = NoAddr, sa_Port = sa_Port (md_Destination m), sa_Fqdn = domain\<rparr>,
          md_FakeIP := True\<rparr>)"
proof -
  note facts = created_address(1-3) [OF assms(1-3)]
  have "addr_IsValid a" using facts(1) by (cases a) (auto simp: prefix_Contains_def split: addr.splits)
  with facts assms(4-7) show ?thesis by (simp add: fakeip_domain_def)
qed



section \<open>Options that are lost\<close>

text \<open>
  the options of a \<^verbatim>\<open>bypass\<close> action that is carried out as a route are not applied to the
  connection, a matching rule with action \<^verbatim>\<open>direct\<close> has no effect at all, and the UDP timeout of a
  \<^verbatim>\<open>route\<close> action is dropped when the action is built.
\<close>

theorem route_options_lost:
  "matched_rule E False False input (ActionBypass (x # xs) o1) f = (Select, f) \<and>
   matched_rule E False False input (ActionDirect description) f = (Continue, f) \<and>
   (\<exists>ra. NewRuleAction A (a\<lparr>ao_Action := ''route''\<rparr>) = Ok (ActionRoute (ao_Outbound a) ra) \<and>
      md_UDPTimeout (apply_dial_options ra m) = md_UDPTimeout m)"
  by (simp add: matched_rule_def apply_route_options_def action_step_def type_step_def NewRuleAction_def
      apply_dial_options_def route_action_options_def)

end
