(* ===== verification/Router_Lifecycle.thy ===== *)
theory Router_Lifecycle
  imports Rule_Action Lifecycle
begin

text \<open>
  \<^verbatim>\<open>route/router.go\<close> and \<^verbatim>\<open>route/rule_conds.go\<close>: building the rules and rule-sets of the router and
  starting it in stages. Rules take references to the rule-sets they name when they start; when the
  router has started, rule-sets without a reference lose their rules.
\<close>

section \<open>Conditions on options\<close>

fun has_rule :: "(rule_options \<Rightarrow> bool) \<Rightarrow> 'o rule_opt \<Rightarrow> bool" where
  "has_rule cond (DefaultOpt o1 a) = cond o1"
| "has_rule cond (LogicalOpt mode rules invert a) = list_ex (\<lambda>r. has_rule cond r) rules"
| "has_rule cond (UnknownOpt t) = False"

definition hasRule :: "'o rule_opt list \<Rightarrow> (rule_options \<Rightarrow> bool) \<Rightarrow> bool" where
  "hasRule rules cond = list_ex (has_rule cond) rules"

definition isProcessRule :: "rule_options \<Rightarrow> bool" where
  "isProcessRule o1 \<longleftrightarrow>
     ro_ProcessName o1 \<noteq> [] \<or> ro_ProcessPath o1 \<noteq> [] \<or> ro_ProcessPathRegex o1 \<noteq> [] \<or>
     ro_PackageName o1 \<noteq> [] \<or> ro_User o1 \<noteq> [] \<or> ro_UserID o1 \<noteq> []"

definition isWIFIRule :: "rule_options \<Rightarrow> bool" where
  "isWIFIRule o1 \<longleftrightarrow> ro_WIFISSID o1 \<noteq> [] \<or> ro_WIFIBSSID o1 \<noteq> []"

section \<open>The router\<close>

text \<open>
  The state of the router that its life cycle changes. \<open>rr_sets\<close> is the slice \<^verbatim>\<open>ruleSets\<close> by tags,
  \<open>rr_store\<close> the map \<^verbatim>\<open>ruleSetMap\<close>.
\<close>

record router =
  rr_rules :: "action rule list"
  rr_needFindProcess :: bool
  rr_sets :: "string list"
  rr_store :: rule_store
  rr_started :: bool

definition NewRouter :: "action_opts rule_opt list \<Rightarrow> dns_action_opts rule_opt list \<Rightarrow> bool \<Rightarrow> router" where
  "NewRouter rules dnsRules findProcess =
     \<lparr>rr_rules = [],
      rr_needFindProcess = (hasRule rules isProcessRule \<or> hasRule dnsRules isProcessRule \<or> findProcess),
      rr_sets = [], rr_store = Map.empty, rr_started = False\<rparr>"

fun init_rules :: "rule_lib \<Rightarrow> action_lib \<Rightarrow> action_opts rule_opt list \<Rightarrow> router \<Rightarrow> unit go_out \<times> router" where
  "init_rules L A [] r = (Ok (), r)"
| "init_rules L A (o1 # os) r =
     (case NewRule L A False o1 of
        Err e \<Rightarrow> (Err (ErrCause e [''parse rule'']), r)
      | Panic p \<Rightarrow> (Panic p, r)
      | Ok rule \<Rightarrow> init_rules L A os (r\<lparr>rr_rules := rr_rules r @ [rule]\<rparr>))"

text \<open>Rule-sets by tag, with what \<^verbatim>\<open>NewRuleSet\<close> ends with for each.\<close>

fun init_sets :: "(string \<times> local_rule_set go_out) list \<Rightarrow> router \<Rightarrow> unit go_out \<times> router" where
  "init_sets [] r = (Ok (), r)"
| "init_sets ((tag, built) # os) r =
     (if rr_store r tag \<noteq> None then (Err (ErrNew [''duplicate rule-set tag: '', tag]), r)
      else (case built of
              Err e \<Rightarrow> (Err (ErrCause e [''parse rule-set'']), r)
            | Panic p \<Rightarrow> (Panic p, r)
            | Ok s \<Rightarrow> init_sets os (r\<lparr>rr_sets := rr_sets r @ [tag], rr_store := (rr_store r)(tag \<mapsto> s)\<rparr>)))"

definition router_Initialize ::
  "rule_lib \<Rightarrow> action_lib \<Rightarrow> action_opts rule_opt list \<Rightarrow> (string \<times> local_rule_set go_out) list \<Rightarrow> router \<Rightarrow>
   unit go_out \<times> router" where
  "router_Initialize L A rules sets r =
     (case init_rules L A rules r of
        (Ok _, r1) \<Rightarrow> init_sets sets r1 | (Err e, r1) \<Rightarrow> (Err e, r1) | (Panic p, r1) \<Rightarrow> (Panic p, r1))"

text \<open>
  The stage \<^verbatim>\<open>StartStateStart\<close> starts the rule-sets concurrently; \<open>startErr\<close> is the error of the
  group. The process searcher is set up when a rule or a rule-set looks at processes.
\<close>

definition sets_need_process :: "router \<Rightarrow> bool" where
  "sets_need_process r \<longleftrightarrow>
     list_ex (\<lambda>tag. case rr_store r tag of None \<Rightarrow> False | Some s \<Rightarrow> rm_ContainsProcessRule (lr_metadata s)) (rr_sets r)"

definition start_sets :: "go_err option \<Rightarrow> bool \<Rightarrow> router \<Rightarrow> unit go_out \<times> router" where
  "start_sets startErr androidPlatform r =
     (case (if rr_sets r = [] then None else startErr) of
        Some e \<Rightarrow> (Err e, r)
      | None \<Rightarrow>
          (Ok (), r\<lparr>rr_needFindProcess := rr_needFindProcess r \<or> sets_need_process r \<or> androidPlatform\<rparr>))"

definition post_start :: "router \<Rightarrow> unit go_out \<times> router" where
  "post_start r =
     (case rules_Start (rr_rules r) (rr_store r) of
        (Inl e, store) \<Rightarrow> (Err (ErrCause e [''initialize rule'']), r\<lparr>rr_store := store\<rparr>)
      | (Inr rules, store) \<Rightarrow> (Ok (), r\<lparr>rr_rules := rules, rr_store := store, rr_started := True\<rparr>))"

definition cleanup_set :: "string \<Rightarrow> rule_store \<Rightarrow> rule_store" where
  "cleanup_set tag store = (case store tag of None \<Rightarrow> store | Some s \<Rightarrow> store(tag \<mapsto> lr_Cleanup s))"

definition router_Start ::
  "go_err option \<Rightarrow> bool \<Rightarrow> start_stage \<Rightarrow> router \<Rightarrow> unit go_out \<times> router" where
  "router_Start startErr androidPlatform stage r =
     (case stage of
        StartStateStart \<Rightarrow> start_sets startErr androidPlatform r
      | StartStatePostStart \<Rightarrow> post_start r
      | StartStateStarted \<Rightarrow> (Ok (), r\<lparr>rr_store := fold cleanup_set (rr_sets r) (rr_store r)\<rparr>)
      | StartStateInitialize \<Rightarrow> (Ok (), r))"

definition router_Close :: "router \<Rightarrow> router" where
  "router_Close r =
     r\<lparr>rr_store := fold (\<lambda>tag store. case store tag of None \<Rightarrow> store | Some s \<Rightarrow> store(tag \<mapsto> lr_Close s))
                    (rr_sets r) (rr_store r)\<rparr>"

definition router_RuleSet :: "router \<Rightarrow> string \<Rightarrow> local_rule_set option" where
  "router_RuleSet r tag = rr_store r tag"

section \<open>Rule-sets in use keep their rules\<close>

text \<open>The slice and the map of rule-sets agree.\<close>

definition sets_agree :: "router \<Rightarrow> bool" where
  "sets_agree r \<longleftrightarrow> distinct (rr_sets r) \<and> set (rr_sets r) = dom (rr_store r)"

lemma init_rules_sets: "init_rules L A os r = (x, r') \<Longrightarrow> rr_sets r' = rr_sets r \<and> rr_store r' = rr_store r"
  by (induction L A os r rule: init_rules.induct) (auto split: go_out.splits)

lemma init_sets_agree: "init_sets os r = (x, r') \<Longrightarrow> sets_agree r \<Longrightarrow> sets_agree r'"
  by (induction os r rule: init_sets.induct)
     (auto simp: sets_agree_def domIff split: if_splits go_out.splits)

lemma Initialize_agree:
  assumes "router_Initialize L A rules sets r = (x, r')" and "sets_agree r"
  shows "sets_agree r'"
proof -
  obtain y r1 where i: "init_rules L A rules r = (y, r1)" by fastforce
  have "sets_agree r1" using init_rules_sets [OF i] assms(2) by (simp add: sets_agree_def)
  with assms(1) i show ?thesis by (cases y) (auto simp: router_Initialize_def dest: init_sets_agree)
qed

lemma fold_cleanup:
  "distinct tags \<Longrightarrow> fold cleanup_set tags store tag =
     (if tag \<in> set tags then map_option lr_Cleanup (store tag) else store tag)"
proof (induction tags arbitrary: store)
  case (Cons t tags)
  then show ?case by (auto simp: cleanup_set_def split: option.splits)
qed simp

lemma NewRouter_agree: "sets_agree (NewRouter rules dnsRules findProcess)"
  by (simp add: sets_agree_def NewRouter_def)

text \<open>
  C15: when the router has started, a rule-set has kept its rules exactly if a rule, at any depth,
  names it or something else holds a reference; the references it has are those it had plus one for
  each time a rule names it. Every rule-set a rule names exists.
\<close>

theorem started_rule_sets:
  assumes "sets_agree r" and "router_Start e1 p1 StartStatePostStart r = (Ok (), r1)"
    and "router_Start e2 p2 StartStateStarted r1 = (Ok (), r2)"
    and "rr_store r tag = Some s" and "lr_refs s \<ge> 0"
  shows "set (concat (map rule_tags (rr_rules r))) \<subseteq> dom (rr_store r) \<and>
    rr_store r2 tag = Some (s\<lparr>lr_refs := lr_refs s + int (count_list (concat (map rule_tags (rr_rules r))) tag),
      lr_rules := (if lr_refs s > 0 \<or> tag \<in> set (concat (map rule_tags (rr_rules r))) then lr_rules s else [])\<rparr>)"
proof -
  let ?tags = "concat (map rule_tags (rr_rules r))"
  obtain rules store where start: "rules_Start (rr_rules r) (rr_store r) = (Inr rules, store)"
    and r1: "r1 = r\<lparr>rr_rules := rules, rr_store := store, rr_started := True\<rparr>"
    using assms(2) by (auto simp: router_Start_def post_start_def split: prod.splits sum.splits)
  note refs = rule_Start_refs(2) [OF start]
  have tag: "tag \<in> set (rr_sets r)" using assms(1,4) by (auto simp: sets_agree_def)
  have "rr_store r2 tag = map_option lr_Cleanup (store tag)"
    using assms(1,3) tag by (auto simp: router_Start_def r1 fold_cleanup sets_agree_def)
  also have "store tag = Some (s\<lparr>lr_refs := lr_refs s + int (count_list ?tags tag)\<rparr>)"
    using refs assms(4) by (simp add: add_refs_def)
  finally have "rr_store r2 tag = Some (lr_Cleanup (s\<lparr>lr_refs := lr_refs s + int (count_list ?tags tag)\<rparr>))"
    by simp
  moreover have "lr_refs s + int (count_list ?tags tag) = 0 \<longleftrightarrow> \<not> (lr_refs s > 0 \<or> tag \<in> set ?tags)"
    using assms(5) count_list_0_iff [of ?tags tag] by linarith
  ultimately show ?thesis using refs by (auto simp: lr_Cleanup_def)
qed

definition demo_started :: router where
  "demo_started =
     \<lparr>rr_rules = [DefaultRule (push_item GItems (NewRuleSetItem [''s''] False False) (empty_rule False)) ActionHijackDNS],
      rr_needFindProcess = False, rr_sets = [''s'', ''t''],
      rr_store = [''s'' \<mapsto> (EmptyLocalRuleSet ''s'')\<lparr>lr_rules := [DefaultHeadlessRule (empty_rule False)]\<rparr>,
                  ''t'' \<mapsto> (EmptyLocalRuleSet ''t'')\<lparr>lr_rules := [DefaultHeadlessRule (empty_rule False)]\<rparr>],
      rr_started = False\<rparr>"

theorem started_rule_sets_witness:
  "\<exists>r1 r2. router_Start None False StartStatePostStart demo_started = (Ok (), r1) \<and>
     router_Start None False StartStateStarted r1 = (Ok (), r2) \<and>
     map_option lr_rules (rr_store r2 ''t'') = Some []"
proof -
  obtain r1 where r1: "router_Start None False StartStatePostStart demo_started = (Ok (), r1)"
    by (simp add: demo_started_def router_Start_def post_start_def DefaultRule_Start_def NewRuleSetItem_def empty_rule_def)
  obtain r2 where r2: "router_Start None False StartStateStarted r1 = (Ok (), r2)"
    by (simp add: router_Start_def)
  have agree: "sets_agree demo_started" by (auto simp: sets_agree_def demo_started_def dom_def)
  obtain s where s: "rr_store demo_started ''t'' = Some s" "lr_refs s \<ge> 0" "\<not> lr_refs s > 0"
    by (simp add: demo_started_def EmptyLocalRuleSet_def)
  from started_rule_sets [OF agree r1 r2 s(1,2)] s(3) have "map_option lr_rules (rr_store r2 ''t'') = Some []"
    by (simp add: demo_started_def NewRuleSetItem_def empty_rule_def)
  with r1 r2 show ?thesis by blast
qed

end
