(* ===== verification/DNS_Client.thy ===== *)
theory DNS_Client
  imports DNS_Message Lifecycle
begin

text \<open>
  \<^verbatim>\<open>dns/client.go\<close>: the caching DNS client. A call of \<^verbatim>\<open>Exchange\<close> answers from the cache or asks a
  transport, lets the caller reject the response, rewrites the times to live and stores the response.
  Calls are modelled one after the other: the lock on a question, which makes a second call for it
  wait for the first, is free at every call.
\<close>

section \<open>What the client uses\<close>

text \<open>
  A cache of \<^verbatim>\<open>freelru\<close>. Times are in nanoseconds. Reading may change the order of eviction, so it
  returns a state. \<open>lr_View\<close> is not an operation: it is the contents of the cache, entries with the
  time they expire (zero: never), and is used to state what the operations do.
\<close>

record ('k, 'v, 'c) lru =
  lr_Add :: "'k \<Rightarrow> 'v \<Rightarrow> 'c \<Rightarrow> 'c"
  lr_AddWithLifetime :: "'k \<Rightarrow> 'v \<Rightarrow> int \<Rightarrow> int \<Rightarrow> 'c \<Rightarrow> 'c"
  lr_Get :: "'k \<Rightarrow> int \<Rightarrow> 'c \<Rightarrow> 'v option \<times> 'c"
  lr_GetWithLifetime :: "'k \<Rightarrow> int \<Rightarrow> 'c \<Rightarrow> ('v \<times> int) option \<times> 'c"
  lr_Remove :: "'k \<Rightarrow> 'c \<Rightarrow> 'c"
  lr_Purge :: "'c \<Rightarrow> 'c"
  lr_View :: "'c \<Rightarrow> 'k \<Rightarrow> ('v \<times> int) option"

text \<open>
  A cache may forget at any time but invents nothing: what it returns was added under that key, with
  the expiry of that addition.
\<close>

definition lru_ok :: "('k, 'v, 'c) lru \<Rightarrow> bool" where
  "lru_ok K \<longleftrightarrow>
     (\<forall>k v c. lr_View K (lr_Add K k v c) \<subseteq>\<^sub>m (lr_View K c)(k \<mapsto> (v, 0))) \<and>
     (\<forall>k v now l c. lr_View K (lr_AddWithLifetime K k v now l c) \<subseteq>\<^sub>m (lr_View K c)(k \<mapsto> (v, now + l))) \<and>
     (\<forall>k now c. lr_View K (snd (lr_Get K k now c)) \<subseteq>\<^sub>m lr_View K c) \<and>
     (\<forall>k now c v. fst (lr_Get K k now c) = Some v \<longrightarrow> (\<exists>e. lr_View K c k = Some (v, e))) \<and>
     (\<forall>k now c. lr_View K (snd (lr_GetWithLifetime K k now c)) \<subseteq>\<^sub>m lr_View K c) \<and>
     (\<forall>k now c v e. fst (lr_GetWithLifetime K k now c) = Some (v, e) \<longrightarrow> lr_View K c k = Some (v, e)) \<and>
     (\<forall>k c. lr_View K (lr_Remove K k c) \<subseteq>\<^sub>m (lr_View K c)(k := None)) \<and>
     (\<forall>c. lr_View K (lr_Purge K c) = Map.empty)"

text \<open>A map that never evicts meets this.\<close>

definition demo_lru :: "('k, 'v, 'k \<Rightarrow> ('v \<times> int) option) lru" where
  "demo_lru =
     \<lparr>lr_Add = (\<lambda>k v c. c(k \<mapsto> (v, 0))), lr_AddWithLifetime = (\<lambda>k v now l c. c(k \<mapsto> (v, now + l))),
      lr_Get = (\<lambda>k now c. (map_option fst (c k), c)), lr_GetWithLifetime = (\<lambda>k now c. (c k, c)),
      lr_Remove = (\<lambda>k c. c(k := None)), lr_Purge = (\<lambda>c. Map.empty), lr_View = (\<lambda>c. c)\<rparr>"

lemma demo_lru_view [simp]: "lr_View demo_lru = (\<lambda>c. c)"
  by (simp add: demo_lru_def)

lemma demo_lru_ok: "lru_ok demo_lru"
  by (auto simp: lru_ok_def demo_lru_def)

text \<open>The store of rejected responses, \<^verbatim>\<open>adapter.RDRCStore\<close>: transport, name and type of the query.\<close>

record 'r rdrc_ops =
  rd_Load :: "string \<Rightarrow> string \<Rightarrow> 16 word \<Rightarrow> int \<Rightarrow> 'r \<Rightarrow> bool \<times> 'r"
  rd_SaveAsync :: "string \<Rightarrow> string \<Rightarrow> 16 word \<Rightarrow> int \<Rightarrow> 'r \<Rightarrow> 'r"

text \<open>
  The surroundings: the libraries, the constructors of the caches, the function \<^verbatim>\<open>RDRC\<close> of the
  options, the transports, and the combination of the errors of a \<^verbatim>\<open>task.Group\<close>. A transport gets a
  message at some time and returns a response or an error at a later time; its behaviour at different
  times is arbitrary.
\<close>

record ('c, 'd, 'r) client_env =
  ce_D :: dns_lib
  ce_K :: "(dns_question, dns_msg, 'c) lru"
  ce_T :: "(dns_question \<times> string, dns_msg, 'd) lru"
  ce_NewCache :: "nat \<Rightarrow> 'c"
  ce_NewTransportCache :: "nat \<Rightarrow> 'd"
  ce_R :: "'r rdrc_ops"
  ce_Exchange :: "comp \<Rightarrow> dns_msg \<Rightarrow> int \<Rightarrow> (go_err + dns_msg) \<times> int"
  ce_GroupError :: "go_err option list \<Rightarrow> go_err option"

definition client_env_ok :: "('c, 'd, 'r) client_env \<Rightarrow> bool" where
  "client_env_ok E \<longleftrightarrow>
     dns_lib_ok (ce_D E) \<and> lru_ok (ce_K E) \<and> lru_ok (ce_T E) \<and>
     (\<forall>n. lr_View (ce_K E) (ce_NewCache E n) = Map.empty) \<and>
     (\<forall>n. lr_View (ce_T E) (ce_NewTransportCache E n) = Map.empty) \<and>
     (\<forall>t m now. now \<le> snd (ce_Exchange E t m now)) \<and>
     (\<forall>es. ce_GroupError E es = None \<longleftrightarrow> (\<forall>e \<in> set es. e = None))"

section \<open>The client\<close>

record ('c, 'd, 'r) dns_client =
  cl_timeout :: int
  cl_disableCache :: bool
  cl_disableExpire :: bool
  cl_independentCache :: bool
  cl_clientSubnet :: prefix
  cl_rdrc :: "'r option"
  cl_initRDRCFunc :: "'r option option"
  cl_cache :: "'c option"
  cl_transportCache :: "'d option"

record 'r client_options =
  co_Timeout :: int
  co_DisableCache :: bool
  co_DisableExpire :: bool
  co_IndependentCache :: bool
  co_CacheCapacity :: nat
  co_ClientSubnet :: prefix
  co_RDRC :: "'r option option"

definition DNSTimeout :: int where
  "DNSTimeout = 10 * 1000000000"

definition NewClient :: "('c, 'd, 'r) client_env \<Rightarrow> 'r client_options \<Rightarrow> ('c, 'd, 'r) dns_client" where
  "NewClient E o1 =
     (let capacity = (if co_CacheCapacity o1 < 1024 then 1024 else co_CacheCapacity o1)
      in \<lparr>cl_timeout = (if co_Timeout o1 = 0 then DNSTimeout else co_Timeout o1),
          cl_disableCache = co_DisableCache o1, cl_disableExpire = co_DisableExpire o1,
          cl_independentCache = co_IndependentCache o1, cl_clientSubnet = co_ClientSubnet o1,
          cl_rdrc = None, cl_initRDRCFunc = co_RDRC o1,
          cl_cache = (if \<not> co_DisableCache o1 \<and> \<not> co_IndependentCache o1
                      then Some (ce_NewCache E capacity) else None),
          cl_transportCache = (if \<not> co_DisableCache o1 \<and> co_IndependentCache o1
                      then Some (ce_NewTransportCache E capacity) else None)\<rparr>)"

definition cl_Start :: "('c, 'd, 'r) dns_client \<Rightarrow> ('c, 'd, 'r) dns_client" where
  "cl_Start c = (case cl_initRDRCFunc c of None \<Rightarrow> c | Some r \<Rightarrow> c\<lparr>cl_rdrc := r\<rparr>)"

definition cl_ClearCache :: "('c, 'd, 'r) client_env \<Rightarrow> ('c, 'd, 'r) dns_client \<Rightarrow> ('c, 'd, 'r) dns_client" where
  "cl_ClearCache E c =
     (case cl_cache c of
        Some k \<Rightarrow> c\<lparr>cl_cache := Some (lr_Purge (ce_K E) k)\<rparr>
      | None \<Rightarrow>
          (case cl_transportCache c of
             Some k \<Rightarrow> c\<lparr>cl_transportCache := Some (lr_Purge (ce_T E) k)\<rparr>
           | None \<Rightarrow> c))"

text \<open>\<^verbatim>\<open>adapter.DNSQueryOptions\<close>; a strategy is the number of its constant.\<close>

abbreviation (input) "DomainStrategyAsIS \<equiv> (0 :: nat)"
abbreviation (input) "DomainStrategyPreferIPv4 \<equiv> (1 :: nat)"
abbreviation (input) "DomainStrategyPreferIPv6 \<equiv> (2 :: nat)"
abbreviation (input) "DomainStrategyIPv4Only \<equiv> (3 :: nat)"
abbreviation (input) "DomainStrategyIPv6Only \<equiv> (4 :: nat)"

record query_options =
  qo_Transport :: "comp option"
  qo_Strategy :: nat
  qo_LookupStrategy :: nat
  qo_DisableCache :: bool
  qo_RewriteTTL :: "32 word option"
  qo_ClientSubnet :: prefix

definition NoQueryOptions :: query_options where
  "NoQueryOptions =
     \<lparr>qo_Transport = None, qo_Strategy = 0, qo_LookupStrategy = 0, qo_DisableCache = False,
      qo_RewriteTTL = None, qo_ClientSubnet = NoPrefix\<rparr>"

section \<open>Errors\<close>

definition ErrResponseRejected :: go_err where
  "ErrResponseRejected = ErrNew [''response rejected'']"

definition ErrResponseRejectedCached :: go_err where
  "ErrResponseRejectedCached = ErrCause ErrResponseRejected [''cached'']"

text \<open>\<^verbatim>\<open>errors.As\<close> with a \<^verbatim>\<open>RcodeError\<close> and \<^verbatim>\<open>errors.Is\<close> look through the causes of an error.\<close>

fun as_rcode :: "go_err \<Rightarrow> int option" where
  "as_rcode (ErrRcode n) = Some n"
| "as_rcode (ErrCause e _) = as_rcode e"
| "as_rcode _ = None"

fun errors_Is :: "go_err \<Rightarrow> go_err \<Rightarrow> bool" where
  "errors_Is (ErrCause e m) target = (ErrCause e m = target \<or> errors_Is e target)"
| "errors_Is e target = (e = target)"

section \<open>The cache\<close>

abbreviation nil_panic :: "'a go_out" where
  "nil_panic \<equiv> Panic ''nil pointer dereference''"

definition seconds :: "int \<Rightarrow> int" where
  "seconds n = n * 1000000000"

text \<open>
  The time to live that is left of a cached response. \<^verbatim>\<open>Duration.Seconds\<close> is a floating-point number
  that is truncated; the model divides exactly, so it differs only where the quotient is rounded to the
  next second, less than a microsecond before it.
\<close>

definition left_ttl :: "int \<Rightarrow> int \<Rightarrow> int" where
  "left_ttl expireAt now = max 0 ((expireAt - now) div 1000000000)"

definition age_response :: "dns_msg \<Rightarrow> int \<Rightarrow> dns_msg" where
  "age_response response nowTTL =
     (let originTTL = min_ttl 0 (msg_records response)
      in if originTTL > 0
         then let duration = word_of_int (uint originTTL - nowTTL) :: 32 word
              in map_records (\<lambda>r. set_ttl (rr_Ttl r - duration) r) response
         else map_records (set_ttl (word_of_int nowTTL)) response)"

text \<open>
  One cache with its key, read and written by the two functions below. A result \<open>None\<close> of
  \<open>load_entry\<close> is \<^verbatim>\<open>not loaded\<close>.
\<close>

definition load_entry ::
  "('k, dns_msg, 'c) lru \<Rightarrow> bool \<Rightarrow> 'k \<Rightarrow> int \<Rightarrow> 'c \<Rightarrow> (dns_msg \<times> int) option \<times> 'c" where
  "load_entry K disableExpire k now cache =
     (if disableExpire
      then (case lr_Get K k now cache of
              (None, cache1) \<Rightarrow> (None, cache1)
            | (Some response, cache1) \<Rightarrow> (Some (response, 0), cache1))
      else (case lr_GetWithLifetime K k now cache of
              (None, cache1) \<Rightarrow> (None, cache1)
            | (Some (response, expireAt), cache1) \<Rightarrow>
                if now > expireAt then (None, lr_Remove K k cache1)
                else (Some (age_response response (left_ttl expireAt now), left_ttl expireAt now), cache1)))"

definition store_entry ::
  "('k, dns_msg, 'c) lru \<Rightarrow> bool \<Rightarrow> 'k \<Rightarrow> dns_msg \<Rightarrow> 32 word \<Rightarrow> int \<Rightarrow> 'c \<Rightarrow> 'c" where
  "store_entry K disableExpire k message timeToLive now cache =
     (if disableExpire then lr_Add K k message cache
      else lr_AddWithLifetime K k message now (seconds (uint timeToLive)) cache)"

definition loadResponse ::
  "('c, 'd, 'r) client_env \<Rightarrow> dns_question \<Rightarrow> comp option \<Rightarrow> int \<Rightarrow> ('c, 'd, 'r) dns_client \<Rightarrow>
   (dns_msg \<times> int) option go_out \<times> ('c, 'd, 'r) dns_client" where
  "loadResponse E question transport now c =
     (if \<not> cl_independentCache c
      then (case cl_cache c of
              None \<Rightarrow> (nil_panic, c)
            | Some cache \<Rightarrow>
                (case load_entry (ce_K E) (cl_disableExpire c) question now cache of
                   (r, cache1) \<Rightarrow> (Ok r, c\<lparr>cl_cache := Some cache1\<rparr>)))
      else (case (transport, cl_transportCache c) of
              (Some t, Some cache) \<Rightarrow>
                (case load_entry (ce_T E) (cl_disableExpire c) (question, c_tag t) now cache of
                   (r, cache1) \<Rightarrow> (Ok r, c\<lparr>cl_transportCache := Some cache1\<rparr>))
            | _ \<Rightarrow> (nil_panic, c)))"

definition storeCache ::
  "('c, 'd, 'r) client_env \<Rightarrow> comp \<Rightarrow> dns_question \<Rightarrow> dns_msg \<Rightarrow> 32 word \<Rightarrow> int \<Rightarrow> ('c, 'd, 'r) dns_client \<Rightarrow>
   ('c, 'd, 'r) dns_client go_out" where
  "storeCache E transport question message timeToLive now c =
     (if timeToLive = 0 then Ok c
      else if \<not> cl_independentCache c
      then (case cl_cache c of
              None \<Rightarrow> nil_panic
            | Some cache \<Rightarrow>
                Ok (c\<lparr>cl_cache := Some (store_entry (ce_K E) (cl_disableExpire c) question message timeToLive now cache)\<rparr>))
      else (case cl_transportCache c of
              None \<Rightarrow> nil_panic
            | Some cache \<Rightarrow>
                Ok (c\<lparr>cl_transportCache := Some (store_entry (ce_T E) (cl_disableExpire c)
                        (question, c_tag transport) message timeToLive now cache)\<rparr>)))"

section \<open>Exchange\<close>

definition strategy_rejects :: "16 word \<Rightarrow> nat \<Rightarrow> bool" where
  "strategy_rejects qtype strategy \<longleftrightarrow>
     qtype = TypeA \<and> strategy = DomainStrategyIPv6Only \<or> qtype = TypeAAAA \<and> strategy = DomainStrategyIPv4Only"

definition with_client_subnet :: "('c, 'd, 'r) dns_client \<Rightarrow> query_options \<Rightarrow> dns_msg \<Rightarrow> dns_msg" where
  "with_client_subnet c options message =
     (let clientSubnet = (if prefix_IsValid (qo_ClientSubnet options) then qo_ClientSubnet options else cl_clientSubnet c)
      in if prefix_IsValid clientSubnet then SetClientSubnet message clientSubnet else message)"

text \<open>\<open>None\<close> is the failing type assertion of a record with the type OPT that is none.\<close>

definition isSimpleRequest :: "query_options \<Rightarrow> dns_msg \<Rightarrow> bool option" where
  "isSimpleRequest options message =
     (if length (m_Question message) = 1 \<and> m_Ns message = []
      then (case m_Extra message of
              [] \<Rightarrow> Some (\<not> prefix_IsValid (qo_ClientSubnet options))
            | [r] \<Rightarrow>
                if rr_Rrtype r = TypeOPT \<and> hd_Class (rr_Hdr r) > 0 \<and> rr_Ttl r = 0
                then (case rr_Data r of
                        DataOPT os \<Rightarrow> Some (os = [] \<and> \<not> prefix_IsValid (qo_ClientSubnet options))
                      | _ \<Rightarrow> None)
                else Some False
            | _ \<Rightarrow> Some False)
      else Some False)"

definition filter_hints :: "dns_lib \<Rightarrow> 16 word \<Rightarrow> dns_rr \<Rightarrow> dns_rr" where
  "filter_hints D hint r =
     (case rr_Data r of
        DataHTTPS kvs \<Rightarrow> r\<lparr>rr_Data := DataHTTPS (dl_FilterKV D kvs (\<lambda>it. fst it \<noteq> hint))\<rparr>
      | _ \<Rightarrow> r)"

definition filter_https :: "dns_lib \<Rightarrow> dns_question \<Rightarrow> nat \<Rightarrow> dns_msg \<Rightarrow> dns_msg" where
  "filter_https D question strategy response =
     (if q_Qtype question = TypeHTTPS
      then if strategy = DomainStrategyIPv4Only
           then response\<lparr>m_Answer := map (filter_hints D SVCB_IPV6HINT) (m_Answer response)\<rparr>
           else if strategy = DomainStrategyIPv6Only
           then response\<lparr>m_Answer := map (filter_hints D SVCB_IPV4HINT) (m_Answer response)\<rparr>
           else response
      else response)"

definition response_ttl :: "query_options \<Rightarrow> dns_msg \<Rightarrow> 32 word" where
  "response_ttl options response =
     (let negative = (if m_Answer response = []
                      then (case extractNegativeTTL response of Some t \<Rightarrow> t | None \<Rightarrow> 0) else 0);
          ttl = (if negative = 0 then min_ttl 0 (msg_records response) else negative)
      in case qo_RewriteTTL options of Some t \<Rightarrow> t | None \<Rightarrow> ttl)"

text \<open>The identifier and the EDNS0 record of the response that is returned.\<close>

definition finish_response :: "dns_lib \<Rightarrow> dns_msg \<Rightarrow> dns_msg \<Rightarrow> dns_msg" where
  "finish_response D message response =
     (let response1 = response\<lparr>m_Id := m_Id message\<rparr>
      in case dl_IsEdns0 D response1 of
           None \<Rightarrow> response1
         | Some responseOpt \<Rightarrow>
             (case dl_IsEdns0 D message of
                None \<Rightarrow> response1\<lparr>m_Extra := dl_FilterRR D (m_Extra response1) (\<lambda>it. rr_Rrtype it \<noteq> TypeOPT)\<rparr>
              | Some requestOpt \<Rightarrow>
                  if dl_Version D requestOpt < dl_Version D responseOpt
                  then dl_SetEdns0 D
                         (response1\<lparr>m_Extra := dl_FilterRR D (m_Extra response1) (\<lambda>it. rr_Rrtype it \<noteq> TypeOPT)\<rparr>)
                         (dl_UDPSize D responseOpt) (dl_Do D responseOpt)
                  else response1))"

text \<open>
  The checker of a response may change the state \<open>s\<close> it shares with the caller. When the response is
  rejected the code returns it beside the error; every caller drops it.
\<close>

type_synonym 's checker = "addr list \<Rightarrow> 's \<Rightarrow> bool \<times> 's"

definition check_response :: "dns_lib \<Rightarrow> 's checker option \<Rightarrow> dns_msg \<Rightarrow> 's \<Rightarrow> bool \<times> 's" where
  "check_response D chk response s =
     (case chk of
        None \<Rightarrow> (True, s)
      | Some check \<Rightarrow>
          if m_Rcode response \<noteq> RcodeSuccess \<or> m_Answer response = [] then (False, s)
          else check (MessageToAddresses D response) s)"

text \<open>
  What follows the response of a transport. The cache holds a pointer to the message that is still
  edited after it was stored, under the lock of the question; what it holds is the edited message.
\<close>

definition exchange_response ::
  "('c, 'd, 'r) client_env \<Rightarrow> comp \<Rightarrow> dns_msg \<Rightarrow> dns_question \<Rightarrow> query_options \<Rightarrow> 's checker option \<Rightarrow> bool \<Rightarrow>
   dns_msg \<Rightarrow> 's \<Rightarrow> int \<Rightarrow> ('c, 'd, 'r) dns_client \<Rightarrow> dns_msg go_out \<times> 's \<times> int \<times> ('c, 'd, 'r) dns_client" where
  "exchange_response E t message question options chk disableCache response s now c =
     (let disableCache1 = (disableCache \<or> m_Rcode response \<noteq> RcodeSuccess \<and> m_Rcode response \<noteq> RcodeNameError)
      in case check_response (ce_D E) chk response s of
           (False, s1) \<Rightarrow>
             (Err ErrResponseRejected, s1, now,
              (case cl_rdrc c of
                 Some r \<Rightarrow>
                   if disableCache1 then c
                   else c\<lparr>cl_rdrc := Some (rd_SaveAsync (ce_R E) (c_tag t) (q_Name question) (q_Qtype question) now r)\<rparr>
               | None \<Rightarrow> c))
         | (True, s1) \<Rightarrow>
             let response1 = filter_https (ce_D E) question (qo_Strategy options) response;
                 timeToLive = response_ttl options response1;
                 response2 = finish_response (ce_D E) message (map_records (set_ttl timeToLive) response1)
             in if disableCache1 then (Ok response2, s1, now, c)
                else (case storeCache E t question response2 timeToLive now c of
                        Ok c1 \<Rightarrow> (Ok response2, s1, now, c1)
                      | Err e \<Rightarrow> (Err e, s1, now, c)
                      | Panic p \<Rightarrow> (Panic p, s1, now, c)))"

definition loopback_error :: "string \<Rightarrow> go_err" where
  "loopback_error tag = ErrNew [''DNS query loopback in transport['', tag, '']'']"

text \<open>Has the store of rejected responses an entry for this query?\<close>

definition load_rdrc ::
  "('c, 'd, 'r) client_env \<Rightarrow> bool \<Rightarrow> bool \<Rightarrow> comp \<Rightarrow> dns_question \<Rightarrow> int \<Rightarrow> ('c, 'd, 'r) dns_client \<Rightarrow>
   bool \<times> ('c, 'd, 'r) dns_client" where
  "load_rdrc E disableCache checked t question now c =
     (case cl_rdrc c of
        Some r \<Rightarrow>
          if \<not> disableCache \<and> checked
          then (case rd_Load (ce_R E) (c_tag t) (q_Name question) (q_Qtype question) now r of
                  (rejected, r1) \<Rightarrow> (rejected, c\<lparr>cl_rdrc := Some r1\<rparr>))
          else (False, c)
      | None \<Rightarrow> (False, c))"

text \<open>An error that carries a response code is a response.\<close>

definition transport_response :: "dns_msg \<Rightarrow> go_err + dns_msg \<Rightarrow> go_err + dns_msg" where
  "transport_response message r =
     (case r of
        Inr response \<Rightarrow> Inr response
      | Inl e \<Rightarrow> (case as_rcode e of Some n \<Rightarrow> Inr (FixedResponseStatus message n) | None \<Rightarrow> Inl e))"

definition exchange_upstream ::
  "('c, 'd, 'r) client_env \<Rightarrow> string option \<Rightarrow> comp option \<Rightarrow> dns_msg \<Rightarrow> dns_question \<Rightarrow> query_options \<Rightarrow>
   's checker option \<Rightarrow> bool \<Rightarrow> 's \<Rightarrow> int \<Rightarrow> ('c, 'd, 'r) dns_client \<Rightarrow>
   dns_msg go_out \<times> 's \<times> int \<times> ('c, 'd, 'r) dns_client" where
  "exchange_upstream E ctx transport message question options chk disableCache s now c =
     (case transport of
        None \<Rightarrow> (nil_panic, s, now, c)
      | Some t \<Rightarrow>
          if ctx = Some (c_tag t) then (Err (loopback_error (c_tag t)), s, now, c)
          else
            (case load_rdrc E disableCache (chk \<noteq> None) t question now c of
               (True, c1) \<Rightarrow> (Err ErrResponseRejectedCached, s, now, c1)
             | (False, c1) \<Rightarrow>
                 (case ce_Exchange E t message now of
                    (r, now1) \<Rightarrow>
                      (case transport_response message r of
                         Inl e \<Rightarrow> (Err e, s, now1, c1)
                       | Inr response \<Rightarrow>
                           exchange_response E t message question options chk disableCache response s now1 c1))))"

text \<open>
  \<open>ctx\<close> is the transport tag the context carries: the transport that asks, if a transport does.
\<close>

definition cl_Exchange ::
  "('c, 'd, 'r) client_env \<Rightarrow> string option \<Rightarrow> comp option \<Rightarrow> dns_msg \<Rightarrow> query_options \<Rightarrow> 's checker option \<Rightarrow>
   's \<Rightarrow> int \<Rightarrow> ('c, 'd, 'r) dns_client \<Rightarrow> dns_msg go_out \<times> 's \<times> int \<times> ('c, 'd, 'r) dns_client" where
  "cl_Exchange E ctx transport message options chk s now c =
     (case m_Question message of
        [] \<Rightarrow> (Ok (FixedResponseStatus message RcodeFormatError), s, now, c)
      | question # _ \<Rightarrow>
          if strategy_rejects (q_Qtype question) (qo_Strategy options)
          then (Ok (FixedResponseStatus message RcodeSuccess), s, now, c)
          else
            let message1 = with_client_subnet c options message
            in case isSimpleRequest options message1 of
                 None \<Rightarrow> (Panic ''interface conversion'', s, now, c)
               | Some simple \<Rightarrow>
                   let disableCache = (\<not> simple \<or> cl_disableCache c \<or> qo_DisableCache options)
                   in case (if disableCache then (Ok None, c) else loadResponse E question transport now c) of
                        (Ok (Some (response, ttl)), c1) \<Rightarrow> (Ok (response\<lparr>m_Id := m_Id message1\<rparr>), s, now, c1)
                      | (Ok None, c1) \<Rightarrow>
                          exchange_upstream E ctx transport message1 question options chk disableCache s now c1
                      | (Err e, c1) \<Rightarrow> (Err e, s, now, c1)
                      | (Panic p, c1) \<Rightarrow> (Panic p, s, now, c1))"

section \<open>Lookup\<close>

text \<open>\<^verbatim>\<open>questionCache\<close>: \<open>None\<close> is \<^verbatim>\<open>ErrNotCached\<close>.\<close>

definition response_addresses :: "dns_lib \<Rightarrow> dns_msg \<Rightarrow> addr list go_out" where
  "response_addresses D response =
     (if m_Rcode response \<noteq> RcodeSuccess then Err (ErrRcode (m_Rcode response))
      else Ok (MessageToAddresses D response))"

definition questionCache ::
  "('c, 'd, 'r) client_env \<Rightarrow> dns_question \<Rightarrow> comp option \<Rightarrow> int \<Rightarrow> ('c, 'd, 'r) dns_client \<Rightarrow>
   addr list go_out option \<times> ('c, 'd, 'r) dns_client" where
  "questionCache E question transport now c =
     (case loadResponse E question transport now c of
        (Ok None, c1) \<Rightarrow> (None, c1)
      | (Ok (Some (response, _)), c1) \<Rightarrow> (Some (response_addresses (ce_D E) response), c1)
      | (Err e, c1) \<Rightarrow> (Some (Err e), c1)
      | (Panic p, c1) \<Rightarrow> (Some (Panic p), c1))"

definition lookup_message :: "dns_question \<Rightarrow> dns_msg" where
  "lookup_message question = NoMsg\<lparr>m_RecursionDesired := True, m_Question := [question]\<rparr>"

definition lookupToExchange ::
  "('c, 'd, 'r) client_env \<Rightarrow> string option \<Rightarrow> comp option \<Rightarrow> string \<Rightarrow> 16 word \<Rightarrow> query_options \<Rightarrow> 's checker option \<Rightarrow>
   's \<Rightarrow> int \<Rightarrow> ('c, 'd, 'r) dns_client \<Rightarrow> addr list go_out \<times> 's \<times> int \<times> ('c, 'd, 'r) dns_client" where
  "lookupToExchange E ctx transport name qType options chk s now c =
     (let question = \<lparr>q_Name = name, q_Qtype = qType, q_Qclass = ClassINET\<rparr>
      in case (if cl_disableCache c \<or> qo_DisableCache options then (None, c)
               else questionCache E question transport now c) of
           (Some r, c1) \<Rightarrow> (r, s, now, c1)
         | (None, c1) \<Rightarrow>
             (case cl_Exchange E ctx transport (lookup_message question) options chk s now c1 of
                (Ok response, s1, now1, c2) \<Rightarrow> (response_addresses (ce_D E) response, s1, now1, c2)
              | (Err e, s1, now1, c2) \<Rightarrow> (Err e, s1, now1, c2)
              | (Panic p, s1, now1, c2) \<Rightarrow> (Panic p, s1, now1, c2)))"

definition sortAddresses :: "addr list \<Rightarrow> addr list \<Rightarrow> nat \<Rightarrow> addr list" where
  "sortAddresses response4 response6 strategy =
     (if strategy = DomainStrategyPreferIPv6 then response6 @ response4 else response4 @ response6)"

text \<open>
  The two queries of a group run concurrently; the model runs the IPv4 query first. An error of the
  group is returned only when neither query gave an address.
\<close>

definition out_error :: "'a go_out \<Rightarrow> go_err option" where
  "out_error r = (case r of Err e \<Rightarrow> Some e | _ \<Rightarrow> None)"

definition out_list :: "'a list go_out \<Rightarrow> 'a list" where
  "out_list r = (case r of Ok xs \<Rightarrow> xs | _ \<Rightarrow> [])"

definition lookup_both ::
  "('c, 'd, 'r) client_env \<Rightarrow> string option \<Rightarrow> comp option \<Rightarrow> string \<Rightarrow> nat \<Rightarrow> query_options \<Rightarrow> 's checker option \<Rightarrow>
   's \<Rightarrow> int \<Rightarrow> ('c, 'd, 'r) dns_client \<Rightarrow> addr list go_out \<times> 's \<times> int \<times> ('c, 'd, 'r) dns_client" where
  "lookup_both E ctx transport dnsName strategy options chk s now c =
     (case lookupToExchange E ctx transport dnsName TypeA options chk s now c of
        (r4, s1, now1, c1) \<Rightarrow>
          (case lookupToExchange E ctx transport dnsName TypeAAAA options chk s1 now1 c1 of
             (r6, s2, now2, c2) \<Rightarrow>
               (if is_panic r4 then r4 else if is_panic r6 then r6
                else if out_list r4 = [] \<and> out_list r6 = []
                then (case ce_GroupError E [out_error r4, out_error r6] of Some e \<Rightarrow> Err e | None \<Rightarrow> Ok [])
                else Ok (sortAddresses (out_list r4) (out_list r6) strategy),
                s2, now2, c2)))"

definition cl_Lookup ::
  "('c, 'd, 'r) client_env \<Rightarrow> string option \<Rightarrow> comp option \<Rightarrow> string \<Rightarrow> query_options \<Rightarrow> 's checker option \<Rightarrow>
   's \<Rightarrow> int \<Rightarrow> ('c, 'd, 'r) dns_client \<Rightarrow> addr list go_out \<times> 's \<times> int \<times> ('c, 'd, 'r) dns_client" where
  "cl_Lookup E ctx transport domain options chk s now c =
     (let dnsName = dl_Fqdn (ce_D E) (FqdnToDomain (ce_D E) domain);
          strategy = (if qo_LookupStrategy options \<noteq> DomainStrategyAsIS then qo_LookupStrategy options
                      else qo_Strategy options)
      in if strategy = DomainStrategyIPv4Only
         then lookupToExchange E ctx transport dnsName TypeA options chk s now c
         else if strategy = DomainStrategyIPv6Only
         then lookupToExchange E ctx transport dnsName TypeAAAA options chk s now c
         else lookup_both E ctx transport dnsName strategy options chk s now c)"

end
