(* ===== verification/DNS_Router.thy ===== *)
theory DNS_Router
  imports DNS_Client Rule_Action DNS_Transport_Manager
begin

text \<open>
  \<^verbatim>\<open>dns/router.go\<close>: the DNS router. A query walks over the DNS rules to a server; when a rule limits
  the addresses it accepts and the response is rejected, the walk goes on behind that rule. The
  answers of the default path fill the reverse mapping from addresses to domains.
\<close>

section \<open>The router\<close>

text \<open>
  The surroundings of the router; \<open>de_Legacy\<close> is the type assertion to \<^verbatim>\<open>LegacyDNSTransport\<close> with the
  strategy and the subnet of the transport. The counters of rejecting actions are kept by the position
  of the rule.
\<close>

record ('c, 'd, 'r, 'm) dns_env =
  de_E :: "('c, 'd, 'r) client_env"
  de_L :: rule_lib
  de_A :: action_lib
  de_N :: net_state
  de_store :: rule_store
  de_tm :: transport_manager
  de_Legacy :: "comp \<Rightarrow> (nat \<times> prefix) option"
  de_M :: "(addr, string, 'm) lru"
  de_NewMapping :: "nat \<Rightarrow> 'm"

record ('c, 'd, 'r, 'm) dns_router =
  dr_rules :: "dns_action rule list"
  dr_defaultDomainStrategy :: nat
  dr_client :: "('c, 'd, 'r) dns_client"
  dr_dnsReverseMapping :: "'m option"
  dr_drops :: "nat \<Rightarrow> int list"

definition NewDNSRouter ::
  "('c, 'd, 'r, 'm) dns_env \<Rightarrow> nat \<Rightarrow> bool \<Rightarrow> 'r client_options \<Rightarrow> ('c, 'd, 'r, 'm) dns_router" where
  "NewDNSRouter E strategy reverseMapping clientOptions =
     \<lparr>dr_rules = [], dr_defaultDomainStrategy = strategy, dr_client = NewClient (de_E E) clientOptions,
      dr_dnsReverseMapping = (if reverseMapping then Some (de_NewMapping E 1024) else None),
      dr_drops = (\<lambda>_. [])\<rparr>"

fun dns_Initialize ::
  "rule_lib \<Rightarrow> dns_action_opts rule_opt list \<Rightarrow> ('c, 'd, 'r, 'm) dns_router \<Rightarrow>
   unit go_out \<times> ('c, 'd, 'r, 'm) dns_router" where
  "dns_Initialize L [] r = (Ok (), r)"
| "dns_Initialize L (o1 # os) r =
     (case NewDNSRule L True o1 of
        Err e \<Rightarrow> (Err (ErrCause e [''parse dns rule'']), r)
      | Panic p \<Rightarrow> (Panic p, r)
      | Ok rule \<Rightarrow> dns_Initialize L os (r\<lparr>dr_rules := dr_rules r @ [rule]\<rparr>))"

text \<open>Starting a rule takes references to the rule-sets it names, in the store of the route router.\<close>

definition dns_Start ::
  "start_stage \<Rightarrow> rule_store \<Rightarrow> ('c, 'd, 'r, 'm) dns_router \<Rightarrow>
   unit go_out \<times> rule_store \<times> ('c, 'd, 'r, 'm) dns_router" where
  "dns_Start stage store r =
     (if stage = StartStateStart
      then
        (let r1 = r\<lparr>dr_client := cl_Start (dr_client r)\<rparr>
         in case rules_Start (dr_rules r1) store of
              (Inl e, store1) \<Rightarrow> (Err (ErrCause e [''initialize DNS rule'']), store1, r1)
            | (Inr rules, store1) \<Rightarrow> (Ok (), store1, r1\<lparr>dr_rules := rules\<rparr>))
      else (Ok (), store, r))"

text \<open>The platform interface of the router is never set, so only the cache of the client is cleared.\<close>

definition dns_ClearCache ::
  "('c, 'd, 'r, 'm) dns_env \<Rightarrow> ('c, 'd, 'r, 'm) dns_router \<Rightarrow> ('c, 'd, 'r, 'm) dns_router" where
  "dns_ClearCache E r = r\<lparr>dr_client := cl_ClearCache (de_E E) (dr_client r)\<rparr>"

definition LookupReverseMapping ::
  "('c, 'd, 'r, 'm) dns_env \<Rightarrow> addr \<Rightarrow> int \<Rightarrow> ('c, 'd, 'r, 'm) dns_router \<Rightarrow> string option \<times> ('c, 'd, 'r, 'm) dns_router" where
  "LookupReverseMapping E ip now r =
     (case dr_dnsReverseMapping r of
        None \<Rightarrow> (None, r)
      | Some m \<Rightarrow> (case lr_Get (de_M E) ip now m of (d, m1) \<Rightarrow> (d, r\<lparr>dr_dnsReverseMapping := Some m1\<rparr>)))"

section \<open>Matching\<close>

text \<open>The options of a \<^verbatim>\<open>route\<close> or \<^verbatim>\<open>route-options\<close> action.\<close>

definition apply_query_options :: "bool \<Rightarrow> resolve_action \<Rightarrow> query_options \<Rightarrow> query_options" where
  "apply_query_options isFakeIP a options =
     options\<lparr>qo_Strategy := (if rv_Strategy a \<noteq> DomainStrategyAsIS then rv_Strategy a else qo_Strategy options),
             qo_DisableCache := (if isFakeIP \<or> rv_DisableCache a then True else qo_DisableCache options),
             qo_RewriteTTL := (case rv_RewriteTTL a of Some t \<Rightarrow> Some t | None \<Rightarrow> qo_RewriteTTL options),
             qo_ClientSubnet := (if prefix_IsValid (rv_ClientSubnet a) then rv_ClientSubnet a else qo_ClientSubnet options)\<rparr>"

definition apply_legacy :: "(comp \<Rightarrow> (nat \<times> prefix) option) \<Rightarrow> comp \<Rightarrow> query_options \<Rightarrow> query_options" where
  "apply_legacy legacy t options =
     (case legacy t of
        None \<Rightarrow> options
      | Some (strategy, subnet) \<Rightarrow>
          options\<lparr>qo_Strategy := (if qo_Strategy options = DomainStrategyAsIS then strategy else qo_Strategy options),
                  qo_ClientSubnet := (if \<not> prefix_IsValid (qo_ClientSubnet options) then subnet else qo_ClientSubnet options)\<rparr>)"

text \<open>
  The effect of a rule that matched: the search ends with the result, or goes on with new options.
\<close>

datatype dns_match =
    MatchTransport comp query_options
  | MatchRule
  | MatchNext query_options

definition dns_action_step ::
  "('c, 'd, 'r, 'm) dns_env \<Rightarrow> bool \<Rightarrow> dns_action \<Rightarrow> query_options \<Rightarrow> dns_match" where
  "dns_action_step E allowFakeIP a options =
     (case a of
        ActionDNSRoute ra \<Rightarrow>
          (case tm_Transport (de_tm E) (rv_Server ra) of
             None \<Rightarrow> MatchNext options
           | Some transport \<Rightarrow>
               let isFakeIP = (c_type transport = DNSTypeFakeIP)
               in if isFakeIP \<and> \<not> allowFakeIP then MatchNext options
                  else MatchTransport transport
                         (apply_legacy (de_Legacy E) transport (apply_query_options isFakeIP ra options)))
      | ActionDNSRouteOptions ra \<Rightarrow> MatchNext (apply_query_options False ra options)
      | ActionDNSReject _ _ \<Rightarrow> MatchRule
      | ActionPredefined _ _ _ _ \<Rightarrow> MatchRule
      | NilDNSAction \<Rightarrow> MatchNext options)"

text \<open>
  The loop of \<^verbatim>\<open>matchDNS\<close> over the rules from position \<open>i\<close> on: the transport (nil for a rule that
  answers itself), the rule with its position (none: the default server), the options and the metadata.
\<close>

fun match_dns ::
  "('c, 'd, 'r, 'm) dns_env \<Rightarrow> bool \<Rightarrow> bool \<Rightarrow> nat \<Rightarrow> dns_action rule list \<Rightarrow> query_options \<Rightarrow> metadata \<Rightarrow>
   comp option \<times> (nat \<times> dns_action rule) option \<times> query_options \<times> metadata" where
  "match_dns E allowFakeIP isAddressQuery i [] options md = (tm_Default (de_tm E), None, options, md)"
| "match_dns E allowFakeIP isAddressQuery i (rule # rules) options md =
     (if dns_WithAddressLimit (de_L E) (de_store E) rule \<and> \<not> isAddressQuery
      then match_dns E allowFakeIP isAddressQuery (Suc i) rules options md
      else
        (case dns_Match (de_L E) (de_N E) (de_store E) rule (ResetRuleCache md) of
           (False, md1) \<Rightarrow> match_dns E allowFakeIP isAddressQuery (Suc i) rules options md1
         | (True, md1) \<Rightarrow>
             (case dns_action_step E allowFakeIP (rule_action rule) options of
                MatchTransport t options1 \<Rightarrow> (Some t, Some (i, rule), options1, md1)
              | MatchRule \<Rightarrow> (None, Some (i, rule), options, md1)
              | MatchNext options1 \<Rightarrow> match_dns E allowFakeIP isAddressQuery (Suc i) rules options1 md1)))"

text \<open>\<open>start\<close> is the first position that is looked at: 0, or the one behind the last match.\<close>

definition matchDNS where
  "matchDNS E allowFakeIP start isAddressQuery rules options md =
     match_dns E allowFakeIP isAddressQuery start (drop start rules) options md"

lemma match_dns_position:
  "match_dns E allow aq i rules options md = (t, Some (j, rule), options', md') \<Longrightarrow>
     i \<le> j \<and> j < i + length rules \<and> rules ! (j - i) = rule"
proof (induction rules arbitrary: i options md)
  case (Cons r rules)
  from Cons.prems consider
      o1 m1 where "match_dns E allow aq (Suc i) rules o1 m1 = (t, Some (j, rule), options', md')"
    | "j = i" "rule = r"
    by (auto split: if_splits prod.splits bool.splits dns_match.splits)
  then show ?case
  proof cases
    case 1
    from Cons.IH [OF 1] show ?thesis by (auto simp: nth_Cons')
  qed simp
qed simp

lemma matchDNS_position:
  assumes "matchDNS E allow start aq rules options md = (t, Some (j, rule), options', md')"
  shows "start \<le> j" and "j < length rules" and "rules ! j = rule"
proof -
  from assms have m: "match_dns E allow aq start (drop start rules) options md = (t, Some (j, rule), options', md')"
    by (simp add: matchDNS_def)
  from match_dns_position [OF m] show "start \<le> j" "j < length rules" "rules ! j = rule" by auto
qed

section \<open>Exchange\<close>

definition is_address_query :: "dns_msg \<Rightarrow> bool" where
  "is_address_query message \<longleftrightarrow>
     list_ex (\<lambda>q. q_Qtype q = TypeA \<or> q_Qtype q = TypeAAAA \<or> q_Qtype q = TypeHTTPS) (m_Question message)"

definition with_default_strategy :: "nat \<Rightarrow> query_options \<Rightarrow> query_options" where
  "with_default_strategy strategy options =
     (if qo_Strategy options = DomainStrategyAsIS then options\<lparr>qo_Strategy := strategy\<rparr> else options)"

text \<open>The check of a rule that limits addresses stores the addresses in the metadata.\<close>

definition response_check ::
  "('c, 'd, 'r, 'm) dns_env \<Rightarrow> (nat \<times> dns_action rule) option \<Rightarrow> metadata checker option" where
  "response_check E matched =
     (case matched of
        Some (i, rule) \<Rightarrow>
          if dns_WithAddressLimit (de_L E) (de_store E) rule
          then Some (\<lambda>addrs md. dns_MatchAddressLimit (de_L E) (de_N E) (de_store E) rule
                       (md\<lparr>md_DestinationAddresses := addrs\<rparr>))
          else None
      | None \<Rightarrow> None)"

definition refused_message :: "dns_msg \<Rightarrow> dns_question \<Rightarrow> dns_msg" where
  "refused_message message q =
     NoMsg\<lparr>m_Id := m_Id message, m_Rcode := RcodeRefused, m_Response := True, m_Question := [q]\<rparr>"

text \<open>The answer of a rule that answers itself; \<open>None\<close>: the query goes on to a transport.\<close>

definition exchange_by_rule ::
  "action_lib \<Rightarrow> (nat \<times> dns_action rule) option \<Rightarrow> dns_msg \<Rightarrow> dns_question \<Rightarrow> dns_msg go_out option" where
  "exchange_by_rule A matched message q =
     (case matched of
        None \<Rightarrow> None
      | Some (i, rule) \<Rightarrow>
          (case rule_action rule of
             ActionDNSReject how _ \<Rightarrow>
               if how = ''default'' then Some (Ok (refused_message message q))
               else if how = ''drop'' then Some (Err (ErrExt ''tun.ErrDrop''))
               else None
           | ActionPredefined rcode answer ns extra \<Rightarrow> Some (predefined_Response A rcode answer ns extra message)
           | _ \<Rightarrow> None))"

text \<open>The state a query changes: metadata, time, client, and the counters of rejecting rules.\<close>

record ('c, 'd, 'r) dns_query =
  dq_md :: metadata
  dq_now :: int
  dq_client :: "('c, 'd, 'r) dns_client"
  dq_drops :: "nat \<Rightarrow> int list"

text \<open>
  One turn of the loop of \<^verbatim>\<open>Exchange\<close> or \<^verbatim>\<open>Lookup\<close> from position \<open>start\<close>: the function returns at
  once, or the loop is left with a result and the transport that was asked, or it goes on behind a
  rule whose check rejected the response.
\<close>

datatype 'a turn = Return "'a go_out" | Finish "'a go_out" "comp option" | Again nat

definition rejected_error :: "go_err \<Rightarrow> bool" where
  "rejected_error e \<longleftrightarrow> errors_Is e ErrResponseRejectedCached \<or> errors_Is e ErrResponseRejected"

text \<open>What follows a query: \<open>retry\<close> says which errors of a checked query move on to the next rule.\<close>

definition turn_after ::
  "(go_err \<Rightarrow> bool) \<Rightarrow> bool \<Rightarrow> (nat \<times> dns_action rule) option \<Rightarrow> comp option \<Rightarrow> 'a go_out \<Rightarrow> 'a turn" where
  "turn_after retry checked matched transport r =
     (case (r, matched) of
        (Err e, Some (i, rule)) \<Rightarrow> if checked \<and> retry e then Again (Suc i) else Finish r transport
      | _ \<Rightarrow> Finish r transport)"

definition exchange_turn ::
  "('c, 'd, 'r, 'm) dns_env \<Rightarrow> dns_action rule list \<Rightarrow> nat \<Rightarrow> string option \<Rightarrow> dns_msg \<Rightarrow> dns_question \<Rightarrow> query_options \<Rightarrow>
   nat \<Rightarrow> ('c, 'd, 'r) dns_query \<Rightarrow> dns_msg turn \<times> ('c, 'd, 'r) dns_query" where
  "exchange_turn E rules strategy ctx message q options start s =
     (case matchDNS E True start (is_address_query message) rules options (dq_md s) of
        (transport, matched, dnsOptions, md1) \<Rightarrow>
          (case exchange_by_rule (de_A E) matched message q of
             Some r \<Rightarrow> (Return r, s\<lparr>dq_md := md1\<rparr>)
           | None \<Rightarrow>
               (case cl_Exchange (de_E E) ctx transport message (with_default_strategy strategy dnsOptions)
                       (response_check E matched) md1 (dq_now s) (dq_client s) of
                  (r, md2, now1, c1) \<Rightarrow>
                    (turn_after rejected_error (response_check E matched \<noteq> None) matched transport r,
                     s\<lparr>dq_md := md2, dq_now := now1, dq_client := c1\<rparr>))))"

text \<open>\<^verbatim>\<open>Lookup\<close>: every error of a checked query moves on, and a rule may reject or answer.\<close>

definition lookup_by_rule ::
  "('c, 'd, 'r, 'm) dns_env \<Rightarrow> (nat \<times> dns_action rule) option \<Rightarrow> ('c, 'd, 'r) dns_query \<Rightarrow>
   (addr list turn \<times> ('c, 'd, 'r) dns_query) option" where
  "lookup_by_rule E matched s =
     (case matched of
        None \<Rightarrow> None
      | Some (i, rule) \<Rightarrow>
          (case rule_action rule of
             ActionDNSReject how noDrop \<Rightarrow>
               (case RuleActionReject_Error (de_A E) how noDrop (dq_now s) (dq_drops s i) of
                  (r, counter) \<Rightarrow>
                    Some (Return (case r of
                                    Ok _ \<Rightarrow> Err (ErrNew [''rejected''])
                                  | Err e \<Rightarrow> Err (ErrCause e [''rejected''])
                                  | Panic p \<Rightarrow> Panic p),
                          s\<lparr>dq_drops := (dq_drops s)(i := counter)\<rparr>))
           | ActionPredefined rcode answer ns extra \<Rightarrow>
               Some (Finish (if rcode \<noteq> RcodeSuccess then Err (ErrRcode rcode)
                             else Ok (concat (map (\<lambda>r. case rr_Data r of
                                    DataA bs \<Rightarrow> [dl_AddrFromIP (ce_D (de_E E)) bs]
                                  | DataAAAA bs \<Rightarrow> [dl_AddrFromIP (ce_D (de_E E)) bs]
                                  | _ \<Rightarrow> []) answer))) None, s)
           | _ \<Rightarrow> None))"

definition lookup_turn ::
  "('c, 'd, 'r, 'm) dns_env \<Rightarrow> dns_action rule list \<Rightarrow> nat \<Rightarrow> string option \<Rightarrow> string \<Rightarrow> query_options \<Rightarrow>
   nat \<Rightarrow> ('c, 'd, 'r) dns_query \<Rightarrow> addr list turn \<times> ('c, 'd, 'r) dns_query" where
  "lookup_turn E rules strategy ctx domain options start s =
     (case matchDNS E False start True rules options (dq_md s) of
        (transport, matched, dnsOptions, md1) \<Rightarrow>
          (case lookup_by_rule E matched (s\<lparr>dq_md := md1\<rparr>) of
             Some r \<Rightarrow> r
           | None \<Rightarrow>
               (case cl_Lookup (de_E E) ctx transport domain (with_default_strategy strategy dnsOptions)
                       (response_check E matched) md1 (dq_now s) (dq_client s) of
                  (r, md2, now1, c1) \<Rightarrow>
                    (turn_after (\<lambda>_. True) (response_check E matched \<noteq> None) matched transport r,
                     s\<lparr>dq_md := md2, dq_now := now1, dq_client := c1\<rparr>))))"

lemma turn_after_again:
  "turn_after retry checked matched t r = Again n \<Longrightarrow> \<exists>i rule. matched = Some (i, rule) \<and> n = Suc i"
  by (auto simp: turn_after_def split: go_out.splits option.splits if_splits)

lemma exchange_turn_again:
  assumes "exchange_turn E rules strategy ctx message q options start s = (Again n, s')"
  shows "start < n" and "n \<le> length rules"
proof -
  obtain t matched o1 md1 where m: "matchDNS E True start (is_address_query message) rules options (dq_md s) = (t, matched, o1, md1)"
    using prod_cases4 by blast
  from assms obtain i rule where i: "matched = Some (i, rule)" "n = Suc i"
    by (auto simp: exchange_turn_def m split: option.splits prod.splits dest!: turn_after_again)
  from matchDNS_position [OF m [unfolded i]] i(2) show "start < n" "n \<le> length rules" by simp_all
qed

lemma lookup_turn_again:
  assumes "lookup_turn E rules strategy ctx domain options start s = (Again n, s')"
  shows "start < n" and "n \<le> length rules"
proof -
  obtain t matched o1 md1 where m: "matchDNS E False start True rules options (dq_md s) = (t, matched, o1, md1)"
    using prod_cases4 by blast
  have "lookup_by_rule E matched s1 \<noteq> Some (Again n, s2)" for s1 s2
    by (auto simp: lookup_by_rule_def split: option.splits prod.splits dns_action.splits)
  with assms obtain i rule where i: "matched = Some (i, rule)" "n = Suc i"
    by (auto simp: lookup_turn_def m split: option.splits prod.splits dest!: turn_after_again)
  from matchDNS_position [OF m [unfolded i]] i(2) show "start < n" "n \<le> length rules" by simp_all
qed

text \<open>The loops; every turn that goes on moves to a later rule.\<close>

function exchange_loop ::
  "('c, 'd, 'r, 'm) dns_env \<Rightarrow> dns_action rule list \<Rightarrow> nat \<Rightarrow> string option \<Rightarrow> dns_msg \<Rightarrow> dns_question \<Rightarrow> query_options \<Rightarrow>
   nat \<Rightarrow> ('c, 'd, 'r) dns_query \<Rightarrow> dns_msg turn \<times> ('c, 'd, 'r) dns_query" where
  "exchange_loop E rules strategy ctx message q options start s =
     (case exchange_turn E rules strategy ctx message q options start s of
        (Again n, s1) \<Rightarrow> exchange_loop E rules strategy ctx message q options n s1
      | r \<Rightarrow> r)"
  by pat_completeness auto
termination
proof (relation "measure (\<lambda>(E, rules, strategy, ctx, message, q, options, start, s). length rules - start)", goal_cases)
  case (2 E rules strategy ctx message q options start s x y n)
  then show ?case using exchange_turn_again [of E rules strategy ctx message q options start s n y] by fastforce
qed simp

function lookup_loop ::
  "('c, 'd, 'r, 'm) dns_env \<Rightarrow> dns_action rule list \<Rightarrow> nat \<Rightarrow> string option \<Rightarrow> string \<Rightarrow> query_options \<Rightarrow>
   nat \<Rightarrow> ('c, 'd, 'r) dns_query \<Rightarrow> addr list turn \<times> ('c, 'd, 'r) dns_query" where
  "lookup_loop E rules strategy ctx domain options start s =
     (case lookup_turn E rules strategy ctx domain options start s of
        (Again n, s1) \<Rightarrow> lookup_loop E rules strategy ctx domain options n s1
      | r \<Rightarrow> r)"
  by pat_completeness auto
termination
proof (relation "measure (\<lambda>(E, rules, strategy, ctx, domain, options, start, s). length rules - start)", goal_cases)
  case (2 E rules strategy ctx domain options start s x y n)
  then show ?case using lookup_turn_again [of E rules strategy ctx domain options start s n y] by fastforce
qed simp

declare exchange_loop.simps [simp del] lookup_loop.simps [simp del]

section \<open>The operations of the router\<close>

definition map_record ::
  "('c, 'd, 'r, 'm) dns_env \<Rightarrow> int \<Rightarrow> dns_rr \<Rightarrow> 'm \<Rightarrow> 'm" where
  "map_record E now r m =
     (let add = (\<lambda>bs. lr_AddWithLifetime (de_M E) (dl_AddrFromIP (ce_D (de_E E)) bs)
                       (FqdnToDomain (ce_D (de_E E)) (hd_Name (rr_Hdr r))) now (seconds (uint (rr_Ttl r))) m)
      in case rr_Data r of DataA bs \<Rightarrow> add bs | DataAAAA bs \<Rightarrow> add bs | _ \<Rightarrow> m)"

definition fill_mapping ::
  "('c, 'd, 'r, 'm) dns_env \<Rightarrow> comp option \<Rightarrow> dns_msg \<Rightarrow> int \<Rightarrow> 'm option \<Rightarrow> 'm option" where
  "fill_mapping E transport response now mapping =
     (if (case transport of None \<Rightarrow> True | Some t \<Rightarrow> c_type t \<noteq> DNSTypeFakeIP)
      then map_option (fold (map_record E now) (m_Answer response)) mapping
      else mapping)"

definition exchange_metadata :: "dns_lib \<Rightarrow> dns_question \<Rightarrow> metadata \<Rightarrow> metadata" where
  "exchange_metadata D q md =
     md\<lparr>md_Destination := NoSocksaddr, md_QueryType := q_Qtype q,
        md_IPVersion := (if q_Qtype q = TypeA then 4 else if q_Qtype q = TypeAAAA then 6 else md_IPVersion md),
        md_Domain := FqdnToDomain D (q_Name q)\<rparr>"

definition format_error :: "dns_msg \<Rightarrow> dns_msg" where
  "format_error message =
     NoMsg\<lparr>m_Id := m_Id message, m_Response := True, m_Rcode := RcodeFormatError, m_Question := m_Question message\<rparr>"

definition start_query :: "metadata \<Rightarrow> int \<Rightarrow> ('c, 'd, 'r, 'm) dns_router \<Rightarrow> ('c, 'd, 'r) dns_query" where
  "start_query md now r = \<lparr>dq_md = md, dq_now = now, dq_client = dr_client r, dq_drops = dr_drops r\<rparr>"

definition end_query :: "('c, 'd, 'r) dns_query \<Rightarrow> ('c, 'd, 'r, 'm) dns_router \<Rightarrow> ('c, 'd, 'r, 'm) dns_router" where
  "end_query s r = r\<lparr>dr_client := dq_client s, dr_drops := dq_drops s\<rparr>"

text \<open>\<open>md\<close> is the metadata of the caller's context, the zero value if there is none; it is copied.\<close>

definition dns_Exchange ::
  "('c, 'd, 'r, 'm) dns_env \<Rightarrow> string option \<Rightarrow> dns_msg \<Rightarrow> query_options \<Rightarrow> metadata \<Rightarrow> int \<Rightarrow> ('c, 'd, 'r, 'm) dns_router \<Rightarrow>
   dns_msg go_out \<times> int \<times> ('c, 'd, 'r, 'm) dns_router" where
  "dns_Exchange E ctx message options md now r =
     (case m_Question message of
        [q] \<Rightarrow>
          (let md1 = exchange_metadata (ce_D (de_E E)) q md
           in case (case qo_Transport options of
                      Some t \<Rightarrow>
                        (case cl_Exchange (de_E E) ctx (Some t) message
                                (with_default_strategy (dr_defaultDomainStrategy r) (apply_legacy (de_Legacy E) t options))
                                None md1 now (dr_client r) of
                           (res, md2, now1, c1) \<Rightarrow>
                             (Finish res (Some t), (start_query md1 now r)\<lparr>dq_md := md2, dq_now := now1, dq_client := c1\<rparr>))
                    | None \<Rightarrow>
                        exchange_loop E (dr_rules r) (dr_defaultDomainStrategy r) ctx message q options 0
                          (start_query md1 now r)) of
                (Finish (Ok response) transport, s) \<Rightarrow>
                  (Ok response, dq_now s,
                   (end_query s r)\<lparr>dr_dnsReverseMapping :=
                      fill_mapping E transport response (dq_now s) (dr_dnsReverseMapping r)\<rparr>)
              | (Finish res transport, s) \<Rightarrow> (res, dq_now s, end_query s r)
              | (Return res, s) \<Rightarrow> (res, dq_now s, end_query s r)
              | (Again n, s) \<Rightarrow> (nil_panic, dq_now s, end_query s r))
      | _ \<Rightarrow> (Ok (format_error message), now, r))"

definition printResult :: "string \<Rightarrow> addr list go_out \<Rightarrow> addr list go_out" where
  "printResult domain res =
     (case res of
        Ok addrs \<Rightarrow>
          if addrs = [] then Err (ErrCause (ErrNew [''empty result'']) [''lookup '', domain]) else Ok addrs
      | Err e \<Rightarrow> Err (ErrCause e [''lookup '', domain])
      | Panic p \<Rightarrow> Panic p)"

text \<open>
  With a transport given, \<^verbatim>\<open>Lookup\<close> replaces a missing strategy by the default of the router before it
  looks at the strategy of a legacy transport.
\<close>

definition lookup_options :: "('c, 'd, 'r, 'm) dns_env \<Rightarrow> nat \<Rightarrow> comp \<Rightarrow> query_options \<Rightarrow> query_options" where
  "lookup_options E strategy t options =
     with_default_strategy strategy
       (case de_Legacy E t of
          None \<Rightarrow> options
        | Some (_, subnet) \<Rightarrow>
            (with_default_strategy strategy options)\<lparr>qo_ClientSubnet :=
               (if \<not> prefix_IsValid (qo_ClientSubnet options) then subnet else qo_ClientSubnet options)\<rparr>)"

definition dns_Lookup ::
  "('c, 'd, 'r, 'm) dns_env \<Rightarrow> string option \<Rightarrow> string \<Rightarrow> query_options \<Rightarrow> metadata \<Rightarrow> int \<Rightarrow> ('c, 'd, 'r, 'm) dns_router \<Rightarrow>
   addr list go_out \<times> int \<times> ('c, 'd, 'r, 'm) dns_router" where
  "dns_Lookup E ctx domain options md now r =
     (let md1 = md\<lparr>md_Destination := NoSocksaddr, md_Domain := FqdnToDomain (ce_D (de_E E)) domain\<rparr>
      in case (case qo_Transport options of
                 Some t \<Rightarrow>
                   (case cl_Lookup (de_E E) ctx (Some t) domain
                           (lookup_options E (dr_defaultDomainStrategy r) t options) None md1 now (dr_client r) of
                      (res, md2, now1, c1) \<Rightarrow>
                        (Finish res (Some t), (start_query md1 now r)\<lparr>dq_md := md2, dq_now := now1, dq_client := c1\<rparr>))
               | None \<Rightarrow>
                   lookup_loop E (dr_rules r) (dr_defaultDomainStrategy r) ctx domain options 0 (start_query md1 now r)) of
           (Finish res transport, s) \<Rightarrow> (printResult domain res, dq_now s, end_query s r)
         | (Return res, s) \<Rightarrow> (res, dq_now s, end_query s r)
         | (Again n, s) \<Rightarrow> (nil_panic, dq_now s, end_query s r))"

text \<open>The loops do not end with \<open>Again\<close>: the last branches above are never taken.\<close>

lemma exchange_loop_ends: "fst (exchange_loop E rules strategy ctx message q options start s) \<noteq> Again n"
  by (induction E rules strategy ctx message q options start s rule: exchange_loop.induct)
    (auto simp: exchange_loop.simps split: prod.splits turn.splits)

lemma lookup_loop_ends: "fst (lookup_loop E rules strategy ctx domain options start s) \<noteq> Again n"
  by (induction E rules strategy ctx domain options start s rule: lookup_loop.induct)
    (auto simp: lookup_loop.simps split: prod.splits turn.splits)

end
