(* ===== verification/DNS_Client_Theorems.thy ===== *)
theory DNS_Client_Theorems
  imports DNS_Client
begin

text \<open>
  The DNS client over its whole life: a run is a sequence of constructions, starts, exchanges, cache
  reads and purges at non-decreasing times, with the responses it returned so far.
\<close>

section \<open>Runs\<close>

text \<open>An entry of the history: question, tag of the transport, response, time.\<close>

type_synonym history = "(dns_question \<times> string \<times> dns_msg \<times> int) list"

definition add_history :: "dns_question list \<Rightarrow> string \<Rightarrow> dns_msg go_out \<Rightarrow> int \<Rightarrow> history \<Rightarrow> history" where
  "add_history qs tag r now h =
     (case (r, qs) of (Ok response, q # _) \<Rightarrow> (q, tag, response, now) # h | _ \<Rightarrow> h)"

inductive client_run ::
  "('c, 'd, 'r) client_env \<Rightarrow> 'r client_options \<Rightarrow> 's \<Rightarrow> ('c, 'd, 'r) dns_client \<Rightarrow> int \<Rightarrow> history \<Rightarrow> bool"
  for E :: "('c, 'd, 'r) client_env" and o1 :: "'r client_options" where
  run_new: "client_run E o1 s (NewClient E o1) now []"
| run_start: "client_run E o1 s c now h \<Longrightarrow> client_run E o1 s (cl_Start c) now h"
| run_wait: "client_run E o1 s c now h \<Longrightarrow> now \<le> now' \<Longrightarrow> client_run E o1 s' c now' h"
| run_clear: "client_run E o1 s c now h \<Longrightarrow> client_run E o1 s (cl_ClearCache E c) now h"
| run_load: "client_run E o1 s c now h \<Longrightarrow> loadResponse E q t now c = (r, c') \<Longrightarrow> client_run E o1 s c' now h"
| run_exchange: "client_run E o1 s c now h \<Longrightarrow> cl_Exchange E ctx (Some t) m options chk s now c = (r, s', now', c') \<Longrightarrow>
     client_run E o1 s' c' now' (add_history (m_Question m) (c_tag t) r now' h)"

text \<open>
  What a run keeps: the configuration of the client, the existence of the cache it uses, and that
  every cached entry is a response of the history with one time to live, which is its lifetime; only
  an OPT record the client added itself may carry another.
\<close>

definition entry_from :: "32 word \<Rightarrow> int \<Rightarrow> dns_msg \<Rightarrow> int \<Rightarrow> bool" where
  "entry_from ttl stored m expireAt \<longleftrightarrow>
     0 < ttl \<and> expireAt = stored + seconds (uint ttl) \<and>
     (\<forall>r \<in> set (msg_records m). rr_Ttl r = ttl \<or> (\<exists>sz dob. r = opt_record sz dob))"

definition cache_from :: "history \<Rightarrow> int \<Rightarrow> ('k \<Rightarrow> dns_question) \<Rightarrow> ('k \<Rightarrow> string \<Rightarrow> bool) \<Rightarrow> ('k \<Rightarrow> (dns_msg \<times> int) option) \<Rightarrow> bool" where
  "cache_from h now question via view \<longleftrightarrow>
     (\<forall>k m e. view k = Some (m, e) \<longrightarrow>
        (\<exists>tag ttl stored. (question k, tag, m, stored) \<in> set h \<and> via k tag \<and> stored \<le> now \<and> entry_from ttl stored m e))"

definition client_inv ::
  "('c, 'd, 'r) client_env \<Rightarrow> 'r client_options \<Rightarrow> ('c, 'd, 'r) dns_client \<Rightarrow> int \<Rightarrow> history \<Rightarrow> bool" where
  "client_inv E o1 c now h \<longleftrightarrow>
     cl_disableCache c = co_DisableCache o1 \<and> cl_disableExpire c = co_DisableExpire o1 \<and>
     cl_independentCache c = co_IndependentCache o1 \<and> cl_clientSubnet c = co_ClientSubnet o1 \<and>
     (cl_cache c \<noteq> None \<longleftrightarrow> \<not> co_DisableCache o1 \<and> \<not> co_IndependentCache o1) \<and>
     (cl_transportCache c \<noteq> None \<longleftrightarrow> \<not> co_DisableCache o1 \<and> co_IndependentCache o1) \<and>
     (\<not> co_DisableExpire o1 \<longrightarrow>
        (\<forall>k. cl_cache c = Some k \<longrightarrow> cache_from h now (\<lambda>q. q) (\<lambda>_ _. True) (lr_View (ce_K E) k)) \<and>
        (\<forall>k. cl_transportCache c = Some k \<longrightarrow> cache_from h now fst (\<lambda>k tag. snd k = tag) (lr_View (ce_T E) k)))"

section \<open>The caches\<close>

lemma lru_laws:
  assumes "lru_ok K"
  shows "lr_View K (lr_Add K k v c) \<subseteq>\<^sub>m (lr_View K c)(k \<mapsto> (v, 0))"
    and "lr_View K (lr_AddWithLifetime K k v now l c) \<subseteq>\<^sub>m (lr_View K c)(k \<mapsto> (v, now + l))"
    and "lr_View K (snd (lr_Get K k now c)) \<subseteq>\<^sub>m lr_View K c"
    and "lr_View K (snd (lr_GetWithLifetime K k now c)) \<subseteq>\<^sub>m lr_View K c"
    and "fst (lr_GetWithLifetime K k now c) = Some (v, e) \<Longrightarrow> lr_View K c k = Some (v, e)"
    and "lr_View K (lr_Remove K k c) \<subseteq>\<^sub>m (lr_View K c)(k := None)"
    and "lr_View K (lr_Purge K c) = Map.empty"
  using assms unfolding lru_ok_def by simp_all

lemma load_entry_view: "lru_ok K \<Longrightarrow> lr_View K (snd (load_entry K d k now c)) \<subseteq>\<^sub>m lr_View K c"
proof -
  assume ok: "lru_ok K"
  have "f(k := None) \<subseteq>\<^sub>m f" for f :: "'a \<Rightarrow> (dns_msg \<times> int) option" by (auto simp: map_le_def)
  then have "lr_View K (lr_Remove K k (snd (lr_GetWithLifetime K k now c))) \<subseteq>\<^sub>m lr_View K c"
    using lru_laws(6) [OF ok] lru_laws(4) [OF ok] by (metis map_le_trans)
  then show ?thesis
    using lru_laws(3) [OF ok, of k now c] lru_laws(4) [OF ok, of k now c]
    by (auto simp: load_entry_def split: prod.splits option.splits)
qed

lemma cache_from_le: "cache_from h now qf via w \<Longrightarrow> v \<subseteq>\<^sub>m w \<Longrightarrow> cache_from h now qf via v"
  unfolding cache_from_def map_le_def by (metis domI)

lemma cache_from_mono:
  "cache_from h now qf via v \<Longrightarrow> set h \<subseteq> set h' \<Longrightarrow> now \<le> now' \<Longrightarrow> cache_from h' now' qf via v"
  unfolding cache_from_def by (meson order_trans subsetD)

lemma cache_from_upd:
  "cache_from h now qf via v \<Longrightarrow> entry_from ttl now m e \<Longrightarrow> (qf k, tag, m, now) \<in> set h \<Longrightarrow> via k tag \<Longrightarrow>
   cache_from h now qf via (v(k \<mapsto> (m, e)))"
  unfolding cache_from_def by (metis fun_upd_apply option.inject order_refl prod.inject)

lemma cache_from_empty: "cache_from h now qf via Map.empty"
  by (simp add: cache_from_def)

section \<open>Ageing a cached response\<close>

text \<open>
  An entry whose records all carry its lifetime, read before it expires: every record carries the
  number of whole seconds that are left.
\<close>

lemma age_uniform:
  assumes "0 < ttl" and "\<And>r. r \<in> set (msg_records m) \<Longrightarrow> rr_Ttl r = ttl"
  shows "age_response m n = map_records (set_ttl (word_of_int n)) m"
proof (cases "msg_records m")
  case Nil
  then show ?thesis by (auto simp: age_response_def map_records_def msg_records_def)
next
  case (Cons r rs)
  then have "min_ttl 0 (msg_records m) = ttl"
    using assms(2) by (intro min_ttl_uniform0) auto
  moreover have "ttl - word_of_int (uint ttl - n) = word_of_int n" by simp
  ultimately show ?thesis
    using assms by (auto simp: age_response_def Let_def intro!: map_records_cong)
qed

lemma left_ttl_bounds:
  assumes "stored \<le> now" and "now \<le> stored + seconds L"
  shows "0 \<le> left_ttl (stored + seconds L) now" and "left_ttl (stored + seconds L) now \<le> L"
    and "seconds (left_ttl (stored + seconds L) now) \<le> stored + seconds L - now"
  using assms unfolding left_ttl_def seconds_def by linarith+

section \<open>Every operation keeps the invariant\<close>

lemma client_inv_config:
  "client_inv E o1 c now h \<Longrightarrow> client_inv E o1 (c\<lparr>cl_rdrc := r\<rparr>) now h"
  by (simp add: client_inv_def)

lemma client_inv_mono:
  "client_inv E o1 c now h \<Longrightarrow> set h \<subseteq> set h' \<Longrightarrow> now \<le> now' \<Longrightarrow> client_inv E o1 c now' h'"
  unfolding client_inv_def by (meson cache_from_mono)

lemma client_inv_new: "client_env_ok E \<Longrightarrow> client_inv E o1 (NewClient E o1) now []"
  by (simp add: client_inv_def NewClient_def Let_def client_env_ok_def cache_from_empty)

lemma client_inv_clear:
  "client_env_ok E \<Longrightarrow> client_inv E o1 c now h \<Longrightarrow> client_inv E o1 (cl_ClearCache E c) now h"
  by (auto simp: client_inv_def cl_ClearCache_def client_env_ok_def cache_from_empty lru_laws(7) split: option.splits)

lemma client_inv_load:
  assumes "client_env_ok E" and "client_inv E o1 c now h" and "loadResponse E q t now' c = (r, c')"
  shows "client_inv E o1 c' now h"
proof -
  have K: "lru_ok (ce_K E)" and T: "lru_ok (ce_T E)" using assms(1) by (simp_all add: client_env_ok_def)
  have "cache_from h now (\<lambda>q. q) (\<lambda>_ _. True) (lr_View (ce_K E) (snd (load_entry (ce_K E) d k now' x)))"
    if "cache_from h now (\<lambda>q. q) (\<lambda>_ _. True) (lr_View (ce_K E) x)" for d k x
    by (rule cache_from_le [OF that load_entry_view [OF K]])
  moreover have "cache_from h now fst (\<lambda>k tag. snd k = tag) (lr_View (ce_T E) (snd (load_entry (ce_T E) d k now' x)))"
    if "cache_from h now fst (\<lambda>k tag. snd k = tag) (lr_View (ce_T E) x)" for d k x
    by (rule cache_from_le [OF that load_entry_view [OF T]])
  ultimately show ?thesis
    using assms(2,3) unfolding client_inv_def loadResponse_def
    by (auto split: if_splits option.splits prod.splits simp: prod_eq_iff)
qed

lemma finish_response_records:
  assumes "dns_lib_ok D" and "r \<in> set (msg_records (finish_response D message m))"
  shows "r \<in> set (msg_records m) \<or> (\<exists>sz dob. r = opt_record sz dob)"
  using assms(2)
  by (auto simp: finish_response_def Let_def msg_records_def dns_lib_simps [OF assms(1)]
      split: option.splits if_splits)

lemma finish_response_entry:
  assumes "dns_lib_ok D" and "ttl > 0"
  shows "entry_from ttl now (finish_response D message (map_records (set_ttl ttl) m)) (now + seconds (uint ttl))"
  using finish_response_records [OF assms(1)] assms(2)
  by (fastforce simp: entry_from_def)

lemma subset_add_history: "set h \<subseteq> set (add_history qs tag r now h)"
  by (auto simp: add_history_def split: go_out.splits list.splits)

lemma client_inv_store:
  assumes "client_env_ok E" and "client_inv E o1 c now h" and "storeCache E t q m ttl now c = Ok c'"
    and "ttl > 0 \<Longrightarrow> entry_from ttl now m (now + seconds (uint ttl))" and "(q, c_tag t, m, now) \<in> set h"
  shows "client_inv E o1 c' now h"
proof -
  have K: "lru_ok (ce_K E)" and T: "lru_ok (ce_T E)" using assms(1) by (simp_all add: client_env_ok_def)
  show ?thesis
  proof (cases "ttl = 0")
    case True
    then show ?thesis using assms(2,3) by (simp add: storeCache_def)
  next
    case False
    then have e: "entry_from ttl now m (now + seconds (uint ttl))" using assms(4) word_neq_0_conv by blast
    have "cache_from h now (\<lambda>q. q) (\<lambda>_ _. True) (lr_View (ce_K E) (store_entry (ce_K E) False q m ttl now x))"
      if "cache_from h now (\<lambda>q. q) (\<lambda>_ _. True) (lr_View (ce_K E) x)" for x
      using cache_from_le [OF cache_from_upd [OF that e _ TrueI] lru_laws(2) [OF K]] assms(5)
      by (simp add: store_entry_def)
    moreover have "cache_from h now fst (\<lambda>k tag. snd k = tag)
        (lr_View (ce_T E) (store_entry (ce_T E) False (q, c_tag t) m ttl now x))"
      if "cache_from h now fst (\<lambda>k tag. snd k = tag) (lr_View (ce_T E) x)" for x
      using cache_from_le [OF cache_from_upd [OF that e, of "(q, c_tag t)" "c_tag t"] lru_laws(2) [OF T]] assms(5)
      by (simp add: store_entry_def)
    ultimately show ?thesis
      using assms(2,3) False unfolding client_inv_def storeCache_def
      by (auto split: if_splits option.splits)
  qed
qed

lemma client_inv_response:
  assumes "client_env_ok E" and "client_inv E o1 c now h"
    and "exchange_response E t message q options chk d response s now c = (r, s', now', c')"
  shows "now' = now \<and> client_inv E o1 c' now (add_history (q # qs) (c_tag t) r now h)"
proof -
  have D: "dns_lib_ok (ce_D E)" using assms(1) by (simp add: client_env_ok_def)
  have keep: "client_inv E o1 c now (add_history (q # qs) (c_tag t) r now h)"
    by (rule client_inv_mono [OF assms(2) subset_add_history order_refl])
  have "client_inv E o1 c1 now ((q, c_tag t, response2, now) # h)"
    if "storeCache E t q response2 ttl now c = Ok c1"
      and "response2 = finish_response (ce_D E) message (map_records (set_ttl ttl) m)" for c1 ttl response2 m
    using client_inv_store [OF assms(1) client_inv_mono [OF assms(2)] that(1)] finish_response_entry [OF D] that(2)
    by (simp add: subset_insertI)
  then show ?thesis
    using assms(3) keep
    by (auto simp: exchange_response_def Let_def add_history_def client_inv_config
        split: prod.splits bool.splits option.splits if_splits go_out.splits)
qed

lemma client_inv_rdrc:
  "client_inv E o1 c now h \<Longrightarrow> load_rdrc E d chk t q now' c = (b, c') \<Longrightarrow> client_inv E o1 c' now h"
  by (auto simp: load_rdrc_def client_inv_config split: option.splits if_splits prod.splits)

lemma client_inv_upstream:
  assumes "client_env_ok E" and "client_inv E o1 c now h"
    and "exchange_upstream E ctx (Some t) message q options chk d s now c = (r, s', now', c')"
  shows "now \<le> now' \<and> client_inv E o1 c' now' (add_history (q # qs) (c_tag t) r now' h)"
proof -
  obtain rejected c1 where rd: "load_rdrc E d (chk \<noteq> None) t q now c = (rejected, c1)" by fastforce
  obtain u now1 where ex: "ce_Exchange E t message now = (u, now1)" by fastforce
  have time: "now \<le> now1" using assms(1) ex unfolding client_env_ok_def by (metis snd_conv)
  have c1: "client_inv E o1 c1 now h" by (rule client_inv_rdrc [OF assms(2) rd])
  have resp: "now2 = now1 \<and> client_inv E o1 c2 now1 (add_history (q # qs) (c_tag t) r2 now1 h)"
    if "exchange_response E t message q options chk d response s now1 c1 = (r2, s2, now2, c2)" for response r2 s2 now2 c2
    by (rule client_inv_response [OF assms(1) client_inv_mono [OF c1 order_refl time] that])
  have keep: "client_inv E o1 c1 now1 h" by (rule client_inv_mono [OF c1 order_refl time])
  have err: "add_history qs' tag (Err e) n h = h" for qs' tag e n by (simp add: add_history_def)
  show ?thesis
    using assms(3) [unfolded exchange_upstream_def option.case rd ex prod.case] assms(2) c1 keep time
    by (auto simp: err split: if_splits bool.splits sum.splits dest!: resp)
qed

lemma client_inv_exchange:
  assumes "client_env_ok E" and "client_inv E o1 c now h"
    and "cl_Exchange E ctx (Some t) message options chk s now c = (r, s', now', c')"
  shows "now \<le> now' \<and> client_inv E o1 c' now' (add_history (m_Question message) (c_tag t) r now' h)"
proof (cases "m_Question message")
  case Nil
  then show ?thesis using assms(2,3) by (auto simp: cl_Exchange_def add_history_def)
next
  case (Cons q qs)
  have keep: "client_inv E o1 c now (add_history (q # qs) (c_tag t) x now h)" for x
    by (rule client_inv_mono [OF assms(2) subset_add_history order_refl])
  have load: "client_inv E o1 c1 now (add_history (q # qs) (c_tag t) x now h)"
    if "loadResponse E q (Some t) now c = (y, c1)" for x y c1
    by (rule client_inv_mono [OF client_inv_load [OF assms(1,2) that] subset_add_history order_refl])
  note up = client_inv_upstream [OF assms(1), where qs = qs]
  show ?thesis
    using assms(3) keep load
    by (auto simp: cl_Exchange_def Cons Let_def split: if_splits option.splits prod.splits go_out.splits
        dest: up [OF assms(2)] up [OF client_inv_load [OF assms(1,2)]])
qed

text \<open>The invariant holds in every run.\<close>

lemma client_run_inv:
  assumes "client_run E o1 s c now h" and "client_env_ok E"
  shows "client_inv E o1 c now h"
  using assms(1)
proof induction
  case (run_new s now)
  then show ?case by (rule client_inv_new [OF assms(2)])
next
  case (run_start s c now h)
  then show ?case by (auto simp: cl_Start_def client_inv_config split: option.splits)
next
  case (run_wait s c now h now' s')
  then show ?case by (blast intro: client_inv_mono)
next
  case (run_clear s c now h)
  then show ?case by (blast intro: client_inv_clear [OF assms(2)])
next
  case (run_load s c now h q t r c')
  then show ?case by (blast intro: client_inv_load [OF assms(2)])
next
  case (run_exchange s c now h ctx t m options chk r s' now' c')
  then show ?case by (blast dest: client_inv_exchange [OF assms(2)])
qed

section \<open>What the cache returns\<close>

lemma load_entry_some:
  assumes "lru_ok K" and "load_entry K False k now c = (Some (m, ttl), c')"
  obtains response e where "lr_View K c k = Some (response, e)" "now \<le> e" "ttl = left_ttl e now"
    "m = age_response response ttl"
proof -
  obtain r c1 where g: "lr_GetWithLifetime K k now c = (r, c1)" by fastforce
  from assms(2) obtain response e where r: "r = Some (response, e)" and "now \<le> e" "ttl = left_ttl e now"
      "m = age_response response ttl"
    by (auto simp: load_entry_def g split: option.splits if_splits)
  moreover have "lr_View K c k = Some (response, e)" by (rule lru_laws(5) [OF assms(1), of k now]) (use g r in simp)
  ultimately show thesis using that by blast
qed

lemma loadResponse_view:
  assumes "client_env_ok E" and "client_inv E o1 c now h" and "\<not> co_DisableExpire o1"
    and "loadResponse E q t now c = (Ok (Some (m, ttl)), c')"
  obtains response e tag L stored where "now \<le> e" "ttl = left_ttl e now" "m = age_response response ttl"
    "(q, tag, response, stored) \<in> set h" "stored \<le> now" "entry_from L stored response e"
    "co_IndependentCache o1 \<Longrightarrow> map_option c_tag t = Some tag"
proof (cases "co_IndependentCache o1")
  case False
  with assms(2,3,4) obtain cache cache1 where "cl_cache c = Some cache"
      and "load_entry (ce_K E) False q now cache = (Some (m, ttl), cache1)"
    by (auto simp: client_inv_def loadResponse_def split: option.splits prod.splits)
  with load_entry_some assms(1) obtain response e where "lr_View (ce_K E) cache q = Some (response, e)"
      "now \<le> e" "ttl = left_ttl e now" "m = age_response response ttl"
    unfolding client_env_ok_def by metis
  moreover have "cache_from h now (\<lambda>q. q) (\<lambda>_ _. True) (lr_View (ce_K E) cache)"
    using assms(2,3) \<open>cl_cache c = Some cache\<close> by (simp add: client_inv_def)
  ultimately show thesis using that False unfolding cache_from_def by metis
next
  case True
  with assms(2,3,4) obtain cache cache1 t1 where "cl_transportCache c = Some cache" and t: "t = Some t1"
      and "load_entry (ce_T E) False (q, c_tag t1) now cache = (Some (m, ttl), cache1)"
    by (auto simp: client_inv_def loadResponse_def split: option.splits prod.splits)
  with load_entry_some assms(1) obtain response e where "lr_View (ce_T E) cache (q, c_tag t1) = Some (response, e)"
      "now \<le> e" "ttl = left_ttl e now" "m = age_response response ttl"
    unfolding client_env_ok_def by metis
  moreover have "cache_from h now fst (\<lambda>k tag. snd k = tag) (lr_View (ce_T E) cache)"
    using assms(2,3) \<open>cl_transportCache c = Some cache\<close> by (simp add: client_inv_def)
  ultimately show thesis using that t unfolding cache_from_def
    by (metis fst_conv option.map(2) snd_conv)
qed

lemma age_response_types:
  "map rr_Rrtype (msg_records (age_response m n)) = map rr_Rrtype (msg_records m)"
  by (simp add: age_response_def Let_def comp_def)


text \<open>
  A client for witnesses: its transports answer every message after a second with a CNAME record and,
  if the message has an OPT record, an OPT record; the record lives \<open>ttl\<close> seconds.
\<close>

definition demo_answer :: "32 word \<Rightarrow> dns_msg \<Rightarrow> dns_msg" where
  "demo_answer ttl m =
     (case m_Question m of
        [] \<Rightarrow> NoMsg
      | q # _ \<Rightarrow> (FixedResponseCNAME (m_Id m) q ''b.'' ttl)\<lparr>m_Extra := m_Extra m\<rparr>)"

definition demo_client_env ::
  "32 word \<Rightarrow> (dns_question \<Rightarrow> (dns_msg \<times> int) option, dns_question \<times> string \<Rightarrow> (dns_msg \<times> int) option, unit) client_env" where
  "demo_client_env ttl =
     \<lparr>ce_D = demo_dns_lib, ce_K = demo_lru, ce_T = demo_lru, ce_NewCache = (\<lambda>_. Map.empty),
      ce_NewTransportCache = (\<lambda>_. Map.empty),
      ce_R = \<lparr>rd_Load = (\<lambda>_ _ _ _ r. (False, r)), rd_SaveAsync = (\<lambda>_ _ _ _ r. r)\<rparr>,
      ce_Exchange = (\<lambda>t m now. (Inr (demo_answer ttl m), now + seconds 1)),
      ce_GroupError = (\<lambda>es. case filter (\<lambda>e. e \<noteq> None) es of [] \<Rightarrow> None | e # _ \<Rightarrow> e)\<rparr>"

definition demo_client_options :: "unit client_options" where
  "demo_client_options =
     \<lparr>co_Timeout = 0, co_DisableCache = False, co_DisableExpire = False, co_IndependentCache = False,
      co_CacheCapacity = 0, co_ClientSubnet = NoPrefix, co_RDRC = None\<rparr>"

definition demo_question :: dns_question where
  "demo_question = \<lparr>q_Name = ''a.'', q_Qtype = TypeA, q_Qclass = ClassINET\<rparr>"

lemma demo_client_env_ok: "client_env_ok (demo_client_env ttl)"
proof -
  have "(case filter (\<lambda>e. e \<noteq> None) es of [] \<Rightarrow> None | e # _ \<Rightarrow> e) = None \<longleftrightarrow> (\<forall>e \<in> set es. e = None)"
    for es :: "go_err option list"
    by (induction es) auto
  then show ?thesis
    by (simp add: client_env_ok_def demo_client_env_def demo_dns_lib_ok demo_lru_ok seconds_def)
qed

lemmas demo_client_defs =
  demo_client_env_def demo_client_options_def demo_question_def demo_answer_def demo_lru_def demo_dns_lib_def demo_comp_def
  NewClient_def cl_Exchange_def exchange_upstream_def exchange_response_def loadResponse_def load_entry_def
  storeCache_def store_entry_def load_rdrc_def check_response_def with_client_subnet_def isSimpleRequest_def
  filter_https_def response_ttl_def finish_response_def transport_response_def strategy_rejects_def
  NoQueryOptions_def NoPrefix_def prefix_IsValid_def lookup_message_def NoMsg_def FixedResponseCNAME_def
  fixed_header_def fixed_rr_def msg_records_def map_records_def ttl_step_def set_ttl_def seconds_def
  extractNegativeTTL_def

text \<open>The client after one exchange at time 0 and the response it returned.\<close>

definition demo_client where
  "demo_client ttl opt =
     cl_Exchange (demo_client_env ttl) None (Some (demo_comp 1 ''dns'' []))
       ((lookup_message demo_question)\<lparr>m_Extra := opt\<rparr>) NoQueryOptions None () 0
       (NewClient (demo_client_env ttl) demo_client_options)"

lemma demo_client_eval:
  "demo_client 300 [] =
     (let m = FixedResponseCNAME 0 demo_question ''b.'' 300
      in (Ok m, (), seconds 1,
          (NewClient (demo_client_env 300) demo_client_options)\<lparr>cl_cache := Some [demo_question \<mapsto> (m, seconds 301)]\<rparr>))"
  unfolding demo_client_def by (simp add: demo_client_defs)


section \<open>No panic\<close>

definition has_cache :: "('c, 'd, 'r) dns_client \<Rightarrow> bool" where
  "has_cache c \<longleftrightarrow> (if cl_independentCache c then cl_transportCache c \<noteq> None else cl_cache c \<noteq> None)"

lemma has_cache_load:
  "has_cache c \<Longrightarrow> loadResponse E q (Some t) now c = (r, c') \<Longrightarrow>
     \<not> is_panic r \<and> has_cache c' \<and> cl_disableCache c' = cl_disableCache c"
  by (auto simp: has_cache_def loadResponse_def split: if_splits option.splits prod.splits)

lemma has_cache_store: "has_cache c \<Longrightarrow> \<not> is_panic (storeCache E t q m ttl now c)"
  by (auto simp: has_cache_def storeCache_def split: if_splits option.splits)

lemma has_cache_rdrc:
  "load_rdrc E d chk t q now c = (b, c') \<Longrightarrow> has_cache c' = has_cache c"
  by (auto simp: load_rdrc_def has_cache_def split: option.splits if_splits prod.splits)

lemma exchange_response_no_panic:
  assumes "d \<or> has_cache c"
  shows "\<not> is_panic (fst (exchange_response E t message q options chk d response s now c))"
  using assms has_cache_store [of c E t q]
  by (auto simp: exchange_response_def Let_def is_panic_iff split: prod.splits bool.splits go_out.splits)

lemma exchange_upstream_no_panic:
  assumes "d \<or> has_cache c"
  shows "\<not> is_panic (fst (exchange_upstream E ctx (Some t) message q options chk d s now c))"
proof -
  obtain rejected c1 where rd: "load_rdrc E d (chk \<noteq> None) t q now c = (rejected, c1)" by fastforce
  obtain u now1 where ex: "ce_Exchange E t message now = (u, now1)" by fastforce
  have "d \<or> has_cache c1" using assms has_cache_rdrc [OF rd] by simp
  then show ?thesis
    unfolding exchange_upstream_def option.case rd ex prod.case
    by (auto simp: exchange_response_no_panic split: bool.splits sum.splits)
qed

text \<open>An OPT record whose data is that of an OPT record.\<close>

definition opt_wf :: "dns_rr \<Rightarrow> bool" where
  "opt_wf r \<longleftrightarrow> (rr_Rrtype r = TypeOPT \<longrightarrow> (\<exists>os. rr_Data r = DataOPT os))"

lemma opt_wf_edit: "opt_wf r \<Longrightarrow> opt_wf (edit_opt p j r)"
  by (auto simp: opt_wf_def edit_opt_def split: dns_data.splits)

lemma opt_wf_SetClientSubnet: "\<forall>r \<in> set (m_Extra m). opt_wf r \<Longrightarrow> r \<in> set (m_Extra (SetClientSubnet m p)) \<Longrightarrow> opt_wf r"
proof -
  assume wf: "\<forall>r \<in> set (m_Extra m). opt_wf r" and r: "r \<in> set (m_Extra (SetClientSubnet m p))"
  have "opt_wf (edit_opt p j new_opt)" for j by (rule opt_wf_edit) (simp add: opt_wf_def new_opt_def)
  moreover have "x \<in> set ((m_Extra m)[i := edit_opt p j (m_Extra m ! i)]) \<Longrightarrow> opt_wf x" for x i j
    by (metis list_update_beyond not_le nth_mem opt_wf_edit wf set_update_subset_insert insertE subsetD)
  ultimately show ?thesis using wf r by (auto simp: SetClientSubnet_eq split: prod.splits option.splits)
qed

lemma isSimpleRequest_some:
  "\<forall>r \<in> set (m_Extra m). opt_wf r \<Longrightarrow> isSimpleRequest options m \<noteq> None"
  by (auto simp: isSimpleRequest_def opt_wf_def split: list.splits dns_data.splits)

text \<open>
  In every run, an exchange through a transport ends with a response or an error, never in a nil
  cache: the client reads and stores only in the cache it was built with. The only other panic of the
  function is that of a request with a malformed OPT record, which a parser does not produce.
\<close>

lemma dns_exchange_no_panic:
  assumes "client_run E o1 s c now h" and "client_env_ok E" and "\<forall>r \<in> set (m_Extra message). opt_wf r"
  shows "\<not> is_panic (fst (cl_Exchange E ctx (Some t) message options chk s now c))"
proof -
  have cache: "cl_disableCache c \<or> has_cache c"
    using client_run_inv [OF assms(1,2)] by (simp add: client_inv_def has_cache_def)
  obtain simple where simple: "isSimpleRequest options (with_client_subnet c options message) = Some simple"
  proof -
    have "\<forall>r \<in> set (m_Extra (with_client_subnet c options message)). opt_wf r"
      using assms(3) opt_wf_SetClientSubnet [OF assms(3)] by (simp add: with_client_subnet_def Let_def)
    then show thesis using isSimpleRequest_some that by blast
  qed
  show ?thesis using cache
    by (auto simp: cl_Exchange_def Let_def simple exchange_upstream_no_panic
        split: list.splits option.splits prod.splits go_out.splits dest: has_cache_load)
qed

section \<open>The checker\<close>

text \<open>
  A response that \<^verbatim>\<open>Exchange\<close> returns to a caller with a checker was read from the cache or is the
  answer of the transport, which is a success with records and was accepted by the checker; a
  rejected response is never returned.
\<close>

lemma dns_exchange_checked:
  assumes "cl_Exchange E ctx transport message options (Some check) s now c = (Ok m, s', now', c')"
    and "m_Question message = q # qs" and "\<not> strategy_rejects (q_Qtype q) (qo_Strategy options)"
  shows "(\<exists>response ttl. fst (loadResponse E q transport now c) = Ok (Some (response, ttl)) \<and> m = response\<lparr>m_Id := m_Id message\<rparr>) \<or>
    (\<exists>t response. transport = Some t \<and>
      fst (ce_Exchange E t (with_client_subnet c options message) now) = Inr response \<and>
      m_Rcode response = RcodeSuccess \<and> m_Answer response \<noteq> [] \<and> fst (check (MessageToAddresses (ce_D E) response) s))"
proof -
  have Id: "m_Id (with_client_subnet c options message) = m_Id message"
    by (simp add: with_client_subnet_def Let_def)
  have "m_Answer (FixedResponseStatus x n) = []" for x n
    by (simp add: FixedResponseStatus_def fixed_header_def NoMsg_def)
  then have up: "\<exists>t response. transport = Some t \<and> fst (ce_Exchange E t x now) = Inr response \<and>
      m_Rcode response = RcodeSuccess \<and> m_Answer response \<noteq> [] \<and> fst (check (MessageToAddresses (ce_D E) response) s)"
    if "exchange_upstream E ctx transport x q options (Some check) d s now c1 = (Ok m, s', now', c')" for x d c1
    using that
    by (auto simp: exchange_upstream_def exchange_response_def transport_response_def check_response_def Let_def
        split: option.splits if_splits prod.splits bool.splits sum.splits go_out.splits)
  show ?thesis
    using assms(1) up
    by (auto simp: cl_Exchange_def assms(2,3) Let_def Id split: option.splits if_splits prod.splits go_out.splits)
qed

section \<open>Cached OPT records\<close>

text \<open>
  the field of an OPT record that other records use for the time to live holds the extended
  response code, the version and the flags. \<^verbatim>\<open>Exchange\<close> overwrites it; when the value it writes has a
  version above zero (here a day) it replaces the record, after the response was put in the cache, and
  \<^verbatim>\<open>loadResponse\<close> then subtracts the age of the entry from the field of the new record, which is zero.
  The answer from the cache, ten seconds later, has an OPT record with extended code, version and all
  flags set.
\<close>

theorem dns_cached_opt_corrupted:
  "fst (loadResponse (demo_client_env 86400) demo_question (Some (demo_comp 1 ''dns'' [])) (seconds 11)
     (snd (snd (snd (demo_client 86400 [opt_record 1232 False]))))) =
   Ok (Some ((FixedResponseCNAME 0 demo_question ''b.'' 86390)
        \<lparr>m_Extra := [set_ttl 0xFFFFFFF6 (opt_record 1232 False)]\<rparr>, 86390))"
  unfolding demo_client_def
  by (simp add: demo_client_defs opt_record_def Let_def age_response_def left_ttl_def)

section \<open>The client subnet\<close>

lemma find_subnet_one:
  "find_subnet 0 None [r] = (case rr_Data r of DataOPT os \<Rightarrow> (Some 0, subnet_position 0 os) | _ \<Rightarrow> (None, None))"
  by (auto split: dns_data.splits option.splits)

lemma edit_options_not_Nil: "os \<noteq> [] \<or> j = None \<Longrightarrow> edit_options p j os \<noteq> []"
  by (auto simp: edit_options_def split: option.splits)

text \<open>A message with a client subnet is not simple.\<close>

lemma subnet_not_simple: "isSimpleRequest options (SetClientSubnet m p) \<noteq> Some True"
proof -
  consider "m_Extra m = []" | r where "m_Extra m = [r]" | r1 r2 rs where "m_Extra m = r1 # r2 # rs"
    by (metis list.exhaust)
  then show ?thesis
  proof cases
    case 1
    then show ?thesis by (simp add: SetClientSubnet_eq isSimpleRequest_def edit_opt_def new_opt_def)
  next
    case 2
    have "subnet_position 0 os = None" if "os = []" for os using that by simp
    with 2 show ?thesis
      by (auto simp: SetClientSubnet_eq find_subnet_one isSimpleRequest_def edit_opt_def edit_options_not_Nil
          simp del: find_subnet.simps split: dns_data.splits)
  next
    case 3
    have "length (m_Extra (SetClientSubnet m p)) \<ge> 2"
      unfolding SetClientSubnet_eq 3 by (simp del: find_subnet.simps list_update.simps split: prod.splits option.splits)
    then show ?thesis by (auto simp: isSimpleRequest_def split: list.splits)
  qed
qed

text \<open>
  a client with a client subnet of its own never uses its cache in \<^verbatim>\<open>Exchange\<close>: the option it adds
  to every request makes the request not simple, although only a subnet given with the query is meant
  to do that.
\<close>

theorem dns_client_subnet_uncached:
  assumes "prefix_IsValid (cl_clientSubnet c)" and "\<not> prefix_IsValid (qo_ClientSubnet options)"
    and "cl_Exchange E ctx transport message options chk s now c = (r, s', now', c')"
  shows "cl_cache c' = cl_cache c \<and> cl_transportCache c' = cl_transportCache c"
proof -
  have keep: "cl_cache c' = cl_cache c \<and> cl_transportCache c' = cl_transportCache c"
    if "exchange_upstream E ctx transport m q options chk True s now c = (r, s', now', c')" for m q
    using that
    by (auto simp: exchange_upstream_def exchange_response_def load_rdrc_def Let_def
        split: option.splits if_splits prod.splits bool.splits sum.splits go_out.splits)
  have "isSimpleRequest options (with_client_subnet c options message) \<noteq> Some True"
    using assms(1,2) by (simp add: with_client_subnet_def subnet_not_simple)
  then show ?thesis using assms(3) keep
    by (auto simp: cl_Exchange_def Let_def split: list.splits if_splits option.splits)
qed

theorem dns_client_subnet_uncached_witness:
  "cl_cache (snd (snd (snd (cl_Exchange (demo_client_env 300) None (Some (demo_comp 1 ''dns'' [])) (lookup_message demo_question)
     NoQueryOptions None () 0
     (NewClient (demo_client_env 300) (demo_client_options\<lparr>co_ClientSubnet := \<lparr>px_addr = Addr4 0, px_bits = 24\<rparr>\<rparr>)))))) =
   Some Map.empty"
proof -
  let ?c = "NewClient (demo_client_env 300) (demo_client_options\<lparr>co_ClientSubnet := \<lparr>px_addr = Addr4 0, px_bits = 24\<rparr>\<rparr>)"
  obtain r s' now' c' where x: "cl_Exchange (demo_client_env 300) None (Some (demo_comp 1 ''dns'' []))
      (lookup_message demo_question) NoQueryOptions None () 0 ?c = (r, s', now', c')"
    by (metis prod_cases4)
  have "prefix_IsValid (cl_clientSubnet ?c)" "\<not> prefix_IsValid (qo_ClientSubnet NoQueryOptions)" "cl_cache ?c = Some Map.empty"
    by (simp_all add: demo_client_defs)
  with dns_client_subnet_uncached [OF _ _ x] x show ?thesis by simp
qed

end
