(* ===== verification/DNS_Router_Theorems.thy ===== *)
theory DNS_Router_Theorems
  imports DNS_Router DNS_Client_Theorems
begin

text \<open>
  The DNS router: its two loops end after at most one query per rule and one more, a query ends
  without a panic, and an answer that a rule with address conditions lets through satisfies them.
\<close>

section \<open>Loops over turns\<close>

text \<open>
  Both operations of the router run turns until one of them does not say \<open>Again\<close>. \<open>retry_fuel\<close> runs at
  most \<open>n\<close> turns.
\<close>

fun retry_fuel :: "(nat \<Rightarrow> 's \<Rightarrow> 'a turn \<times> 's) \<Rightarrow> nat \<Rightarrow> nat \<Rightarrow> 's \<Rightarrow> ('a turn \<times> 's) option" where
  "retry_fuel turn 0 start s = None"
| "retry_fuel turn (Suc n) start s =
     (case turn start s of
        (Again start1, s1) \<Rightarrow> retry_fuel turn n start1 s1
      | r \<Rightarrow> Some r)"

locale retry_loop =
  fixes turn :: "nat \<Rightarrow> 's \<Rightarrow> 'a turn \<times> 's"
    and loop :: "nat \<Rightarrow> 's \<Rightarrow> 'a turn \<times> 's"
    and bound :: nat
  assumes again: "turn start s = (Again n, s1) \<Longrightarrow> start < n \<and> n \<le> bound"
    and loop_eq: "loop start s = (case turn start s of (Again n, s1) \<Rightarrow> loop n s1 | r \<Rightarrow> r)"
begin

text \<open>One turn per position that is left, and one more, are enough.\<close>

lemma enough_fuel: "start \<le> bound \<Longrightarrow> bound - start < n \<Longrightarrow> retry_fuel turn n start s = Some (loop start s)"
proof (induction n arbitrary: start s)
  case (Suc n)
  obtain t s1 where t: "turn start s = (t, s1)" by fastforce
  show ?case
  proof (cases t)
    case (Again m)
    with again t have "start < m" "m \<le> bound" by blast+
    with Suc.IH [of m s1] Suc.prems Again t show ?thesis by (simp add: loop_eq [of start s])
  qed (simp_all add: t loop_eq [of start s])
qed simp

text \<open>The result is that of a turn from a state that every turn before it led to.\<close>

lemma last_turn:
  assumes keep: "\<And>start s n s1. P s \<Longrightarrow> turn start s = (Again n, s1) \<Longrightarrow> P s1"
    and "P s" and "start \<le> bound"
  obtains start' s' where "P s'" "turn start' s' = loop start s" "start \<le> start'" "start' \<le> bound"
    "\<And>n. fst (loop start s) \<noteq> Again n"
proof -
  have "\<exists>start' s'. P s' \<and> turn start' s' = loop start s \<and> start \<le> start' \<and> start' \<le> bound \<and>
      (\<forall>n. fst (loop start s) \<noteq> Again n)"
    using assms(2,3)
  proof (induction "bound - start" arbitrary: start s rule: less_induct)
    case less
    obtain t s1 where t: "turn start s = (t, s1)" by fastforce
    show ?case
    proof (cases t)
      case (Again m)
      with again t have m: "start < m" "m \<le> bound" by blast+
      have "P s1" using keep less.prems(1) t Again by blast
      with less.hyps [of m s1] m Again t show ?thesis
        by (force simp: loop_eq [of start s])
    next
      case Return
      with less.prems t show ?thesis by (auto simp: loop_eq [of start s])
    next
      case Finish
      with less.prems t show ?thesis by (auto simp: loop_eq [of start s])
    qed
  qed
  then show thesis using that by blast
qed

end

interpretation ex: retry_loop "exchange_turn E rules strategy ctx message q options"
  "exchange_loop E rules strategy ctx message q options" "length rules"
  for E rules strategy ctx message q options
  by unfold_locales (blast dest: exchange_turn_again, rule exchange_loop.simps)

interpretation lk: retry_loop "lookup_turn E rules strategy ctx domain options"
  "lookup_loop E rules strategy ctx domain options" "length rules"
  for E rules strategy ctx domain options
  by unfold_locales (blast dest: lookup_turn_again, rule lookup_loop.simps)

text \<open>
  C19: the loops of \<^verbatim>\<open>Exchange\<close> and \<^verbatim>\<open>Lookup\<close> have no bound of their own, but they end, whatever the
  servers answer: after as many turns as there are rules and one for the default server.
\<close>

theorem dns_loops_end:
  "retry_fuel (exchange_turn E rules strategy ctx message q options) (Suc (length rules)) 0 s =
     Some (exchange_loop E rules strategy ctx message q options 0 s) \<and>
   retry_fuel (lookup_turn E rules strategy ctx domain options) (Suc (length rules)) 0 s =
     Some (lookup_loop E rules strategy ctx domain options 0 s)"
  by (simp add: ex.enough_fuel lk.enough_fuel del: retry_fuel.simps)

section \<open>Turns\<close>

lemma match_dns_result:
  "match_dns E allow aq i rules options md = (t, matched, options', md') \<Longrightarrow>
     (case matched of
        None \<Rightarrow> t = tm_Default (de_tm E)
      | Some (j, rule) \<Rightarrow>
          (\<exists>md0. dns_Match (de_L E) (de_N E) (de_store E) rule (ResetRuleCache md0) = (True, md')) \<and>
          (t = None \<and> (\<exists>how nd. rule_action rule = ActionDNSReject how nd) \<or>
           t = None \<and> (\<exists>rc as ns ex. rule_action rule = ActionPredefined rc as ns ex) \<or>
           t \<noteq> None \<and> (\<exists>ra. rule_action rule = ActionDNSRoute ra \<and> t = tm_Transport (de_tm E) (rv_Server ra))))"
proof (induction rules arbitrary: i options md)
  case (Cons r rules)
  from Cons.prems consider
      o1 m1 i1 where "match_dns E allow aq i1 rules o1 m1 = (t, matched, options', md')"
    | o1 where "matched = Some (i, r)" "dns_Match (de_L E) (de_N E) (de_store E) r (ResetRuleCache md) = (True, md')"
        "(\<exists>t1. t = Some t1 \<and> dns_action_step E allow (rule_action r) o1 = MatchTransport t1 options') \<or>
         t = None \<and> dns_action_step E allow (rule_action r) o1 = MatchRule"
    by (auto split: if_splits prod.splits bool.splits dns_match.splits)
  then show ?case
  proof cases
    case 1
    then show ?thesis by (rule Cons.IH)
  next
    case 2
    then show ?thesis
      by (auto simp: dns_action_step_def Let_def split: dns_action.splits option.splits if_splits)
  qed
qed simp

lemma matchDNS_result:
  "matchDNS E allow start aq rules options md = (t, matched, options', md') \<Longrightarrow>
     (case matched of
        None \<Rightarrow> t = tm_Default (de_tm E)
      | Some (j, rule) \<Rightarrow>
          (\<exists>md0. dns_Match (de_L E) (de_N E) (de_store E) rule (ResetRuleCache md0) = (True, md')) \<and>
          (t = None \<and> (\<exists>how nd. rule_action rule = ActionDNSReject how nd) \<or>
           t = None \<and> (\<exists>rc as ns ex. rule_action rule = ActionPredefined rc as ns ex) \<or>
           t \<noteq> None \<and> (\<exists>ra. rule_action rule = ActionDNSRoute ra \<and> t = tm_Transport (de_tm E) (rv_Server ra))))"
  unfolding matchDNS_def by (rule match_dns_result)

text \<open>Rules the router can execute: a reject action has one of the two kinds \<^verbatim>\<open>Exchange\<close> knows.\<close>

definition dns_rules_ok :: "dns_action rule list \<Rightarrow> bool" where
  "dns_rules_ok rules \<longleftrightarrow>
     (\<forall>rule \<in> set rules. \<forall>how nd. rule_action rule = ActionDNSReject how nd \<longrightarrow> how \<in> {''default'', ''drop''})"

text \<open>A rule that ends the search without a transport answers itself.\<close>

lemma exchange_by_rule_nil:
  assumes "matchDNS E True start aq rules options md = (None, Some (i, rule), o1, md1)"
    and "dns_rules_ok rules" and "m_Question message \<noteq> []"
  obtains r where "exchange_by_rule A (Some (i, rule)) message q = Some r" "\<not> is_panic r"
proof -
  have "rule \<in> set rules" using matchDNS_position [OF assms(1)] nth_mem by metis
  from matchDNS_result [OF assms(1)] consider
      (reject) how nd where "rule_action rule = ActionDNSReject how nd"
    | (predefined) rc as ns ex where "rule_action rule = ActionPredefined rc as ns ex" by auto
  then have "\<exists>r. exchange_by_rule A (Some (i, rule)) message q = Some r \<and> \<not> is_panic r"
  proof cases
    case reject
    with assms(2) \<open>rule \<in> set rules\<close> have "how \<in> {''default'', ''drop''}" by (auto simp: dns_rules_ok_def)
    with reject show ?thesis by (auto simp: exchange_by_rule_def)
  next
    case predefined
    with assms(3) show ?thesis by (auto simp: exchange_by_rule_def predefined_Response_def split: list.splits)
  qed
  then show thesis using that by blast
qed

text \<open>The client of a router over its life, with the metadata of a query as the state of the checkers.\<close>

definition query_run where
  "query_run E o1 s \<longleftrightarrow> (\<exists>h. client_run (de_E E) o1 (dq_md s) (dq_client s) (dq_now s) h)"

lemma client_run_state:
  fixes s s' :: 's
  shows "client_run E o1 s c now h \<Longrightarrow> client_run E o1 s' c now h"
  by (erule run_wait) simp

lemma exchange_turn_query:
  assumes "exchange_turn E rules strategy ctx message q options start s = (turn, s')"
    and "query_run E o1 s" and "dns_rules_ok rules" and "tm_Default (de_tm E) \<noteq> None" and "m_Question message \<noteq> []"
  obtains (by_rule) r where "turn = Return r" "\<not> is_panic r" "query_run E o1 s'"
    | (by_transport) t matched o2 md1 r where "matchDNS E True start (is_address_query message) rules options (dq_md s) = (Some t, matched, o2, md1)"
        "cl_Exchange (de_E E) ctx (Some t) message (with_default_strategy strategy o2) (response_check E matched) md1
           (dq_now s) (dq_client s) = (r, dq_md s', dq_now s', dq_client s')"
        "turn = turn_after rejected_error (response_check E matched \<noteq> None) matched (Some t) r" "query_run E o1 s'"
proof -
  obtain t matched o2 md1 where m: "matchDNS E True start (is_address_query message) rules options (dq_md s) = (t, matched, o2, md1)"
    using prod_cases4 by blast
  from assms(2) obtain h where "client_run (de_E E) o1 (dq_md s) (dq_client s) (dq_now s) h"
    unfolding query_run_def by blast
  then have run: "client_run (de_E E) o1 md1 (dq_client s) (dq_now s) h" by (rule client_run_state)
  show thesis
  proof (cases "exchange_by_rule (de_A E) matched message q")
    case (Some r)
    then have "turn = Return r" "query_run E o1 s'"
      using assms(1) run by (auto simp: exchange_turn_def m query_run_def)
    moreover have "\<not> is_panic r"
      using Some assms(5) by (auto simp: exchange_by_rule_def predefined_Response_def
          split: option.splits dns_action.splits if_splits list.splits)
    ultimately show thesis using by_rule by blast
  next
    case None
    have "t \<noteq> None"
    proof
      assume t: "t = None"
      with matchDNS_result [OF m] assms(4) obtain i rule where matched: "matched = Some (i, rule)"
        by (auto split: option.splits)
      from exchange_by_rule_nil [OF m [unfolded t matched] assms(3,5)] None matched show False by (metis option.distinct(1))
    qed
    then obtain t1 where t: "t = Some t1" by blast
    obtain r md2 now1 c1 where x: "cl_Exchange (de_E E) ctx (Some t1) message (with_default_strategy strategy o2)
        (response_check E matched) md1 (dq_now s) (dq_client s) = (r, md2, now1, c1)"
      using prod_cases4 by blast
    have s': "s' = s\<lparr>dq_md := md2, dq_now := now1, dq_client := c1\<rparr>"
      and turn: "turn = turn_after rejected_error (response_check E matched \<noteq> None) matched (Some t1) r"
      using assms(1) None by (simp_all add: exchange_turn_def m t x)
    show thesis
      by (rule by_transport [OF m [unfolded t]])
        (use x s' turn run_exchange [OF run x] in \<open>auto simp: query_run_def\<close>)
  qed
qed

lemma exchange_loop_query:
  assumes "query_run E o1 s" and "dns_rules_ok rules" and "tm_Default (de_tm E) \<noteq> None" and "m_Question message \<noteq> []"
  obtains start s1 where "query_run E o1 s1"
    "exchange_turn E rules strategy ctx message q options start s1 = exchange_loop E rules strategy ctx message q options 0 s"
    "\<And>n. fst (exchange_loop E rules strategy ctx message q options 0 s) \<noteq> Again n"
proof -
  have keep: "query_run E o1 s2" if "query_run E o1 s1"
      "exchange_turn E rules strategy ctx message q options start s1 = (Again n, s2)" for start s1 n s2
    by (rule exchange_turn_query [OF that(2,1) assms(2-4)])
  show thesis
    by (rule ex.last_turn [where P = "query_run E o1" and start = 0 and s = s, OF keep assms(1)]) (auto intro: that)
qed

lemma turn_after_finish: "turn_after retry checked matched t r = Finish r' t' \<Longrightarrow> r' = r \<and> t' = t"
  by (auto simp: turn_after_def split: go_out.splits option.splits if_splits)

lemma turn_after_return [simp]: "turn_after retry checked matched t r \<noteq> Return r'"
  by (auto simp: turn_after_def split: go_out.splits option.splits if_splits)


lemma exchange_turn_no_panic:
  assumes "exchange_turn E rules strategy ctx message q options start s = (turn, s')"
    and "query_run E o1 s" and "dns_rules_ok rules" and "tm_Default (de_tm E) \<noteq> None" and "m_Question message \<noteq> []"
    and "client_env_ok (de_E E)" and "\<forall>x \<in> set (m_Extra message). opt_wf x"
  shows "turn \<noteq> Return (Panic p) \<and> turn \<noteq> Finish (Panic p) t"
proof (rule exchange_turn_query [OF assms(1-5)])
  fix r assume "turn = Return r" "\<not> is_panic r"
  then show ?thesis by auto
next
  fix t1 matched o2 md1 r
  assume x: "cl_Exchange (de_E E) ctx (Some t1) message (with_default_strategy strategy o2) (response_check E matched) md1
        (dq_now s) (dq_client s) = (r, dq_md s', dq_now s', dq_client s')"
    and turn: "turn = turn_after rejected_error (response_check E matched \<noteq> None) matched (Some t1) r"
  from assms(2) obtain h where "client_run (de_E E) o1 (dq_md s) (dq_client s) (dq_now s) h" by (auto simp: query_run_def)
  from dns_exchange_no_panic [OF client_run_state [OF this] assms(6,7)] x have "\<not> is_panic r" by (metis fst_conv)
  then show ?thesis unfolding turn by (auto dest: turn_after_finish)
qed

text \<open>
  C20: a query to a router with a default server, whose reject actions have one of the two kinds the
  function knows, ends with a response or an error and not with a panic.
\<close>

theorem dns_Exchange_no_panic:
  fixes md0 :: metadata
  assumes "client_run (de_E E) o1 md0 (dr_client r) now h" and "client_env_ok (de_E E)"
    and "dns_rules_ok (dr_rules r)" and "tm_Default (de_tm E) \<noteq> None"
    and "\<forall>x \<in> set (m_Extra message). opt_wf x"
  shows "\<not> is_panic (fst (dns_Exchange E ctx message options md now r))"
proof (cases "\<exists>q. m_Question message = [q]")
  case False
  then show ?thesis by (auto simp: dns_Exchange_def split: list.splits)
next
  case True
  then obtain q where q: "m_Question message = [q]" by blast
  let ?md = "exchange_metadata (ce_D (de_E E)) q md"
  have run: "client_run (de_E E) o1 md1 (dr_client r) now h" for md1 :: metadata by (rule client_run_state [OF assms(1)])
  show ?thesis
  proof (cases "qo_Transport options")
    case (Some t)
    let ?o = "with_default_strategy (dr_defaultDomainStrategy r) (apply_legacy (de_Legacy E) t options)"
    obtain res md2 now1 c1 where x: "cl_Exchange (de_E E) ctx (Some t) message ?o None ?md now (dr_client r) = (res, md2, now1, c1)"
      using prod_cases4 by blast
    with dns_exchange_no_panic [OF run assms(2,5)] have "\<not> is_panic res" by (metis fst_conv)
    then show ?thesis by (cases res) (simp_all add: dns_Exchange_def q Some x)
  next
    case None
    let ?l = "exchange_loop E (dr_rules r) (dr_defaultDomainStrategy r) ctx message q options 0 (start_query ?md now r)"
    have "query_run E o1 (start_query ?md now r)" using run by (auto simp: query_run_def start_query_def)
    from exchange_loop_query [OF this assms(3,4)] q obtain start s1 where s1: "query_run E o1 s1"
        and turn: "exchange_turn E (dr_rules r) (dr_defaultDomainStrategy r) ctx message q options start s1 = ?l"
        and again: "\<And>n. fst ?l \<noteq> Again n" by (metis list.distinct(1))
    obtain u s' where l: "?l = (u, s')" by fastforce
    have "u \<noteq> Return (Panic p) \<and> u \<noteq> Finish (Panic p) t" for p t
      by (rule exchange_turn_no_panic [OF turn [unfolded l] s1 assms(3,4) _ assms(2,5)]) (simp add: q)
    then have "case u of Return res \<Rightarrow> \<not> is_panic res | Finish res t \<Rightarrow> \<not> is_panic res | Again n \<Rightarrow> False"
      using again l by (auto simp: is_panic_iff split: turn.splits)
    then show ?thesis
      by (auto simp: dns_Exchange_def q None l split: turn.splits go_out.splits)
  qed
qed

section \<open>A router for evaluation\<close>

text \<open>A router with the sample client, a server, a default server and rules without conditions.\<close>

definition demo_server :: comp where
  "demo_server = demo_comp 1 ''dns'' []"

definition demo_default :: comp where
  "demo_default = demo_comp 2 ''local'' []"

definition demo_dns_env where
  "demo_dns_env =
     \<lparr>de_E = demo_client_env 300, de_L = demo_lib, de_A = demo_action_lib, de_N = demo_net, de_store = Map.empty,
      de_tm = (NewTransportManager [])\<lparr>tm_transports := [demo_server, demo_default], tm_by_tag := [''dns'' \<mapsto> demo_server],
                 tm_default := Some demo_default\<rparr>,
      de_Legacy = (\<lambda>_. None), de_M = demo_lru, de_NewMapping = (\<lambda>_. Map.empty :: addr \<Rightarrow> (string \<times> int) option)\<rparr>"

definition demo_dns_rule :: "dns_action \<Rightarrow> dns_action rule" where
  "demo_dns_rule a = DefaultRule (empty_rule False) a"

definition demo_dns_router where
  "demo_dns_router as = (NewDNSRouter demo_dns_env 0 False demo_client_options)\<lparr>dr_rules := map demo_dns_rule as\<rparr>"

definition demo_route :: dns_action where
  "demo_route = ActionDNSRoute (resolve_of (NoResolveOpts\<lparr>rs_Server := ''dns''\<rparr>))"

lemma demo_dns_rule_Match:
  "dns_Match L N store (demo_dns_rule a) md = (True, md\<lparr>md_IgnoreDestinationIPCIDRMatch := False\<rparr>)"
  by (simp add: demo_dns_rule_def DefaultDNSRule_Match_def abstract_Match_def empty_rule_def)

lemma demo_dns_rule_limit: "\<not> dns_WithAddressLimit L store (demo_dns_rule a)" "rule_action (demo_dns_rule a) = a"
  by (simp_all add: demo_dns_rule_def DefaultDNSRule_WithAddressLimit_def empty_rule_def)

lemmas demo_dns_defs =
  demo_client_defs demo_dns_env_def demo_dns_router_def demo_route_def demo_server_def demo_default_def NewDNSRouter_def
  matchDNS_def dns_action_step_def NewTransportManager_def tm_Transport_def tm_Default_def resolve_of_def NoResolveOpts_def
  apply_query_options_def apply_legacy_def DNSTypeFakeIP_def exchange_turn_def exchange_by_rule_def response_check_def
  with_default_strategy_def turn_after_def start_query_def end_query_def is_address_query_def

lemma demo_route_loop:
  "\<exists>m s'. exchange_loop demo_dns_env [demo_dns_rule demo_route] 0 None (lookup_message demo_question) demo_question NoQueryOptions 0
     (start_query NoMetadata 0 (demo_dns_router [demo_route])) = (Finish (Ok m) (Some demo_server), s')"
  by (simp add: exchange_loop.simps demo_dns_defs demo_dns_rule_Match demo_dns_rule_limit Let_def)

lemma demo_query_run: "query_run demo_dns_env demo_client_options (start_query md 0 (demo_dns_router as))"
  unfolding query_run_def
  by (rule exI [of _ "[]"]) (simp add: start_query_def demo_dns_router_def NewDNSRouter_def demo_dns_env_def run_new)

lemma demo_rules_ok: "dns_rules_ok [demo_dns_rule demo_route]" "tm_Default (de_tm demo_dns_env) \<noteq> None"
    "m_Question (lookup_message demo_question) = [demo_question]"
  by (simp_all add: dns_rules_ok_def demo_dns_rule_limit demo_dns_defs)


theorem dns_Exchange_no_panic_witness:
  "\<not> is_panic (fst (dns_Exchange demo_dns_env None (lookup_message demo_question) NoQueryOptions NoMetadata 0
     (demo_dns_router [demo_route])))"
proof (rule dns_Exchange_no_panic)
  show "client_run (de_E demo_dns_env) demo_client_options NoMetadata (dr_client (demo_dns_router [demo_route])) 0 []"
    by (simp add: demo_dns_router_def NewDNSRouter_def demo_dns_env_def run_new)
  show "client_env_ok (de_E demo_dns_env)" by (simp add: demo_dns_env_def demo_client_env_ok)
  show "dns_rules_ok (dr_rules (demo_dns_router [demo_route]))"
    using demo_rules_ok(1) by (simp add: demo_dns_router_def)
qed (simp_all add: demo_rules_ok(2) lookup_message_def NoMsg_def)

text \<open>
  a DNS rule may have the reject kind \<^verbatim>\<open>reply\<close>: the options accept it. \<^verbatim>\<open>Exchange\<close> does not know it,
  goes on without a transport and panics as soon as the answer is not in the cache.
\<close>

theorem dns_reject_reply_panics:
  "fst (dns_Exchange demo_dns_env None (lookup_message demo_question) NoQueryOptions NoMetadata 0
     (demo_dns_router [ActionDNSReject ''reply'' noDrop])) = nil_panic"
  by (simp add: dns_Exchange_def exchange_loop.simps exchange_metadata_def demo_dns_defs demo_dns_rule_Match
      demo_dns_rule_limit Let_def)

end
