(* ===== verification/Cache_RDRC.thy ===== *)
theory Cache_RDRC
  imports DNS_Client
begin

text \<open>
  \<^verbatim>\<open>experimental/cachefile/rdrc.go\<close>: the store of rejected DNS responses the DNS client uses. A rejected
  query is kept in memory until a goroutine has written it to a bucket of the data base, with the time
  it expires. A bucket of \<^verbatim>\<open>bbolt\<close> is a map from byte strings to byte strings; its transactions are
  atomic and may fail.
\<close>

record rdrc_store =
  rs_saveRDRC :: "(string \<times> string \<times> 16 word) \<Rightarrow> bool option"
  rs_buckets :: "string \<Rightarrow> (bytes \<Rightarrow> bytes option) option"
  rs_rdrcTimeout :: int

text \<open>The key of a query: its type in two bytes, then the name.\<close>

definition rdrc_key :: "string \<Rightarrow> 16 word \<Rightarrow> bytes" where
  "rdrc_key qName qType = be_bytes 2 qType @ map of_char qName"

text \<open>Seconds since the epoch of a time, and the stored form.\<close>

definition unix :: "int \<Rightarrow> int" where
  "unix t = t div 1000000000"

definition expires_bytes :: "int \<Rightarrow> bytes" where
  "expires_bytes t = be_bytes 8 (word_of_int (unix t) :: 64 word)"

definition expires_at :: "bytes \<Rightarrow> int" where
  "expires_at content = seconds (sint (be_word content :: 64 word))"

text \<open>\<open>viewFails\<close> and \<open>updateFails\<close> say whether the transactions fail.\<close>

definition LoadRDRC ::
  "bool \<Rightarrow> bool \<Rightarrow> string \<Rightarrow> string \<Rightarrow> 16 word \<Rightarrow> int \<Rightarrow> rdrc_store \<Rightarrow> bool \<times> rdrc_store" where
  "LoadRDRC viewFails updateFails transportName qName qType now s =
     (case rs_saveRDRC s (transportName, qName, qType) of
        Some rejected \<Rightarrow> (rejected, s)
      | None \<Rightarrow>
          if viewFails then (False, s)
          else
            (case rs_buckets s transportName of
               None \<Rightarrow> (False, s)
             | Some bucket \<Rightarrow>
                 (case bucket (rdrc_key qName qType) of
                    None \<Rightarrow> (False, s)
                  | Some content \<Rightarrow>
                      if now > expires_at content
                      then (False, if updateFails then s
                                   else s\<lparr>rs_buckets := (rs_buckets s)(transportName \<mapsto> bucket(rdrc_key qName qType := None))\<rparr>)
                      else (True, s))))"

definition SaveRDRC :: "bool \<Rightarrow> string \<Rightarrow> string \<Rightarrow> 16 word \<Rightarrow> int \<Rightarrow> rdrc_store \<Rightarrow> rdrc_store" where
  "SaveRDRC batchFails transportName qName qType now s =
     (if batchFails then s
      else
        let bucket = (case rs_buckets s transportName of Some b \<Rightarrow> b | None \<Rightarrow> Map.empty)
        in s\<lparr>rs_buckets := (rs_buckets s)(transportName \<mapsto>
               bucket(rdrc_key qName qType \<mapsto> expires_bytes (now + rs_rdrcTimeout s)))\<rparr>)"

text \<open>The call of \<^verbatim>\<open>SaveRDRCAsync\<close>, and the goroutine it starts, which runs at some later time.\<close>

definition SaveRDRCAsync :: "string \<Rightarrow> string \<Rightarrow> 16 word \<Rightarrow> rdrc_store \<Rightarrow> rdrc_store" where
  "SaveRDRCAsync transportName qName qType s =
     s\<lparr>rs_saveRDRC := (rs_saveRDRC s)((transportName, qName, qType) \<mapsto> True)\<rparr>"

definition save_goroutine :: "bool \<Rightarrow> string \<Rightarrow> string \<Rightarrow> 16 word \<Rightarrow> int \<Rightarrow> rdrc_store \<Rightarrow> rdrc_store" where
  "save_goroutine batchFails transportName qName qType now s =
     (let s1 = SaveRDRC batchFails transportName qName qType now s
      in s1\<lparr>rs_saveRDRC := (rs_saveRDRC s1)((transportName, qName, qType) := None)\<rparr>)"

text \<open>The interface of the client.\<close>

definition rdrc_ops :: "bool \<Rightarrow> bool \<Rightarrow> rdrc_store rdrc_ops" where
  "rdrc_ops viewFails updateFails =
     \<lparr>rd_Load = LoadRDRC viewFails updateFails, rd_SaveAsync = (\<lambda>tn qn qt now. SaveRDRCAsync tn qn qt)\<rparr>"

section \<open>Keys\<close>

lemma of_char_inj: "inj (of_char :: char \<Rightarrow> 8 word)"
proof (rule injI)
  fix c d :: char assume "(of_char c :: 8 word) = of_char d"
  then have "unat (of_nat (of_char c) :: 8 word) = unat (of_nat (of_char d) :: 8 word)"
    by (simp add: of_nat_of_char)
  then show "c = d" by (simp add: unat_of_nat)
qed

lemma rdrc_key_eq [simp]: "rdrc_key n q = rdrc_key n' q' \<longleftrightarrow> n = n' \<and> q = q'"
  using inj_map_eq_map [OF of_char_inj] be_bytes_inj [of 2 q q'] by (auto simp: rdrc_key_def)

lemma expires_roundtrip:
  assumes "0 \<le> t" and "unix t < 2 ^ 63"
  shows "expires_at (expires_bytes t) = seconds (unix t)"
proof -
  have "0 \<le> unix t" using assms(1) by (simp add: unix_def pos_imp_zdiv_nonneg_iff)
  then have "sint (word_of_int (unix t) :: 64 word) = unix t"
    using assms(2) by (simp add: sint_sbintrunc' signed_take_bit_int_eq_self)
  then show ?thesis by (simp add: expires_at_def expires_bytes_def del: be_bytes.simps)
qed

section \<open>A rejected response is remembered\<close>

definition stored :: "rdrc_store \<Rightarrow> string \<Rightarrow> bytes \<Rightarrow> bytes option" where
  "stored s tn k = (case rs_buckets s tn of None \<Rightarrow> None | Some bucket \<Rightarrow> bucket k)"

lemma fst_LoadRDRC:
  "fst (LoadRDRC vf uf tn qn qt now s) =
     (case rs_saveRDRC s (tn, qn, qt) of
        Some rejected \<Rightarrow> rejected
      | None \<Rightarrow> \<not> vf \<and> (case stored s tn (rdrc_key qn qt) of None \<Rightarrow> False | Some content \<Rightarrow> now \<le> expires_at content))"
  by (simp add: LoadRDRC_def stored_def not_less split: option.splits)

lemma stored_SaveRDRC:
  "stored (SaveRDRC bf tn qn qt t s) tn' k =
     (if \<not> bf \<and> tn' = tn \<and> k = rdrc_key qn qt then Some (expires_bytes (t + rs_rdrcTimeout s)) else stored s tn' k)"
  by (simp add: SaveRDRC_def stored_def Let_def split: option.splits)

lemma saveRDRC_fields [simp]:
  "rs_saveRDRC (SaveRDRC bf tn qn qt t s) = rs_saveRDRC s"
  "stored (s\<lparr>rs_saveRDRC := m\<rparr>) tn k = stored s tn k"
  by (simp_all add: SaveRDRC_def stored_def Let_def)



end
