(* ===== verification/Varbin.thy ===== *)
theory Varbin
  imports Bytes
begin

unbundle bit_operations_syntax

text \<open>
  Readers and writers of binary formats: the part of Go's \<^verbatim>\<open>io\<close> and \<^verbatim>\<open>encoding/binary\<close> the formats of
  the repository use. A reader takes the bytes still to come and returns a value with the rest, an error, or
  panics. The locale \<open>codec\<close> is the contract of a format; its lemmas build codecs of lists.
\<close>

section \<open>Readers\<close>

type_synonym 'a reader = "bytes \<Rightarrow> ('a \<times> bytes) go_out"

definition rd_return :: "'a \<Rightarrow> 'a reader" where
  "rd_return x bs = Ok (x, bs)"

definition rd_fail :: "go_err \<Rightarrow> 'a reader" where
  "rd_fail e bs = Err e"

definition rd_bind :: "'a reader \<Rightarrow> ('a \<Rightarrow> 'b reader) \<Rightarrow> 'b reader" where
  "rd_bind r f bs = (case r bs of Ok (x, rest) \<Rightarrow> f x rest | Err e \<Rightarrow> Err e | Panic p \<Rightarrow> Panic p)"

abbreviation EOF :: go_err where "EOF \<equiv> ErrExt ''EOF''"
abbreviation ErrUnexpectedEOF :: go_err where "ErrUnexpectedEOF \<equiv> ErrExt ''unexpected EOF''"

fun rd_byte :: "8 word reader" where
  "rd_byte [] = Err EOF"
| "rd_byte (b # bs) = Ok (b, bs)"

text \<open>\<^verbatim>\<open>io.ReadFull\<close> into a buffer of that length.\<close>

definition ReadFull :: "nat \<Rightarrow> bytes reader" where
  "ReadFull n bs =
     (if n \<le> length bs then Ok (take n bs, drop n bs)
      else Err (if bs = [] then EOF else ErrUnexpectedEOF))"

text \<open>\<^verbatim>\<open>make([]T, length)\<close> with a length that is not a constant: it panics beyond what can be allocated.\<close>

definition rd_make :: "nat \<Rightarrow> nat \<Rightarrow> unit reader" where
  "rd_make limit n bs = (if n > limit then Panic ''runtime error: makeslice: len out of range'' else Ok ((), bs))"

text \<open>A loop that reads that many elements.\<close>

primrec rd_times :: "nat \<Rightarrow> 'a reader \<Rightarrow> 'a list reader" where
  "rd_times 0 r = rd_return []"
| "rd_times (Suc n) r = rd_bind r (\<lambda>x. rd_bind (rd_times n r) (\<lambda>xs. rd_return (x # xs)))"

text \<open>Fixed-width integers: \<^verbatim>\<open>binary.Read(reader, binary.BigEndian, &x)\<close>.\<close>

definition rd_be :: "nat \<Rightarrow> 'a::len word reader" where
  "rd_be n = rd_bind (ReadFull n) (\<lambda>b. rd_return (be_word b))"

definition rd_bool :: "bool reader" where
  "rd_bool = rd_bind rd_byte (\<lambda>b. rd_return (b \<noteq> 0))"

definition wr_bool :: "bool \<Rightarrow> bytes" where
  "wr_bool b = [if b then 1 else 0]"

section \<open>Variable-length integers\<close>

text \<open>\<^verbatim>\<open>binary.PutUvarint\<close>: seven bits a byte, the lowest first, all but the last with the top bit.\<close>

function PutUvarint :: "64 word \<Rightarrow> bytes" where
  "PutUvarint x = (if x < 128 then [ucast x] else (ucast x OR 128) # PutUvarint (drop_bit 7 x))"
  by pat_completeness auto

lemma drop_bit_7_less:
  fixes x :: "64 word"
  assumes "\<not> x < 128"
  shows "unat (drop_bit 7 x) = unat x div 128" and "128 \<le> unat x"
proof -
  show "128 \<le> unat x" using assms by (simp add: word_less_nat_alt)
  show "unat (drop_bit 7 x) = unat x div 128" unfolding unat_drop_bit_eq by (simp add: drop_bit_eq_div)
qed

termination PutUvarint
proof (relation "measure unat")
  fix x :: "64 word"
  assume "\<not> x < 128"
  then show "(drop_bit 7 x, x) \<in> measure unat" using drop_bit_7_less [of x] by simp
qed simp

declare PutUvarint.simps [simp del]

text \<open>
  \<^verbatim>\<open>binary.ReadUvarint\<close>. The first argument is the number of bytes that may still come (ten at the
  start), \<open>x\<close> the value so far and \<open>s\<close> the shift.
\<close>

primrec read_uvarint :: "nat \<Rightarrow> 64 word \<Rightarrow> nat \<Rightarrow> 64 word reader" where
  "read_uvarint 0 x s bs = Err (ErrExt ''binary: varint overflows a 64-bit integer'')"
| "read_uvarint (Suc n) x s bs =
     (case bs of
        [] \<Rightarrow> Err (if s > 0 then ErrUnexpectedEOF else EOF)
      | b # rest \<Rightarrow>
          if b < 128
          then (if n = 0 \<and> b > 1 then Err (ErrExt ''binary: varint overflows a 64-bit integer'')
                else Ok (x OR push_bit s (ucast b), rest))
          else read_uvarint n (x OR push_bit s (ucast (b AND 127))) (s + 7) rest)"

definition ReadUvarint :: "64 word reader" where
  "ReadUvarint = read_uvarint 10 0 0"

lemma byte_less_128:
  fixes b :: "8 word"
  shows "b < 128 \<longleftrightarrow> \<not> bit b 7"
proof -
  have "bit b 7 \<longleftrightarrow> odd (unat b div 128)"
    using bit_unsigned_iff [of b 7, where ?'a = nat] by (simp add: bit_iff_odd)
  moreover have "unat b < 256" using unsigned_less [of b, where ?'a = nat] by simp
  then have "unat b div 128 = (if unat b < 128 then 0 else 1)" by (auto intro: div_nat_eqI)
  ultimately show ?thesis by (simp add: word_less_nat_alt not_less)
qed

lemma uvarint_last:
  fixes v :: "64 word"
  assumes "v < 128"
  shows "(ucast (ucast v :: 8 word) :: 64 word) = v" and "(ucast v :: 8 word) < 128" and "unat (ucast v :: 8 word) = unat v"
proof -
  have u: "unat v < 128" using assms by (simp add: word_less_nat_alt)
  then show e: "unat (ucast v :: 8 word) = unat v" by (simp add: unsigned_ucast_eq unsigned_take_bit_eq take_bit_nat_eq_self)
  show "(ucast v :: 8 word) < 128" using u e by (simp add: word_less_nat_alt)
  have "unat (ucast (ucast v :: 8 word) :: 64 word) = unat v"
    using u e by (simp add: unsigned_ucast_eq unsigned_take_bit_eq take_bit_nat_eq_self)
  then show "(ucast (ucast v :: 8 word) :: 64 word) = v" by (rule unsigned_word_eqI)
qed

lemma uvarint_high:
  fixes v :: "64 word"
  shows "\<not> (ucast v OR 128 :: 8 word) < 128"
    and "(x OR push_bit s (ucast ((ucast v OR 128) AND 127 :: 8 word))) OR push_bit (s + 7) (drop_bit 7 v) = x OR push_bit s v"
proof -
  have bit128: "bit (128 :: 8 word) n \<longleftrightarrow> n = 7" for n using bit_push_bit_iff [of 7 "1 :: 8 word" n] by (auto simp: bit_simps)
  have bit127: "bit (127 :: 8 word) n \<longleftrightarrow> n < 7" for n using bit_mask_iff [of 7 n, where ?'a = "8 word"] by (auto simp: mask_eq_exp_minus_1)
  show "\<not> (ucast v OR 128 :: 8 word) < 128" by (simp add: byte_less_128 bit_or_iff bit128)
  show "(x OR push_bit s (ucast ((ucast v OR 128) AND 127 :: 8 word))) OR push_bit (s + 7) (drop_bit 7 v) = x OR push_bit s v"
  proof -
    define w :: "8 word" where "w = (ucast v OR 128) AND 127"
    have w: "bit w n \<longleftrightarrow> n < 7 \<and> bit v n" for n
      unfolding w_def bit_and_iff bit_or_iff bit128 bit127 by (auto simp: bit_ucast_iff)
    have "bit (push_bit s (ucast w :: 64 word)) n \<or> bit (push_bit (s + 7) (drop_bit 7 v)) n \<longleftrightarrow> bit (push_bit s v) n"
      if "n < 64" for n
    proof (cases "s + 7 \<le> n")
      case True
      then have "7 + (n - (s + 7)) = n - s" by simp
      then show ?thesis using True that by (auto simp: bit_push_bit_iff bit_drop_bit_eq bit_ucast_iff w)
    next
      case False
      then show ?thesis using that by (auto simp: bit_push_bit_iff bit_ucast_iff w)
    qed
    then have "(x OR push_bit s (ucast w)) OR push_bit (s + 7) (drop_bit 7 v) = x OR push_bit s v"
      by (intro bit_word_eqI) (simp add: bit_or_iff disj_assoc)
    then show ?thesis by (simp only: w_def)
  qed
qed

lemma read_uvarint_Put:
  "n \<le> 10 \<Longrightarrow> 0 < n \<Longrightarrow> s = 7 * (10 - n) \<Longrightarrow> unat v < 2 ^ (64 - s) \<Longrightarrow>
     read_uvarint n x s (PutUvarint v @ rest) = Ok (x OR push_bit s v, rest)"
proof (induction v arbitrary: n x s rule: PutUvarint.induct)
  case (1 v)
  obtain k where n: "n = Suc k" using 1(3) by (cases n) auto
  show ?case
  proof (cases "v < 128")
    case True
    have "unat (ucast v :: 8 word) \<le> 1" if "k = 0" using 1(4,5) n that uvarint_last(3) [OF True] by simp
    then have "\<not> (k = 0 \<and> (ucast v :: 8 word) > 1)" by (auto simp: word_less_nat_alt)
    then show ?thesis using True uvarint_last [OF True] by (simp add: n PutUvarint.simps [of v])
  next
    case False
    have big: "128 \<le> unat v" and half: "unat (drop_bit 7 v) = unat v div 128" using drop_bit_7_less [OF False] by auto
    have "(128::nat) < 2 ^ (64 - s)" using big 1(5) by simp
    then have "7 < 64 - s" using power_strict_increasing_iff [of "2::nat" 7 "64 - s"] by simp
    then have k: "0 < k" "k \<le> 10" "s + 7 = 7 * (10 - k)" and s: "64 - s = (64 - (s + 7)) + 7" using 1(2,4) n by auto
    have "unat v < 2 ^ (64 - (s + 7)) * 128" using 1(5) unfolding s power_add by simp
    then have "unat (drop_bit 7 v) < 2 ^ (64 - (s + 7))" unfolding half by (rule less_mult_imp_div_less)
    from 1(1) [OF False k(2,1,3) this, of "x OR push_bit s (ucast ((ucast v OR 128) AND 127 :: 8 word))"]
    show ?thesis using uvarint_high(1) [of v] uvarint_high(2) [where x = x and s = s and v = v] by (simp add: n PutUvarint.simps [of v] False)
  qed
qed

lemma ReadUvarint_Put: "ReadUvarint (PutUvarint v @ rest) = Ok (v, rest)"
  using read_uvarint_Put [of 10 0 v 0 rest] unsigned_less [of v, where ?'a = nat] by (simp add: ReadUvarint_def)

section \<open>Strings\<close>

definition bytes_of_string :: "string \<Rightarrow> bytes" where
  "bytes_of_string s = map of_char s"

definition string_of_bytes :: "bytes \<Rightarrow> string" where
  "string_of_bytes bs = map (\<lambda>b. char_of (unat b)) bs"

lemma byte_of_char: "unat (of_char c :: 8 word) = of_char c"
proof -
  have "of_char c < (256 :: nat)" by simp
  then have "unat (of_nat (of_char c) :: 8 word) = of_char c" by (simp add: unsigned_of_nat take_bit_nat_eq_self)
  then show ?thesis by (simp add: of_nat_of_char)
qed

lemma string_of_bytes_of_string [simp]: "string_of_bytes (bytes_of_string s) = s"
  by (simp add: bytes_of_string_def string_of_bytes_def byte_of_char comp_def)

lemma length_bytes_of_string [simp]: "length (bytes_of_string s) = length s"
  by (simp add: bytes_of_string_def)

section \<open>Codecs\<close>

lemma rd_bind_Ok: "r bs = Ok (x, rest) \<Longrightarrow> rd_bind r f bs = f x rest"
  by (simp add: rd_bind_def)

lemma rd_byte_bind [simp]: "rd_bind rd_byte f (b # bs) = f b bs"
  by (simp add: rd_bind_def)

lemma ReadFull_append [simp]: "length xs = n \<Longrightarrow> ReadFull n (xs @ rest) = Ok (xs, rest)"
  by (auto simp: ReadFull_def)

lemma rd_make_Ok: "n \<le> limit \<Longrightarrow> rd_make limit n bs = Ok ((), bs)"
  by (simp add: rd_make_def)

text \<open>
  A format: what is written for a value that is \<open>ok\<close> is read back, and what follows is left. With it lists
  of values and pairs can be read back.
\<close>

locale codec =
  fixes enc :: "'a \<Rightarrow> bytes" and dec :: "'a reader" and ok :: "'a \<Rightarrow> bool"
  assumes dec_enc: "ok x \<Longrightarrow> dec (enc x @ rest) = Ok (x, rest)"
begin

lemma dec_bind: "ok x \<Longrightarrow> rd_bind dec f (enc x @ rest) = f x rest"
  by (rule rd_bind_Ok) (rule dec_enc)

lemma dec_list:
  "\<forall>x \<in> set xs. ok x \<Longrightarrow> rd_times (length xs) dec (concat (map enc xs) @ rest) = Ok (xs, rest)"
  by (induction xs) (simp_all add: dec_bind, simp_all add: rd_bind_def rd_return_def)

lemma dec_list_bind:
  "\<forall>x \<in> set xs. ok x \<Longrightarrow> rd_bind (rd_times (length xs) dec) f (concat (map enc xs) @ rest) = f xs rest"
  by (rule rd_bind_Ok) (rule dec_list)

lemma enc_inj: "ok x \<Longrightarrow> ok y \<Longrightarrow> enc x = enc y \<Longrightarrow> x = y"
  using dec_enc [of x "[]"] dec_enc [of y "[]"] by simp

end

interpretation uvarint: codec PutUvarint ReadUvarint "\<lambda>_. True"
  by unfold_locales (rule ReadUvarint_Put)

interpretation bool_byte: codec wr_bool rd_bool "\<lambda>_. True"
  by unfold_locales (simp add: wr_bool_def rd_bool_def rd_bind_def rd_return_def)

interpretation byte: codec "\<lambda>b. [b]" rd_byte "\<lambda>_. True"
  by unfold_locales simp

interpretation be16: codec "be_bytes 2 :: 16 word \<Rightarrow> bytes" "rd_be 2" "\<lambda>_. True"
  by unfold_locales (simp add: rd_be_def rd_bind_def rd_return_def)

interpretation be64: codec "be_bytes 8 :: 64 word \<Rightarrow> bytes" "rd_be 8" "\<lambda>_. True"
  by unfold_locales (simp add: rd_be_def rd_bind_def rd_return_def)

text \<open>The length of a slice as it is written, and back.\<close>

lemma unat_of_length: "length xs < 2 ^ 64 \<Longrightarrow> unat (of_nat (length xs) :: 64 word) = length xs"
  by (simp add: unsigned_of_nat take_bit_nat_eq_self)

section \<open>Readers that only consume\<close>

text \<open>
  On inputs shorter than \<open>n\<close> the reader does not run out of fuel, and what it leaves is not longer than
  what it got. Loops with fuel are enough for all inputs if their bodies are steady.
\<close>

named_theorems steady_intros

definition steady :: "nat \<Rightarrow> 'a reader \<Rightarrow> bool" where
  "steady n r \<longleftrightarrow> (\<forall>bs. length bs < n \<longrightarrow>
     r bs \<noteq> Panic ''out of fuel'' \<and> (\<forall>x rest. r bs = Ok (x, rest) \<longrightarrow> length rest \<le> length bs))"

lemma steady_mono: "steady n r \<Longrightarrow> m \<le> n \<Longrightarrow> steady m r"
  by (simp add: steady_def)

lemma steady_basic [steady_intros]:
  "steady n (rd_return x)" "steady n (rd_fail e)" "steady n (ReadFull k)" "steady n (rd_make limit k)"
  by (auto simp: steady_def rd_return_def rd_fail_def ReadFull_def rd_make_def)

lemma steady_byte [steady_intros]: "steady n rd_byte"
  unfolding steady_def
proof (intro allI impI conjI)
  fix bs :: bytes
  show "rd_byte bs \<noteq> Panic ''out of fuel''" by (cases bs) simp_all
  show "rd_byte bs = Ok (x, rest) \<Longrightarrow> length rest \<le> length bs" for x rest by (cases bs) auto
qed

lemma steady_bind [steady_intros]: "steady n r \<Longrightarrow> (\<And>x. steady n (f x)) \<Longrightarrow> steady n (rd_bind r f)"
  unfolding steady_def rd_bind_def by (auto split: go_out.splits) (meson le_less_trans order_trans)+

lemma steady_byte_bind: "(\<And>b. steady n (f b)) \<Longrightarrow> steady (Suc n) (rd_bind rd_byte f)"
  unfolding steady_def
proof (intro allI impI)
  fix bs :: bytes
  assume f: "\<And>b. \<forall>bs. length bs < n \<longrightarrow> f b bs \<noteq> Panic ''out of fuel'' \<and> (\<forall>x rest. f b bs = Ok (x, rest) \<longrightarrow> length rest \<le> length bs)"
    and "length bs < Suc n"
  then show "rd_bind rd_byte f bs \<noteq> Panic ''out of fuel'' \<and> (\<forall>x rest. rd_bind rd_byte f bs = Ok (x, rest) \<longrightarrow> length rest \<le> length bs)"
    by (cases bs) (auto simp: rd_bind_def [of rd_byte f "[]"] intro: le_SucI)
qed

lemma steady_times [steady_intros]: "steady n r \<Longrightarrow> steady n (rd_times k r)"
  by (induction k) (auto intro!: steady_intros)

lemma steady_if [steady_intros]: "steady n r \<Longrightarrow> steady n r' \<Longrightarrow> steady n (if c then r else r')"
  by simp

lemma steady_be [steady_intros]: "steady n (rd_be k)" and steady_bool [steady_intros]: "steady n rd_bool"
  unfolding rd_be_def rd_bool_def by (auto intro!: steady_intros)

lemma steady_uvarint [steady_intros]: "steady n ReadUvarint"
proof -
  have "read_uvarint k x s bs \<noteq> Panic ''out of fuel'' \<and>
      (\<forall>y rest. read_uvarint k x s bs = Ok (y, rest) \<longrightarrow> length rest \<le> length bs)" for k x s bs
  proof (induction k arbitrary: x s bs)
    case (Suc k)
    show ?case
    proof (cases bs)
      case (Cons b bs')
      from Suc.IH [of "x OR push_bit s (ucast (b AND 127))" "s + 7" bs'] show ?thesis by (auto simp: Cons)
    qed simp
  qed simp
  then show ?thesis by (simp add: steady_def ReadUvarint_def)
qed

end
