(* ===== verification/Binary_Forms.thy ===== *)
theory Binary_Forms
  imports FakeIP Varbin
begin

text \<open>
  The two binary forms of package \<^verbatim>\<open>adapter\<close>: \<^verbatim>\<open>FakeIPMetadata\<close> (\<^verbatim>\<open>adapter/fakeip_metadata.go\<close>) and
  \<^verbatim>\<open>SavedBinary\<close> (\<^verbatim>\<open>adapter/experimental.go\<close>), with the binary forms of \<^verbatim>\<open>net/netip\<close> they use.
\<close>

section \<open>Addresses and prefixes\<close>

text \<open>\<^verbatim>\<open>netip.Addr.MarshalBinary\<close> and \<^verbatim>\<open>UnmarshalBinary\<close>: the zone follows the sixteen bytes.\<close>

fun addr_Marshal :: "addr \<Rightarrow> bytes" where
  "addr_Marshal (Addr6 a z) = be_bytes 16 a @ bytes_of_string z"
| "addr_Marshal a = addr_AsSlice a"

definition addr_Unmarshal :: "bytes \<Rightarrow> go_err + addr" where
  "addr_Unmarshal b =
     (if length b = 0 then Inr NoAddr
      else if length b = 4 then Inr (Addr4 (be_word b))
      else if 16 \<le> length b then Inr (Addr6 (be_word (take 16 b)) (string_of_bytes (drop 16 b)))
      else Inl (ErrExt ''unexpected slice size''))"

definition prefix_Marshal :: "prefix \<Rightarrow> bytes" where
  "prefix_Marshal p = addr_AsSlice (px_addr p) @ [word_of_int (px_bits p)]"

definition prefix_Unmarshal :: "bytes \<Rightarrow> go_err + prefix" where
  "prefix_Unmarshal b =
     (if b = [] then Inl (ErrExt ''unexpected slice size'')
      else case addr_Unmarshal (butlast b) of
        Inl e \<Rightarrow> Inl e
      | Inr a \<Rightarrow> Inr (PrefixFrom a (uint (last b))))"

lemma addr_Unmarshal_Marshal: "addr_Unmarshal (addr_Marshal a) = Inr a"
  by (cases a) (simp_all add: addr_Unmarshal_def)

text \<open>Prefixes as the package makes them: no zone, and a length that fits the address or -1.\<close>

definition prefix_fits :: "prefix \<Rightarrow> bool" where
  "prefix_fits p \<longleftrightarrow> \<not> addr_hasZone (px_addr p) \<and>
     (px_bits p = -1 \<or> px_addr p \<noteq> NoAddr \<and> 0 \<le> px_bits p \<and> px_bits p \<le> addr_BitLen (px_addr p))"

text \<open>The invalid prefix (length -1) is written with the length 255 and read back as invalid.\<close>

lemma PrefixFrom_fits:
  assumes "prefix_fits p"
  shows "PrefixFrom (px_addr p) (uint (word_of_int (px_bits p) :: 8 word)) = p"
proof -
  have "px_bits p \<le> 128" using assms by (cases "px_addr p") (auto simp: prefix_fits_def)
  then have "px_bits p \<noteq> -1 \<Longrightarrow> uint (word_of_int (px_bits p) :: 8 word) = px_bits p"
    using assms by (auto simp: prefix_fits_def unsigned_of_int take_bit_int_eq_self)
  moreover have "px_bits p = -1 \<Longrightarrow> uint (word_of_int (px_bits p) :: 8 word) = 255"
    by (simp add: unsigned_minus_1_eq_mask mask_eq_exp_minus_1)
  ultimately show ?thesis using assms
    by (cases "px_addr p"; cases p) (auto simp: prefix_fits_def PrefixFrom_def)
qed

lemma prefix_Unmarshal_Marshal: "prefix_fits p \<Longrightarrow> prefix_Unmarshal (prefix_Marshal p) = Inr p"
proof -
  assume p: "prefix_fits p"
  then have "addr_Marshal (px_addr p) = addr_AsSlice (px_addr p)"
    by (cases "px_addr p") (auto simp: prefix_fits_def bytes_of_string_def)
  then show ?thesis using addr_Unmarshal_Marshal [of "px_addr p"] PrefixFrom_fits [OF p]
    by (simp add: prefix_Unmarshal_def prefix_Marshal_def)
qed

section \<open>Fake-IP metadata\<close>

definition wr_element :: "bytes \<Rightarrow> bytes" where
  "wr_element data = be_bytes 2 (of_nat (length data) :: 16 word) @ data"

definition metadata_Marshal :: "fakeip_metadata \<Rightarrow> bytes" where
  "metadata_Marshal m =
     wr_element (prefix_Marshal (fm_Inet4Range m)) @ wr_element (prefix_Marshal (fm_Inet6Range m)) @
     wr_element (addr_Marshal (fm_Inet4Current m)) @ wr_element (addr_Marshal (fm_Inet6Current m))"

text \<open>
  One turn of the loop of \<^verbatim>\<open>UnmarshalBinary\<close>: \<^verbatim>\<open>common.Must\<close> turns an error of reading the length into a
  panic.
\<close>

definition rd_must :: "'a reader \<Rightarrow> 'a reader" where
  "rd_must r bs = (case r bs of Err e \<Rightarrow> Panic ''common.Must'' | x \<Rightarrow> x)"

definition rd_element :: "(bytes \<Rightarrow> go_err + 'a) \<Rightarrow> 'a reader" where
  "rd_element unmarshal =
     rd_bind (rd_must (rd_be 2)) (\<lambda>n :: 16 word. rd_bind (ReadFull (unat n)) (\<lambda>element.
       case unmarshal element of Inl e \<Rightarrow> rd_fail e | Inr x \<Rightarrow> rd_return x))"

definition metadata_Unmarshal :: "bytes \<Rightarrow> fakeip_metadata go_out" where
  "metadata_Unmarshal data =
     (case rd_bind (rd_element prefix_Unmarshal) (\<lambda>r4. rd_bind (rd_element prefix_Unmarshal) (\<lambda>r6.
             rd_bind (rd_element addr_Unmarshal) (\<lambda>c4. rd_bind (rd_element addr_Unmarshal) (\<lambda>c6.
               rd_return \<lparr>fm_Inet4Range = r4, fm_Inet6Range = r6, fm_Inet4Current = c4, fm_Inet6Current = c6\<rparr>)))) data of
        Ok (m, _) \<Rightarrow> Ok m | Err e \<Rightarrow> Err e | Panic p \<Rightarrow> Panic p)"

lemma element_codec:
  assumes "\<And>x. ok x \<Longrightarrow> unmarshal (marshal x) = Inr x" and "\<And>x. ok x \<Longrightarrow> length (marshal x) < 65536"
  shows "codec (\<lambda>x. wr_element (marshal x)) (rd_element unmarshal) ok"
proof
  fix x rest
  assume x: "ok x"
  have "unat (of_nat (length (marshal x)) :: 16 word) = length (marshal x)"
    using assms(2) [OF x] by (simp add: unsigned_of_nat take_bit_nat_eq_self)
  then show "rd_element unmarshal (wr_element (marshal x) @ rest) = Ok (x, rest)"
    using be16.dec_enc [of "of_nat (length (marshal x))" "marshal x @ rest"] assms(1) [OF x]
    by (simp add: rd_element_def wr_element_def rd_bind_def rd_must_def rd_return_def)
qed

definition addr_fits :: "addr \<Rightarrow> bool" where
  "addr_fits a \<longleftrightarrow> length (addr_Marshal a) < 65536"

interpretation prefix_element: codec "\<lambda>p. wr_element (prefix_Marshal p)" "rd_element prefix_Unmarshal" prefix_fits
proof (rule element_codec [OF prefix_Unmarshal_Marshal])
  fix p
  show "length (prefix_Marshal p) < 65536" by (cases "px_addr p") (simp_all add: prefix_Marshal_def)
qed

interpretation addr_element: codec "\<lambda>a. wr_element (addr_Marshal a)" "rd_element addr_Unmarshal" addr_fits
  by (rule element_codec [OF addr_Unmarshal_Marshal]) (simp add: addr_fits_def)

lemma metadata_roundtrip:
  assumes "prefix_fits (fm_Inet4Range m)" and "prefix_fits (fm_Inet6Range m)" and "addr_fits (fm_Inet4Current m)"
    and "addr_fits (fm_Inet6Current m)"
  shows "metadata_Unmarshal (metadata_Marshal m) = Ok m"
  using assms
  by (simp add: metadata_Unmarshal_def metadata_Marshal_def prefix_element.dec_bind addr_element.dec_bind
      addr_element.dec_bind [where rest = "[]", simplified] rd_return_def)

text \<open>Data that is cut before a length makes it panic.\<close>

lemma metadata_Unmarshal_short: "length data < 2 \<Longrightarrow> metadata_Unmarshal data = Panic ''common.Must''"
  by (simp add: metadata_Unmarshal_def rd_element_def rd_bind_def rd_must_def rd_be_def ReadFull_def)

section \<open>Saved binaries\<close>

record saved_binary =
  sv_Content :: bytes
  sv_LastUpdated :: int
  sv_LastEtag :: string

text \<open>Times are nanoseconds; \<open>WriteUvarint\<close> is that of \<^verbatim>\<open>varbin\<close>.\<close>

definition saved_Marshal :: "(64 word \<Rightarrow> bytes) \<Rightarrow> saved_binary \<Rightarrow> bytes" where
  "saved_Marshal WriteUvarint s =
     [1] @ WriteUvarint (of_nat (length (sv_Content s))) @ sv_Content s @
     be_bytes 8 (word_of_int (sv_LastUpdated s div 1000000000) :: 64 word) @
     WriteUvarint (of_nat (length (sv_LastEtag s))) @ bytes_of_string (sv_LastEtag s)"

text \<open>The version is read and not looked at. \<open>limit\<close> bounds what \<^verbatim>\<open>make\<close> allocates.\<close>

definition rd_slice :: "nat \<Rightarrow> bytes reader" where
  "rd_slice limit = rd_bind ReadUvarint (\<lambda>n. rd_bind (rd_make limit (unat n)) (\<lambda>_. ReadFull (unat n)))"

definition saved_Unmarshal :: "nat \<Rightarrow> bytes \<Rightarrow> saved_binary go_out" where
  "saved_Unmarshal limit data =
     (case rd_bind rd_byte (\<lambda>version. rd_bind (rd_slice limit) (\<lambda>content. rd_bind (rd_be 8) (\<lambda>lastUpdated :: 64 word.
             rd_bind (rd_slice limit) (\<lambda>etag.
               rd_return \<lparr>sv_Content = content, sv_LastUpdated = sint lastUpdated * 1000000000,
                          sv_LastEtag = string_of_bytes etag\<rparr>)))) data of
        Ok (s, _) \<Rightarrow> Ok s | Err e \<Rightarrow> Err e | Panic p \<Rightarrow> Panic p)"

lemma slice_codec:
  assumes "limit < 2 ^ 64"
  shows "codec (\<lambda>b. PutUvarint (of_nat (length b)) @ b) (rd_slice limit) (\<lambda>b. length b \<le> limit)"
proof
  fix b rest
  assume b: "length (b :: bytes) \<le> limit"
  then have "unat (of_nat (length b) :: 64 word) = length b" using assms by (intro unat_of_length) simp
  then show "rd_slice limit ((PutUvarint (of_nat (length b)) @ b) @ rest) = Ok (b, rest)"
    using b by (simp add: rd_slice_def uvarint.dec_bind rd_bind_def [of "rd_make _ _"] rd_make_def)
qed

text \<open>What is read back has its time in whole seconds.\<close>

lemma saved_roundtrip:
  assumes "limit < 2 ^ 64" and "length (sv_Content s) \<le> limit" and "length (sv_LastEtag s) \<le> limit"
    and "- (2 ^ 63) \<le> sv_LastUpdated s div 1000000000" and "sv_LastUpdated s div 1000000000 < 2 ^ 63"
  shows "saved_Unmarshal limit (saved_Marshal PutUvarint s) =
    Ok (s\<lparr>sv_LastUpdated := sv_LastUpdated s div 1000000000 * 1000000000\<rparr>)"
proof -
  have time: "sint (word_of_int (sv_LastUpdated s div 1000000000) :: 64 word) = sv_LastUpdated s div 1000000000"
    using assms(4,5) by (simp add: signed_of_int signed_take_bit_int_eq_self)
  note content = codec.dec_bind [OF slice_codec [OF assms(1)], of "sv_Content s", OF assms(2), simplified]
  note etag = codec.dec_bind [OF slice_codec [OF assms(1)], of "bytes_of_string (sv_LastEtag s)" _ "[]", simplified, OF assms(3)]
  show ?thesis
    by (simp add: saved_Unmarshal_def saved_Marshal_def content be64.dec_bind etag rd_return_def time)
qed

end
