(* ===== verification/Cache_File.thy ===== *)
theory Cache_File
  imports Binary_Forms FakeIP_Theorems
begin

text \<open>
  \<^verbatim>\<open>experimental/cachefile\<close>: the data base of the cache file and what the program keeps in it. A
  data base of \<^verbatim>\<open>bbolt\<close> is a map of buckets; a bucket has keys with values, and buckets of its own. A
  transaction whose function returns an error is rolled back; an empty key is refused, deleting a bucket
  that does not exist is an error.
\<close>

section \<open>The data base\<close>

type_synonym kv = "bytes \<Rightarrow> bytes option"

record db_bucket =
  db_keys :: kv
  db_subs :: "(bytes \<times> kv) list"

type_synonym database = "bytes \<Rightarrow> db_bucket option"

definition NewBucket :: db_bucket where
  "NewBucket = \<lparr>db_keys = Map.empty, db_subs = []\<rparr>"

definition kv_Put :: "bytes \<Rightarrow> bytes \<Rightarrow> kv \<Rightarrow> go_err + kv" where
  "kv_Put k v m = (if k = [] then Inl (ErrExt ''key required'') else Inr (m(k \<mapsto> v)))"

definition tx_DeleteBucket :: "bytes \<Rightarrow> database \<Rightarrow> go_err + database" where
  "tx_DeleteBucket name db = (if db name = None then Inl (ErrExt ''bucket not found'') else Inr (db(name := None)))"

definition CreateBucketIfNotExists :: "bytes \<Rightarrow> database \<Rightarrow> db_bucket" where
  "CreateBucketIfNotExists name db = (case db name of Some b \<Rightarrow> b | None \<Rightarrow> NewBucket)"

text \<open>A change of the keys of a top-level bucket that is created if it is not there.\<close>

definition on_bucket :: "bytes \<Rightarrow> (kv \<Rightarrow> go_err + kv) \<Rightarrow> database \<Rightarrow> go_err + database" where
  "on_bucket name f db =
     (let b = CreateBucketIfNotExists name db
      in case f (db_keys b) of Inl e \<Rightarrow> Inl e | Inr m \<Rightarrow> Inr (db(name \<mapsto> b\<lparr>db_keys := m\<rparr>)))"

section \<open>The cache file\<close>

definition bucketSelected :: bytes where "bucketSelected = bytes_of_string ''selected''"
definition bucketExpand :: bytes where "bucketExpand = bytes_of_string ''group_expand''"
definition bucketMode :: bytes where "bucketMode = bytes_of_string ''clash_mode''"
definition bucketRuleSet :: bytes where "bucketRuleSet = bytes_of_string ''rule_set''"
definition bucketRDRC :: bytes where "bucketRDRC = bytes_of_string ''rdrc2''"
definition fakeipBucketPrefix :: bytes where "fakeipBucketPrefix = bytes_of_string ''fakeip_''"
definition bucketFakeIP :: bytes where "bucketFakeIP = fakeipBucketPrefix @ bytes_of_string ''address''"
definition bucketFakeIPDomain4 :: bytes where "bucketFakeIPDomain4 = fakeipBucketPrefix @ bytes_of_string ''domain4''"
definition bucketFakeIPDomain6 :: bytes where "bucketFakeIPDomain6 = fakeipBucketPrefix @ bytes_of_string ''domain6''"
definition keyMetadata :: bytes where "keyMetadata = fakeipBucketPrefix @ bytes_of_string ''metadata''"
definition cacheIDDefault :: bytes where "cacheIDDefault = bytes_of_string ''default''"

definition bucketNameList :: "bytes list" where
  "bucketNameList = [bucketSelected, bucketExpand, bucketMode, bucketRuleSet, bucketRDRC]"

text \<open>
  An empty \<open>ch_cacheID\<close> is the nil slice; the maps of pending writes are those of the fake-IP store;
  \<open>ch_saveMetadata\<close> is the timer of \<^verbatim>\<open>FakeIPSaveMetadataAsync\<close>. \<open>BasePath\<close> is that of the file manager.
\<close>

record cache_file =
  ch_path :: string
  ch_cacheID :: bytes
  ch_storeFakeIP :: bool
  ch_storeRDRC :: bool
  ch_rdrcTimeout :: int
  ch_DB :: database
  ch_saveDomain :: "addr \<Rightarrow> string option"
  ch_saveAddress4 :: "string \<Rightarrow> addr option"
  ch_saveAddress6 :: "string \<Rightarrow> addr option"
  ch_saveMetadata :: metadata_writer

definition NewCacheFile :: "(string \<Rightarrow> string) \<Rightarrow> string \<Rightarrow> string \<Rightarrow> bool \<Rightarrow> bool \<Rightarrow> int \<Rightarrow> cache_file" where
  "NewCacheFile BasePath path cacheID storeFakeIP storeRDRC rdrcTimeout =
     \<lparr>ch_path = BasePath (if path \<noteq> [] then path else ''cache.db''),
      ch_cacheID = (if cacheID \<noteq> [] then 0 # bytes_of_string cacheID else []),
      ch_storeFakeIP = storeFakeIP, ch_storeRDRC = storeRDRC,
      ch_rdrcTimeout = (if storeRDRC then if rdrcTimeout > 0 then rdrcTimeout else 7 * 24 * 3600 * 1000000000 else 0),
      ch_DB = Map.empty, ch_saveDomain = Map.empty, ch_saveAddress4 = Map.empty, ch_saveAddress6 = Map.empty,
      ch_saveMetadata = NewMetadataWriter\<rparr>"

text \<open>
  What \<^verbatim>\<open>Start\<close> removes from the opened data base: unknown top-level buckets. In the bucket of a cache id the
  code deletes, for every unknown bucket in it, the bucket named like the cache id itself.
\<close>

definition clean_db :: "database \<Rightarrow> database" where
  "clean_db db name =
     (case db name of
        None \<Rightarrow> None
      | Some b \<Rightarrow>
          if name \<noteq> [] \<and> hd name = 0
          then Some (if list_ex (\<lambda>s. fst s \<notin> set bucketNameList) (db_subs b)
                     then b\<lparr>db_subs := filter (\<lambda>s. fst s \<noteq> name) (db_subs b)\<rparr> else b)
          else if name \<in> set bucketNameList \<or> take (length fakeipBucketPrefix) name = fakeipBucketPrefix then Some b
          else None)"

text \<open>
  The data base is opened in at most ten attempts: \<open>attempt i\<close> is what the i-th one gives, \<open>removed i\<close> whether
  a file with a bad header could be removed after it.
\<close>

datatype open_error = OpenTimeout | OpenCorrupt | OpenFailed

fun open_db :: "(nat \<Rightarrow> open_error + database) \<Rightarrow> (nat \<Rightarrow> bool) \<Rightarrow> nat \<Rightarrow> nat \<Rightarrow> open_error + database" where
  "open_db attempt removed i left =
     (case attempt i of
        Inr db \<Rightarrow> Inr db
      | Inl e \<Rightarrow>
          if e = OpenCorrupt \<and> \<not> removed i then Inl e
          else (case left of 0 \<Rightarrow> Inl e | Suc n \<Rightarrow> open_db attempt removed (Suc i) n))"

definition ch_Start ::
  "(nat \<Rightarrow> open_error + database) \<Rightarrow> (nat \<Rightarrow> bool) \<Rightarrow> bool \<Rightarrow> bool \<Rightarrow> start_stage \<Rightarrow> cache_file \<Rightarrow> unit go_out \<times> cache_file" where
  "ch_Start attempt removed chownFails batchFails stage c =
     (if stage \<noteq> StartStateInitialize then (Ok (), c)
      else case open_db attempt removed 0 9 of
        Inl e \<Rightarrow> (Err (ErrExt ''open''), c)
      | Inr db \<Rightarrow>
          if chownFails then (Err (ErrCause (ErrExt ''chown'') [''platform chown'']), c)
          else if batchFails then (Err (ErrExt ''batch''), c)
          else (Ok (), c\<lparr>ch_DB := clean_db db\<rparr>))"

definition ch_batch :: "(database \<Rightarrow> go_err + database) \<Rightarrow> cache_file \<Rightarrow> go_err option \<times> cache_file" where
  "ch_batch f c = (case f (ch_DB c) of Inl e \<Rightarrow> (Some e, c) | Inr db \<Rightarrow> (None, c\<lparr>ch_DB := db\<rparr>))"

text \<open>The keys of a bucket of this cache id, and a change of them.\<close>

definition ch_bucket :: "cache_file \<Rightarrow> bytes \<Rightarrow> kv option" where
  "ch_bucket c key =
     (if ch_cacheID c = [] then map_option db_keys (ch_DB c key)
      else case ch_DB c (ch_cacheID c) of None \<Rightarrow> None | Some b \<Rightarrow> map_of (db_subs b) key)"

definition ch_createBucket :: "cache_file \<Rightarrow> bytes \<Rightarrow> (kv \<Rightarrow> go_err + kv) \<Rightarrow> database \<Rightarrow> go_err + database" where
  "ch_createBucket c key f db =
     (if ch_cacheID c = [] then on_bucket key f db
      else
        let b = CreateBucketIfNotExists (ch_cacheID c) db;
            sub = (case map_of (db_subs b) key of Some m \<Rightarrow> m | None \<Rightarrow> Map.empty)
        in case f sub of
             Inl e \<Rightarrow> Inl e
           | Inr m \<Rightarrow> Inr (db(ch_cacheID c \<mapsto> b\<lparr>db_subs := (key, m) # filter (\<lambda>s. fst s \<noteq> key) (db_subs b)\<rparr>)))"

section \<open>What is stored\<close>

definition mode_key :: "cache_file \<Rightarrow> bytes" where
  "mode_key c = (if length (ch_cacheID c) > 0 then ch_cacheID c else cacheIDDefault)"

definition LoadMode :: "cache_file \<Rightarrow> string" where
  "LoadMode c =
     (case ch_DB c bucketMode of
        None \<Rightarrow> []
      | Some b \<Rightarrow> (case db_keys b (mode_key c) of None \<Rightarrow> [] | Some modeBytes \<Rightarrow> string_of_bytes modeBytes))"

definition StoreMode :: "string \<Rightarrow> cache_file \<Rightarrow> go_err option \<times> cache_file" where
  "StoreMode mode c = ch_batch (on_bucket bucketMode (kv_Put (mode_key c) (bytes_of_string mode))) c"

definition ch_LoadSelected :: "string \<Rightarrow> cache_file \<Rightarrow> string" where
  "ch_LoadSelected grp c =
     (case ch_bucket c bucketSelected of
        None \<Rightarrow> []
      | Some bucket \<Rightarrow> (case bucket (bytes_of_string grp) of None \<Rightarrow> [] | Some b \<Rightarrow> string_of_bytes b))"

definition ch_StoreSelected :: "string \<Rightarrow> string \<Rightarrow> cache_file \<Rightarrow> go_err option \<times> cache_file" where
  "ch_StoreSelected grp selected c =
     ch_batch (ch_createBucket c bucketSelected (kv_Put (bytes_of_string grp) (bytes_of_string selected))) c"

definition LoadGroupExpand :: "string \<Rightarrow> cache_file \<Rightarrow> bool \<times> bool" where
  "LoadGroupExpand grp c =
     (case ch_bucket c bucketExpand of
        None \<Rightarrow> (False, False)
      | Some bucket \<Rightarrow>
          (case bucket (bytes_of_string grp) of
             Some [b] \<Rightarrow> (b = 1, True)
           | _ \<Rightarrow> (False, False)))"

definition StoreGroupExpand :: "string \<Rightarrow> bool \<Rightarrow> cache_file \<Rightarrow> go_err option \<times> cache_file" where
  "StoreGroupExpand grp isExpand c =
     ch_batch (ch_createBucket c bucketExpand (kv_Put (bytes_of_string grp) [if isExpand then 1 else 0])) c"

text \<open>A panic in a transaction (here of \<^verbatim>\<open>make\<close>) is recovered: the data base is reset and the result is nil.\<close>

definition LoadRuleSet :: "nat \<Rightarrow> string \<Rightarrow> cache_file \<Rightarrow> saved_binary option \<times> cache_file" where
  "LoadRuleSet limit tag c =
     (case ch_bucket c bucketRuleSet of
        None \<Rightarrow> (None, c)
      | Some bucket \<Rightarrow>
          (case bucket (bytes_of_string tag) of
             None \<Rightarrow> (None, c)
           | Some setBinary \<Rightarrow>
               if setBinary = [] then (None, c)
               else (case saved_Unmarshal limit setBinary of
                       Ok s \<Rightarrow> (Some s, c)
                     | Err _ \<Rightarrow> (None, c)
                     | Panic _ \<Rightarrow> (None, c\<lparr>ch_DB := Map.empty\<rparr>))))"

definition SaveRuleSet :: "(64 word \<Rightarrow> bytes) \<Rightarrow> string \<Rightarrow> saved_binary \<Rightarrow> cache_file \<Rightarrow> go_err option \<times> cache_file" where
  "SaveRuleSet WriteUvarint tag s c =
     ch_batch (ch_createBucket c bucketRuleSet (kv_Put (bytes_of_string tag) (saved_Marshal WriteUvarint s))) c"

section \<open>Fake addresses\<close>

text \<open>\<^verbatim>\<open>FakeIPMetadata\<close> also deletes the metadata; if it cannot be decoded the deletion is rolled back.\<close>

definition ch_FakeIPMetadata :: "cache_file \<Rightarrow> fakeip_metadata option \<times> cache_file" where
  "ch_FakeIPMetadata c =
     (case ch_DB c bucketFakeIP of
        None \<Rightarrow> (None, c)
      | Some b \<Rightarrow>
          (case db_keys b keyMetadata of
             None \<Rightarrow> (None, c)
           | Some metadataBinary \<Rightarrow>
               if metadataBinary = [] then (None, c)
               else (case metadata_Unmarshal metadataBinary of
                       Ok m \<Rightarrow> (Some m, c\<lparr>ch_DB := (ch_DB c)(bucketFakeIP \<mapsto> b\<lparr>db_keys := (db_keys b)(keyMetadata := None)\<rparr>)\<rparr>)
                     | Err _ \<Rightarrow> (None, c)
                     | Panic _ \<Rightarrow> (None, c\<lparr>ch_DB := Map.empty\<rparr>))))"

definition ch_FakeIPSaveMetadata :: "fakeip_metadata \<Rightarrow> cache_file \<Rightarrow> go_err option \<times> cache_file" where
  "ch_FakeIPSaveMetadata m c = ch_batch (on_bucket bucketFakeIP (kv_Put keyMetadata (metadata_Marshal m))) c"

definition ch_FakeIPSaveMetadataAsync :: "fakeip_metadata \<Rightarrow> cache_file \<Rightarrow> cache_file" where
  "ch_FakeIPSaveMetadataAsync m c = c\<lparr>ch_saveMetadata := cf_FakeIPSaveMetadataAsync m (ch_saveMetadata c)\<rparr>"

text \<open>The timer of the delayed save fires; the error of the write is dropped.\<close>

definition ch_timer_fires :: "cache_file \<Rightarrow> cache_file" where
  "ch_timer_fires c =
     (let w = cf_timer_fires (ch_saveMetadata c);
          c1 = c\<lparr>ch_saveMetadata := w\<rparr>
      in case cf_saveMetadataTimer w of
           Some m \<Rightarrow> if cf_armed (ch_saveMetadata c) then snd (ch_FakeIPSaveMetadata m c1) else c1
         | None \<Rightarrow> c1)"

definition domain_bucket :: "bool \<Rightarrow> bytes" where
  "domain_bucket isIPv6 = (if isIPv6 then bucketFakeIPDomain6 else bucketFakeIPDomain4)"

definition ch_FakeIPStore :: "addr \<Rightarrow> string \<Rightarrow> cache_file \<Rightarrow> go_err option \<times> cache_file" where
  "ch_FakeIPStore address domain c =
     ch_batch (\<lambda>db.
       let oldDomain = db_keys (CreateBucketIfNotExists bucketFakeIP db) (addr_AsSlice address)
       in case on_bucket bucketFakeIP (kv_Put (addr_AsSlice address) (bytes_of_string domain)) db of
            Inl e \<Rightarrow> Inl e
          | Inr db1 \<Rightarrow>
              on_bucket (domain_bucket (\<not> addr_Is4 address))
                (\<lambda>m. kv_Put (bytes_of_string domain) (addr_AsSlice address)
                   (case oldDomain of None \<Rightarrow> m | Some d \<Rightarrow> m(d := None))) db1) c"

text \<open>The maps of pending writes, and the goroutine that does one of them.\<close>

definition save_address :: "bool \<Rightarrow> ((string \<Rightarrow> addr option) \<Rightarrow> string \<Rightarrow> addr option) \<Rightarrow> cache_file \<Rightarrow> cache_file" where
  "save_address isIPv6 f c =
     (if isIPv6 then c\<lparr>ch_saveAddress6 := f (ch_saveAddress6 c)\<rparr> else c\<lparr>ch_saveAddress4 := f (ch_saveAddress4 c)\<rparr>)"

definition ch_FakeIPStoreAsync :: "addr \<Rightarrow> string \<Rightarrow> cache_file \<Rightarrow> cache_file" where
  "ch_FakeIPStoreAsync address domain c =
     (let c1 = (case ch_saveDomain c address of
                  None \<Rightarrow> c
                | Some oldDomain \<Rightarrow> save_address (\<not> addr_Is4 address) (\<lambda>m. m(oldDomain := None)) c);
          c2 = c1\<lparr>ch_saveDomain := (ch_saveDomain c1)(address \<mapsto> domain)\<rparr>
      in save_address (\<not> addr_Is4 address) (\<lambda>m. m(domain \<mapsto> address)) c2)"

definition store_goroutine :: "addr \<Rightarrow> string \<Rightarrow> cache_file \<Rightarrow> cache_file" where
  "store_goroutine address domain c =
     (let c1 = snd (ch_FakeIPStore address domain c);
          c2 = c1\<lparr>ch_saveDomain := (ch_saveDomain c1)(address := None)\<rparr>
      in save_address (\<not> addr_Is4 address) (\<lambda>m. m(domain := None)) c2)"

definition ch_FakeIPLoad :: "cache_file \<Rightarrow> addr \<Rightarrow> string option" where
  "ch_FakeIPLoad c address =
     (case ch_saveDomain c address of
        Some cachedDomain \<Rightarrow> Some cachedDomain
      | None \<Rightarrow>
          (case ch_DB c bucketFakeIP of
             None \<Rightarrow> None
           | Some b \<Rightarrow>
               (case db_keys b (addr_AsSlice address) of
                  None \<Rightarrow> None
                | Some d \<Rightarrow> if d = [] then None else Some (string_of_bytes d))))"

text \<open>\<open>AddrFromIP\<close> is that of \<^verbatim>\<open>sing/common/metadata\<close>; the bytes of a missing key are the empty slice.\<close>

definition ch_FakeIPLoadDomain :: "(bytes \<Rightarrow> addr) \<Rightarrow> cache_file \<Rightarrow> string \<Rightarrow> bool \<Rightarrow> addr option" where
  "ch_FakeIPLoadDomain AddrFromIP c domain isIPv6 =
     (case (if isIPv6 then ch_saveAddress6 c else ch_saveAddress4 c) domain of
        Some cachedAddress \<Rightarrow> Some cachedAddress
      | None \<Rightarrow>
          (case ch_DB c (domain_bucket isIPv6) of
             None \<Rightarrow> None
           | Some b \<Rightarrow>
               let address = AddrFromIP (case db_keys b (bytes_of_string domain) of None \<Rightarrow> [] | Some v \<Rightarrow> v)
               in if addr_IsValid address then Some address else None))"

definition ch_FakeIPReset :: "cache_file \<Rightarrow> go_err option \<times> cache_file" where
  "ch_FakeIPReset c =
     ch_batch (\<lambda>db. case tx_DeleteBucket bucketFakeIP db of
         Inl e \<Rightarrow> Inl e
       | Inr db1 \<Rightarrow> (case tx_DeleteBucket bucketFakeIPDomain4 db1 of
             Inl e \<Rightarrow> Inl e
           | Inr db2 \<Rightarrow> tx_DeleteBucket bucketFakeIPDomain6 db2)) c"

end
