(* ===== verification/Cache_Storage.thy ===== *)
theory Cache_Storage
  imports Cache_File
begin

text \<open>
  The cache file as the storage of the fake-IP store: at rest, with every asynchronous write followed at once
  by its goroutine, it meets the contract of a fake-IP storage.
\<close>

section \<open>Reading and writing buckets\<close>

definition db_get :: "database \<Rightarrow> bytes \<Rightarrow> kv" where
  "db_get db name k = (case db name of None \<Rightarrow> None | Some b \<Rightarrow> db_keys b k)"

lemma bytes_of_string_inj [simp]: "bytes_of_string s = bytes_of_string t \<longleftrightarrow> s = t"
  by (metis string_of_bytes_of_string)

lemma bytes_of_string_Nil [simp]: "bytes_of_string s = [] \<longleftrightarrow> s = []" "[] = bytes_of_string s \<longleftrightarrow> s = []"
  by (auto simp: bytes_of_string_def)

lemma bytes_of_string_of_bytes [simp]: "bytes_of_string (string_of_bytes b) = b"
proof -
  have "(of_char (char_of (unat x)) :: 8 word) = x" for x :: "8 word"
  proof -
    have "unat x < 256" using unsigned_less [of x, where ?'a = nat] by simp
    then have "unat (of_char (char_of (unat x)) :: 8 word) = unat x" by (simp add: byte_of_char)
    then show ?thesis by (simp add: word_unat_eq_iff)
  qed
  then show ?thesis by (simp add: bytes_of_string_def string_of_bytes_def comp_def)
qed

lemma string_of_bytes_Nil [simp]: "string_of_bytes b = [] \<longleftrightarrow> b = []"
  by (simp add: string_of_bytes_def)

lemma bytes_of_string_append: "bytes_of_string s @ bytes_of_string t = bytes_of_string (s @ t)"
  by (simp add: bytes_of_string_def)

lemmas fakeip_buckets = bucketFakeIP_def bucketFakeIPDomain4_def bucketFakeIPDomain6_def fakeipBucketPrefix_def
  keyMetadata_def bytes_of_string_append

lemma domain_bucket_neq [simp]:
  "domain_bucket v \<noteq> bucketFakeIP" "bucketFakeIP \<noteq> domain_bucket v" "domain_bucket v = domain_bucket w \<longleftrightarrow> v = w"
  by (auto simp: domain_bucket_def fakeip_buckets)

lemma on_bucket_cases:
  "on_bucket name f db = (case f (db_get db name) of
     Inl e \<Rightarrow> Inl e
   | Inr m \<Rightarrow> Inr (db(name \<mapsto> (CreateBucketIfNotExists name db)\<lparr>db_keys := m\<rparr>)))"
proof -
  have "db_keys (CreateBucketIfNotExists name db) = db_get db name"
    by (rule ext) (simp add: db_get_def CreateBucketIfNotExists_def NewBucket_def split: option.split)
  then show ?thesis by (simp add: on_bucket_def)
qed

lemma on_bucket_get:
  "on_bucket name f db = Inr db' \<Longrightarrow> f (db_get db name) = Inr m \<Longrightarrow>
     db_get db' n k = (if n = name then m k else db_get db n k)"
  by (auto simp: on_bucket_cases db_get_def)

lemma on_bucket_frame: "on_bucket name f db = Inr db' \<Longrightarrow> n \<noteq> name \<Longrightarrow> db' n = db n"
  by (auto simp: on_bucket_cases split: sum.splits)

section \<open>The storage of fake addresses\<close>

text \<open>
  What the storage relies on: \<open>AddrFromIP\<close> gives the zero address for no bytes and inverts \<^verbatim>\<open>AsSlice\<close>.
\<close>

definition AddrFromIP_ok :: "(bytes \<Rightarrow> addr) \<Rightarrow> bool" where
  "AddrFromIP_ok f \<longleftrightarrow> f [] = NoAddr \<and> (\<forall>a. addr_storable a \<longrightarrow> f (addr_AsSlice a) = a)"

lemma AddrFromSlice_ok: "AddrFromIP_ok AddrFromSlice"
  by (simp add: AddrFromIP_ok_def AddrFromSlice_def [of "[]"] addr_storable_def)

lemma AsSlice_inj:
  "addr_storable a \<Longrightarrow> addr_storable b \<Longrightarrow> addr_AsSlice a = addr_AsSlice b \<longleftrightarrow> a = b"
  by (metis AddrFromSlice_AsSlice addr_storable_def)

lemma AsSlice_neq [simp]: "addr_storable a \<Longrightarrow> addr_AsSlice a \<noteq> []" "addr_AsSlice a \<noteq> keyMetadata"
proof -
  show "addr_storable a \<Longrightarrow> addr_AsSlice a \<noteq> []"
    by (cases a) (simp_all add: addr_storable_def flip: length_greater_0_conv)
  have "length (addr_AsSlice a) \<in> {0, 4, 16}" by (cases a) simp_all
  then show "addr_AsSlice a \<noteq> keyMetadata" by (auto simp: fakeip_buckets)
qed

text \<open>
  The cache file at rest: no write is pending. An asynchronous write whose goroutine runs before anything
  else is a write of the data base.
\<close>

definition at_rest :: "cache_file \<Rightarrow> bool" where
  "at_rest c \<longleftrightarrow> ch_saveDomain c = Map.empty \<and> ch_saveAddress4 c = Map.empty \<and> ch_saveAddress6 c = Map.empty"

definition cache_ops :: "(bytes \<Rightarrow> addr) \<Rightarrow> cache_file storage_ops" where
  "cache_ops AddrFromIP =
     \<lparr>so_Metadata = ch_FakeIPMetadata,
      so_SaveMetadata = (\<lambda>m c. case ch_FakeIPSaveMetadata m c of (e, c1) \<Rightarrow> (of_error e, c1)),
      so_SaveMetadataAsync = ch_FakeIPSaveMetadataAsync,
      so_Store = (\<lambda>a d c. (None, store_goroutine a d (ch_FakeIPStoreAsync a d c))),
      so_Load = ch_FakeIPLoad,
      so_LoadDomain = ch_FakeIPLoadDomain AddrFromIP,
      so_Reset = ch_FakeIPReset\<rparr>"

lemma store_goroutine_at_rest:
  assumes "at_rest c"
  shows "store_goroutine a d (ch_FakeIPStoreAsync a d c) = snd (ch_FakeIPStore a d c)"
  using assms
  by (cases c)
     (auto simp: store_goroutine_def ch_FakeIPStoreAsync_def at_rest_def save_address_def ch_FakeIPStore_def ch_batch_def
       Let_def split: sum.splits)

lemma ch_FakeIPStore_get:
  assumes a: "addr_storable a" and d: "d \<noteq> []"
  obtains db where "ch_FakeIPStore a d c = (None, c\<lparr>ch_DB := db\<rparr>)"
    and "\<And>n k. db_get db n k =
      (if n = bucketFakeIP \<and> k = addr_AsSlice a then Some (bytes_of_string d)
       else if n = domain_bucket (addr_Is6 a) then
         if k = bytes_of_string d then Some (addr_AsSlice a)
         else if db_get (ch_DB c) bucketFakeIP (addr_AsSlice a) = Some k then None else db_get (ch_DB c) n k
       else db_get (ch_DB c) n k)"
proof -
  let ?old = "db_get (ch_DB c) bucketFakeIP (addr_AsSlice a)"
  let ?g = "\<lambda>m. kv_Put (bytes_of_string d) (addr_AsSlice a) (case ?old of None \<Rightarrow> m | Some e \<Rightarrow> m(e := None))"
  obtain db1 where db1: "on_bucket bucketFakeIP (kv_Put (addr_AsSlice a) (bytes_of_string d)) (ch_DB c) = Inr db1"
    using a by (simp add: on_bucket_cases kv_Put_def)
  have get1: "db_get db1 n k = (if n = bucketFakeIP then ((db_get (ch_DB c) bucketFakeIP)(addr_AsSlice a \<mapsto> bytes_of_string d)) k
      else db_get (ch_DB c) n k)" for n k
    using on_bucket_get [OF db1] a by (simp add: kv_Put_def)
  obtain db2 where db2: "on_bucket (domain_bucket (addr_Is6 a)) ?g db1 = Inr db2"
    using d by (simp add: on_bucket_cases kv_Put_def)
  have get2: "db_get db2 n k = (if n = domain_bucket (addr_Is6 a)
      then ((case ?old of None \<Rightarrow> db_get db1 n | Some e \<Rightarrow> (db_get db1 n)(e := None))(bytes_of_string d \<mapsto> addr_AsSlice a)) k
      else db_get db1 n k)" for n k
    using on_bucket_get [OF db2, of _ n k] d
    by (auto simp: kv_Put_def split: option.splits)
  have old: "db_keys (CreateBucketIfNotExists bucketFakeIP (ch_DB c)) (addr_AsSlice a) = ?old"
    by (simp add: db_get_def CreateBucketIfNotExists_def NewBucket_def split: option.split)
  have store: "ch_FakeIPStore a d c = (None, c\<lparr>ch_DB := db2\<rparr>)"
    using db1 db2 addr_storable_4 [OF a] by (simp add: ch_FakeIPStore_def ch_batch_def Let_def old)
  show ?thesis
    by (rule that [OF store]) (auto simp: get2 get1 split: option.splits)
qed

lemma ch_load_get:
  "at_rest c \<Longrightarrow> ch_FakeIPLoad c a =
     (case db_get (ch_DB c) bucketFakeIP (addr_AsSlice a) of
        None \<Rightarrow> None | Some d \<Rightarrow> if d = [] then None else Some (string_of_bytes d))"
  by (auto simp: ch_FakeIPLoad_def at_rest_def db_get_def split: option.splits)

lemma ch_load_domain_get:
  assumes "at_rest c" and "AddrFromIP_ok f"
  shows "ch_FakeIPLoadDomain f c d v6 =
     (case db_get (ch_DB c) (domain_bucket v6) (bytes_of_string d) of
        None \<Rightarrow> None | Some v \<Rightarrow> if addr_IsValid (f v) then Some (f v) else None)"
  using assms
  by (auto simp: ch_FakeIPLoadDomain_def at_rest_def db_get_def AddrFromIP_ok_def Let_def split: option.splits)

definition cache_inv :: "(bytes \<Rightarrow> addr) \<Rightarrow> cache_file \<Rightarrow> bool" where
  "cache_inv f c \<longleftrightarrow> at_rest c \<and> two_way (ch_FakeIPLoad c) (ch_FakeIPLoadDomain f c)"

lemma at_rest_DB [simp]: "at_rest (c\<lparr>ch_DB := db\<rparr>) = at_rest c"
  by (simp add: at_rest_def)

lemma timer_same [simp]:
  "at_rest (c\<lparr>ch_saveMetadata := w\<rparr>) = at_rest c"
  "ch_FakeIPLoad (c\<lparr>ch_saveMetadata := w\<rparr>) = ch_FakeIPLoad c"
  "ch_FakeIPLoadDomain f (c\<lparr>ch_saveMetadata := w\<rparr>) = ch_FakeIPLoadDomain f c"
  by (simp_all add: at_rest_def fun_eq_iff ch_FakeIPLoad_def ch_FakeIPLoadDomain_def cong: option.case_cong)

lemma cache_store:
  assumes f: "AddrFromIP_ok f" and inv: "cache_inv f c" and a: "addr_storable a" and d: "d \<noteq> []"
    and new: "ch_FakeIPLoadDomain f c d (addr_Is6 a) = None"
  defines "c' \<equiv> snd (ch_FakeIPStore a d c)"
  shows "addr_storable b \<Longrightarrow> ch_FakeIPLoad c' b = (if b = a then Some d else ch_FakeIPLoad c b)" and "cache_inv f c'"
    and "ch_FakeIPLoadDomain f c' e v = (if e = d \<and> v = addr_Is6 a then Some a
      else if ch_FakeIPLoadDomain f c e v = Some a then None else ch_FakeIPLoadDomain f c e v)"
proof -
  obtain db where store: "ch_FakeIPStore a d c = (None, c\<lparr>ch_DB := db\<rparr>)"
    and get: "\<And>n k. db_get db n k =
      (if n = bucketFakeIP \<and> k = addr_AsSlice a then Some (bytes_of_string d)
       else if n = domain_bucket (addr_Is6 a) then
         if k = bytes_of_string d then Some (addr_AsSlice a)
         else if db_get (ch_DB c) bucketFakeIP (addr_AsSlice a) = Some k then None else db_get (ch_DB c) n k
       else db_get (ch_DB c) n k)"
    by (rule ch_FakeIPStore_get [OF a d, of c]) blast
  have rest: "at_rest c" "at_rest c'" and tw: "two_way (ch_FakeIPLoad c) (ch_FakeIPLoadDomain f c)"
    using inv store by (simp_all add: cache_inv_def c'_def)
  have DB: "ch_DB c' = db" by (simp add: c'_def store)
  have fa: "f (addr_AsSlice a) = a" "addr_IsValid a"
    using f a by (auto simp: AddrFromIP_ok_def addr_storable_def)
  have load: "ch_FakeIPLoad c' b = (if b = a then Some d else ch_FakeIPLoad c b)" if b: "addr_storable b" for b
    using d AsSlice_inj [OF b a] by (simp add: ch_load_get rest DB get)
  then show "addr_storable b \<Longrightarrow> ch_FakeIPLoad c' b = (if b = a then Some d else ch_FakeIPLoad c b)" .
  have old: "ch_FakeIPLoad c x = Some e \<longleftrightarrow>
      e \<noteq> [] \<and> db_get (ch_DB c) bucketFakeIP (addr_AsSlice x) = Some (bytes_of_string e)" for x e
    by (auto simp: ch_load_get rest split: option.splits)
  have no_key: "ch_FakeIPLoadDomain f c [] v = None" for v
    using two_wayD [OF tw, of "[]" v] by (cases "ch_FakeIPLoadDomain f c [] v") (auto simp: old)
  have dom: "ch_FakeIPLoadDomain f c' e v = (if e = d \<and> v = addr_Is6 a then Some a
      else if v = addr_Is6 a \<and> ch_FakeIPLoad c a = Some e then None else ch_FakeIPLoadDomain f c e v)" for e v
    using fa no_key [of v] by (auto simp: ch_load_domain_get rest f DB get old split: option.splits)
  show "cache_inv f c'"
    using two_way_store(1) [OF tw a new load dom] rest by (simp add: cache_inv_def)
  show "ch_FakeIPLoadDomain f c' e v = (if e = d \<and> v = addr_Is6 a then Some a
      else if ch_FakeIPLoadDomain f c e v = Some a then None else ch_FakeIPLoadDomain f c e v)"
    by (rule two_way_store(2) [OF tw a new load dom])
qed

lemma ch_FakeIPReset_cases:
  "ch_FakeIPReset c =
     (if ch_DB c bucketFakeIP \<noteq> None \<and> ch_DB c bucketFakeIPDomain4 \<noteq> None \<and> ch_DB c bucketFakeIPDomain6 \<noteq> None
      then (None, c\<lparr>ch_DB := (ch_DB c)(bucketFakeIP := None, bucketFakeIPDomain4 := None, bucketFakeIPDomain6 := None)\<rparr>)
      else (Some (ErrExt ''bucket not found''), c))"
proof -
  have "bucketFakeIPDomain4 \<noteq> bucketFakeIP" "bucketFakeIPDomain6 \<noteq> bucketFakeIP" "bucketFakeIPDomain6 \<noteq> bucketFakeIPDomain4"
    by (simp_all add: fakeip_buckets)
  then show ?thesis by (simp add: ch_FakeIPReset_def ch_batch_def tx_DeleteBucket_def)
qed

lemma cache_reset:
  assumes "at_rest c" and "AddrFromIP_ok f" and "ch_FakeIPReset c = (err, c')"
  shows "at_rest c'" and "ch_FakeIPLoad c' a = (if err = None then None else ch_FakeIPLoad c a)"
    and "ch_FakeIPLoadDomain f c' d v = (if err = None then None else ch_FakeIPLoadDomain f c d v)"
proof -
  show rest: "at_rest c'" using assms(1,3) by (auto simp: ch_FakeIPReset_cases split: if_splits)
  show "ch_FakeIPLoad c' a = (if err = None then None else ch_FakeIPLoad c a)"
    using assms(3) by (auto simp: ch_load_get [OF rest] ch_FakeIPReset_cases db_get_def split: if_splits)
  show "ch_FakeIPLoadDomain f c' d v = (if err = None then None else ch_FakeIPLoadDomain f c d v)"
    using assms(3)
    by (auto simp: ch_load_domain_get [OF rest assms(2)] ch_FakeIPReset_cases db_get_def domain_bucket_def split: if_splits)
qed

locale cache_env =
  fixes AddrFromIP :: "bytes \<Rightarrow> addr"
  assumes AddrFromIP: "AddrFromIP_ok AddrFromIP"

sublocale cache_env \<subseteq> fakeip_storage "cache_ops AddrFromIP" "cache_inv AddrFromIP" "\<lambda>d. d \<noteq> []"
proof (unfold_locales, goal_cases)
  case (1 c)
  obtain err c' where r: "ch_FakeIPReset c = (err, c')" by (cases "ch_FakeIPReset c")
  then show ?case
    using cache_reset [OF _ AddrFromIP r] 1 by (auto simp: cache_inv_def cache_ops_def two_way_def)
next
  case (2 c err c' d v6)
  then show ?case using cache_reset(3) [OF _ AddrFromIP, of c err c'] by (simp add: cache_inv_def cache_ops_def)
next
  case (3 c a d)
  then show ?case
    using cache_store(2) [OF AddrFromIP, of c a d]
    by (simp add: cache_ops_def cache_inv_def [of _ c] store_goroutine_at_rest)
next
  case (4 c a d b)
  then show ?case
    using cache_store(1) [OF AddrFromIP, of c a d b]
    by (simp add: cache_ops_def cache_inv_def store_goroutine_at_rest)
next
  case (5 c a d e v6)
  then show ?case
    using cache_store(3) [OF AddrFromIP, of c a d e v6]
    by (simp add: cache_ops_def cache_inv_def store_goroutine_at_rest)
next
  case (6 c md)
  then show ?case
    by (simp add: cache_ops_def cache_inv_def ch_FakeIPSaveMetadataAsync_def)
next
  case (7 c)
  then show ?case by (simp add: cache_ops_def cache_inv_def)
qed

interpretation slice_cache: cache_env AddrFromSlice
  by unfold_locales (rule AddrFromSlice_ok)

end
