(* ===== verification/Cache_Restart.thy ===== *)
theory Cache_Restart
  imports Cache_Storage
begin

text \<open>
  The fake-IP store over the cache file across restarts of the program: what is kept when the ranges stay the
  same, and what is wrongly kept when they change.
\<close>

section \<open>Restarts\<close>

text \<open>
  The cache file over a data base that was opened at the first attempt, and a restart of the program: the store is closed, a new cache file opens what the old one left, and a new
  store starts over it, with ranges of its own.
\<close>

definition opened :: "cache_file \<Rightarrow> database \<Rightarrow> cache_file" where
  "opened c0 db = snd (ch_Start (\<lambda>_. Inr db) (\<lambda>_. True) False False StartStateInitialize c0)"

definition restarted ::
  "(bytes \<Rightarrow> addr) \<Rightarrow> cache_file \<Rightarrow> prefix \<Rightarrow> prefix \<Rightarrow> cache_file fakeip_store \<Rightarrow> cache_file fakeip_store" where
  "restarted f c0 r4 r6 s =
     (let c = the (fs_storage (snd (fs_Close (cache_ops f) s)))
      in fs_Start (cache_ops f) (opened c0 (ch_DB c)) (NewStore r4 r6))"

text \<open>
  The states of a store over a cache file that was new at first: creations, resets, expiries of the timer
  of the delayed save, and restarts, in any order.
\<close>

inductive cache_reach :: "(bytes \<Rightarrow> addr) \<Rightarrow> cache_file \<Rightarrow> prefix \<Rightarrow> prefix \<Rightarrow> cache_file fakeip_store \<Rightarrow> bool"
  for f c0 r4 r6 where
  cr_start: "cache_reach f c0 r4 r6 (fs_Start (cache_ops f) (opened c0 Map.empty) (NewStore r4 r6))"
| cr_create: "cache_reach f c0 r4 r6 s \<Longrightarrow> domain \<noteq> [] \<Longrightarrow> fs_Create (cache_ops f) domain isIPv6 s = (r, s') \<Longrightarrow>
    cache_reach f c0 r4 r6 s'"
| cr_reset: "cache_reach f c0 r4 r6 s \<Longrightarrow> fs_Reset (cache_ops f) s = (r, s') \<Longrightarrow> cache_reach f c0 r4 r6 s'"
| cr_timer: "cache_reach f c0 r4 r6 s \<Longrightarrow> fs_storage s = Some c \<Longrightarrow>
    cache_reach f c0 r4 r6 (s\<lparr>fs_storage := Some (ch_timer_fires c)\<rparr>)"
| cr_restart: "cache_reach f c0 r4 r6 s \<Longrightarrow> cache_reach f c0 r4 r6 (restarted f c0 r4 r6 s)"

definition run_ok :: "(bytes \<Rightarrow> addr) \<Rightarrow> prefix \<Rightarrow> prefix \<Rightarrow> cache_file fakeip_store \<Rightarrow> bool" where
  "run_ok f r4 r6 s \<longleftrightarrow> store_ok (cache_inv f) s \<and> all_in_range (cache_ops f) s \<and>
     fs_inet4Range s = r4 \<and> fs_inet6Range s = r6 \<and>
     \<not> addr_hasZone (fs_inet4Current s) \<and> \<not> addr_hasZone (fs_inet6Current s)"

text \<open>Two cache files that answer the store alike.\<close>

definition same_entries :: "cache_file \<Rightarrow> cache_file \<Rightarrow> bool" where
  "same_entries c c' \<longleftrightarrow> at_rest c \<and> at_rest c' \<and>
     (\<forall>n \<in> {bucketFakeIP, domain_bucket False, domain_bucket True}. \<forall>k. k \<noteq> keyMetadata \<or> n \<noteq> bucketFakeIP \<longrightarrow>
        db_get (ch_DB c') n k = db_get (ch_DB c) n k)"

lemma same_entries_load:
  assumes "AddrFromIP_ok f" and "same_entries c c'"
  shows "ch_FakeIPLoad c' = ch_FakeIPLoad c" and "ch_FakeIPLoadDomain f c' = ch_FakeIPLoadDomain f c"
    and "cache_inv f c' = cache_inv f c"
proof -
  have rest: "at_rest c" "at_rest c'" using assms(2) by (simp_all add: same_entries_def)
  show 1: "ch_FakeIPLoad c' = ch_FakeIPLoad c"
    using assms(2) by (intro ext) (simp add: ch_load_get rest same_entries_def)
  show 2: "ch_FakeIPLoadDomain f c' = ch_FakeIPLoadDomain f c"
  proof (intro ext)
    fix d v
    show "ch_FakeIPLoadDomain f c' d v = ch_FakeIPLoadDomain f c d v"
      using assms by (cases v) (simp_all add: ch_load_domain_get rest same_entries_def)
  qed
  show "cache_inv f c' = cache_inv f c" by (simp add: cache_inv_def 1 2 rest)
qed

lemma same_entries_trans: "same_entries a b \<Longrightarrow> same_entries b c \<Longrightarrow> same_entries a c"
  by (simp add: same_entries_def)

lemma SaveMetadata_entries:
  assumes "at_rest c"
  obtains c1 where "ch_FakeIPSaveMetadata m c = (None, c1)" and "same_entries c c1"
    and "db_get (ch_DB c1) bucketFakeIP keyMetadata = Some (metadata_Marshal m)"
proof -
  have key: "keyMetadata \<noteq> []" by (simp add: fakeip_buckets)
  then obtain db where db: "on_bucket bucketFakeIP (kv_Put keyMetadata (metadata_Marshal m)) (ch_DB c) = Inr db"
    by (simp add: on_bucket_cases kv_Put_def)
  have get: "db_get db n k = (if n = bucketFakeIP \<and> k = keyMetadata then Some (metadata_Marshal m) else db_get (ch_DB c) n k)"
    for n k
    using on_bucket_get [OF db, of _ n k] key by (simp add: kv_Put_def)
  show ?thesis
    by (rule that [of "c\<lparr>ch_DB := db\<rparr>"])
       (use assms in \<open>auto simp: ch_FakeIPSaveMetadata_def ch_batch_def db same_entries_def get\<close>)
qed

lemma Metadata_entries:
  assumes "at_rest c" and "db_get (ch_DB c) bucketFakeIP keyMetadata = Some (metadata_Marshal m)"
    and "metadata_Unmarshal (metadata_Marshal m) = Ok m"
  obtains c1 where "ch_FakeIPMetadata c = (Some m, c1)" and "same_entries c c1"
proof -
  obtain b where b: "ch_DB c bucketFakeIP = Some b" "db_keys b keyMetadata = Some (metadata_Marshal m)"
    using assms(2) by (auto simp: db_get_def split: option.splits)
  have "metadata_Marshal m \<noteq> []" by (simp add: metadata_Marshal_def wr_element_def flip: length_greater_0_conv)
  with b assms(3) show ?thesis
    by (intro that [of "c\<lparr>ch_DB := (ch_DB c)(bucketFakeIP \<mapsto> b\<lparr>db_keys := (db_keys b)(keyMetadata := None)\<rparr>)\<rparr>"])
       (use assms(1) in \<open>auto simp: ch_FakeIPMetadata_def same_entries_def db_get_def\<close>)
qed

lemma timer_entries: "at_rest c \<Longrightarrow> same_entries c (ch_timer_fires c)"
proof -
  assume c: "at_rest c"
  let ?c1 = "c\<lparr>ch_saveMetadata := cf_timer_fires (ch_saveMetadata c)\<rparr>"
  have c1: "same_entries c ?c1" "at_rest ?c1" using c by (simp_all add: same_entries_def)
  have "same_entries c (snd (ch_FakeIPSaveMetadata m ?c1))" for m
    using SaveMetadata_entries [OF c1(2), of m] same_entries_trans [OF c1(1)] by (metis snd_conv)
  then show ?thesis using c1 by (auto simp: ch_timer_fires_def Let_def split: option.split)
qed

lemma clean_db_fakeip:
  "n \<in> {bucketFakeIP, domain_bucket False, domain_bucket True} \<Longrightarrow> clean_db db n = db n"
  by (auto simp: clean_db_def domain_bucket_def bucketFakeIP_def bucketFakeIPDomain4_def bucketFakeIPDomain6_def
      fakeipBucketPrefix_def bytes_of_string_def split: option.split)

definition new_file :: "cache_file \<Rightarrow> bool" where
  "new_file c0 \<longleftrightarrow> (\<exists>BasePath path cacheID storeRDRC rdrcTimeout. c0 = NewCacheFile BasePath path cacheID True storeRDRC rdrcTimeout)"

lemma opened_entries:
  assumes "new_file c0" and "at_rest c"
  shows "same_entries c (opened c0 (ch_DB c))" and "at_rest (opened c0 db)" and "ch_DB (opened c0 db) = clean_db db"
proof -
  show "at_rest (opened c0 db)" for db
    using assms(1) by (auto simp: new_file_def opened_def ch_Start_def at_rest_def NewCacheFile_def)
  moreover show "ch_DB (opened c0 db) = clean_db db" for db by (simp add: opened_def ch_Start_def)
  ultimately show "same_entries c (opened c0 (ch_DB c))"
    using assms(2) clean_db_fakeip by (auto simp: same_entries_def db_get_def)
qed

text \<open>What a new store reads from the file an old one has closed; with the same ranges it has the same position.\<close>

lemma reopened:
  assumes c0: "new_file c0" and fits: "prefix_fits r4" "prefix_fits r6" and ok: "run_ok f r4 r6 s"
  obtains c c1 c2 where "fs_storage s = Some c" and "snd (fs_Close (cache_ops f) s) = s\<lparr>fs_storage := Some c1\<rparr>"
    and "c1 = snd (ch_FakeIPSaveMetadata (fs_metadata s) c)"
    and "ch_FakeIPMetadata (opened c0 (ch_DB c1)) = (Some (fs_metadata s), c2)" and "same_entries c c2"
proof -
  obtain c where c: "fs_storage s = Some c" and inv: "cache_inv f c" using ok by (auto simp: run_ok_def store_ok_def)
  then have rest: "at_rest c" by (simp add: cache_inv_def)
  let ?m = "fs_metadata s"
  have fit: "addr_fits a" if "\<not> addr_hasZone a" for a using that by (cases a) (simp_all add: addr_fits_def)
  have decoded: "metadata_Unmarshal (metadata_Marshal ?m) = Ok ?m"
    by (rule metadata_roundtrip) (use ok fits fit in \<open>auto simp: run_ok_def fs_metadata_def\<close>)
  obtain c1 where c1: "ch_FakeIPSaveMetadata ?m c = (None, c1)" "same_entries c c1"
    "db_get (ch_DB c1) bucketFakeIP keyMetadata = Some (metadata_Marshal ?m)"
    by (rule SaveMetadata_entries [OF rest])
  then have rest1: "at_rest c1" by (simp add: same_entries_def)
  let ?o = "opened c0 (ch_DB c1)"
  note o = opened_entries [OF c0 rest1]
  have "db_get (ch_DB ?o) bucketFakeIP keyMetadata = Some (metadata_Marshal ?m)"
    using c1(3) clean_db_fakeip [of bucketFakeIP] by (simp add: o(3) db_get_def)
  then obtain c2 where c2: "ch_FakeIPMetadata ?o = (Some ?m, c2)" "same_entries ?o c2"
    using Metadata_entries [OF o(2) _ decoded] by blast
  have "snd (fs_Close (cache_ops f) s) = s\<lparr>fs_storage := Some c1\<rparr>"
    by (simp add: fs_Close_def c cache_ops_def c1(1))
  moreover have "same_entries c c2" using c1(2) o(1) c2(2) same_entries_trans by blast
  moreover have "c1 = snd (ch_FakeIPSaveMetadata ?m c)" by (simp add: c1(1))
  ultimately show ?thesis using that [OF c _ _ c2(1)] by blast
qed

lemma restarted_same:
  assumes c0: "new_file c0" and fits: "prefix_fits r4" "prefix_fits r6" and ok: "run_ok f r4 r6 s"
  obtains c c2 where "fs_storage s = Some c" and "restarted f c0 r4 r6 s = s\<lparr>fs_storage := Some c2\<rparr>" and "same_entries c c2"
proof -
  obtain c c1 c2 where r: "fs_storage s = Some c" "snd (fs_Close (cache_ops f) s) = s\<lparr>fs_storage := Some c1\<rparr>"
    "ch_FakeIPMetadata (opened c0 (ch_DB c1)) = (Some (fs_metadata s), c2)" "same_entries c c2"
    by (rule reopened [OF assms])
  have ranges: "fs_inet4Range s = r4" "fs_inet6Range s = r6" using ok by (simp_all add: run_ok_def)
  have "so_Metadata (cache_ops f) = ch_FakeIPMetadata" by (simp add: cache_ops_def)
  then have "restarted f c0 r4 r6 s = s\<lparr>fs_storage := Some c2\<rparr>"
    using r(3) ranges by (simp add: restarted_def r(2) fs_Start_def NewStore_def fs_metadata_def)
  with r(1,4) show ?thesis using that by blast
qed

lemma run_ok_storage:
  assumes "AddrFromIP_ok f" and "run_ok f r4 r6 s" and "fs_storage s = Some c" and "same_entries c c2"
  shows "run_ok f r4 r6 (s\<lparr>fs_storage := Some c2\<rparr>)"
proof -
  have "all_in_range (cache_ops f) s" using assms(2) by (simp add: run_ok_def)
  then have "all_in_range (cache_ops f) (s\<lparr>fs_storage := Some c2\<rparr>)"
    using assms(3) same_entries_load [OF assms(1,4)]
    by (simp add: all_in_range_def cache_ops_def all_bool_eq)
  moreover have "store_ok (cache_inv f) s" using assms(2) by (simp add: run_ok_def)
  then have "store_ok (cache_inv f) (s\<lparr>fs_storage := Some c2\<rparr>)"
    using assms(3) same_entries_load [OF assms(1,4)] by (simp add: store_ok_def)
  ultimately show ?thesis using assms(2) by (simp add: run_ok_def)
qed

lemma addr_Next_zone: "\<not> addr_hasZone a \<Longrightarrow> \<not> addr_hasZone (addr_Next a)"
  by (cases a) auto

lemma range_first_zone: "prefix_fits p \<Longrightarrow> \<not> addr_hasZone (range_first p)"
  by (simp add: prefix_fits_def range_first_def addr_Next_zone)

lemma run_start:
  assumes "new_file c0" and "AddrFromIP_ok f" and "ranges_ok r4 r6" and "prefix_fits r4" and "prefix_fits r6"
  shows "run_ok f r4 r6 (fs_Start (cache_ops f) (opened c0 Map.empty) (NewStore r4 r6))"
proof -
  let ?c = "opened c0 Map.empty"
  have rest: "at_rest ?c" and "ch_DB ?c = clean_db Map.empty"
    using assms(1) by (auto simp: new_file_def opened_def ch_Start_def at_rest_def NewCacheFile_def)
  then have DB: "ch_DB ?c = Map.empty" by (simp add: clean_db_def fun_eq_iff)
  have "fs_Start (cache_ops f) ?c (NewStore r4 r6) =
      \<lparr>fs_inet4Range = r4, fs_inet6Range = r6, fs_inet4Current = (if prefix_IsValid r4 then range_first r4 else NoAddr),
       fs_inet6Current = (if prefix_IsValid r6 then range_first r6 else NoAddr), fs_storage = Some ?c\<rparr>"
    by (simp add: fs_Start_def cache_ops_def ch_FakeIPMetadata_def ch_FakeIPReset_cases DB NewStore_def)
  moreover have "cache_inv f ?c" "ch_FakeIPLoadDomain f ?c d v = None" for d v
    using rest assms(2)
    by (simp_all add: cache_inv_def two_way_def ch_load_get ch_load_domain_get DB db_get_def)
  ultimately show ?thesis
    using assms(3) range_first_zone [OF assms(4)] range_first_zone [OF assms(5)]
    by (simp add: run_ok_def store_ok_def all_in_range_def ranges_ok_def cache_ops_def)
qed

context cache_env
begin

lemma run_create:
  assumes ok: "run_ok AddrFromIP r4 r6 s" and "domain \<noteq> []"
    and op: "fs_Create (cache_ops AddrFromIP) domain isIPv6 s = (Ok a, s')"
  shows "run_ok AddrFromIP r4 r6 s'"
proof -
  have parts: "store_ok (cache_inv AddrFromIP) s" "all_in_range (cache_ops AddrFromIP) s" using ok by (simp_all add: run_ok_def)
  note step = create_step [OF parts(1) assms(2) op]
  have "\<not> addr_hasZone (fs_inet4Current s') \<and> \<not> addr_hasZone (fs_inet6Current s')"
  proof (cases "s' = s")
    case False
    obtain c where c: "fs_storage s = Some c" using parts by (auto simp: store_ok_def)
    with False op have none: "so_LoadDomain (cache_ops AddrFromIP) c domain isIPv6 = None"
      by (cases "so_LoadDomain (cache_ops AddrFromIP) c domain isIPv6") (simp_all add: fs_Create_def)
    show ?thesis
      by (rule create_fresh [OF parts(1) c none op])
         (use ok in \<open>auto simp: run_ok_def addr_storable_def\<close>)
  qed (use ok in \<open>simp add: run_ok_def\<close>)
  with step ok create_all_in_range [OF parts assms(2) op] show ?thesis by (simp add: run_ok_def)
qed

lemma run_reset:
  assumes ok: "run_ok AddrFromIP r4 r6 s" and op: "fs_Reset (cache_ops AddrFromIP) s = (r, s')"
  shows "run_ok AddrFromIP r4 r6 s'"
proof -
  have parts: "store_ok (cache_inv AddrFromIP) s" "all_in_range (cache_ops AddrFromIP) s" using ok by (simp_all add: run_ok_def)
  have "fs_reach (cache_ops AddrFromIP) (\<lambda>d. d \<noteq> []) s s'" by (rule reach_reset [OF reach_start op])
  moreover have "fs_inet4Current s' = fs_inet4Current s" "fs_inet6Current s' = fs_inet6Current s"
    using op by (auto simp: fs_Reset_def split: option.splits prod.splits)
  ultimately show ?thesis
    using reach_ok [OF parts] fs_reach_ranges ok by (metis run_ok_def)
qed

lemma cache_reach_ok:
  assumes "new_file c0" and "ranges_ok r4 r6" and "prefix_fits r4" and "prefix_fits r6"
  shows "cache_reach AddrFromIP c0 r4 r6 s \<Longrightarrow> run_ok AddrFromIP r4 r6 s"
proof (induction rule: cache_reach.induct)
  case cr_start
  show ?case by (rule run_start [OF assms(1) AddrFromIP assms(2-)])
next
  case (cr_create s domain isIPv6 r s')
  show ?case
  proof (cases r)
    case (Ok a)
    with cr_create show ?thesis using run_create [OF cr_create.IH] by blast
  qed (use cr_create fs_Create_err_same [OF cr_create.hyps(3)] in simp_all)
next
  case (cr_reset s r s')
  then show ?case using run_reset by blast
next
  case (cr_timer s c)
  then have "at_rest c" by (simp add: run_ok_def store_ok_def cache_inv_def)
  then show ?case using run_ok_storage [OF AddrFromIP cr_timer.IH cr_timer.hyps(2) timer_entries] by simp
next
  case (cr_restart s)
  then show ?case
    using restarted_same [OF assms(1,3,4) cr_restart.IH] run_ok_storage [OF AddrFromIP cr_restart.IH] by metis
qed

lemma restarted_answers:
  assumes c0: "new_file c0" and fits: "prefix_fits r4" "prefix_fits r6" and ok: "run_ok AddrFromIP r4 r6 s"
  shows "fst (fs_Create (cache_ops AddrFromIP) d v (restarted AddrFromIP c0 r4 r6 s)) = fst (fs_Create (cache_ops AddrFromIP) d v s)"
    and "fs_Lookup (cache_ops AddrFromIP) a (restarted AddrFromIP c0 r4 r6 s) = fs_Lookup (cache_ops AddrFromIP) a s"
proof -
  obtain c c2 where c: "fs_storage s = Some c" and s2: "restarted AddrFromIP c0 r4 r6 s = s\<lparr>fs_storage := Some c2\<rparr>"
    and same: "same_entries c c2"
    by (rule restarted_same [OF assms])
  note load = same_entries_load [OF AddrFromIP same]
  show "fst (fs_Create (cache_ops AddrFromIP) d v (restarted AddrFromIP c0 r4 r6 s)) = fst (fs_Create (cache_ops AddrFromIP) d v s)"
    by (auto simp: s2 fs_Create_def c load cache_ops_def Let_def split: option.split)
  show "fs_Lookup (cache_ops AddrFromIP) a (restarted AddrFromIP c0 r4 r6 s) = fs_Lookup (cache_ops AddrFromIP) a s"
    by (simp add: s2 fs_Lookup_def c load cache_ops_def)
qed

lemma survives_restart:
  assumes start: "new_file c0" "ranges_ok r4 r6" "prefix_fits r4" "prefix_fits r6"
    and reach: "cache_reach AddrFromIP c0 r4 r6 s" and dom: "domain \<noteq> []"
    and op: "fs_Create (cache_ops AddrFromIP) domain isIPv6 s = (Ok a, s')"
  shows "prefix_Contains (if isIPv6 then r6 else r4) a"
    and "fs_Lookup (cache_ops AddrFromIP) a (restarted AddrFromIP c0 r4 r6 s') = Ok (Some domain)"
    and "fst (fs_Create (cache_ops AddrFromIP) domain isIPv6 (restarted AddrFromIP c0 r4 r6 s')) = Ok a"
    and "fst (fs_Create (cache_ops AddrFromIP) d v6 (restarted AddrFromIP c0 r4 r6 s')) =
      fst (fs_Create (cache_ops AddrFromIP) d v6 s')"
proof -
  have ok: "run_ok AddrFromIP r4 r6 s" by (rule cache_reach_ok [OF start reach])
  then have parts: "store_ok (cache_inv AddrFromIP) s" "all_in_range (cache_ops AddrFromIP) s"
    and ranges: "fs_inet4Range s = r4" "fs_inet6Range s = r6"
    by (simp_all add: run_ok_def)
  note created = created [OF parts reach_start dom op]
  note again = restarted_answers [OF start(1,3,4) run_create [OF ok dom op]]
  show "prefix_Contains (if isIPv6 then r6 else r4) a" using created(1) unfolding ranges .
  show "fs_Lookup (cache_ops AddrFromIP) a (restarted AddrFromIP c0 r4 r6 s') = Ok (Some domain)"
    using created(3) again(2) by simp
  show "fst (fs_Create (cache_ops AddrFromIP) domain isIPv6 (restarted AddrFromIP c0 r4 r6 s')) = Ok a"
    using created(4) again(1) by simp
  show "fst (fs_Create (cache_ops AddrFromIP) d v6 (restarted AddrFromIP c0 r4 r6 s')) =
      fst (fs_Create (cache_ops AddrFromIP) d v6 s')" by (rule again(1))
qed

end


definition demo_file :: cache_file where
  "demo_file = NewCacheFile id [] [] True False 0"

lemma demo_file_new: "new_file demo_file"
  unfolding new_file_def demo_file_def by blast

lemma demo_range4_fits: "prefix_fits demo_range4" "prefix_fits NoPrefix"
  by (simp_all add: prefix_fits_def demo_range4_def NoPrefix_def)

definition demo_cached :: "cache_file fakeip_store" where
  "demo_cached = fs_Start (cache_ops AddrFromSlice) (opened demo_file Map.empty) (NewStore demo_range4 NoPrefix)"

lemma demo_cached_create:
  "fst (fs_Create (cache_ops AddrFromSlice) ''example.org'' False demo_cached) = Ok (Addr4 0xC6120003)"
proof -
  have "ch_DB (opened demo_file Map.empty) = Map.empty"
    by (simp add: opened_def ch_Start_def clean_db_def fun_eq_iff)
  moreover have "ch_saveAddress4 (opened demo_file Map.empty) = Map.empty"
    by (simp add: opened_def ch_Start_def demo_file_def NewCacheFile_def)
  ultimately show ?thesis
    by (simp add: demo_cached_def fs_Start_def fs_Create_def NewStore_def cache_ops_def Let_def
        ch_FakeIPMetadata_def ch_FakeIPReset_cases ch_FakeIPLoadDomain_def demo_range4_def prefix_IsValid_def
        range_first_def next_in_range_def prefix_Contains_def)
qed


section \<open>A reset that is rolled back\<close>

text \<open>
  Without an IPv6 range no bucket of IPv6 domains is ever created, and deleting a bucket that is not there
  is an error.
\<close>

lemma no_prefix: "\<not> prefix_Contains NoPrefix a"
  by (simp add: prefix_Contains_def prefix_IsValid_def NoPrefix_def)

definition no_v6 :: "cache_file \<Rightarrow> bool" where
  "no_v6 c \<longleftrightarrow> ch_DB c bucketFakeIPDomain6 = None"

lemma Domain6_neq [simp]: "bucketFakeIPDomain6 \<noteq> bucketFakeIP" "bucketFakeIPDomain6 \<noteq> bucketFakeIPDomain4"
  by (simp_all add: fakeip_buckets)

lemma no_v6_SaveMetadata: "no_v6 c \<Longrightarrow> no_v6 (snd (ch_FakeIPSaveMetadata m c))"
  by (auto simp: no_v6_def ch_FakeIPSaveMetadata_def ch_batch_def on_bucket_frame split: sum.splits)

lemma no_v6_timer: "no_v6 c \<Longrightarrow> no_v6 (ch_timer_fires c)"
  using no_v6_SaveMetadata [of "c\<lparr>ch_saveMetadata := cf_timer_fires (ch_saveMetadata c)\<rparr>"]
  by (auto simp: ch_timer_fires_def Let_def no_v6_def split: option.split)

lemma no_v6_Metadata: "no_v6 c \<Longrightarrow> no_v6 (snd (ch_FakeIPMetadata c))"
  by (auto simp: no_v6_def ch_FakeIPMetadata_def split: option.split go_out.split)

lemma no_v6_opened: "new_file c0 \<Longrightarrow> no_v6 c \<Longrightarrow> no_v6 (opened c0 (ch_DB c))"
  by (simp add: no_v6_def opened_def ch_Start_def clean_db_def)

lemma no_v6_store: "no_v6 c \<Longrightarrow> addr_Is4 a \<Longrightarrow> no_v6 (snd (ch_FakeIPStore a d c))"
  by (auto simp: no_v6_def ch_FakeIPStore_def ch_batch_def Let_def domain_bucket_def on_bucket_frame split: sum.splits)

lemma no_v6_reset: "no_v6 c \<Longrightarrow> ch_FakeIPReset c = (Some (ErrExt ''bucket not found''), c)"
  by (simp add: no_v6_def ch_FakeIPReset_cases)

lemma fs_Start_no_v6:
  assumes "no_v6 c"
  shows "fs_storage (fs_Start (cache_ops f) c s) = Some (snd (ch_FakeIPMetadata c))"
  using no_v6_reset [OF no_v6_Metadata [OF assms]]
  by (cases "ch_FakeIPMetadata c") (auto simp: fs_Start_def cache_ops_def split: option.split)

lemma restarted_storage:
  assumes c0: "new_file c0" and fits: "prefix_fits r4" "prefix_fits r6" and ok: "run_ok f r4 r6 s"
    and c: "fs_storage s = Some c" and no6: "no_v6 c"
  obtains c2 where "fs_storage (restarted f c0 r4' r6' s) = Some c2" and "same_entries c c2" and "no_v6 c2"
proof -
  obtain c1 c2 where r: "snd (fs_Close (cache_ops f) s) = s\<lparr>fs_storage := Some c1\<rparr>"
    "c1 = snd (ch_FakeIPSaveMetadata (fs_metadata s) c)"
    "ch_FakeIPMetadata (opened c0 (ch_DB c1)) = (Some (fs_metadata s), c2)" "same_entries c c2"
    by (rule reopened [OF c0 fits ok]) (use c in simp)
  have no1: "no_v6 (opened c0 (ch_DB c1))"
    unfolding r(2) by (rule no_v6_opened [OF c0 no_v6_SaveMetadata [OF no6]])
  have "fs_storage (restarted f c0 r4' r6' s) = Some c2"
    using fs_Start_no_v6 [OF no1, of f] by (simp add: restarted_def r(1,3))
  then show ?thesis using that r(4) no_v6_Metadata [OF no1] by (simp add: r(3))
qed

context cache_env
begin

lemma create_no_v6:
  assumes ok: "run_ok AddrFromIP r4 NoPrefix s" and c: "fs_storage s = Some c" and no6: "no_v6 c"
    and op: "fs_Create (cache_ops AddrFromIP) domain isIPv6 s = (Ok a, s')"
  shows "\<exists>c'. fs_storage s' = Some c' \<and> no_v6 c'"
proof (cases "so_LoadDomain (cache_ops AddrFromIP) c domain isIPv6")
  case None
  have st: "store_ok (cache_inv AddrFromIP) s" using ok by (simp add: run_ok_def)
  obtain md where inr: "prefix_Contains (if isIPv6 then fs_inet6Range s else fs_inet4Range s) a"
    and fam: "addr_storable a" "addr_Is6 a = isIPv6"
    and s': "s' = s\<lparr>fs_inet4Current := (if isIPv6 then fs_inet4Current s else a),
        fs_inet6Current := (if isIPv6 then a else fs_inet6Current s),
        fs_storage := Some (so_SaveMetadataAsync (cache_ops AddrFromIP) md (snd (so_Store (cache_ops AddrFromIP) a domain c)))\<rparr>"
    by (rule create_fresh [OF st c None op])
  have "\<not> isIPv6" using inr ok by (auto simp: run_ok_def prefix_Contains_def prefix_IsValid_def NoPrefix_def)
  then have "addr_Is4 a" using addr_storable_4 [OF fam(1)] fam(2) by simp
  moreover have "at_rest c" using st c by (simp add: store_ok_def cache_inv_def)
  ultimately show ?thesis
    using no_v6_store [OF no6, of a domain]
    by (simp add: s' cache_ops_def store_goroutine_at_rest ch_FakeIPSaveMetadataAsync_def no_v6_def)
qed (use op c no6 in \<open>simp add: fs_Create_def\<close>)

lemma reach_no_v6:
  assumes start: "new_file c0" "ranges_ok r4 NoPrefix" "prefix_fits r4"
  shows "cache_reach AddrFromIP c0 r4 NoPrefix s \<Longrightarrow> \<exists>c. fs_storage s = Some c \<and> no_v6 c"
proof (induction rule: cache_reach.induct)
  case cr_start
  have "no_v6 (opened c0 Map.empty)" by (simp add: no_v6_def opened_def ch_Start_def clean_db_def)
  then show ?case using fs_Start_no_v6 no_v6_Metadata by blast
next
  case (cr_create s domain isIPv6 r s')
  show ?case
  proof (cases r)
    case (Ok a)
    with cr_create create_no_v6 cache_reach_ok [OF start demo_range4_fits(2) cr_create.hyps(1)]
    show ?thesis by blast
  qed (use cr_create fs_Create_err_same [OF cr_create.hyps(3)] in simp_all)
next
  case (cr_reset s r s')
  then show ?case using no_v6_reset by (auto simp: fs_Reset_def cache_ops_def)
next
  case (cr_timer s c)
  then show ?case using no_v6_timer by simp
next
  case (cr_restart s)
  then obtain c where "fs_storage s = Some c" "no_v6 c" by blast
  then show ?case
    using restarted_storage [OF start(1,3) demo_range4_fits(2) cache_reach_ok [OF start demo_range4_fits(2) cr_restart.hyps]]
    by metis
qed

lemma range_change_keeps:
  assumes start: "new_file c0" "ranges_ok r4 NoPrefix" "prefix_fits r4"
    and reach: "cache_reach AddrFromIP c0 r4 NoPrefix s" and dom: "domain \<noteq> []"
    and op: "fs_Create (cache_ops AddrFromIP) domain False s = (Ok a, s')"
  shows "fst (fs_Create (cache_ops AddrFromIP) domain False (restarted AddrFromIP c0 r4' NoPrefix s')) = Ok a"
proof -
  have reach': "cache_reach AddrFromIP c0 r4 NoPrefix s'" by (rule cr_create [OF reach dom op])
  note ok = cache_reach_ok [OF start demo_range4_fits(2)]
  obtain c where c: "fs_storage s' = Some c" "no_v6 c" using reach_no_v6 [OF start reach'] by blast
  obtain c2 where c2: "fs_storage (restarted AddrFromIP c0 r4' NoPrefix s') = Some c2" "same_entries c c2"
    by (rule restarted_storage [OF start(1,3) demo_range4_fits(2) ok [OF reach'] c])
  have "so_LoadDomain (cache_ops AddrFromIP) c domain False = Some a"
    using create_step [OF _ dom op] ok [OF reach] c by (simp add: run_ok_def)
  then show ?thesis
    using same_entries_load(2) [OF AddrFromIP c2(2)] by (simp add: fs_Create_def c2(1) cache_ops_def)
qed

end

text \<open>
  with an IPv4 range only, the reset of the cache file always fails and is rolled back. After a change of
  the configured range and a restart a domain still gets its address of the old range, which the store then
  takes for its own only if it happens to lie in the new range.
\<close>

theorem fakeip_range_change_keeps_old:
  assumes "AddrFromIP_ok f" and "new_file c0" and "ranges_ok r4 NoPrefix" and "prefix_fits r4"
    and "cache_reach f c0 r4 NoPrefix s" and "domain \<noteq> []" and "fs_Create (cache_ops f) domain False s = (Ok a, s')"
  shows "fst (fs_Create (cache_ops f) domain False (restarted f c0 r4' NoPrefix s')) = Ok a \<and>
    fs_Contains (restarted f c0 r4' NoPrefix s') a = prefix_Contains r4' a"
proof -
  have "fs_inet4Range (restarted f c0 r4' NoPrefix s') = r4' \<and> fs_inet6Range (restarted f c0 r4' NoPrefix s') = NoPrefix"
    by (auto simp: restarted_def Let_def fs_Start_def NewStore_def split: prod.split option.split)
  then show ?thesis
    using cache_env.range_change_keeps [OF cache_env.intro [OF assms(1)] assms(2-), of r4']
    by (simp add: fs_Contains_def no_prefix)
qed

definition other_range :: prefix where
  "other_range = \<lparr>px_addr = Addr4 0x0A000000, px_bits = 8\<rparr>"

theorem fakeip_range_change_keeps_old_witness:
  "let s = restarted AddrFromSlice demo_file other_range NoPrefix
        (snd (fs_Create (cache_ops AddrFromSlice) ''example.org'' False demo_cached))
   in fst (fs_Create (cache_ops AddrFromSlice) ''example.org'' False s) = Ok (Addr4 0xC6120003) \<and>
      \<not> fs_Contains s (Addr4 0xC6120003)"
proof -
  obtain s' where op: "fs_Create (cache_ops AddrFromSlice) ''example.org'' False demo_cached = (Ok (Addr4 0xC6120003), s')"
    using demo_cached_create by (cases "fs_Create (cache_ops AddrFromSlice) ''example.org'' False demo_cached") simp
  have "cache_reach AddrFromSlice demo_file demo_range4 NoPrefix demo_cached"
    unfolding demo_cached_def by (rule cr_start)
  from fakeip_range_change_keeps_old [OF AddrFromSlice_ok demo_file_new demo_ranges_ok demo_range4_fits(1) this _ op,
      of other_range]
  show ?thesis
    by (simp add: op Let_def) (simp add: other_range_def prefix_Contains_def prefix_IsValid_def)
qed

end
