(* ===== verification/Interrupt.thy ===== *)
theory Interrupt
  imports Go_Prelude
begin

text \<open>
  \<^verbatim>\<open>common/interrupt\<close>: the group of connections an outbound group keeps so that it can close them when
  its selection changes. The contract that groups rely on is the locale \<open>connection_group\<close>; the
  linked list of the code is its interpretation.
\<close>

section \<open>The group\<close>

text \<open>
  An element of the linked list is known by a number that is never used again (in the code, by its
  address). \<open>'c\<close> is what is closed.
\<close>

record 'c conn_item =
  gi_element :: nat
  gi_conn :: 'c
  gi_isExternal :: bool

record 'c group =
  ig_connections :: "'c conn_item list"
  ig_fresh :: nat

definition NewGroup :: "'c group" where
  "NewGroup = \<lparr>ig_connections = [], ig_fresh = 0\<rparr>"

text \<open>\<^verbatim>\<open>NewConn\<close> and \<^verbatim>\<open>NewPacketConn\<close>: the element is what the returned connection keeps.\<close>

definition group_NewConn :: "'c \<Rightarrow> bool \<Rightarrow> 'c group \<Rightarrow> nat \<times> 'c group" where
  "group_NewConn conn isExternal g =
     (ig_fresh g,
      g\<lparr>ig_connections := ig_connections g @ [\<lparr>gi_element = ig_fresh g, gi_conn = conn, gi_isExternal = isExternal\<rparr>],
        ig_fresh := Suc (ig_fresh g)\<rparr>)"

text \<open>
  \<^verbatim>\<open>Close\<close> of a grouped connection: its element leaves the list if it is still there, the connection is
  closed by the caller.
\<close>

definition conn_Close :: "nat \<Rightarrow> 'c group \<Rightarrow> 'c group" where
  "conn_Close element g = g\<lparr>ig_connections := filter (\<lambda>it. gi_element it \<noteq> element) (ig_connections g)\<rparr>"

text \<open>\<^verbatim>\<open>Interrupt\<close>: one loop closes and collects, a second one removes what was collected.\<close>

fun interrupt_scan :: "bool \<Rightarrow> 'c conn_item list \<Rightarrow> 'c list \<times> nat list" where
  "interrupt_scan ext [] = ([], [])"
| "interrupt_scan ext (it # its) =
     (case interrupt_scan ext its of
        (closed, toDelete) \<Rightarrow>
          if \<not> gi_isExternal it \<or> ext then (gi_conn it # closed, gi_element it # toDelete) else (closed, toDelete))"

definition group_Interrupt :: "bool \<Rightarrow> 'c group \<Rightarrow> 'c list \<times> 'c group" where
  "group_Interrupt interruptExternalConnections g =
     (case interrupt_scan interruptExternalConnections (ig_connections g) of
        (closed, toDelete) \<Rightarrow> (closed, fold conn_Close toDelete g))"

section \<open>The contract\<close>

text \<open>
  A group as its users see it: \<open>view\<close> gives the open connections. A new one gets a name that was not
  used before, closing removes one, an interruption closes exactly the internal ones, and the
  external ones if asked.
\<close>

locale connection_group =
  fixes new :: "'c \<Rightarrow> bool \<Rightarrow> 'g \<Rightarrow> nat \<times> 'g"
    and close :: "nat \<Rightarrow> 'g \<Rightarrow> 'g"
    and interrupt :: "bool \<Rightarrow> 'g \<Rightarrow> 'c list \<times> 'g"
    and view :: "'g \<Rightarrow> nat \<Rightarrow> ('c \<times> bool) option"
    and fresh :: "'g \<Rightarrow> nat"
    and invar :: "'g \<Rightarrow> bool"
  assumes new_law: "invar g \<Longrightarrow> new c ext g = (n, g') \<Longrightarrow>
      n = fresh g \<and> view g n = None \<and> view g' = (view g)(n \<mapsto> (c, ext)) \<and> fresh g' = Suc n \<and> invar g'"
    and close_law: "invar g \<Longrightarrow> view (close n g) = (view g)(n := None) \<and> fresh (close n g) = fresh g \<and> invar (close n g)"
    and interrupt_law: "invar g \<Longrightarrow> interrupt ext g = (closed, g') \<Longrightarrow>
      view g' = view g |` {n. \<exists>c. view g n = Some (c, True) \<and> \<not> ext} \<and> fresh g' = fresh g \<and> invar g' \<and>
      set closed = {c. \<exists>n e. view g n = Some (c, e) \<and> (\<not> e \<or> ext)}"
begin

text \<open>After an interruption with the flag nothing is open, without it nothing internal is.\<close>

lemma interrupt_all: "invar g \<Longrightarrow> interrupt True g = (closed, g') \<Longrightarrow> view g' = Map.empty"
  using interrupt_law [of g True closed g'] by auto

lemma interrupt_internal: "invar g \<Longrightarrow> interrupt ext g = (closed, g') \<Longrightarrow> view g' n = Some (c, e) \<Longrightarrow> e \<and> \<not> ext"
  using interrupt_law [of g ext closed g'] by (auto simp: restrict_map_def split: if_splits)

end

section \<open>The list meets the contract\<close>

definition group_view :: "'c group \<Rightarrow> nat \<Rightarrow> ('c \<times> bool) option" where
  "group_view g = map_of (map (\<lambda>it. (gi_element it, (gi_conn it, gi_isExternal it))) (ig_connections g))"

definition group_inv :: "'c group \<Rightarrow> bool" where
  "group_inv g \<longleftrightarrow> distinct (map gi_element (ig_connections g)) \<and> (\<forall>it \<in> set (ig_connections g). gi_element it < ig_fresh g)"

lemma group_view_None: "group_inv g \<Longrightarrow> ig_fresh g \<le> n \<Longrightarrow> group_view g n = None"
  by (force simp: group_inv_def group_view_def map_of_eq_None_iff)

lemma group_view_Some:
  "group_inv g \<Longrightarrow> group_view g n = Some (c, e) \<longleftrightarrow>
     (\<exists>it \<in> set (ig_connections g). gi_element it = n \<and> gi_conn it = c \<and> gi_isExternal it = e)"
  by (force simp: group_inv_def group_view_def comp_def)

lemma conn_Close_connections:
  "ig_connections (conn_Close n g) = filter (\<lambda>it. gi_element it \<noteq> n) (ig_connections g)"
  by (simp add: conn_Close_def)

lemma fold_conn_Close:
  "ig_connections (fold conn_Close ns g) = filter (\<lambda>it. gi_element it \<notin> set ns) (ig_connections g)"
  "ig_fresh (fold conn_Close ns g) = ig_fresh g"
  by (induction ns arbitrary: g) (simp_all add: conn_Close_def conj_commute)

lemma interrupt_scan_set:
  "set (fst (interrupt_scan ext its)) = gi_conn ` {it \<in> set its. \<not> gi_isExternal it \<or> ext}"
  "set (snd (interrupt_scan ext its)) = gi_element ` {it \<in> set its. \<not> gi_isExternal it \<or> ext}"
  by (induction its) (auto split: prod.splits)

text \<open>What is left by an interruption: the connections that were not closed.\<close>

lemma group_Interrupt_left:
  assumes "group_inv g" and "group_Interrupt ext g = (closed, g')"
  shows "ig_connections g' = filter (\<lambda>it. gi_isExternal it \<and> \<not> ext) (ig_connections g)" and "ig_fresh g' = ig_fresh g"
    and "set closed = gi_conn ` {it \<in> set (ig_connections g). \<not> gi_isExternal it \<or> ext}"
proof -
  obtain ns where scan: "interrupt_scan ext (ig_connections g) = (closed, ns)" and g': "g' = fold conn_Close ns g"
    using assms(2) by (auto simp: group_Interrupt_def split: prod.splits)
  have ns: "set ns = gi_element ` {it \<in> set (ig_connections g). \<not> gi_isExternal it \<or> ext}"
    using interrupt_scan_set(2) [of ext "ig_connections g"] scan by simp
  have "gi_element it \<notin> set ns \<longleftrightarrow> gi_isExternal it \<and> \<not> ext" if "it \<in> set (ig_connections g)" for it
    using assms(1) that unfolding ns group_inv_def distinct_map inj_on_def by auto
  then show "ig_connections g' = filter (\<lambda>it. gi_isExternal it \<and> \<not> ext) (ig_connections g)"
    unfolding g' fold_conn_Close by (rule filter_cong [OF refl])
  show "ig_fresh g' = ig_fresh g" unfolding g' by (rule fold_conn_Close)
  show "set closed = gi_conn ` {it \<in> set (ig_connections g). \<not> gi_isExternal it \<or> ext}"
    using interrupt_scan_set(1) [of ext "ig_connections g"] scan by simp
qed

lemma group_inv_filter: "group_inv g \<Longrightarrow> group_inv (g\<lparr>ig_connections := filter p (ig_connections g)\<rparr>)"
  by (simp add: group_inv_def distinct_map_filter)

lemma group_view_eqI:
  "group_inv g \<Longrightarrow> (\<And>n c e. group_view g n = Some (c, e) \<longleftrightarrow> f n = Some (c, e)) \<Longrightarrow> group_view g = f"
  by (rule ext) (metis option.exhaust surj_pair)

interpretation ig: connection_group group_NewConn conn_Close group_Interrupt group_view ig_fresh group_inv
proof
  fix g :: "'c group" and c ext n g'
  assume inv: "group_inv g" and n: "group_NewConn c ext g = (n, g')"
  then have new: "group_view g n = None" "group_inv g'"
    using group_view_None [OF inv, of n] by (fastforce simp: group_NewConn_def group_inv_def)+
  then show "n = ig_fresh g \<and> group_view g n = None \<and> group_view g' = (group_view g)(n \<mapsto> (c, ext)) \<and>
      ig_fresh g' = Suc n \<and> group_inv g'"
    using n by (auto simp: group_NewConn_def group_view_def map_add_def fun_eq_iff split: option.splits)
next
  fix g :: "'c group" and n
  assume inv: "group_inv g"
  then have "group_inv (conn_Close n g)" unfolding conn_Close_def by (rule group_inv_filter)
  moreover from this have "group_view (conn_Close n g) = (group_view g)(n := None)"
    by (rule group_view_eqI) (auto simp: group_view_Some [OF inv] group_view_Some [OF \<open>group_inv (conn_Close n g)\<close>] conn_Close_connections)
  ultimately show "group_view (conn_Close n g) = (group_view g)(n := None) \<and> ig_fresh (conn_Close n g) = ig_fresh g \<and>
      group_inv (conn_Close n g)"
    by (simp add: conn_Close_def)
next
  fix g g' :: "'c group" and ext closed
  assume inv: "group_inv g" and i: "group_Interrupt ext g = (closed, g')"
  note left = group_Interrupt_left [OF inv i]
  have inv': "group_inv g'" using inv by (simp add: group_inv_def left distinct_map_filter)
  have unique: "a = b" if "a \<in> set (ig_connections g)" "b \<in> set (ig_connections g)" "gi_element a = gi_element b" for a b
    using inv that by (auto simp: group_inv_def distinct_map inj_on_def)
  have "group_view g' = group_view g |` {n. \<exists>c. group_view g n = Some (c, True) \<and> \<not> ext}"
    by (rule group_view_eqI [OF inv'])
      (auto simp: restrict_map_def group_view_Some [OF inv] group_view_Some [OF inv'] left dest: unique)
  then show "group_view g' = group_view g |` {n. \<exists>c. group_view g n = Some (c, True) \<and> \<not> ext} \<and>
      ig_fresh g' = ig_fresh g \<and> group_inv g' \<and> set closed = {c. \<exists>n e. group_view g n = Some (c, e) \<and> (\<not> e \<or> ext)}"
    using inv' left by (auto simp: group_view_Some [OF inv])
qed

end
