(* ===== verification/Group_Selector.thy ===== *)
theory Group_Selector
  imports Interrupt Lifecycle
begin

text \<open>
  \<^verbatim>\<open>protocol/group/selector.go\<close>: an outbound that sends connections to the one of its members that is
  selected, remembers the selection in the cache file, and closes connections when it changes. The
  abstract machine \<open>switch\<close> says what it promises; the selector refines it.
\<close>

section \<open>The selector\<close>

text \<open>
  A connection in the interrupt group is represented by the outbound it was dialled through.
  \<open>sl_ctx_cache\<close> says whether there is a cache file; the bucket of selections is a separate state.
\<close>

record selector =
  sl_tag :: string
  sl_tags :: "string list"
  sl_defaultTag :: string
  sl_outbounds :: "string \<Rightarrow> comp option"
  sl_selected :: "comp option"
  sl_interruptGroup :: "comp group"
  sl_interruptExternalConnections :: bool
  sl_ctx_cache :: bool

type_synonym selections = "string \<Rightarrow> string option"

definition NewSelector :: "string \<Rightarrow> string list \<Rightarrow> string \<Rightarrow> bool \<Rightarrow> bool \<Rightarrow> selector go_out" where
  "NewSelector tag tags defaultTag interruptExist cacheFile =
     (if tags = [] then Err (ErrNew [''missing tags''])
      else Ok \<lparr>sl_tag = tag, sl_tags = tags, sl_defaultTag = defaultTag, sl_outbounds = Map.empty,
               sl_selected = None, sl_interruptGroup = NewGroup,
               sl_interruptExternalConnections = interruptExist, sl_ctx_cache = cacheFile\<rparr>)"

definition sl_Network :: "selector \<Rightarrow> string list" where
  "sl_Network s = (case sl_selected s of None \<Rightarrow> [''tcp'', ''udp''] | Some o1 \<Rightarrow> c_network o1)"

text \<open>\<^verbatim>\<open>CacheFile.LoadSelected\<close> and \<^verbatim>\<open>StoreSelected\<close>; storing may fail.\<close>

definition LoadSelected :: "string \<Rightarrow> selections \<Rightarrow> string" where
  "LoadSelected grp st = (case st grp of None \<Rightarrow> [] | Some selected \<Rightarrow> selected)"

definition StoreSelected :: "bool \<Rightarrow> string \<Rightarrow> string \<Rightarrow> selections \<Rightarrow> selections" where
  "StoreSelected fails grp selected st = (if fails then st else st(grp \<mapsto> selected))"

fun load_members :: "(nat \<Rightarrow> string) \<Rightarrow> (string \<Rightarrow> comp option) \<Rightarrow> nat \<Rightarrow> string list \<Rightarrow> (string \<Rightarrow> comp option) \<Rightarrow> unit go_out \<times> (string \<Rightarrow> comp option)" where
  "load_members F_ToString lookup i [] outbounds = (Ok (), outbounds)"
| "load_members F_ToString lookup i (tag # tags) outbounds =
     (case lookup tag of
        None \<Rightarrow> (Err (ErrNew [''outbound '', F_ToString i, '' not found: '', tag]), outbounds)
      | Some detour \<Rightarrow> load_members F_ToString lookup (Suc i) tags (outbounds(tag \<mapsto> detour)))"

text \<open>The selection a start ends with, once the members are known.\<close>

definition initial_selection :: "selections \<Rightarrow> selector \<Rightarrow> comp option go_out" where
  "initial_selection st s =
     (let cached = (if sl_tag s \<noteq> [] \<and> sl_ctx_cache s then LoadSelected (sl_tag s) st else [])
      in if cached \<noteq> [] \<and> sl_outbounds s cached \<noteq> None then Ok (sl_outbounds s cached)
         else if sl_defaultTag s \<noteq> []
         then (case sl_outbounds s (sl_defaultTag s) of
                 None \<Rightarrow> Err (ErrNew [''default outbound not found: '', sl_defaultTag s])
               | Some detour \<Rightarrow> Ok (Some detour))
         else Ok (sl_outbounds s (hd (sl_tags s))))"

definition sl_Start :: "(nat \<Rightarrow> string) \<Rightarrow> (string \<Rightarrow> comp option) \<Rightarrow> selections \<Rightarrow> selector \<Rightarrow> unit go_out \<times> selector" where
  "sl_Start F_ToString lookup st s =
     (case load_members F_ToString lookup 0 (sl_tags s) (sl_outbounds s) of
        (Ok _, outbounds) \<Rightarrow>
          (let s1 = s\<lparr>sl_outbounds := outbounds\<rparr>
           in case initial_selection st s1 of
                Ok selected \<Rightarrow> (Ok (), s1\<lparr>sl_selected := selected\<rparr>)
              | Err e \<Rightarrow> (Err e, s1)
              | Panic p \<Rightarrow> (Panic p, s1))
      | (Err e, outbounds) \<Rightarrow> (Err e, s\<lparr>sl_outbounds := outbounds\<rparr>)
      | (Panic p, outbounds) \<Rightarrow> (Panic p, s\<lparr>sl_outbounds := outbounds\<rparr>))"

definition sl_Now :: "selector \<Rightarrow> string" where
  "sl_Now s = (case sl_selected s of None \<Rightarrow> hd (sl_tags s) | Some o1 \<Rightarrow> c_tag o1)"

definition sl_All :: "selector \<Rightarrow> string list" where
  "sl_All s = sl_tags s"

text \<open>The connections that are closed are the third component of the result.\<close>

definition SelectOutbound :: "bool \<Rightarrow> string \<Rightarrow> selections \<Rightarrow> selector \<Rightarrow> bool \<times> selections \<times> comp list \<times> selector" where
  "SelectOutbound storeFails tag st s =
     (case sl_outbounds s tag of
        None \<Rightarrow> (False, st, [], s)
      | Some detour \<Rightarrow>
          if sl_selected s = Some detour then (True, st, [], s)
          else
            let st1 = (if sl_tag s \<noteq> [] \<and> sl_ctx_cache s then StoreSelected storeFails (sl_tag s) tag st else st)
            in (case group_Interrupt (sl_interruptExternalConnections s) (sl_interruptGroup s) of
                  (closed, g1) \<Rightarrow> (True, st1, closed, s\<lparr>sl_selected := Some detour, sl_interruptGroup := g1\<rparr>)))"

text \<open>
  \<^verbatim>\<open>DialContext\<close> and \<^verbatim>\<open>ListenPacket\<close>: \<open>dial\<close> is what dialling through an outbound ends with; the result is
  the element of the connection in the group.
\<close>

definition sl_Dial :: "(comp \<Rightarrow> go_err option) \<Rightarrow> bool \<Rightarrow> selector \<Rightarrow> nat go_out \<times> selector" where
  "sl_Dial dial isExternal s =
     (case sl_selected s of
        None \<Rightarrow> (Panic ''nil pointer dereference'', s)
      | Some o1 \<Rightarrow>
          (case dial o1 of
             Some e \<Rightarrow> (Err e, s)
           | None \<Rightarrow>
               (case group_NewConn o1 isExternal (sl_interruptGroup s) of
                  (n, g1) \<Rightarrow> (Ok n, s\<lparr>sl_interruptGroup := g1\<rparr>))))"

definition sl_conn_Close :: "nat \<Rightarrow> selector \<Rightarrow> selector" where
  "sl_conn_Close n s = s\<lparr>sl_interruptGroup := conn_Close n (sl_interruptGroup s)\<rparr>"

text \<open>
  \<^verbatim>\<open>NewConnectionEx\<close> and \<^verbatim>\<open>NewPacketConnectionEx\<close> hand a connection of an inbound to the selected
  outbound itself, or to the connection manager with the selected outbound as dialer.
\<close>

datatype dispatch = ToHandler comp | DialWith "comp option"

definition sl_NewConnectionEx :: "(comp \<Rightarrow> bool) \<Rightarrow> selector \<Rightarrow> dispatch" where
  "sl_NewConnectionEx isHandler s =
     (case sl_selected s of
        Some o1 \<Rightarrow> if isHandler o1 then ToHandler o1 else DialWith (Some o1)
      | None \<Rightarrow> DialWith None)"

definition sl_NewDirectRouteConnection ::
  "(string list \<Rightarrow> string \<Rightarrow> bool) \<Rightarrow> string \<Rightarrow> selector \<Rightarrow> comp go_out" where
  "sl_NewDirectRouteConnection contains network s =
     (case sl_selected s of
        None \<Rightarrow> Panic ''nil pointer dereference''
      | Some o1 \<Rightarrow>
          if \<not> contains (c_network o1) network
          then Err (ErrNew [network, '' is not supported by outbound: '', c_tag o1])
          else Ok o1)"

section \<open>What a selector promises\<close>

text \<open>
  A switch has a current outbound and open connections, each with the outbound it runs through and
  whether it belongs to an inbound. Switching closes connections.
\<close>

record switch =
  sw_current :: comp
  sw_open :: "nat \<Rightarrow> (comp \<times> bool) option"
  sw_next :: nat

datatype switch_op = Dial bool "comp \<Rightarrow> go_err option" | CloseConn nat | SwitchTo bool string

definition spec_step :: "(string \<Rightarrow> comp option) \<Rightarrow> bool \<Rightarrow> switch_op \<Rightarrow> switch \<Rightarrow> switch" where
  "spec_step choices ext op w =
     (case op of
        Dial isExternal dial \<Rightarrow>
          if dial (sw_current w) = None then w\<lparr>sw_open := (sw_open w)(sw_next w \<mapsto> (sw_current w, isExternal)), sw_next := Suc (sw_next w)\<rparr>
          else w
      | CloseConn n \<Rightarrow> w\<lparr>sw_open := (sw_open w)(n := None)\<rparr>
      | SwitchTo storeFails tag \<Rightarrow>
          (case choices tag of
             None \<Rightarrow> w
           | Some o1 \<Rightarrow>
               if o1 = sw_current w then w
               else w\<lparr>sw_current := o1, sw_open := sw_open w |` {n. \<exists>c. sw_open w n = Some (c, True) \<and> \<not> ext}\<rparr>))"

text \<open>Open connections that switching closes run through the current outbound.\<close>

definition spec_inv :: "bool \<Rightarrow> switch \<Rightarrow> bool" where
  "spec_inv ext w \<longleftrightarrow> (\<forall>n c e. sw_open w n = Some (c, e) \<longrightarrow> \<not> e \<or> ext \<longrightarrow> c = sw_current w)"

lemma spec_inv_step: "spec_inv ext w \<Longrightarrow> spec_inv ext (spec_step choices ext op w)"
  by (cases op) (auto simp: spec_step_def spec_inv_def restrict_map_def split: option.splits)

text \<open>The selector with the same operations; the bucket of selections is threaded.\<close>

definition sel_step :: "switch_op \<Rightarrow> selections \<times> selector \<Rightarrow> selections \<times> selector" where
  "sel_step op x =
     (case x of (st, s) \<Rightarrow>
        (case op of
           Dial isExternal dial \<Rightarrow> (st, snd (sl_Dial dial isExternal s))
         | CloseConn n \<Rightarrow> (st, sl_conn_Close n s)
         | SwitchTo storeFails tag \<Rightarrow> (case SelectOutbound storeFails tag st s of (_, st1, _, s1) \<Rightarrow> (st1, s1))))"

definition switch_of :: "selector \<Rightarrow> switch" where
  "switch_of s =
     \<lparr>sw_current = the (sl_selected s), sw_open = group_view (sl_interruptGroup s), sw_next = ig_fresh (sl_interruptGroup s)\<rparr>"

definition selector_ok :: "selector \<Rightarrow> bool" where
  "selector_ok s \<longleftrightarrow> sl_selected s \<noteq> None \<and> group_inv (sl_interruptGroup s)"

text \<open>The configuration of a selector: what no operation changes.\<close>

definition same_config :: "selector \<Rightarrow> selector \<Rightarrow> bool" where
  "same_config s s' \<longleftrightarrow> sl_tag s' = sl_tag s \<and> sl_tags s' = sl_tags s \<and> sl_defaultTag s' = sl_defaultTag s \<and>
     sl_outbounds s' = sl_outbounds s \<and> sl_ctx_cache s' = sl_ctx_cache s \<and>
     sl_interruptExternalConnections s' = sl_interruptExternalConnections s"

lemma sel_step_config: "sel_step op (st, s) = (st', s') \<Longrightarrow> same_config s s'"
  by (cases op) (auto simp: sel_step_def same_config_def sl_Dial_def sl_conn_Close_def SelectOutbound_def Let_def
      split: option.splits prod.splits if_splits)

lemma initial_selection_cong:
  "same_config s s' \<Longrightarrow> st' (sl_tag s) = st (sl_tag s) \<Longrightarrow> initial_selection st' s' = initial_selection st s"
  unfolding same_config_def initial_selection_def LoadSelected_def by (elim conjE) (simp only: cong: option.case_cong)

lemma sel_step_simulates:
  assumes "selector_ok s" and "sel_step op (st, s) = (st', s')"
  shows "switch_of s' = spec_step (sl_outbounds s) (sl_interruptExternalConnections s) op (switch_of s) \<and> selector_ok s'"
proof -
  obtain o1 where o1: "sl_selected s = Some o1" and inv: "group_inv (sl_interruptGroup s)"
    using assms(1) by (auto simp: selector_ok_def)
  note laws = ig.new_law [OF inv] ig.close_law [OF inv] ig.interrupt_law [OF inv]
  show ?thesis
  proof (cases op)
    case (Dial e dial)
    obtain n g1 where g: "group_NewConn o1 e (sl_interruptGroup s) = (n, g1)" by fastforce
    show ?thesis using assms laws(1) [OF g] g o1
      by (cases "dial o1") (auto simp: sel_step_def sl_Dial_def Dial o1 spec_step_def switch_of_def selector_ok_def)
  next
    case (CloseConn n)
    then show ?thesis using assms laws(2) [of n]
      by (auto simp: sel_step_def sl_conn_Close_def o1 spec_step_def switch_of_def selector_ok_def)
  next
    case (SwitchTo b tag)
    obtain closed g1 where g: "group_Interrupt (sl_interruptExternalConnections s) (sl_interruptGroup s) = (closed, g1)"
      by fastforce
    have s': "s' = (case sl_outbounds s tag of None \<Rightarrow> s
        | Some d \<Rightarrow> if o1 = d then s else s\<lparr>sl_selected := Some d, sl_interruptGroup := g1\<rparr>)"
      using assms(2) by (auto simp: sel_step_def SelectOutbound_def SwitchTo o1 g Let_def split: option.splits if_splits)
    show ?thesis using assms(1) laws(3) [OF g] unfolding s'
      by (cases "sl_outbounds s tag") (auto simp: SwitchTo o1 spec_step_def switch_of_def selector_ok_def)
  qed
qed

lemma same_config_trans: "same_config s s1 \<Longrightarrow> same_config s1 s2 \<Longrightarrow> same_config s s2"
  by (simp add: same_config_def)

lemma sel_run_simulates:
  "selector_ok s \<Longrightarrow> fold sel_step ops (st, s) = (st', s') \<Longrightarrow>
     switch_of s' = fold (spec_step (sl_outbounds s) (sl_interruptExternalConnections s)) ops (switch_of s) \<and>
     selector_ok s' \<and> same_config s s'"
proof (induction ops arbitrary: st s)
  case Nil
  then show ?case by (simp add: same_config_def)
next
  case (Cons op ops)
  obtain st1 s1 where step: "sel_step op (st, s) = (st1, s1)" by fastforce
  note sim = sel_step_simulates [OF Cons.prems(1) step] and conf = sel_step_config [OF step]
  from Cons.IH [of s1 st1] Cons.prems(2) step sim conf show ?case
    using same_config_trans [OF conf, of s'] by (simp add: same_config_def)
qed

lemma spec_inv_run: "spec_inv ext w \<Longrightarrow> spec_inv ext (fold (spec_step choices ext) ops w)"
  by (induction ops arbitrary: w) (simp_all add: spec_inv_step)

section \<open>Starting\<close>

lemma load_members_ok:
  "load_members F lookup i tags m = (Ok (), m') \<Longrightarrow>
     m' = (\<lambda>t. if t \<in> set tags then lookup t else m t) \<and> (\<forall>t \<in> set tags. lookup t \<noteq> None)"
proof (induction tags arbitrary: m i)
  case (Cons t tags)
  then obtain d where d: "lookup t = Some d" and "load_members F lookup (Suc i) tags (m(t \<mapsto> d)) = (Ok (), m')"
    by (cases "lookup t") auto
  from Cons.IH [OF this(2)] d show ?case by (auto simp: fun_eq_iff)
qed simp

lemma initial_selection_Some:
  "initial_selection st s = Ok x \<Longrightarrow> sl_tags s \<noteq> [] \<Longrightarrow> \<forall>t \<in> set (sl_tags s). sl_outbounds s t \<noteq> None \<Longrightarrow> x \<noteq> None"
  by (cases x) (auto simp: initial_selection_def Let_def split: if_splits option.splits dest: bspec [OF _ hd_in_set])

text \<open>A selector that has started has a selection; its members are those of the configuration.\<close>

lemma started_selector:
  assumes "NewSelector tag tags dflt ie cf = Ok s0" and "sl_Start F lookup st s0 = (Ok (), s1)"
  shows "selector_ok s1" and "sl_outbounds s1 = lookup |` set tags"
    and "s1 = s0\<lparr>sl_outbounds := lookup |` set tags, sl_selected := sl_selected s1\<rparr>"
    and "initial_selection st s1 = Ok (sl_selected s1)" and "sl_interruptGroup s1 = NewGroup"
    and "sl_interruptExternalConnections s1 = ie"
proof -
  have new: "tags \<noteq> []" "sl_tags s0 = tags" "sl_outbounds s0 = Map.empty" "sl_interruptGroup s0 = NewGroup"
    "sl_interruptExternalConnections s0 = ie"
    using assms(1) by (auto simp: NewSelector_def split: if_splits)
  obtain m where m: "load_members F lookup 0 tags Map.empty = (Ok (), m)"
    and i: "initial_selection st (s0\<lparr>sl_outbounds := m\<rparr>) = Ok (sl_selected s1)"
    and s1: "s1 = s0\<lparr>sl_outbounds := m, sl_selected := sl_selected s1\<rparr>"
    using assms(2) by (auto simp: sl_Start_def new Let_def split: prod.splits go_out.splits)
  have m_eq: "m = lookup |` set tags" and found: "\<forall>t \<in> set tags. lookup t \<noteq> None"
    using load_members_ok [OF m] by (auto simp: restrict_map_def fun_eq_iff)
  have "same_config (s0\<lparr>sl_outbounds := m\<rparr>) s1" by (subst s1) (simp add: same_config_def)
  then have same: "initial_selection st s1 = initial_selection st (s0\<lparr>sl_outbounds := m\<rparr>)"
    by (rule initial_selection_cong) simp
  have "sl_selected s1 \<noteq> None"
    by (rule initial_selection_Some [OF i]) (use found new(1,2) in \<open>simp_all add: m_eq\<close>)
  moreover show "sl_interruptGroup s1 = NewGroup" by (subst s1) (simp add: new)
  ultimately show "selector_ok s1" by (simp add: selector_ok_def group_inv_def NewGroup_def)
  show "s1 = s0\<lparr>sl_outbounds := lookup |` set tags, sl_selected := sl_selected s1\<rparr>" using s1 m_eq by simp
  show "sl_outbounds s1 = lookup |` set tags" by (subst s1) (simp add: m_eq)
  show "initial_selection st s1 = Ok (sl_selected s1)" using i same by simp
  show "sl_interruptExternalConnections s1 = ie" by (subst s1) (simp add: new)
qed


definition demo_member :: "string \<Rightarrow> comp option" where
  "demo_member t =
     (if t \<in> {''a'', ''b''}
      then Some \<lparr>c_id = (if t = ''a'' then 0 else 1), c_type = ''direct'', c_tag = t, c_deps = [], c_network = [''tcp''],
        c_lifecycle = False, c_prestart = False, c_start = False, c_poststart = False, c_closer = False\<rparr>
      else None)"

definition demo_ops :: "switch_op list" where
  "demo_ops = [Dial False (\<lambda>_. None), Dial True (\<lambda>_. None), SwitchTo False ''b'', Dial False (\<lambda>_. None)]"

definition demo_s0 :: selector where
  "demo_s0 = \<lparr>sl_tag = ''sel'', sl_tags = [''a'', ''b''], sl_defaultTag = [], sl_outbounds = Map.empty,
     sl_selected = None, sl_interruptGroup = NewGroup, sl_interruptExternalConnections = False, sl_ctx_cache = True\<rparr>"

definition demo_s1 :: selector where
  "demo_s1 = snd (sl_Start (\<lambda>_. []) demo_member Map.empty demo_s0)"

lemma demo_started:
  "NewSelector ''sel'' [''a'', ''b''] [] False True = Ok demo_s0"
  "sl_Start (\<lambda>_. []) demo_member Map.empty demo_s0 = (Ok (), demo_s1)"
  by (simp_all add: NewSelector_def demo_s1_def demo_s0_def sl_Start_def demo_member_def initial_selection_def
      LoadSelected_def)


text \<open>The selection a restart would end with is the current one, as long as storing succeeds.\<close>

lemma initial_selection_kept:
  assumes "selector_ok s" and "initial_selection st s = Ok (sl_selected s)" and "sel_step op (st, s) = (st', s')"
    and "sl_tag s \<noteq> []" and "sl_ctx_cache s" and "sl_outbounds s [] = None" and "\<forall>t. op \<noteq> SwitchTo True t"
  shows "initial_selection st' s' = Ok (sl_selected s')"
proof (cases "sl_selected s' = sl_selected s \<and> st' = st")
  case True
  have "initial_selection st s' = initial_selection st s"
    by (rule initial_selection_cong [OF sel_step_config [OF assms(3)]]) simp
  then show ?thesis using True assms(2) by simp
next
  case False
  obtain o1 where o1: "sl_selected s = Some o1" using assms(1) by (auto simp: selector_ok_def)
  obtain b t where op: "op = SwitchTo b t"
    using False assms(3) o1 by (cases op) (auto simp: sel_step_def sl_Dial_def sl_conn_Close_def split: option.splits prod.splits)
  then have "\<not> b" using assms(7) by (cases b) auto
  then obtain d where d: "sl_outbounds s t = Some d" and s': "sl_selected s' = Some d" and st': "st' = st(sl_tag s \<mapsto> t)"
    using False assms(3-5) by (auto simp: sel_step_def op SelectOutbound_def StoreSelected_def Let_def
        split: option.splits prod.splits if_splits)
  moreover have "t \<noteq> []" using d assms(6) by auto
  ultimately show ?thesis using sel_step_config [OF assms(3)] assms(4,5)
    by (simp add: same_config_def initial_selection_def LoadSelected_def)
qed

lemma initial_selection_run:
  "selector_ok s \<Longrightarrow> initial_selection st s = Ok (sl_selected s) \<Longrightarrow> fold sel_step ops (st, s) = (st', s') \<Longrightarrow>
     sl_tag s \<noteq> [] \<Longrightarrow> sl_ctx_cache s \<Longrightarrow> sl_outbounds s [] = None \<Longrightarrow> \<forall>t. SwitchTo True t \<notin> set ops \<Longrightarrow>
     initial_selection st' s' = Ok (sl_selected s')"
proof (induction ops arbitrary: st s)
  case (Cons op ops)
  obtain st1 s1 where step: "sel_step op (st, s) = (st1, s1)" by fastforce
  have "initial_selection st1 s1 = Ok (sl_selected s1)"
    by (rule initial_selection_kept [OF Cons.prems(1,2) step Cons.prems(4-6)]) (use Cons.prems(7) in auto)
  then show ?case using Cons.IH [of s1 st1] sel_step_simulates [OF Cons.prems(1) step] sel_step_config [OF step]
      Cons.prems(3-7) step by (simp add: same_config_def)
qed simp

text \<open>
  C24: A selector with a tag and a cache file remembers its selection. After any sequence of operations
  in which no selection failed to be stored, a new selector with the same configuration that starts with
  the bucket the first one left (or any bucket with the same entry for this tag) selects the same outbound.
\<close>

theorem selector_remembers:
  assumes "NewSelector tag tags dflt ie True = Ok s0" and "sl_Start F_ToString lookup st s0 = (Ok (), s1)"
    and "fold sel_step ops (st, s1) = (st2, s2)" and "\<forall>t. SwitchTo True t \<notin> set ops"
    and "tag \<noteq> []" and "lookup [] = None" and "st3 tag = st2 tag"
  shows "\<exists>s3. sl_Start F_ToString lookup st3 s0 = (Ok (), s3) \<and> sl_selected s3 = sl_selected s2"
proof -
  note start = started_selector [OF assms(1,2)]
  have new: "sl_tag s0 = tag" "sl_ctx_cache s0" using assms(1) by (auto simp: NewSelector_def split: if_splits)
  have s1: "sl_tag s1 = tag" "sl_ctx_cache s1" using new by (subst start(3), simp)+
  have "initial_selection st2 s2 = Ok (sl_selected s2)"
    by (rule initial_selection_run [OF start(1,4) assms(3)]) (use s1 assms(4-6) start(2) in \<open>simp_all add: restrict_map_def\<close>)
  moreover have "same_config s1 s2" using sel_run_simulates [OF start(1) assms(3)] by blast
  ultimately have init: "initial_selection st3 s1 = Ok (sl_selected s2)"
    using s1(1) assms(7) initial_selection_cong [of s1 s2 st2 st3] by (simp add: same_config_def)
  have "same_config (s0\<lparr>sl_outbounds := lookup |` set tags\<rparr>) s1" by (subst start(3)) (simp add: same_config_def)
  then have "initial_selection st3 (s0\<lparr>sl_outbounds := lookup |` set tags\<rparr>) = Ok (sl_selected s2)"
    using init initial_selection_cong by metis
  moreover have "fst (sl_Start F_ToString lookup st s0) = Ok ()" using assms(2) by simp
  then have "load_members F_ToString lookup 0 (sl_tags s0) (sl_outbounds s0) = (Ok (), sl_outbounds s1)"
    using assms(2) by (auto simp: sl_Start_def Let_def split: prod.splits go_out.splits)
  ultimately show ?thesis using start(2) by (simp add: sl_Start_def Let_def)
qed

theorem selector_remembers_witness:
  "case fold sel_step demo_ops (Map.empty, demo_s1) of
     (st2, s2) \<Rightarrow> \<exists>s3. sl_Start (\<lambda>_. []) demo_member st2 demo_s0 = (Ok (), s3) \<and> sl_selected s3 = sl_selected s2"
proof -
  obtain st2 s2 where run: "fold sel_step demo_ops (Map.empty, demo_s1) = (st2, s2)" by fastforce
  have "\<exists>s3. sl_Start (\<lambda>_. []) demo_member st2 demo_s0 = (Ok (), s3) \<and> sl_selected s3 = sl_selected s2"
    by (rule selector_remembers [OF demo_started run]) (simp_all add: demo_ops_def demo_member_def)
  then show ?thesis by (simp add: run)
qed

end
