(* ===== verification/Cache_Slots.thy ===== *)
theory Cache_Slots
  imports Cache_Storage Group_Selector
begin

text \<open>
  The slots of the cache file: the mode, the selected outbounds, the expanded groups and the saved rule-sets
  of every cache id. Whatever is written, by programs with any cache ids that use the file one after the
  other, every slot holds what was written to it last.
\<close>

section \<open>Buckets of a cache id\<close>

text \<open>A cache id is empty or starts with the byte 0; no name of a bucket does.\<close>

definition id_ok :: "bytes \<Rightarrow> bool" where
  "id_ok i \<longleftrightarrow> i = [] \<or> hd i = 0"

definition bucket_get :: "bytes \<Rightarrow> database \<Rightarrow> bytes \<Rightarrow> kv" where
  "bucket_get i db key k =
     (if i = [] then db_get db key k
      else case db i of None \<Rightarrow> None | Some b \<Rightarrow> (case map_of (db_subs b) key of None \<Rightarrow> None | Some m \<Rightarrow> m k))"

lemma NewCacheFile_id_ok: "id_ok (ch_cacheID (NewCacheFile BasePath path cacheID sf sr timeout))"
  by (simp add: NewCacheFile_def id_ok_def)

lemma ch_bucket_get:
  "(case ch_bucket c key of None \<Rightarrow> None | Some m \<Rightarrow> m k) = bucket_get (ch_cacheID c) (ch_DB c) key k"
  by (simp add: ch_bucket_def bucket_get_def db_get_def split: option.split)

lemma ch_bucket_case:
  "(case ch_bucket c key of None \<Rightarrow> x | Some m \<Rightarrow> (case m k of None \<Rightarrow> x | Some v \<Rightarrow> g v)) =
     (case bucket_get (ch_cacheID c) (ch_DB c) key k of None \<Rightarrow> x | Some v \<Rightarrow> g v)"
  by (simp flip: ch_bucket_get split: option.split)

lemma createBucket_Put:
  assumes k: "k \<noteq> []" and i: "id_ok (ch_cacheID c)" and key: "key \<noteq> []" "hd key \<noteq> 0"
  obtains db' where "ch_createBucket c key (kv_Put k v) db = Inr db'"
    and "\<And>i' key' k'. id_ok i' \<Longrightarrow> key' \<noteq> [] \<Longrightarrow> hd key' \<noteq> 0 \<Longrightarrow> bucket_get i' db' key' k' =
      (if i' = ch_cacheID c \<and> key' = key \<and> k' = k then Some v else bucket_get i' db key' k')"
    and "\<And>n k'. n \<noteq> key \<Longrightarrow> n \<noteq> [] \<Longrightarrow> hd n \<noteq> 0 \<Longrightarrow> db_get db' n k' = db_get db n k'"
proof (cases "ch_cacheID c = []")
  case True
  obtain db' where db': "on_bucket key (kv_Put k v) db = Inr db'" using k by (simp add: on_bucket_cases kv_Put_def)
  have get: "db_get db' n k' = (if n = key then ((db_get db key)(k \<mapsto> v)) k' else db_get db n k')" for n k'
    using on_bucket_get [OF db'] k by (simp add: kv_Put_def)
  have same: "i' \<noteq> [] \<Longrightarrow> hd i' = 0 \<Longrightarrow> db' i' = db i'" for i'
    using db' key by (auto simp: on_bucket_cases split: sum.splits)
  show ?thesis
    by (rule that [of db'])
       (use True db' get same in \<open>auto simp: ch_createBucket_def bucket_get_def id_ok_def\<close>)
next
  case False
  let ?i = "ch_cacheID c"
  let ?b = "CreateBucketIfNotExists ?i db"
  let ?m = "case map_of (db_subs ?b) key of Some m \<Rightarrow> m | None \<Rightarrow> Map.empty"
  let ?db = "db(?i \<mapsto> ?b\<lparr>db_subs := (key, ?m(k \<mapsto> v)) # filter (\<lambda>s. fst s \<noteq> key) (db_subs ?b)\<rparr>)"
  have create: "ch_createBucket c key (kv_Put k v) db = Inr ?db"
    using False k by (simp add: ch_createBucket_def kv_Put_def Let_def)
  have filtered: "map_of (filter (\<lambda>s. fst s \<noteq> key) xs) key' = (if key' = key then None else map_of xs key')" for xs key'
    by (induction xs) auto
  have old: "bucket_get ?i db key' k' = (case map_of (db_subs ?b) key' of None \<Rightarrow> None | Some m \<Rightarrow> m k')" for key' k'
    using False by (simp add: bucket_get_def CreateBucketIfNotExists_def NewBucket_def split: option.split)
  have hd: "hd ?i = 0" using i False by (simp add: id_ok_def)
  have "bucket_get i' ?db key' k' = (if i' = ?i \<and> key' = key \<and> k' = k then Some v else bucket_get i' db key' k')"
    if "key' \<noteq> []" "hd key' \<noteq> 0" for i' key' k'
  proof (cases "i' = ?i")
    case True
    then show ?thesis
      using False unfolding True old by (simp add: bucket_get_def filtered split: option.split)
  next
    case other: False
    have "key' \<noteq> ?i" using that hd by auto
    then show ?thesis using other by (simp add: bucket_get_def db_get_def)
  qed
  moreover have "db_get ?db n k' = db_get db n k'" if "hd n \<noteq> 0" for n k'
    using that hd by (auto simp: db_get_def)
  ultimately show ?thesis using that [OF create] by blast
qed

section \<open>Slots\<close>

datatype slot = ModeSlot | SelectedSlot string | ExpandSlot string | RuleSetSlot string

datatype slot_value = StringValue string | ExpandValue "bool \<times> bool" | BinaryValue "saved_binary option"

text \<open>What the program reads from a slot with a cache id; \<open>limit\<close> bounds what \<^verbatim>\<open>make\<close> allocates.\<close>

fun slot_view :: "nat \<Rightarrow> cache_file \<Rightarrow> bytes \<times> slot \<Rightarrow> slot_value" where
  "slot_view limit c (i, ModeSlot) = StringValue (LoadMode (c\<lparr>ch_cacheID := i\<rparr>))"
| "slot_view limit c (i, SelectedSlot g) = StringValue (ch_LoadSelected g (c\<lparr>ch_cacheID := i\<rparr>))"
| "slot_view limit c (i, ExpandSlot g) = ExpandValue (LoadGroupExpand g (c\<lparr>ch_cacheID := i\<rparr>))"
| "slot_view limit c (i, RuleSetSlot t) = BinaryValue (fst (LoadRuleSet limit t (c\<lparr>ch_cacheID := i\<rparr>)))"

datatype slot_write = WriteMode string | WriteSelected string string | WriteExpand string bool | WriteRuleSet string saved_binary

text \<open>A write with a cache id, and what it means.\<close>

fun write_slot :: "bytes \<times> slot_write \<Rightarrow> cache_file \<Rightarrow> cache_file" where
  "write_slot (i, WriteMode m) c = snd (StoreMode m (c\<lparr>ch_cacheID := i\<rparr>))"
| "write_slot (i, WriteSelected g s) c = snd (ch_StoreSelected g s (c\<lparr>ch_cacheID := i\<rparr>))"
| "write_slot (i, WriteExpand g e) c = snd (StoreGroupExpand g e (c\<lparr>ch_cacheID := i\<rparr>))"
| "write_slot (i, WriteRuleSet t s) c = snd (SaveRuleSet PutUvarint t s (c\<lparr>ch_cacheID := i\<rparr>))"

definition whole_seconds :: "saved_binary \<Rightarrow> saved_binary" where
  "whole_seconds s = s\<lparr>sv_LastUpdated := sv_LastUpdated s div 1000000000 * 1000000000\<rparr>"

fun slot_meaning :: "bytes \<times> slot_write \<Rightarrow> (bytes \<times> slot \<Rightarrow> slot_value) \<Rightarrow> bytes \<times> slot \<Rightarrow> slot_value" where
  "slot_meaning (i, WriteMode m) v = v((i, ModeSlot) := StringValue m)"
| "slot_meaning (i, WriteSelected g s) v = v((i, SelectedSlot g) := StringValue s)"
| "slot_meaning (i, WriteExpand g e) v = v((i, ExpandSlot g) := ExpandValue (e, True))"
| "slot_meaning (i, WriteRuleSet t s) v = v((i, RuleSetSlot t) := BinaryValue (Some (whole_seconds s)))"

text \<open>Writes the file accepts: a name that is not empty, a rule-set within the bounds of its binary form.\<close>

fun write_ok :: "nat \<Rightarrow> slot_write \<Rightarrow> bool" where
  "write_ok limit (WriteMode m) = True"
| "write_ok limit (WriteSelected g s) = (g \<noteq> [])"
| "write_ok limit (WriteExpand g e) = (g \<noteq> [])"
| "write_ok limit (WriteRuleSet t s) =
     (t \<noteq> [] \<and> limit < 2 ^ 64 \<and> length (sv_Content s) \<le> limit \<and> length (sv_LastEtag s) \<le> limit \<and>
      - (2 ^ 63) \<le> sv_LastUpdated s div 1000000000 \<and> sv_LastUpdated s div 1000000000 < 2 ^ 63)"

text \<open>The bytes of a slot, and what is read from them.\<close>

fun slot_raw :: "database \<Rightarrow> bytes \<times> slot \<Rightarrow> bytes option" where
  "slot_raw db (i, ModeSlot) = db_get db bucketMode (if i = [] then cacheIDDefault else i)"
| "slot_raw db (i, SelectedSlot g) = bucket_get i db bucketSelected (bytes_of_string g)"
| "slot_raw db (i, ExpandSlot g) = bucket_get i db bucketExpand (bytes_of_string g)"
| "slot_raw db (i, RuleSetSlot t) = bucket_get i db bucketRuleSet (bytes_of_string t)"

fun slot_read :: "nat \<Rightarrow> slot \<Rightarrow> bytes option \<Rightarrow> slot_value" where
  "slot_read limit (ExpandSlot g) b = ExpandValue (case b of Some [x] \<Rightarrow> (x = 1, True) | _ \<Rightarrow> (False, False))"
| "slot_read limit (RuleSetSlot t) b =
     BinaryValue (case b of None \<Rightarrow> None
       | Some x \<Rightarrow> if x = [] then None else (case saved_Unmarshal limit x of Ok s \<Rightarrow> Some s | _ \<Rightarrow> None))"
| "slot_read limit _ b = StringValue (case b of None \<Rightarrow> [] | Some x \<Rightarrow> string_of_bytes x)"

lemma slot_view_raw: "slot_view limit c (i, s) = slot_read limit s (slot_raw (ch_DB c) (i, s))"
proof (cases s)
  case (ExpandSlot g)
  then show ?thesis
    using ch_bucket_get [of "bytes_of_string g" "c\<lparr>ch_cacheID := i\<rparr>" bucketExpand]
    by (cases "bucket_get i (ch_DB c) bucketExpand (bytes_of_string g)")
      (auto simp: LoadGroupExpand_def split: option.splits list.splits)
next
  case (RuleSetSlot t)
  then show ?thesis
    using ch_bucket_get [of "bytes_of_string t" "c\<lparr>ch_cacheID := i\<rparr>" bucketRuleSet]
    by (cases "bucket_get i (ch_DB c) bucketRuleSet (bytes_of_string t)")
      (auto simp: LoadRuleSet_def split: option.splits go_out.splits)
qed (simp_all add: LoadMode_def mode_key_def db_get_def ch_LoadSelected_def ch_bucket_case split: option.split)

fun slot_of :: "slot_write \<Rightarrow> slot" where
  "slot_of (WriteMode m) = ModeSlot"
| "slot_of (WriteSelected g s) = SelectedSlot g"
| "slot_of (WriteExpand g e) = ExpandSlot g"
| "slot_of (WriteRuleSet t s) = RuleSetSlot t"

fun slot_bytes :: "slot_write \<Rightarrow> bytes" where
  "slot_bytes (WriteMode m) = bytes_of_string m"
| "slot_bytes (WriteSelected g s) = bytes_of_string s"
| "slot_bytes (WriteExpand g e) = [if e then 1 else 0]"
| "slot_bytes (WriteRuleSet t s) = saved_Marshal PutUvarint s"

lemma bucket_names:
  "bucketSelected \<noteq> [] \<and> hd bucketSelected \<noteq> 0" "bucketExpand \<noteq> [] \<and> hd bucketExpand \<noteq> 0"
  "bucketRuleSet \<noteq> [] \<and> hd bucketRuleSet \<noteq> 0" "bucketMode \<noteq> [] \<and> hd bucketMode \<noteq> 0"
  "distinct [bucketSelected, bucketExpand, bucketRuleSet, bucketMode]" "cacheIDDefault \<noteq> [] \<and> hd cacheIDDefault \<noteq> 0"
  by (simp_all add: bucketSelected_def bucketExpand_def bucketRuleSet_def bucketMode_def cacheIDDefault_def
      bytes_of_string_def)

lemma write_slot_raw:
  assumes i: "id_ok i" and w: "write_ok limit w" and i': "id_ok i'"
  shows "slot_raw (ch_DB (write_slot (i, w) c)) (i', s) =
    (if (i', s) = (i, slot_of w) then Some (slot_bytes w) else slot_raw (ch_DB c) (i', s))"
proof -
  have sub: "slot_raw (ch_DB (snd (ch_batch (ch_createBucket (c\<lparr>ch_cacheID := i\<rparr>) key (kv_Put (bytes_of_string k) v))
        (c\<lparr>ch_cacheID := i\<rparr>)))) (i', s) =
      (if i' = i \<and> (key = bucketSelected \<and> s = SelectedSlot k \<or> key = bucketExpand \<and> s = ExpandSlot k \<or>
         key = bucketRuleSet \<and> s = RuleSetSlot k) then Some v else slot_raw (ch_DB c) (i', s))"
    if k: "k \<noteq> []" and key: "key \<in> {bucketSelected, bucketExpand, bucketRuleSet}" for k key v
  proof -
    have "key \<noteq> []" "hd key \<noteq> 0" using key bucket_names by auto
    then obtain db' where "ch_createBucket (c\<lparr>ch_cacheID := i\<rparr>) key (kv_Put (bytes_of_string k) v) (ch_DB c) = Inr db'"
      and get: "\<And>i' key' k'. id_ok i' \<Longrightarrow> key' \<noteq> [] \<Longrightarrow> hd key' \<noteq> 0 \<Longrightarrow> bucket_get i' db' key' k' =
      (if i' = i \<and> key' = key \<and> k' = bytes_of_string k then Some v else bucket_get i' (ch_DB c) key' k')"
      and frame: "\<And>n k'. n \<noteq> key \<Longrightarrow> n \<noteq> [] \<Longrightarrow> hd n \<noteq> 0 \<Longrightarrow> db_get db' n k' = db_get (ch_DB c) n k'"
      using createBucket_Put [of "bytes_of_string k" "c\<lparr>ch_cacheID := i\<rparr>" key v "ch_DB c"] k i by auto
    then show ?thesis
      using key bucket_names get [OF i'] frame by (cases s) (auto simp: ch_batch_def)
  qed
  show ?thesis
  proof (cases w)
    case (WriteMode m)
    let ?k = "if i = [] then cacheIDDefault else i"
    have "?k \<noteq> []" using bucket_names(6) by simp
    then obtain db' where db': "on_bucket bucketMode (kv_Put ?k (bytes_of_string m)) (ch_DB c) = Inr db'"
      by (simp add: on_bucket_cases kv_Put_def)
    have get: "db_get db' n k = (if n = bucketMode \<and> k = ?k then Some (bytes_of_string m) else db_get (ch_DB c) n k)" for n k
      using on_bucket_get [OF db', of _ n k] \<open>?k \<noteq> []\<close> by (simp add: kv_Put_def)
    have same: "hd n = 0 \<Longrightarrow> n \<noteq> [] \<Longrightarrow> db' n = ch_DB c n" for n
      using on_bucket_frame [OF db', of n] bucket_names(4) by auto
    have "ch_DB (write_slot (i, w) c) = db'"
      using db' by (cases "i = []") (simp_all add: WriteMode StoreMode_def mode_key_def ch_batch_def)
    then show ?thesis
      using bucket_names i i' same get by (cases s) (auto simp: WriteMode bucket_get_def id_ok_def)
  qed (use w sub bucket_names(5) in \<open>auto simp: ch_StoreSelected_def StoreGroupExpand_def SaveRuleSet_def\<close>)
qed

lemma slot_read_written:
  "write_ok limit w \<Longrightarrow> slot_read limit (slot_of w) (Some (slot_bytes w)) = slot_meaning (i, w) v (i, slot_of w)"
proof (cases w)
  case (WriteRuleSet t s)
  assume "write_ok limit w"
  then have "saved_Unmarshal limit (saved_Marshal PutUvarint s) = Ok (whole_seconds s)"
    using saved_roundtrip [of limit s] by (simp add: WriteRuleSet whole_seconds_def)
  moreover have "saved_Marshal PutUvarint s \<noteq> []" by (simp add: saved_Marshal_def)
  ultimately show ?thesis by (simp add: WriteRuleSet)
qed simp_all

lemma slot_meaning_other: "(i', s) \<noteq> (i, slot_of w) \<Longrightarrow> slot_meaning (i, w) v (i', s) = v (i', s)"
  by (cases w) auto

lemma write_slot_view:
  assumes "id_ok i" and "write_ok limit w" and "id_ok i'"
  shows "slot_view limit (write_slot (i, w) c) (i', s) = slot_meaning (i, w) (slot_view limit c) (i', s)"
proof (cases "(i', s) = (i, slot_of w)")
  case True
  then show ?thesis
    using slot_read_written [OF assms(2)] unfolding slot_view_raw write_slot_raw [OF assms] by auto
next
  case False
  then show ?thesis
    unfolding slot_meaning_other [OF False] slot_view_raw write_slot_raw [OF assms] by (simp only: if_False)
qed

lemma slot_meaning_local: "v p = v' p \<Longrightarrow> slot_meaning iw v p = slot_meaning iw v' p"
proof -
  assume "v p = v' p"
  moreover obtain i w where "iw = (i, w)" by (cases iw)
  ultimately show ?thesis by (cases w) auto
qed

lemma fold_meaning_local: "v p = v' p \<Longrightarrow> fold slot_meaning ws v p = fold slot_meaning ws v' p"
proof (induction ws arbitrary: v v')
  case (Cons w ws)
  show ?case
    using Cons.IH [of "slot_meaning w v" "slot_meaning w v'"] slot_meaning_local [of v p v' w] Cons.prems by simp
qed simp

text \<open>
  C30: the cache file implements a map from slots (of a cache id: the mode, the selected outbound and the
  expansion of every group, the saved copy of every rule-set) to values. After any sequence of accepted
  writes with any cache ids, every slot reads as the map does: the value written last, or what the file held
  before, with the time of a saved rule-set cut to seconds.
\<close>

theorem cache_slots_refine:
  assumes "\<forall>(i, w) \<in> set ws. id_ok i \<and> write_ok limit w" and "id_ok i"
  shows "slot_view limit (fold write_slot ws c) (i, s) = fold slot_meaning ws (slot_view limit c) (i, s)"
  using assms(1)
proof (induction ws arbitrary: c)
  case (Cons iw ws)
  obtain j w where iw: "iw = (j, w)" by (cases iw)
  have "slot_view limit (write_slot iw c) (i, s) = slot_meaning iw (slot_view limit c) (i, s)"
    unfolding iw using Cons.prems by (intro write_slot_view assms(2)) (auto simp: iw)
  from fold_meaning_local [of "slot_view limit (write_slot iw c)" "(i, s)" "slot_meaning iw (slot_view limit c)", OF this] Cons show ?case by simp
qed simp

theorem cache_slots_refine_witness:
  "slot_view 10 (fold write_slot [([], WriteSelected ''g'' ''a''), ([0, 7], WriteSelected ''g'' ''b''), ([], WriteExpand ''g'' True)]
     (NewCacheFile id [] [] False False 0)) ([], SelectedSlot ''g'') = StringValue ''a''"
  by (subst cache_slots_refine) (simp_all add: id_ok_def)

section \<open>The selections of a selector\<close>

text \<open>The file is the map of selections the selector works on: it loads and stores what the map does.\<close>

definition selections_of :: "cache_file \<Rightarrow> selections" where
  "selections_of c g = map_option string_of_bytes (bucket_get (ch_cacheID c) (ch_DB c) bucketSelected (bytes_of_string g))"

lemma ch_LoadSelected_refines: "ch_LoadSelected g c = LoadSelected g (selections_of c)"
  by (simp add: ch_LoadSelected_def LoadSelected_def selections_of_def ch_bucket_case split: option.split)

lemma ch_StoreSelected_refines:
  assumes "g \<noteq> []" and "id_ok (ch_cacheID c)"
  shows "selections_of (snd (ch_StoreSelected g s c)) = StoreSelected False g s (selections_of c)"
proof
  fix h
  let ?c = "snd (ch_StoreSelected g s c)"
  have "slot_raw (ch_DB ?c) (ch_cacheID c, SelectedSlot h) =
      (if h = g then Some (bytes_of_string s) else slot_raw (ch_DB c) (ch_cacheID c, SelectedSlot h))"
    using write_slot_raw [OF assms(2) _ assms(2), of 0 "WriteSelected g s" c "SelectedSlot h"] assms(1) by simp
  moreover have "ch_cacheID ?c = ch_cacheID c" by (simp add: ch_StoreSelected_def ch_batch_def split: sum.split)
  ultimately show "selections_of ?c h = StoreSelected False g s (selections_of c) h"
    by (simp add: selections_of_def StoreSelected_def)
qed

end
