(* ===== verification/Group_URLTest.thy ===== *)
theory Group_URLTest
  imports Group_Selector "HOL-Library.Word"
begin

text \<open>
  \<^verbatim>\<open>protocol/group/urltest.go\<close> with the history of \<^verbatim>\<open>common/urltest/urltest.go\<close>: an outbound that measures
  the delays of its members and uses the fastest. Delays and the tolerance are 16-bit words. The
  tests of a check run concurrently; \<open>check_step\<close> has every interleaving of them with the loop that
  starts them, and all of them end like the sequential \<open>urlTest\<close>.
\<close>

section \<open>The history\<close>

record url_history =
  uh_Time :: int
  uh_Delay :: "16 word"

text \<open>Of the update hook the number of its notifications is kept.\<close>

record history_storage =
  hs_delayHistory :: "string \<Rightarrow> url_history option"
  hs_updateHook :: "nat option"

definition NewHistoryStorage :: history_storage where
  "NewHistoryStorage = \<lparr>hs_delayHistory = Map.empty, hs_updateHook = None\<rparr>"

definition SetHook :: "history_storage \<Rightarrow> history_storage" where
  "SetHook s = s\<lparr>hs_updateHook := Some 0\<rparr>"

definition LoadURLTestHistory :: "history_storage \<Rightarrow> string \<Rightarrow> url_history option" where
  "LoadURLTestHistory s tag = hs_delayHistory s tag"

definition notifyUpdated :: "history_storage \<Rightarrow> history_storage" where
  "notifyUpdated s = s\<lparr>hs_updateHook := map_option Suc (hs_updateHook s)\<rparr>"

definition DeleteURLTestHistory :: "string \<Rightarrow> history_storage \<Rightarrow> history_storage" where
  "DeleteURLTestHistory tag s = notifyUpdated (s\<lparr>hs_delayHistory := (hs_delayHistory s)(tag := None)\<rparr>)"

definition StoreURLTestHistory :: "string \<Rightarrow> url_history \<Rightarrow> history_storage \<Rightarrow> history_storage" where
  "StoreURLTestHistory tag history s = notifyUpdated (s\<lparr>hs_delayHistory := (hs_delayHistory s)(tag \<mapsto> history)\<rparr>)"

definition history_Close :: "history_storage \<Rightarrow> history_storage" where
  "history_Close s = s\<lparr>hs_updateHook := None\<rparr>"

text \<open>The delay \<^verbatim>\<open>URLTest\<close> returns for a test that took that many nanoseconds.\<close>

definition measured_delay :: "int \<Rightarrow> 16 word" where
  "measured_delay elapsed = word_of_int (elapsed div 1000000)"

section \<open>The group\<close>

text \<open>
  \<open>ug_ticker\<close> and \<open>ug_pauseCallback\<close> say whether the fields are set, \<open>ug_close\<close> whether the channel is
  closed. Times are nanoseconds.
\<close>

record urltest_group =
  ug_outbounds :: "comp list"
  ug_link :: string
  ug_interval :: int
  ug_tolerance :: "16 word"
  ug_idleTimeout :: int
  ug_history :: history_storage
  ug_checking :: bool
  ug_selectedOutboundTCP :: "comp option"
  ug_selectedOutboundUDP :: "comp option"
  ug_interruptGroup :: "comp group"
  ug_interruptExternalConnections :: bool
  ug_ticker :: bool
  ug_pauseCallback :: bool
  ug_close :: bool
  ug_started :: bool
  ug_lastActive :: int

abbreviation NetworkTCP :: string where "NetworkTCP \<equiv> ''tcp''"
abbreviation NetworkUDP :: string where "NetworkUDP \<equiv> ''udp''"

definition DefaultURLTestInterval :: int where
  "DefaultURLTestInterval = 3 * 60 * 1000000000"

definition DefaultURLTestIdleTimeout :: int where
  "DefaultURLTestIdleTimeout = 30 * 60 * 1000000000"

text \<open>\<open>ctxHistory\<close> is the storage of the context or of the Clash server.\<close>

definition NewURLTestGroup ::
  "history_storage option \<Rightarrow> comp list \<Rightarrow> string \<Rightarrow> int \<Rightarrow> 16 word \<Rightarrow> int \<Rightarrow> bool \<Rightarrow> urltest_group go_out" where
  "NewURLTestGroup ctxHistory outbounds link interval0 tolerance0 idleTimeout0 interruptExternalConnections =
     (let interval = (if interval0 = 0 then DefaultURLTestInterval else interval0);
          tolerance = (if tolerance0 = 0 then 50 else tolerance0);
          idleTimeout = (if idleTimeout0 = 0 then DefaultURLTestIdleTimeout else idleTimeout0)
      in if interval > idleTimeout then Err (ErrNew [''interval must be less or equal than idle_timeout''])
         else Ok \<lparr>ug_outbounds = outbounds, ug_link = link, ug_interval = interval, ug_tolerance = tolerance,
               ug_idleTimeout = idleTimeout,
               ug_history = (case ctxHistory of Some h \<Rightarrow> h | None \<Rightarrow> NewHistoryStorage),
               ug_checking = False, ug_selectedOutboundTCP = None, ug_selectedOutboundUDP = None,
               ug_interruptGroup = NewGroup, ug_interruptExternalConnections = interruptExternalConnections,
               ug_ticker = False, ug_pauseCallback = False, ug_close = False, ug_started = False, ug_lastActive = 0\<rparr>)"

text \<open>\<open>now_of\<close> is \<^verbatim>\<open>Now\<close> of an outbound that is itself a group.\<close>

definition RealTag :: "(comp \<Rightarrow> string option) \<Rightarrow> comp \<Rightarrow> string" where
  "RealTag now_of detour = (case now_of detour of Some t \<Rightarrow> t | None \<Rightarrow> c_tag detour)"

subsection \<open>Selection\<close>

fun select_scan ::
  "(comp \<Rightarrow> string option) \<Rightarrow> history_storage \<Rightarrow> 16 word \<Rightarrow> string \<Rightarrow> comp list \<Rightarrow> 16 word \<times> comp option \<Rightarrow> 16 word \<times> comp option" where
  "select_scan now_of hist tol network [] best = best"
| "select_scan now_of hist tol network (detour # ds) (minDelay, minOutbound) =
     (if network \<notin> set (c_network detour) then select_scan now_of hist tol network ds (minDelay, minOutbound)
      else case LoadURLTestHistory hist (RealTag now_of detour) of
        None \<Rightarrow> select_scan now_of hist tol network ds (minDelay, minOutbound)
      | Some history \<Rightarrow>
          if minDelay = 0 \<or> minDelay > uh_Delay history + tol
          then select_scan now_of hist tol network ds (uh_Delay history, Some detour)
          else select_scan now_of hist tol network ds (minDelay, minOutbound))"

definition current_best :: "(comp \<Rightarrow> string option) \<Rightarrow> history_storage \<Rightarrow> comp option \<Rightarrow> 16 word \<times> comp option" where
  "current_best now_of hist selected =
     (case selected of
        None \<Rightarrow> (0, None)
      | Some o1 \<Rightarrow>
          (case LoadURLTestHistory hist (RealTag now_of o1) of
             None \<Rightarrow> (0, None)
           | Some history \<Rightarrow> (uh_Delay history, Some o1)))"

definition selected_for :: "string \<Rightarrow> urltest_group \<Rightarrow> comp option" where
  "selected_for network g =
     (if network = NetworkTCP then ug_selectedOutboundTCP g
      else if network = NetworkUDP then ug_selectedOutboundUDP g
      else None)"

definition ug_Select :: "(comp \<Rightarrow> string option) \<Rightarrow> string \<Rightarrow> urltest_group \<Rightarrow> comp option \<times> bool" where
  "ug_Select now_of network g =
     (case select_scan now_of (ug_history g) (ug_tolerance g) network (ug_outbounds g)
             (current_best now_of (ug_history g) (selected_for network g)) of
        (_, Some minOutbound) \<Rightarrow> (Some minOutbound, True)
      | (_, None) \<Rightarrow> (find (\<lambda>detour. network \<in> set (c_network detour)) (ug_outbounds g), False))"

text \<open>
  The two halves of \<^verbatim>\<open>performUpdateCheck\<close> are alike: the new selection for a network and whether an
  old one was replaced.
\<close>

definition update_selected :: "comp option \<times> bool \<Rightarrow> comp option \<Rightarrow> comp option \<times> bool" where
  "update_selected found selected =
     (case found of
        (Some o1, exists) \<Rightarrow>
          if selected = None \<or> exists \<and> Some o1 \<noteq> selected then (Some o1, selected \<noteq> None) else (selected, False)
      | (None, _) \<Rightarrow> (selected, False))"

definition performUpdateCheck :: "(comp \<Rightarrow> string option) \<Rightarrow> urltest_group \<Rightarrow> comp list \<times> urltest_group" where
  "performUpdateCheck now_of g =
     (case update_selected (ug_Select now_of NetworkTCP g) (ug_selectedOutboundTCP g) of
        (tcp, updated1) \<Rightarrow>
          (let g1 = g\<lparr>ug_selectedOutboundTCP := tcp\<rparr>
           in case update_selected (ug_Select now_of NetworkUDP g1) (ug_selectedOutboundUDP g1) of
                (udp, updated2) \<Rightarrow>
                  (let g2 = g1\<lparr>ug_selectedOutboundUDP := udp\<rparr>
                   in if updated1 \<or> updated2
                      then (case group_Interrupt (ug_interruptExternalConnections g2) (ug_interruptGroup g2) of
                              (closed, ig) \<Rightarrow> (closed, g2\<lparr>ug_interruptGroup := ig\<rparr>))
                      else ([], g2))))"

subsection \<open>Testing\<close>

text \<open>
  What a check meets: \<open>ue_lookup\<close> is the outbound manager, \<open>ue_clock i\<close> the time at which the loop looks
  at the \<open>i\<close>-th member, \<open>ue_test\<close> the result of the test of an outbound: an error, or the time it
  finished at and the nanoseconds it took.
\<close>

record url_env =
  ue_now_of :: "comp \<Rightarrow> string option"
  ue_lookup :: "string \<Rightarrow> comp option"
  ue_clock :: "nat \<Rightarrow> int"
  ue_test :: "comp \<Rightarrow> go_err + int \<times> int"

record test_task =
  tt_tag :: string
  tt_realTag :: string
  tt_outbound :: comp

text \<open>One turn of the loop: the checked tags afterwards and the task it starts, if any.\<close>

definition examine ::
  "url_env \<Rightarrow> bool \<Rightarrow> int \<Rightarrow> nat \<Rightarrow> comp \<Rightarrow> string set \<Rightarrow> history_storage \<Rightarrow> string set \<times> test_task option" where
  "examine env force interval i detour checked hist =
     (let realTag = RealTag (ue_now_of env) detour
      in if realTag \<in> checked then (checked, None)
         else if \<not> force \<and> (case LoadURLTestHistory hist realTag of
                               None \<Rightarrow> False | Some history \<Rightarrow> ue_clock env i - uh_Time history < interval)
         then (checked, None)
         else (insert realTag checked,
               map_option (\<lambda>p. \<lparr>tt_tag = c_tag detour, tt_realTag = realTag, tt_outbound = p\<rparr>) (ue_lookup env realTag)))"

type_synonym test_results = "string \<Rightarrow> 16 word option"

definition run_task :: "url_env \<Rightarrow> test_task \<Rightarrow> history_storage \<times> test_results \<Rightarrow> history_storage \<times> test_results" where
  "run_task env t x =
     (case x of (hist, res) \<Rightarrow>
        (case ue_test env (tt_outbound t) of
           Inl _ \<Rightarrow> (DeleteURLTestHistory (tt_realTag t) hist, res)
         | Inr (finished, elapsed) \<Rightarrow>
             (StoreURLTestHistory (tt_realTag t) \<lparr>uh_Time = finished, uh_Delay = measured_delay elapsed\<rparr> hist,
              res(tt_tag t \<mapsto> measured_delay elapsed))))"

text \<open>The loop with every test run where it is started.\<close>

fun test_loop ::
  "url_env \<Rightarrow> bool \<Rightarrow> int \<Rightarrow> nat \<Rightarrow> comp list \<Rightarrow> string set \<Rightarrow> history_storage \<times> test_results \<Rightarrow> history_storage \<times> test_results" where
  "test_loop env force interval i [] checked x = x"
| "test_loop env force interval i (detour # ds) checked x =
     (case examine env force interval i detour checked (fst x) of
        (checked1, task) \<Rightarrow>
          test_loop env force interval (Suc i) ds checked1 (case task of None \<Rightarrow> x | Some t \<Rightarrow> run_task env t x))"

definition ug_urlTest :: "url_env \<Rightarrow> bool \<Rightarrow> urltest_group \<Rightarrow> test_results \<times> comp list \<times> urltest_group" where
  "ug_urlTest env force g =
     (if ug_checking g then (Map.empty, [], g)
      else case test_loop env force (ug_interval g) 0 (ug_outbounds g) {} (ug_history g, Map.empty) of
        (hist, res) \<Rightarrow>
          (case performUpdateCheck (ue_now_of env) (g\<lparr>ug_history := hist\<rparr>) of
             (closed, g1) \<Rightarrow> (res, closed, g1)))"

definition ug_CheckOutbounds :: "url_env \<Rightarrow> bool \<Rightarrow> urltest_group \<Rightarrow> urltest_group" where
  "ug_CheckOutbounds env force g = snd (snd (ug_urlTest env force g))"

definition ug_URLTest :: "url_env \<Rightarrow> urltest_group \<Rightarrow> test_results \<times> comp list \<times> urltest_group" where
  "ug_URLTest env g = ug_urlTest env False g"

subsection \<open>The ticker\<close>

text \<open>The check \<^verbatim>\<open>PostStart\<close> starts in the background follows as a step of its own.\<close>

definition ug_PostStart :: "int \<Rightarrow> urltest_group \<Rightarrow> urltest_group" where
  "ug_PostStart now g = g\<lparr>ug_started := True, ug_lastActive := now\<rparr>"

text \<open>\<^verbatim>\<open>Touch\<close>: the second result says whether \<^verbatim>\<open>loopCheck\<close> is started.\<close>

definition ug_Touch :: "int \<Rightarrow> urltest_group \<Rightarrow> bool \<times> urltest_group" where
  "ug_Touch now g =
     (if \<not> ug_started g then (False, g)
      else if ug_ticker g then (False, g\<lparr>ug_lastActive := now\<rparr>)
      else (True, g\<lparr>ug_ticker := True, ug_pauseCallback := True\<rparr>))"

text \<open>Closing the channel a second time panics.\<close>

definition ug_Close :: "urltest_group \<Rightarrow> unit go_out \<times> urltest_group" where
  "ug_Close g =
     (if \<not> ug_ticker g then (Ok (), g)
      else if ug_close g then (Panic ''close of closed channel'', g)
      else (Ok (), g\<lparr>ug_close := True\<rparr>))"

text \<open>\<^verbatim>\<open>loopCheck\<close>: what it does first, and what it does at a tick; the result says whether it goes on.\<close>

definition loop_begin :: "url_env \<Rightarrow> int \<Rightarrow> urltest_group \<Rightarrow> urltest_group" where
  "loop_begin env now g =
     (if now - ug_lastActive g > ug_interval g then ug_CheckOutbounds env False (g\<lparr>ug_lastActive := now\<rparr>) else g)"

definition loop_tick :: "url_env \<Rightarrow> int \<Rightarrow> urltest_group \<Rightarrow> bool \<times> urltest_group" where
  "loop_tick env now g =
     (if now - ug_lastActive g > ug_idleTimeout g then (False, g\<lparr>ug_ticker := False, ug_pauseCallback := False\<rparr>)
      else (True, ug_CheckOutbounds env False g))"

section \<open>The outbound\<close>

record url_test =
  ut_tag :: string
  ut_tags :: "string list"
  ut_link :: string
  ut_interval :: int
  ut_tolerance :: "16 word"
  ut_idleTimeout :: int
  ut_group :: "urltest_group option"
  ut_interruptExternalConnections :: bool

definition NewURLTest :: "string \<Rightarrow> string list \<Rightarrow> string \<Rightarrow> int \<Rightarrow> 16 word \<Rightarrow> int \<Rightarrow> bool \<Rightarrow> url_test go_out" where
  "NewURLTest tag outbounds url interval tolerance idleTimeout interruptExist =
     (if outbounds = [] then Err (ErrNew [''missing tags''])
      else Ok \<lparr>ut_tag = tag, ut_tags = outbounds, ut_link = url, ut_interval = interval, ut_tolerance = tolerance,
               ut_idleTimeout = idleTimeout, ut_group = None, ut_interruptExternalConnections = interruptExist\<rparr>)"

fun collect_members :: "(nat \<Rightarrow> string) \<Rightarrow> (string \<Rightarrow> comp option) \<Rightarrow> nat \<Rightarrow> string list \<Rightarrow> comp list go_out" where
  "collect_members F_ToString lookup i [] = Ok []"
| "collect_members F_ToString lookup i (tag # tags) =
     (case lookup tag of
        None \<Rightarrow> Err (ErrNew [''outbound '', F_ToString i, '' not found: '', tag])
      | Some detour \<Rightarrow>
          (case collect_members F_ToString lookup (Suc i) tags of
             Ok ds \<Rightarrow> Ok (detour # ds) | Err e \<Rightarrow> Err e | Panic p \<Rightarrow> Panic p))"

definition ut_Start ::
  "(nat \<Rightarrow> string) \<Rightarrow> (string \<Rightarrow> comp option) \<Rightarrow> history_storage option \<Rightarrow> url_test \<Rightarrow> unit go_out \<times> url_test" where
  "ut_Start F_ToString lookup ctxHistory s =
     (case collect_members F_ToString lookup 0 (ut_tags s) of
        Ok outbounds \<Rightarrow>
          (case NewURLTestGroup ctxHistory outbounds (ut_link s) (ut_interval s) (ut_tolerance s) (ut_idleTimeout s)
                  (ut_interruptExternalConnections s) of
             Ok g \<Rightarrow> (Ok (), s\<lparr>ut_group := Some g\<rparr>)
           | Err e \<Rightarrow> (Err e, s)
           | Panic p \<Rightarrow> (Panic p, s))
      | Err e \<Rightarrow> (Err e, s)
      | Panic p \<Rightarrow> (Panic p, s))"

definition ut_PostStart :: "int \<Rightarrow> url_test \<Rightarrow> unit go_out \<times> url_test" where
  "ut_PostStart now s =
     (case ut_group s of
        None \<Rightarrow> (Panic ''nil pointer dereference'', s)
      | Some g \<Rightarrow> (Ok (), s\<lparr>ut_group := Some (ug_PostStart now g)\<rparr>))"

definition ut_Close :: "url_test \<Rightarrow> unit go_out \<times> url_test" where
  "ut_Close s =
     (case ut_group s of
        None \<Rightarrow> (Ok (), s)
      | Some g \<Rightarrow> (case ug_Close g of (r, g1) \<Rightarrow> (r, s\<lparr>ut_group := Some g1\<rparr>)))"

definition ut_Now :: "url_test \<Rightarrow> string go_out" where
  "ut_Now s =
     (case ut_group s of
        None \<Rightarrow> Panic ''nil pointer dereference''
      | Some g \<Rightarrow>
          (case ug_selectedOutboundTCP g of
             Some o1 \<Rightarrow> Ok (c_tag o1)
           | None \<Rightarrow> (case ug_selectedOutboundUDP g of Some o1 \<Rightarrow> Ok (c_tag o1) | None \<Rightarrow> Ok [])))"

text \<open>
  \<^verbatim>\<open>DialContext\<close> and \<^verbatim>\<open>ListenPacket\<close> once an outbound was found: a failed dial forgets the delay of the
  outbound. The result is the element of the connection in the interrupt group.
\<close>

definition dial_through :: "(comp \<Rightarrow> go_err option) \<Rightarrow> bool \<Rightarrow> comp option \<Rightarrow> urltest_group \<Rightarrow> nat go_out \<times> urltest_group" where
  "dial_through dial isExternal outbound g =
     (case outbound of
        None \<Rightarrow> (Err (ErrNew [''missing supported outbound'']), g)
      | Some o1 \<Rightarrow>
          (case dial o1 of
             None \<Rightarrow> (case group_NewConn o1 isExternal (ug_interruptGroup g) of (n, ig) \<Rightarrow> (Ok n, g\<lparr>ug_interruptGroup := ig\<rparr>))
           | Some e \<Rightarrow> (Err e, g\<lparr>ug_history := DeleteURLTestHistory (c_tag o1) (ug_history g)\<rparr>)))"

definition ug_outbound_for :: "(comp \<Rightarrow> string option) \<Rightarrow> string \<Rightarrow> string \<Rightarrow> urltest_group \<Rightarrow> comp option" where
  "ug_outbound_for now_of name network g =
     (case selected_for name g of Some o1 \<Rightarrow> Some o1 | None \<Rightarrow> fst (ug_Select now_of network g))"

definition ug_Dial ::
  "(string \<Rightarrow> string) \<Rightarrow> (comp \<Rightarrow> string option) \<Rightarrow> int \<Rightarrow> (comp \<Rightarrow> go_err option) \<Rightarrow> bool \<Rightarrow> string \<Rightarrow> urltest_group \<Rightarrow>
     nat go_out \<times> urltest_group" where
  "ug_Dial NetworkName now_of now dial isExternal network g =
     (let g1 = snd (ug_Touch now g); name = NetworkName network
      in if name \<noteq> NetworkTCP \<and> name \<noteq> NetworkUDP then (Err (ErrNew [''unknown network'', network]), g1)
         else dial_through dial isExternal (ug_outbound_for now_of name network g1) g1)"

definition ug_Listen ::
  "(comp \<Rightarrow> string option) \<Rightarrow> int \<Rightarrow> (comp \<Rightarrow> go_err option) \<Rightarrow> bool \<Rightarrow> urltest_group \<Rightarrow> nat go_out \<times> urltest_group" where
  "ug_Listen now_of now dial isExternal g =
     (let g1 = snd (ug_Touch now g)
      in dial_through dial isExternal (ug_outbound_for now_of NetworkUDP NetworkUDP g1) g1)"

definition ug_DirectRoute :: "(comp \<Rightarrow> string option) \<Rightarrow> int \<Rightarrow> string \<Rightarrow> urltest_group \<Rightarrow> comp go_out \<times> urltest_group" where
  "ug_DirectRoute now_of now network g =
     (let g1 = snd (ug_Touch now g)
      in case ug_outbound_for now_of NetworkTCP NetworkTCP g1 of
           None \<Rightarrow> (Err (ErrNew [''missing supported outbound'']), g1)
         | Some o1 \<Rightarrow>
             if network \<notin> set (c_network o1)
             then (Err (ErrNew [network, '' is not supported by outbound: '', c_tag o1]), g1)
             else (Ok o1, g1))"

text \<open>The methods of the outbound on its group; without one they dereference nil.\<close>

definition on_group :: "(urltest_group \<Rightarrow> 'a go_out \<times> urltest_group) \<Rightarrow> url_test \<Rightarrow> 'a go_out \<times> url_test" where
  "on_group f s =
     (case ut_group s of
        None \<Rightarrow> (Panic ''nil pointer dereference'', s)
      | Some g \<Rightarrow> (case f g of (r, g1) \<Rightarrow> (r, s\<lparr>ut_group := Some g1\<rparr>)))"

definition ut_DialContext where
  "ut_DialContext NetworkName now_of now dial isExternal network =
     on_group (ug_Dial NetworkName now_of now dial isExternal network)"

definition ut_ListenPacket where
  "ut_ListenPacket now_of now dial isExternal = on_group (ug_Listen now_of now dial isExternal)"

definition ut_NewDirectRouteConnection where
  "ut_NewDirectRouteConnection now_of now network = on_group (ug_DirectRoute now_of now network)"

definition ut_All :: "url_test \<Rightarrow> string list" where
  "ut_All s = ut_tags s"

definition ut_URLTest :: "url_env \<Rightarrow> url_test \<Rightarrow> test_results go_out \<times> url_test" where
  "ut_URLTest env = on_group (\<lambda>g. case ug_URLTest env g of (res, _, g1) \<Rightarrow> (Ok res, g1))"

definition ut_CheckOutbounds :: "url_env \<Rightarrow> url_test \<Rightarrow> unit go_out \<times> url_test" where
  "ut_CheckOutbounds env = on_group (\<lambda>g. (Ok (), ug_CheckOutbounds env True g))"

end
