(* ===== verification/URLTest_Theorems.thy ===== *)
theory URLTest_Theorems
  imports Group_URLTest
begin

text \<open>
  Properties of the URL test group: every interleaving of the tests of a check gives the same result,
  the selection is the fastest member up to the tolerance, and dials go through members that support
  the network. The tolerance is added in 16 bits, and wraps around.
\<close>

section \<open>Interleavings of a check\<close>

record check_state =
  cs_i :: nat
  cs_todo :: "comp list"
  cs_checked :: "string set"
  cs_running :: "test_task list"
  cs_data :: "history_storage \<times> test_results"

text \<open>The loop looks at the next member, or one of the running tests finishes.\<close>

inductive check_step :: "url_env \<Rightarrow> bool \<Rightarrow> int \<Rightarrow> check_state \<Rightarrow> check_state \<Rightarrow> bool"
  for env :: url_env and force :: bool and interval :: int where
  look: "cs_todo s = d # ds \<Longrightarrow> examine env force interval (cs_i s) d (cs_checked s) (fst (cs_data s)) = (checked, task) \<Longrightarrow>
    check_step env force interval s
      (s\<lparr>cs_i := Suc (cs_i s), cs_todo := ds, cs_checked := checked,
         cs_running := cs_running s @ (case task of None \<Rightarrow> [] | Some t \<Rightarrow> [t])\<rparr>)"
| finish: "cs_running s = ts @ t # us \<Longrightarrow>
    check_step env force interval s (s\<lparr>cs_running := ts @ us, cs_data := run_task env t (cs_data s)\<rparr>)"

inductive_cases check_stepE: "check_step env force interval s s'"

definition check_start :: "urltest_group \<Rightarrow> check_state" where
  "check_start g = \<lparr>cs_i = 0, cs_todo = ug_outbounds g, cs_checked = {}, cs_running = [], cs_data = (ug_history g, Map.empty)\<rparr>"

definition check_done :: "check_state \<Rightarrow> bool" where
  "check_done s \<longleftrightarrow> cs_todo s = [] \<and> cs_running s = []"

text \<open>What a state leads to if the running tests finish first, in order.\<close>

definition outcome :: "url_env \<Rightarrow> bool \<Rightarrow> int \<Rightarrow> check_state \<Rightarrow> history_storage \<times> test_results" where
  "outcome env force interval s =
     test_loop env force interval (cs_i s) (cs_todo s) (cs_checked s) (fold (run_task env) (cs_running s) (cs_data s))"

text \<open>Running tasks have different real tags, already checked, and come from members.\<close>

definition check_inv :: "url_env \<Rightarrow> comp set \<Rightarrow> check_state \<Rightarrow> bool" where
  "check_inv env outs s \<longleftrightarrow> set (cs_todo s) \<subseteq> outs \<and> distinct (map tt_realTag (cs_running s)) \<and>
     (\<forall>t \<in> set (cs_running s). tt_realTag t \<in> cs_checked s \<and>
        (\<exists>d \<in> outs. tt_tag t = c_tag d \<and> tt_realTag t = RealTag (ue_now_of env) d))"

lemma run_task_commute:
  "tt_realTag t \<noteq> tt_realTag u \<Longrightarrow> tt_tag t \<noteq> tt_tag u \<Longrightarrow> run_task env t (run_task env u x) = run_task env u (run_task env t x)"
  by (cases x) (auto simp: run_task_def DeleteURLTestHistory_def StoreURLTestHistory_def notifyUpdated_def fun_upd_twist
      split: sum.splits)

lemma run_task_other: "t \<noteq> tt_realTag u \<Longrightarrow> LoadURLTestHistory (fst (run_task env u x)) t = LoadURLTestHistory (fst x) t"
  by (cases x) (auto simp: run_task_def DeleteURLTestHistory_def StoreURLTestHistory_def notifyUpdated_def
      LoadURLTestHistory_def split: sum.splits)

lemma run_tasks_other:
  "t \<notin> tt_realTag ` set us \<Longrightarrow> LoadURLTestHistory (fst (fold (run_task env) us x)) t = LoadURLTestHistory (fst x) t"
  by (induction us arbitrary: x) (simp_all add: run_task_other)

lemma fold_commute_front:
  assumes "\<And>u x. u \<in> set ts \<Longrightarrow> f t (f u x) = f u (f t x)"
  shows "fold f (ts @ t # us) x = fold f (ts @ us) (f t x)"
  using assms by (induction ts arbitrary: x) simp_all

lemma examine_cong:
  "(RealTag (ue_now_of env) d \<notin> checked \<Longrightarrow>
      LoadURLTestHistory h (RealTag (ue_now_of env) d) = LoadURLTestHistory h' (RealTag (ue_now_of env) d)) \<Longrightarrow>
     examine env force interval i d checked h = examine env force interval i d checked h'"
  by (simp add: examine_def Let_def)

lemma examine_task:
  "examine env force interval i d checked h = (checked', task) \<Longrightarrow>
     checked \<subseteq> checked' \<and> (\<forall>t. task = Some t \<longrightarrow> tt_realTag t \<notin> checked \<and> tt_realTag t \<in> checked' \<and>
       tt_tag t = c_tag d \<and> tt_realTag t = RealTag (ue_now_of env) d)"
  by (auto simp: examine_def Let_def split: if_splits)

lemma check_step_inv:
  assumes "check_step env force interval s s'" and "check_inv env outs s"
  shows "check_inv env outs s'"
  using assms(1)
proof (cases rule: check_step.cases)
  case (look d ds checked task)
  then show ?thesis using assms(2) examine_task [OF look(3)]
    by (cases task) (fastforce simp: check_inv_def)+
next
  case (finish ts t us)
  then show ?thesis using assms(2) by (auto simp: check_inv_def)
qed

lemma check_step_outcome:
  assumes "check_step env force interval s s'" and "check_inv env outs s" and "inj_on c_tag outs"
  shows "outcome env force interval s' = outcome env force interval s"
  using assms(1)
proof (cases rule: check_step.cases)
  case (look d ds checked task)
  have "examine env force interval (cs_i s) d (cs_checked s) (fst (fold (run_task env) (cs_running s) (cs_data s))) = (checked, task)"
    unfolding look(3) [symmetric]
    by (rule examine_cong, rule run_tasks_other) (use assms(2) in \<open>auto simp: check_inv_def\<close>)
  then show ?thesis using look by (cases task) (simp_all add: outcome_def)
next
  case (finish ts t us)
  have "run_task env t (run_task env u x) = run_task env u (run_task env t x)" if "u \<in> set ts" for u x
  proof (rule run_task_commute)
    show "tt_realTag t \<noteq> tt_realTag u" using assms(2) finish that by (auto simp: check_inv_def)
    moreover have "t \<in> set (cs_running s)" "u \<in> set (cs_running s)" using finish that by auto
    then obtain d e where "d \<in> outs" "tt_tag t = c_tag d" "tt_realTag t = RealTag (ue_now_of env) d"
        "e \<in> outs" "tt_tag u = c_tag e" "tt_realTag u = RealTag (ue_now_of env) e"
      using assms(2) unfolding check_inv_def by blast
    ultimately show "tt_tag t \<noteq> tt_tag u" using inj_onD [OF assms(3)] by metis
  qed
  then show ?thesis using finish fold_commute_front [of ts "run_task env" t us] by (simp add: outcome_def)
qed

lemma check_step_progress: "\<not> check_done s \<Longrightarrow> \<exists>s'. check_step env force interval s s'"
proof (cases "cs_todo s")
  case (Cons d ds)
  then show ?thesis using look [OF Cons, of env force interval] by (metis surj_pair)
next
  case Nil
  assume "\<not> check_done s"
  then obtain t us where "cs_running s = [] @ t # us" using Nil by (cases "cs_running s") (auto simp: check_done_def)
  then show ?thesis by (blast intro: finish)
qed

lemma check_step_measure:
  "check_step env force interval s s' \<Longrightarrow>
     2 * length (cs_todo s') + length (cs_running s') < 2 * length (cs_todo s) + length (cs_running s)"
  by (auto elim!: check_stepE split: option.splits)

lemma check_run:
  assumes "(check_step env force interval ^^ n) s s'" and "check_inv env outs s" and "inj_on c_tag outs"
  shows "outcome env force interval s' = outcome env force interval s \<and> check_inv env outs s' \<and>
     n + 2 * length (cs_todo s') + length (cs_running s') \<le> 2 * length (cs_todo s) + length (cs_running s)"
  using assms(1)
proof (induction n arbitrary: s')
  case (Suc n)
  then obtain s1 where "(check_step env force interval ^^ n) s s1" and step: "check_step env force interval s1 s'" by auto
  from Suc.IH [OF this(1)] check_step_inv [OF step, of outs] check_step_outcome [OF step _ assms(3)] check_step_measure [OF step]
  show ?case by auto
qed (use assms(2) in auto)

text \<open>
  C25: The concurrent tests of a check of a URL test group do not interfere. For members with different
  tags, every interleaving of the loop that starts the tests with the tests themselves goes on until
  it is done, is done after at most two steps per member, and ends with the history (with as many
  notifications) and the results of the sequential loop.
\<close>

theorem urltest_any_order:
  assumes "inj_on c_tag (set (ug_outbounds g))"
    and "(check_step env force (ug_interval g) ^^ n) (check_start g) s"
  shows "n \<le> 2 * length (ug_outbounds g) \<and>
    (check_done s \<longrightarrow> cs_data s = test_loop env force (ug_interval g) 0 (ug_outbounds g) {} (ug_history g, Map.empty)) \<and>
    (\<not> check_done s \<longrightarrow> (\<exists>s'. check_step env force (ug_interval g) s s'))"
proof -
  have "check_inv env (set (ug_outbounds g)) (check_start g)" by (simp add: check_inv_def check_start_def)
  from check_run [OF assms(2) this assms(1)]
  have "outcome env force (ug_interval g) s = outcome env force (ug_interval g) (check_start g)"
    and "n \<le> 2 * length (ug_outbounds g)" by (simp_all add: check_start_def)
  then show ?thesis using check_step_progress by (auto simp: outcome_def check_done_def check_start_def)
qed

section \<open>The selection\<close>

definition delay_of :: "(comp \<Rightarrow> string option) \<Rightarrow> urltest_group \<Rightarrow> comp \<Rightarrow> nat option" where
  "delay_of now_of g d = map_option (\<lambda>h. unat (uh_Delay h)) (LoadURLTestHistory (ug_history g) (RealTag now_of d))"

text \<open>The members that support a network and have a delay.\<close>

definition measured :: "(comp \<Rightarrow> string option) \<Rightarrow> string \<Rightarrow> urltest_group \<Rightarrow> (comp \<times> nat) set" where
  "measured now_of network g =
     {(d, k). d \<in> set (ug_outbounds g) \<and> network \<in> set (c_network d) \<and> delay_of now_of g d = Some k}"

text \<open>Delays are not zero, and the tolerance does not make them overflow.\<close>

definition delays_ok :: "(comp \<Rightarrow> string option) \<Rightarrow> string \<Rightarrow> urltest_group \<Rightarrow> bool" where
  "delays_ok now_of network g \<longleftrightarrow>
     (\<forall>d k. d \<in> set (ug_outbounds g) \<or> selected_for network g = Some d \<longrightarrow> delay_of now_of g d = Some k \<longrightarrow>
        k \<noteq> 0 \<and> k + unat (ug_tolerance g) < 65536)"

lemma word_le_tolerance:
  fixes a b tol :: "16 word"
  assumes "unat b + unat tol < 65536"
  shows "a > b + tol \<longleftrightarrow> unat a > unat b + unat tol"
  using assms by (simp add: word_less_nat_alt unat_add_lem [THEN iffD1])

text \<open>The scan keeps a best delay with its outbound; \<open>best_ok\<close> says when the pair is meaningful.\<close>

definition best_ok :: "(comp \<Rightarrow> nat option) \<Rightarrow> 16 word \<times> comp option \<Rightarrow> bool" where
  "best_ok delay best \<longleftrightarrow>
     (case snd best of None \<Rightarrow> fst best = 0 | Some o1 \<Rightarrow> fst best \<noteq> 0 \<and> delay o1 = Some (unat (fst best)))"

lemma select_scan_best:
  assumes delay: "\<And>d. delay d = map_option (\<lambda>h. unat (uh_Delay h)) (LoadURLTestHistory hist (RealTag now_of d))"
    and "best_ok delay best"
    and "\<forall>d \<in> set ds. \<forall>k. delay d = Some k \<longrightarrow> k \<noteq> 0 \<and> k + unat tol < 65536"
    and "select_scan now_of hist tol network ds best = best'"
  shows "best_ok delay best' \<and>
    (\<forall>d k. d \<in> set ds \<longrightarrow> network \<in> set (c_network d) \<longrightarrow> delay d = Some k \<longrightarrow>
       snd best' \<noteq> None \<and> unat (fst best') \<le> k + unat tol) \<and>
    (best' = best \<or> (\<exists>d \<in> set ds. snd best' = Some d \<and> network \<in> set (c_network d))) \<and>
    (snd best \<noteq> None \<longrightarrow> snd best' \<noteq> None \<and> unat (fst best') \<le> unat (fst best)) \<and>
    (snd best \<noteq> None \<longrightarrow> (\<forall>d k. d \<in> set ds \<longrightarrow> network \<in> set (c_network d) \<longrightarrow> delay d = Some k \<longrightarrow>
       unat (fst best) \<le> k + unat tol) \<longrightarrow> best' = best)"
  using assms(2-)
proof (induction ds arbitrary: best)
  case Nil
  then show ?case by auto
next
  case (Cons d ds)
  obtain m o1 where best: "best = (m, o1)" by fastforce
  show ?case
  proof (cases "network \<in> set (c_network d) \<and> (\<exists>h. LoadURLTestHistory hist (RealTag now_of d) = Some h \<and>
      (m = 0 \<or> m > uh_Delay h + tol))")
    case False
    then have scan: "select_scan now_of hist tol network ds best = best'"
      using Cons.prems(3) by (auto simp: best split: option.splits if_splits)
    have "o1 \<noteq> None \<and> unat m \<le> k + unat tol" if "network \<in> set (c_network d)" "delay d = Some k" for k
      using False that Cons.prems(1,2) word_le_tolerance [of _ tol m]
      by (cases o1) (force simp: best_ok_def best delay not_less)+
    then show ?thesis using Cons.IH [OF Cons.prems(1) _ scan] Cons.prems(2) by (fastforce simp: best)
  next
    case True
    then obtain h where h: "LoadURLTestHistory hist (RealTag now_of d) = Some h" and sup: "network \<in> set (c_network d)"
      and less: "m = 0 \<or> m > uh_Delay h + tol" by blast
    have k: "delay d = Some (unat (uh_Delay h))" by (simp add: delay h)
    then have nz: "uh_Delay h \<noteq> 0" "unat (uh_Delay h) + unat tol < 65536" using Cons.prems(2) by (auto simp: unat_eq_0)
    have ok: "best_ok delay (uh_Delay h, Some d)" using k nz by (simp add: best_ok_def)
    have scan: "select_scan now_of hist tol network ds (uh_Delay h, Some d) = best'"
      using Cons.prems(3) less h sup by (simp add: best)
    have smaller: "unat m > unat (uh_Delay h) + unat tol" if "o1 \<noteq> None"
      using that less Cons.prems(1) word_le_tolerance [OF nz(2), of m] by (auto simp: best_ok_def best)
    show ?thesis using Cons.IH [OF ok _ scan] Cons.prems(2) k sup smaller by (fastforce simp: best)
  qed
qed


definition demo_urltest :: "16 word \<Rightarrow> urltest_group" where
  "demo_urltest tol =
     \<lparr>ug_outbounds = [the (demo_member ''a''), the (demo_member ''b'')], ug_link = [], ug_interval = 10, ug_tolerance = tol,
      ug_idleTimeout = 100,
      ug_history = NewHistoryStorage\<lparr>hs_delayHistory := [''a'' \<mapsto> \<lparr>uh_Time = 0, uh_Delay = 300\<rparr>, ''b'' \<mapsto> \<lparr>uh_Time = 0, uh_Delay = 200\<rparr>]\<rparr>,
      ug_checking = False, ug_selectedOutboundTCP = demo_member ''a'', ug_selectedOutboundUDP = None,
      ug_interruptGroup = NewGroup, ug_interruptExternalConnections = False,
      ug_ticker = False, ug_pauseCallback = False, ug_close = False, ug_started = False, ug_lastActive = 0\<rparr>"

lemmas demo_urltest_defs = demo_urltest_def demo_member_def NewHistoryStorage_def LoadURLTestHistory_def RealTag_def


definition demo_url_env :: url_env where
  "demo_url_env = \<lparr>ue_now_of = (\<lambda>_. None), ue_lookup = demo_member, ue_clock = (\<lambda>_. 20),
     ue_test = (\<lambda>c. if c_tag c = ''a'' then Inr (21, 5000000) else Inl ErrInvalid)\<rparr>"

definition demo_task :: "string \<Rightarrow> test_task" where
  "demo_task t = \<lparr>tt_tag = t, tt_realTag = t, tt_outbound = the (demo_member t)\<rparr>"

lemma demo_look:
  assumes "cs_todo s = the (demo_member t) # ds" and "t \<in> {''a'', ''b''}" and "t \<notin> cs_checked s"
  shows "check_step demo_url_env True 10 s (s\<lparr>cs_i := Suc (cs_i s), cs_todo := ds, cs_checked := insert t (cs_checked s),
    cs_running := cs_running s @ [demo_task t]\<rparr>)"
proof -
  have "examine demo_url_env True 10 (cs_i s) (the (demo_member t)) (cs_checked s) (fst (cs_data s)) =
      (insert t (cs_checked s), Some (demo_task t))"
    using assms(2,3) by (auto simp: examine_def demo_url_env_def RealTag_def demo_member_def demo_task_def)
  from look [OF assms(1) this] show ?thesis by simp
qed

text \<open>A run in which the test of the second member ends before that of the first.\<close>

theorem urltest_any_order_witness:
  "\<exists>s. (check_step demo_url_env True 10 ^^ 4) (check_start (demo_urltest 50)) s \<and> check_done s \<and>
     cs_data s = test_loop demo_url_env True 10 0 (ug_outbounds (demo_urltest 50)) {} (ug_history (demo_urltest 50), Map.empty)"
proof -
  let ?step = "check_step demo_url_env True 10"
  let ?s0 = "check_start (demo_urltest 50)"
  have todo: "cs_todo ?s0 = [the (demo_member ''a''), the (demo_member ''b'')]" "cs_checked ?s0 = {}" "cs_running ?s0 = []"
    by (simp_all add: check_start_def demo_urltest_def)
  obtain s1 where 1: "?step ?s0 s1" "cs_todo s1 = [the (demo_member ''b'')]" "cs_checked s1 = {''a''}" "cs_running s1 = [demo_task ''a'']"
    using demo_look [OF todo(1)] todo by fastforce
  obtain s2 where 2: "?step s1 s2" "cs_todo s2 = []" "cs_running s2 = [demo_task ''a'', demo_task ''b'']"
    using demo_look [OF 1(2)] 1 by fastforce
  obtain s3 where 3: "?step s2 s3" "cs_todo s3 = []" "cs_running s3 = [demo_task ''a'']"
    using finish [of s2 "[demo_task ''a'']" "demo_task ''b''" "[]"] 2 by fastforce
  obtain s4 where 4: "?step s3 s4" "check_done s4"
    using finish [of s3 "[]" "demo_task ''a''" "[]"] 3 by (fastforce simp: check_done_def)
  have run: "(?step ^^ 4) ?s0 s4" using 1(1) 2(1) 3(1) 4(1) by (auto simp: numeral_eq_Suc)
  have inj: "inj_on c_tag (set (ug_outbounds (demo_urltest 50)))" and int: "ug_interval (demo_urltest 50) = 10"
    by (auto simp: demo_urltest_defs)
  show ?thesis using run 4(2) urltest_any_order [OF inj, unfolded int, OF run] by auto
qed

section \<open>Overflow\<close>

text \<open>
  The tolerance of a URL test group wraps around. If the delay of the second member and the tolerance
  add up to more than 16 bits hold, and the sum modulo \<open>65536\<close> is below the delay of the member in use,
  the group switches to the second member, even if it is slower.
\<close>

theorem urltest_tolerance_wraps:
  assumes "ug_outbounds g = [cur, d]" and "selected_for network g = Some cur"
    and "network \<in> set (c_network cur)" and "network \<in> set (c_network d)"
    and "LoadURLTestHistory (ug_history g) (RealTag now_of cur) = Some hc"
    and "LoadURLTestHistory (ug_history g) (RealTag now_of d) = Some hd1"
    and "unat (uh_Delay hd1) + unat (ug_tolerance g) \<ge> 65536"
    and "unat (uh_Delay hd1) + unat (ug_tolerance g) - 65536 < unat (uh_Delay hc)"
  shows "ug_Select now_of network g = (Some d, True)"
proof -
  have "unat (uh_Delay hd1 + ug_tolerance g) = (unat (uh_Delay hd1) + unat (ug_tolerance g)) mod 65536"
    by (simp add: unat_word_ariths)
  also have "\<dots> = unat (uh_Delay hd1) + unat (ug_tolerance g) - 65536"
    using assms(7) unsigned_less [of "uh_Delay hd1", where ?'a = nat] unsigned_less [of "ug_tolerance g", where ?'a = nat]
    by (simp add: le_mod_geq)
  finally have "uh_Delay hc > uh_Delay hd1 + ug_tolerance g" using assms(8) by (simp add: word_less_nat_alt)
  then show ?thesis using assms(1-6) by (auto simp: ug_Select_def current_best_def)
qed

theorem urltest_tolerance_wraps_witness:
  "ug_Select (\<lambda>_. None) NetworkTCP ((demo_urltest 65200)
     \<lparr>ug_history := NewHistoryStorage\<lparr>hs_delayHistory := [''a'' \<mapsto> \<lparr>uh_Time = 0, uh_Delay = 300\<rparr>, ''b'' \<mapsto> \<lparr>uh_Time = 0, uh_Delay = 400\<rparr>]\<rparr>\<rparr>)
   = (demo_member ''b'', True)"
  using urltest_tolerance_wraps [of "(demo_urltest 65200)
     \<lparr>ug_history := NewHistoryStorage\<lparr>hs_delayHistory := [''a'' \<mapsto> \<lparr>uh_Time = 0, uh_Delay = 300\<rparr>, ''b'' \<mapsto> \<lparr>uh_Time = 0, uh_Delay = 400\<rparr>]\<rparr>\<rparr>"
     "the (demo_member ''a'')" "the (demo_member ''b'')" NetworkTCP "\<lambda>_. None" "\<lparr>uh_Time = 0, uh_Delay = 300\<rparr>" "\<lparr>uh_Time = 0, uh_Delay = 400\<rparr>"]
  by (simp add: selected_for_def demo_urltest_defs)

section \<open>Dialling\<close>

text \<open>
  The states of a group: any order of its operations, with the storage of delays changed by others (it
  may be shared) in between.
\<close>

inductive ug_reach :: "comp list \<Rightarrow> urltest_group \<Rightarrow> bool" for outs :: "comp list" where
  new: "NewURLTestGroup h outs link interval tol idle ext = Ok g \<Longrightarrow> ug_reach outs g"
| history: "ug_reach outs g \<Longrightarrow> ug_reach outs (g\<lparr>ug_history := h\<rparr>)"
| postStart: "ug_reach outs g \<Longrightarrow> ug_reach outs (ug_PostStart now g)"
| touch: "ug_reach outs g \<Longrightarrow> ug_reach outs (snd (ug_Touch now g))"
| dial: "ug_reach outs g \<Longrightarrow> ug_reach outs (snd (ug_Dial NetworkName now_of now dial1 ext network g))"
| listen: "ug_reach outs g \<Longrightarrow> ug_reach outs (snd (ug_Listen now_of now dial1 ext g))"
| direct: "ug_reach outs g \<Longrightarrow> ug_reach outs (snd (ug_DirectRoute now_of now network g))"
| conn: "ug_reach outs g \<Longrightarrow> ug_reach outs (g\<lparr>ug_interruptGroup := conn_Close n (ug_interruptGroup g)\<rparr>)"
| check: "ug_reach outs g \<Longrightarrow> ug_reach outs (ug_CheckOutbounds env force g)"
| start: "ug_reach outs g \<Longrightarrow> ug_reach outs (loop_begin env now g)"
| tick: "ug_reach outs g \<Longrightarrow> ug_reach outs (snd (loop_tick env now g))"
| close: "ug_reach outs g \<Longrightarrow> ug_reach outs (snd (ug_Close g))"

text \<open>The selections are members that support their network, and connections run through members.\<close>

definition supports :: "comp list \<Rightarrow> string \<Rightarrow> comp option \<Rightarrow> bool" where
  "supports outs network sel \<longleftrightarrow> (\<forall>o1. sel = Some o1 \<longrightarrow> o1 \<in> set outs \<and> network \<in> set (c_network o1))"

definition runs_in :: "comp set \<Rightarrow> comp group \<Rightarrow> bool" where
  "runs_in A ig \<longleftrightarrow> group_inv ig \<and> (\<forall>n c e. group_view ig n = Some (c, e) \<longrightarrow> c \<in> A)"

definition ug_inv :: "comp list \<Rightarrow> urltest_group \<Rightarrow> bool" where
  "ug_inv outs g \<longleftrightarrow> ug_outbounds g = outs \<and> supports outs NetworkTCP (ug_selectedOutboundTCP g) \<and>
     supports outs NetworkUDP (ug_selectedOutboundUDP g) \<and> runs_in (set outs) (ug_interruptGroup g)"

lemma select_scan_from:
  "select_scan now_of hist tol network ds best = best' \<Longrightarrow> snd best' = Some o1 \<Longrightarrow>
     snd best = Some o1 \<or> o1 \<in> set ds \<and> network \<in> set (c_network o1)"
proof (induction ds arbitrary: best)
  case (Cons d ds)
  obtain m o2 where best: "best = (m, o2)" by fastforce
  show ?case using Cons.IH Cons.prems by (fastforce simp: best split: if_splits option.splits)
qed simp

lemma find_Some_in: "find P xs = Some x \<Longrightarrow> x \<in> set xs \<and> P x"
  by (induction xs) (auto split: if_splits)

lemma find_None_iff_all: "find P xs = None \<longleftrightarrow> (\<forall>x \<in> set xs. \<not> P x)"
  by (induction xs) auto

lemma ug_Select_supports:
  assumes "supports (ug_outbounds g) network (selected_for network g)"
  shows "supports (ug_outbounds g) network (fst (ug_Select now_of network g))"
    and "fst (ug_Select now_of network g) = None \<Longrightarrow> \<forall>d \<in> set (ug_outbounds g). network \<notin> set (c_network d)"
proof -
  let ?best = "current_best now_of (ug_history g) (selected_for network g)"
  let ?scan = "select_scan now_of (ug_history g) (ug_tolerance g) network (ug_outbounds g) ?best"
  have "snd ?best = Some o1 \<Longrightarrow> selected_for network g = Some o1" for o1
    by (auto simp: current_best_def split: option.splits)
  then have "supports (ug_outbounds g) network (snd ?scan)"
    using select_scan_from [OF refl, of now_of "ug_history g" "ug_tolerance g" network "ug_outbounds g" ?best] assms
    unfolding supports_def by metis
  then show "supports (ug_outbounds g) network (fst (ug_Select now_of network g))"
    by (auto simp: ug_Select_def supports_def dest!: find_Some_in split: prod.splits option.splits)
  show "fst (ug_Select now_of network g) = None \<Longrightarrow> \<forall>d \<in> set (ug_outbounds g). network \<notin> set (c_network d)"
    by (auto simp: ug_Select_def find_None_iff_all split: prod.splits option.splits)
qed

lemma update_selected_supports:
  "supports outs network (fst found) \<Longrightarrow> supports outs network sel \<Longrightarrow> supports outs network (fst (update_selected found sel))"
  by (auto simp: update_selected_def supports_def split: prod.splits option.splits)

lemma runs_in_Interrupt: "runs_in A ig \<Longrightarrow> group_Interrupt ext ig = (closed, ig') \<Longrightarrow> runs_in A ig'"
  using ig.interrupt_law [of ig ext closed ig'] by (auto simp: runs_in_def restrict_map_def)

lemma runs_in_Close: "runs_in A ig \<Longrightarrow> runs_in A (conn_Close n ig)"
  using ig.close_law [of ig n] by (auto simp: runs_in_def)

lemma runs_in_NewConn: "runs_in A ig \<Longrightarrow> c \<in> A \<Longrightarrow> group_NewConn c ext ig = (n, ig') \<Longrightarrow> runs_in A ig'"
  using ig.new_law [of ig c ext n ig'] by (auto simp: runs_in_def)

lemma performUpdateCheck_inv:
  assumes "ug_inv outs g"
  shows "ug_inv outs (snd (performUpdateCheck now_of g))"
proof -
  define tcp where "tcp = fst (update_selected (ug_Select now_of NetworkTCP g) (ug_selectedOutboundTCP g))"
  define g1 where "g1 = g\<lparr>ug_selectedOutboundTCP := tcp\<rparr>"
  define udp where "udp = fst (update_selected (ug_Select now_of NetworkUDP g1) (ug_selectedOutboundUDP g1))"
  define g2 where "g2 = g1\<lparr>ug_selectedOutboundUDP := udp\<rparr>"
  have outs: "ug_outbounds g = outs" "ug_outbounds g1 = outs" using assms by (simp_all add: ug_inv_def g1_def)
  have "supports outs NetworkTCP tcp" unfolding tcp_def
    by (rule update_selected_supports) (use ug_Select_supports(1) [of g NetworkTCP now_of] assms outs in \<open>auto simp: ug_inv_def selected_for_def\<close>)
  moreover have "supports outs NetworkUDP udp" unfolding udp_def
    by (rule update_selected_supports) (use ug_Select_supports(1) [of g1 NetworkUDP now_of] assms outs in \<open>auto simp: ug_inv_def selected_for_def g1_def\<close>)
  ultimately have inv2: "ug_inv outs g2" using assms by (simp add: ug_inv_def g2_def g1_def)
  obtain closed ig where ig: "group_Interrupt (ug_interruptExternalConnections g2) (ug_interruptGroup g2) = (closed, ig)" by fastforce
  have "snd (performUpdateCheck now_of g) \<in> {g2, g2\<lparr>ug_interruptGroup := ig\<rparr>}"
    using ig by (auto simp: performUpdateCheck_def g2_def g1_def udp_def tcp_def Let_def split: prod.splits)
  then show ?thesis using inv2 runs_in_Interrupt [OF _ ig, of "set outs"] by (auto simp: ug_inv_def)
qed

lemma ug_Touch_fields:
  "ug_inv outs (snd (ug_Touch now g)) = ug_inv outs g" "selected_for network (snd (ug_Touch now g)) = selected_for network g"
  "ug_outbounds (snd (ug_Touch now g)) = ug_outbounds g"
  by (simp_all add: ug_Touch_def ug_inv_def selected_for_def)

lemma ug_CheckOutbounds_inv: "ug_inv outs g \<Longrightarrow> ug_inv outs (ug_CheckOutbounds env force g)"
proof -
  assume inv: "ug_inv outs g"
  then have "ug_inv outs (g\<lparr>ug_history := h\<rparr>)" for h by (simp add: ug_inv_def)
  from performUpdateCheck_inv [OF this] show ?thesis
    using inv by (auto simp: ug_CheckOutbounds_def ug_urlTest_def split: prod.splits)
qed

lemma dial_through_inv:
  "ug_inv outs g \<Longrightarrow> set_option outbound \<subseteq> set outs \<Longrightarrow> ug_inv outs (snd (dial_through dial1 ext outbound g))"
  by (auto simp: dial_through_def ug_inv_def intro: runs_in_NewConn split: option.splits prod.splits)

text \<open>Where a dial goes: a member that supports the network, unless there is none.\<close>

lemma ug_outbound_for_supports:
  assumes "ug_inv outs g" and "name \<in> {NetworkTCP, NetworkUDP}"
  shows "supports outs name (ug_outbound_for now_of name name g)"
    and "ug_outbound_for now_of name name g = None \<Longrightarrow> \<forall>d \<in> set outs. name \<notin> set (c_network d)"
proof -
  have outs: "ug_outbounds g = outs" and sel: "supports outs name (selected_for name g)"
    using assms by (auto simp: ug_inv_def selected_for_def)
  note select = ug_Select_supports [of g name now_of, unfolded outs, OF sel]
  show "supports outs name (ug_outbound_for now_of name name g)"
    using sel select(1) by (auto simp: ug_outbound_for_def split: option.splits)
  show "ug_outbound_for now_of name name g = None \<Longrightarrow> \<forall>d \<in> set outs. name \<notin> set (c_network d)"
    using select(2) by (auto simp: ug_outbound_for_def split: option.splits)
qed

lemma ug_outbound_for_member:
  assumes "ug_inv outs g"
  shows "set_option (ug_outbound_for now_of name network g) \<subseteq> set outs"
proof -
  have outs: "ug_outbounds g = outs" and sel: "supports outs n (selected_for n g)" for n
    using assms by (auto simp: ug_inv_def selected_for_def supports_def)
  show ?thesis using sel [of name] ug_Select_supports(1) [of g network now_of, unfolded outs, OF sel [of network]]
    by (auto simp: ug_outbound_for_def supports_def split: option.splits)
qed

lemma ug_reach_inv: "ug_reach outs g \<Longrightarrow> ug_inv outs g"
proof (induction rule: ug_reach.induct)
  case (new h link interval tol idle ext g)
  then show ?case
    by (auto simp: NewURLTestGroup_def Let_def ug_inv_def supports_def runs_in_def NewGroup_def group_inv_def group_view_def
        split: if_splits)
next
  case (dial g NetworkName now_of now dial1 ext network)
  then show ?case by (simp add: ug_Dial_def Let_def ug_Touch_fields dial_through_inv ug_outbound_for_member)
next
  case (listen g now_of now dial1 ext)
  then show ?case by (simp add: ug_Listen_def Let_def ug_Touch_fields dial_through_inv ug_outbound_for_member)
next
  case (direct g now_of now network)
  then show ?case by (simp add: ug_DirectRoute_def Let_def ug_Touch_fields split: option.splits)
next
  case (start g env now)
  then have "ug_inv outs (g\<lparr>ug_lastActive := now\<rparr>)" by (simp add: ug_inv_def)
  then show ?case using start by (simp add: loop_begin_def ug_CheckOutbounds_inv)
next
  case (tick g env now)
  then show ?case by (simp add: loop_tick_def ug_CheckOutbounds_inv) (simp add: ug_inv_def)
next
  case (close g)
  then show ?case by (simp add: ug_Close_def ug_inv_def)
qed (simp_all add: ug_Touch_fields ug_CheckOutbounds_inv runs_in_Close, simp_all add: ug_inv_def ug_PostStart_def runs_in_Close)

text \<open>
  A URL test group dials through members that support the network. In every state of a group,
  \<^verbatim>\<open>DialContext\<close> for \<open>tcp\<close> or \<open>udp\<close> fails with \<open>missing supported outbound\<close> exactly if no member supports
  the network, and otherwise uses a member that supports it: if the dial succeeds the new connection of the
  group runs through that member, if it fails the delay of that member is forgotten. All connections of
  the group run through members.
\<close>

theorem urltest_dial_supported:
  assumes "ug_reach outs g" and "network \<in> {NetworkTCP, NetworkUDP}" and "NetworkName network = network"
    and "ug_Dial NetworkName now_of now dial1 ext network g = (r, g')"
  shows "(r = Err (ErrNew [''missing supported outbound'']) \<and> g' = snd (ug_Touch now g) \<and> (\<forall>d \<in> set outs. network \<notin> set (c_network d))) \<or>
    (\<exists>o1 \<in> set outs. network \<in> set (c_network o1) \<and>
       (case dial1 o1 of
          None \<Rightarrow> \<exists>n. r = Ok n \<and> group_view (ug_interruptGroup g) n = None \<and>
            group_view (ug_interruptGroup g') = (group_view (ug_interruptGroup g))(n \<mapsto> (o1, ext)) \<and> ug_history g' = ug_history g
        | Some e \<Rightarrow> r = Err e \<and> ug_interruptGroup g' = ug_interruptGroup g \<and>
            LoadURLTestHistory (ug_history g') (c_tag o1) = None))"
proof -
  let ?g = "snd (ug_Touch now g)"
  have inv: "ug_inv outs ?g" using ug_reach_inv [OF assms(1)] by (simp add: ug_Touch_fields)
  have same: "ug_interruptGroup ?g = ug_interruptGroup g" "ug_history ?g = ug_history g" by (simp_all add: ug_Touch_def)
  have dial: "dial_through dial1 ext (ug_outbound_for now_of network network ?g) ?g = (r, g')"
    using assms(2-4) by (auto simp: ug_Dial_def Let_def)
  note to = ug_outbound_for_supports [OF inv assms(2), of now_of]
  show ?thesis
  proof (cases "ug_outbound_for now_of network network ?g")
    case None
    then show ?thesis using dial to(2) by (auto simp: dial_through_def)
  next
    case (Some o1)
    then have "o1 \<in> set outs" "network \<in> set (c_network o1)" using to(1) by (auto simp: supports_def)
    moreover have "group_inv (ug_interruptGroup g)" using inv same by (simp add: ug_inv_def runs_in_def)
    ultimately show ?thesis using dial Some same ig.new_law [of "ug_interruptGroup g" o1 ext]
      by (cases "dial1 o1") (auto simp: dial_through_def DeleteURLTestHistory_def notifyUpdated_def LoadURLTestHistory_def
          split: prod.splits)
  qed
qed

text \<open>In a new group with the members \<open>a\<close> and \<open>b\<close>, a successful dial for \<open>tcp\<close>.\<close>

theorem urltest_dial_supported_witness:
  "case NewURLTestGroup None [the (demo_member ''a''), the (demo_member ''b'')] [] 0 0 0 False of
     Ok g \<Rightarrow>
       (case ug_Dial id (\<lambda>_. None) 0 (\<lambda>_. None) True NetworkTCP g of
          (r, g') \<Rightarrow> \<exists>o1 n. o1 \<in> set [the (demo_member ''a''), the (demo_member ''b'')] \<and> r = Ok n \<and>
            group_view (ug_interruptGroup g') n = Some (o1, True))
   | _ \<Rightarrow> False"
proof -
  let ?outs = "[the (demo_member ''a''), the (demo_member ''b'')]"
  obtain g where g: "NewURLTestGroup None ?outs [] 0 0 0 False = Ok g"
    by (simp add: NewURLTestGroup_def DefaultURLTestInterval_def DefaultURLTestIdleTimeout_def)
  obtain r g' where d: "ug_Dial id (\<lambda>_. None) 0 (\<lambda>_. None) True NetworkTCP g = (r, g')" by fastforce
  have "NetworkTCP \<in> set (c_network (the (demo_member ''a'')))" by (simp add: demo_member_def)
  then have "\<exists>o1 n. o1 \<in> set ?outs \<and> r = Ok n \<and> group_view (ug_interruptGroup g') n = Some (o1, True)"
    using urltest_dial_supported [OF ug_reach.new [OF g] _ _ d] by auto
  then show ?thesis by (simp only: g d go_out.case prod.case)
qed

end
