(* ===== verification/SRS_Binary.thy ===== *)
theory SRS_Binary
  imports Rule_Sets Varbin
begin

text \<open>
  \<^verbatim>\<open>common/srs\<close>: the binary form of rule-sets. Writing appends to a buffer that accepts everything;
  reading may fail, and panics where a length in the file is larger than what can be allocated.
  Domain matchers, address sets, compression and the integer writer are third-party (\<open>srs_lib\<close>).
\<close>

section \<open>What the format uses\<close>

text \<open>
  A matcher is what it matches and what it dumps; an address set is the list of its ranges, whose
  membership test and prefixes belong to \<^verbatim>\<open>netipx\<close>.
\<close>

type_synonym ip_set = "(addr \<times> addr) list"

record domain_matcher =
  dm_Match :: "string \<Rightarrow> bool"
  dm_Dump :: "string list \<times> string list"

record adguard_matcher =
  am_Match :: "string \<Rightarrow> bool"
  am_Dump :: "string list"

type_synonym interface_addresses = "(interface_type \<times> prefix list) list"

record srs_lib =
  sb_WriteUvarint :: "64 word \<Rightarrow> bytes"
  sb_WriteMatcher :: "string list \<Rightarrow> string list \<Rightarrow> bool \<Rightarrow> bytes"
  sb_ReadMatcher :: "domain_matcher reader"
  sb_WriteAdGuard :: "string list \<Rightarrow> bytes"
  sb_ReadAdGuard :: "adguard_matcher reader"
  sb_IPSet :: "(prefix + addr) list \<Rightarrow> go_err + ip_set"
  sb_Contains :: "ip_set \<Rightarrow> addr \<Rightarrow> bool"
  sb_Prefixes :: "ip_set \<Rightarrow> string list"
  sb_AddrFromIP :: "bytes \<Rightarrow> addr"
  sb_Put :: "interface_addresses \<Rightarrow> interface_type \<Rightarrow> prefix list \<Rightarrow> interface_addresses"
  sb_Compress :: "bytes \<Rightarrow> bytes"
  sb_Uncompress :: "bytes \<Rightarrow> go_err + bytes"

text \<open>The largest lengths \<^verbatim>\<open>make\<close> allocates, for the element types the readers use.\<close>

record limits =
  li_bytes :: nat
  li_strings :: nat
  li_uint16s :: nat
  li_ranges :: nat
  li_rules :: nat

definition wr_len :: "srs_lib \<Rightarrow> 'a list \<Rightarrow> bytes" where
  "wr_len B xs = sb_WriteUvarint B (of_nat (length xs))"

text \<open>A length followed by that many bytes, into a buffer allocated before.\<close>

definition rd_sized :: "limits \<Rightarrow> bytes reader" where
  "rd_sized lim =
     rd_bind ReadUvarint (\<lambda>n. rd_bind (rd_make (li_bytes lim) (unat n)) (\<lambda>_. ReadFull (unat n)))"

section \<open>Addresses\<close>

definition readPrefix :: "srs_lib \<Rightarrow> limits \<Rightarrow> prefix reader" where
  "readPrefix B lim =
     rd_bind (rd_sized lim) (\<lambda>addrSlice. rd_bind rd_byte (\<lambda>prefixBits.
       rd_return (PrefixFrom (sb_AddrFromIP B addrSlice) (uint prefixBits))))"

definition writePrefix :: "srs_lib \<Rightarrow> prefix \<Rightarrow> bytes" where
  "writePrefix B p =
     (let addrSlice = addr_AsSlice (px_addr p) in wr_len B addrSlice @ addrSlice @ [word_of_int (px_bits p)])"

definition read_range :: "srs_lib \<Rightarrow> limits \<Rightarrow> (addr \<times> addr) reader" where
  "read_range B lim =
     rd_bind (rd_sized lim) (\<lambda>fromBytes. rd_bind (rd_sized lim) (\<lambda>toBytes.
       rd_return (sb_AddrFromIP B fromBytes, sb_AddrFromIP B toBytes)))"

definition readIPSet :: "srs_lib \<Rightarrow> limits \<Rightarrow> ip_set reader" where
  "readIPSet B lim =
     rd_bind rd_byte (\<lambda>version.
       if version \<noteq> 1 then rd_fail ErrInvalid
       else rd_bind (rd_be 8) (\<lambda>n :: 64 word. rd_bind (rd_make (li_ranges lim) (unat n)) (\<lambda>_.
         rd_times (unat n) (read_range B lim))))"

definition write_range :: "srs_lib \<Rightarrow> addr \<times> addr \<Rightarrow> bytes" where
  "write_range B r =
     (let fromBytes = addr_AsSlice (fst r); toBytes = addr_AsSlice (snd r)
      in wr_len B fromBytes @ fromBytes @ wr_len B toBytes @ toBytes)"

definition writeIPSet :: "srs_lib \<Rightarrow> ip_set \<Rightarrow> bytes" where
  "writeIPSet B set1 = 1 # be_bytes 8 (of_nat (length set1) :: 64 word) @ concat (map (write_range B) set1)"

section \<open>Items\<close>

abbreviation ruleItemQueryType :: "8 word" where "ruleItemQueryType \<equiv> 0"
abbreviation ruleItemNetwork :: "8 word" where "ruleItemNetwork \<equiv> 1"
abbreviation ruleItemDomain :: "8 word" where "ruleItemDomain \<equiv> 2"
abbreviation ruleItemDomainKeyword :: "8 word" where "ruleItemDomainKeyword \<equiv> 3"
abbreviation ruleItemDomainRegex :: "8 word" where "ruleItemDomainRegex \<equiv> 4"
abbreviation ruleItemSourceIPCIDR :: "8 word" where "ruleItemSourceIPCIDR \<equiv> 5"
abbreviation ruleItemIPCIDR :: "8 word" where "ruleItemIPCIDR \<equiv> 6"
abbreviation ruleItemSourcePort :: "8 word" where "ruleItemSourcePort \<equiv> 7"
abbreviation ruleItemSourcePortRange :: "8 word" where "ruleItemSourcePortRange \<equiv> 8"
abbreviation ruleItemPort :: "8 word" where "ruleItemPort \<equiv> 9"
abbreviation ruleItemPortRange :: "8 word" where "ruleItemPortRange \<equiv> 10"
abbreviation ruleItemProcessName :: "8 word" where "ruleItemProcessName \<equiv> 11"
abbreviation ruleItemProcessPath :: "8 word" where "ruleItemProcessPath \<equiv> 12"
abbreviation ruleItemPackageName :: "8 word" where "ruleItemPackageName \<equiv> 13"
abbreviation ruleItemWIFISSID :: "8 word" where "ruleItemWIFISSID \<equiv> 14"
abbreviation ruleItemWIFIBSSID :: "8 word" where "ruleItemWIFIBSSID \<equiv> 15"
abbreviation ruleItemAdGuardDomain :: "8 word" where "ruleItemAdGuardDomain \<equiv> 16"
abbreviation ruleItemProcessPathRegex :: "8 word" where "ruleItemProcessPathRegex \<equiv> 17"
abbreviation ruleItemNetworkType :: "8 word" where "ruleItemNetworkType \<equiv> 18"
abbreviation ruleItemNetworkIsExpensive :: "8 word" where "ruleItemNetworkIsExpensive \<equiv> 19"
abbreviation ruleItemNetworkIsConstrained :: "8 word" where "ruleItemNetworkIsConstrained \<equiv> 20"
abbreviation ruleItemNetworkInterfaceAddress :: "8 word" where "ruleItemNetworkInterfaceAddress \<equiv> 21"
abbreviation ruleItemDefaultInterfaceAddress :: "8 word" where "ruleItemDefaultInterfaceAddress \<equiv> 22"
abbreviation ruleItemFinal :: "8 word" where "ruleItemFinal \<equiv> 255"

definition read_string :: "limits \<Rightarrow> string reader" where
  "read_string lim = rd_bind (rd_sized lim) (\<lambda>buf. rd_return (string_of_bytes buf))"

definition readRuleItemString :: "limits \<Rightarrow> string list reader" where
  "readRuleItemString lim =
     rd_bind ReadUvarint (\<lambda>n. rd_bind (rd_make (li_strings lim) (unat n)) (\<lambda>_. rd_times (unat n) (read_string lim)))"

definition write_string :: "srs_lib \<Rightarrow> string \<Rightarrow> bytes" where
  "write_string B s = wr_len B s @ bytes_of_string s"

definition writeRuleItemString :: "srs_lib \<Rightarrow> 8 word \<Rightarrow> string list \<Rightarrow> bytes" where
  "writeRuleItemString B itemType value1 = itemType # wr_len B value1 @ concat (map (write_string B) value1)"

definition readRuleItemUint8 :: "limits \<Rightarrow> 8 word list reader" where
  "readRuleItemUint8 lim = rd_sized lim"

definition writeRuleItemUint8 :: "srs_lib \<Rightarrow> 8 word \<Rightarrow> 8 word list \<Rightarrow> bytes" where
  "writeRuleItemUint8 B itemType value1 = itemType # wr_len B value1 @ value1"

text \<open>
  \<^verbatim>\<open>binary.Read\<close> into a slice reads all its bytes at once, so that a file that ends after some elements
  and one that ends within an element give the same error.
\<close>

fun be_words :: "bytes \<Rightarrow> 16 word list" where
  "be_words (a # b # bs) = be_word [a, b] # be_words bs"
| "be_words _ = []"

definition readRuleItemUint16 :: "limits \<Rightarrow> 16 word list reader" where
  "readRuleItemUint16 lim =
     rd_bind ReadUvarint (\<lambda>n. rd_bind (rd_make (li_uint16s lim) (unat n)) (\<lambda>_.
       rd_bind (ReadFull (2 * unat n)) (\<lambda>b. rd_return (be_words b))))"

definition writeRuleItemUint16 :: "srs_lib \<Rightarrow> 8 word \<Rightarrow> 16 word list \<Rightarrow> bytes" where
  "writeRuleItemUint16 B itemType value1 = itemType # wr_len B value1 @ concat (map (be_bytes 2) value1)"

text \<open>The loop of \<^verbatim>\<open>writeRuleItemCIDR\<close> over the strings is that of \<^verbatim>\<open>NewIPCIDRItem\<close>.\<close>

definition writeRuleItemCIDR :: "rule_lib \<Rightarrow> srs_lib \<Rightarrow> 8 word \<Rightarrow> string list \<Rightarrow> bytes go_out" where
  "writeRuleItemCIDR L B itemType value1 =
     (case parse_prefixes L value1 of
        Inl e \<Rightarrow> Err e
      | Inr entries \<Rightarrow>
          (case sb_IPSet B entries of
             Inl e \<Rightarrow> Err e
           | Inr ipSet \<Rightarrow> Ok (itemType # writeIPSet B ipSet)))"

text \<open>The lists of prefixes, and the map from interface types to them.\<close>

definition read_prefixes :: "srs_lib \<Rightarrow> limits \<Rightarrow> prefix list reader" where
  "read_prefixes B lim = rd_bind ReadUvarint (\<lambda>n. rd_times (unat n) (readPrefix B lim))"

definition write_prefixes :: "srs_lib \<Rightarrow> prefix list \<Rightarrow> bytes" where
  "write_prefixes B ps = wr_len B ps @ concat (map (writePrefix B) ps)"

definition read_entry :: "srs_lib \<Rightarrow> limits \<Rightarrow> (interface_type \<times> prefix list) reader" where
  "read_entry B lim = rd_bind rd_byte (\<lambda>key. rd_bind (read_prefixes B lim) (\<lambda>value1. rd_return (key, value1)))"

definition write_entry :: "srs_lib \<Rightarrow> interface_type \<times> prefix list \<Rightarrow> bytes" where
  "write_entry B e = fst e # write_prefixes B (snd e)"

definition read_addresses :: "srs_lib \<Rightarrow> limits \<Rightarrow> interface_addresses reader" where
  "read_addresses B lim =
     rd_bind ReadUvarint (\<lambda>n. rd_bind (rd_times (unat n) (read_entry B lim)) (\<lambda>es.
       rd_return (foldl (\<lambda>m e. sb_Put B m (fst e) (snd e)) [] es)))"

section \<open>Rules\<close>

text \<open>
  One turn of the loop of \<^verbatim>\<open>readDefaultRule\<close> for an item type other than \<^verbatim>\<open>ruleItemFinal\<close>. Error messages
  are kept without the numbers in them, so \<^verbatim>\<open>lastItemType\<close> is not needed.
\<close>

definition read_item :: "srs_lib \<Rightarrow> limits \<Rightarrow> bool \<Rightarrow> 8 word \<Rightarrow> headless_options \<Rightarrow> headless_options reader" where
  "read_item B lim recover itemType rule =
     (if itemType = ruleItemQueryType then rd_bind (readRuleItemUint16 lim) (\<lambda>v. rd_return (rule\<lparr>ho_QueryType := v\<rparr>))
      else if itemType = ruleItemNetwork then rd_bind (readRuleItemString lim) (\<lambda>v. rd_return (rule\<lparr>ho_Network := v\<rparr>))
      else if itemType = ruleItemDomain then
        rd_bind (sb_ReadMatcher B) (\<lambda>matcher. rd_return
          (let rule1 = rule\<lparr>ho_DomainMatcher := Some (dm_Match matcher)\<rparr>
           in if recover then rule1\<lparr>ho_Domain := fst (dm_Dump matcher), ho_DomainSuffix := snd (dm_Dump matcher)\<rparr> else rule1))
      else if itemType = ruleItemDomainKeyword then rd_bind (readRuleItemString lim) (\<lambda>v. rd_return (rule\<lparr>ho_DomainKeyword := v\<rparr>))
      else if itemType = ruleItemDomainRegex then rd_bind (readRuleItemString lim) (\<lambda>v. rd_return (rule\<lparr>ho_DomainRegex := v\<rparr>))
      else if itemType = ruleItemSourceIPCIDR then
        rd_bind (readIPSet B lim) (\<lambda>ipSet. rd_return
          (let rule1 = rule\<lparr>ho_SourceIPSet := Some (sb_Contains B ipSet)\<rparr>
           in if recover then rule1\<lparr>ho_SourceIPCIDR := sb_Prefixes B ipSet\<rparr> else rule1))
      else if itemType = ruleItemIPCIDR then
        rd_bind (readIPSet B lim) (\<lambda>ipSet. rd_return
          (let rule1 = rule\<lparr>ho_IPSet := Some (sb_Contains B ipSet)\<rparr>
           in if recover then rule1\<lparr>ho_IPCIDR := sb_Prefixes B ipSet\<rparr> else rule1))
      else if itemType = ruleItemSourcePort then rd_bind (readRuleItemUint16 lim) (\<lambda>v. rd_return (rule\<lparr>ho_SourcePort := v\<rparr>))
      else if itemType = ruleItemSourcePortRange then rd_bind (readRuleItemString lim) (\<lambda>v. rd_return (rule\<lparr>ho_SourcePortRange := v\<rparr>))
      else if itemType = ruleItemPort then rd_bind (readRuleItemUint16 lim) (\<lambda>v. rd_return (rule\<lparr>ho_Port := v\<rparr>))
      else if itemType = ruleItemPortRange then rd_bind (readRuleItemString lim) (\<lambda>v. rd_return (rule\<lparr>ho_PortRange := v\<rparr>))
      else if itemType = ruleItemProcessName then rd_bind (readRuleItemString lim) (\<lambda>v. rd_return (rule\<lparr>ho_ProcessName := v\<rparr>))
      else if itemType = ruleItemProcessPath then rd_bind (readRuleItemString lim) (\<lambda>v. rd_return (rule\<lparr>ho_ProcessPath := v\<rparr>))
      else if itemType = ruleItemProcessPathRegex then rd_bind (readRuleItemString lim) (\<lambda>v. rd_return (rule\<lparr>ho_ProcessPathRegex := v\<rparr>))
      else if itemType = ruleItemPackageName then rd_bind (readRuleItemString lim) (\<lambda>v. rd_return (rule\<lparr>ho_PackageName := v\<rparr>))
      else if itemType = ruleItemWIFISSID then rd_bind (readRuleItemString lim) (\<lambda>v. rd_return (rule\<lparr>ho_WIFISSID := v\<rparr>))
      else if itemType = ruleItemWIFIBSSID then rd_bind (readRuleItemString lim) (\<lambda>v. rd_return (rule\<lparr>ho_WIFIBSSID := v\<rparr>))
      else if itemType = ruleItemAdGuardDomain then
        rd_bind (sb_ReadAdGuard B) (\<lambda>matcher. rd_return
          (let rule1 = rule\<lparr>ho_AdGuardDomainMatcher := Some (am_Match matcher)\<rparr>
           in if recover then rule1\<lparr>ho_AdGuardDomain := am_Dump matcher\<rparr> else rule1))
      else if itemType = ruleItemNetworkType then rd_bind (readRuleItemUint8 lim) (\<lambda>v. rd_return (rule\<lparr>ho_NetworkType := v\<rparr>))
      else if itemType = ruleItemNetworkIsExpensive then rd_return (rule\<lparr>ho_NetworkIsExpensive := True\<rparr>)
      else if itemType = ruleItemNetworkIsConstrained then rd_return (rule\<lparr>ho_NetworkIsConstrained := True\<rparr>)
      else if itemType = ruleItemNetworkInterfaceAddress then
        rd_bind (read_addresses B lim) (\<lambda>v. rd_return (rule\<lparr>ho_NetworkInterfaceAddress := v\<rparr>))
      else if itemType = ruleItemDefaultInterfaceAddress then
        rd_bind (read_prefixes B lim) (\<lambda>v. rd_return (rule\<lparr>ho_DefaultInterfaceAddress := v\<rparr>))
      else rd_fail (ErrNew [''unknown rule item type: '']))"

text \<open>
  The loop. Every turn reads at least the type byte, so \<open>fuel\<close> turns are enough for fewer than \<open>fuel\<close>
  bytes; the same holds for the nesting of logical rules.
\<close>

primrec read_items :: "srs_lib \<Rightarrow> limits \<Rightarrow> bool \<Rightarrow> nat \<Rightarrow> headless_options \<Rightarrow> headless_options reader" where
  "read_items B lim recover 0 rule = (\<lambda>bs. Panic ''out of fuel'')"
| "read_items B lim recover (Suc fuel) rule =
     rd_bind rd_byte (\<lambda>itemType.
       if itemType = ruleItemFinal then rd_bind rd_bool (\<lambda>invert. rd_return (rule\<lparr>ho_Invert := invert\<rparr>))
       else rd_bind (read_item B lim recover itemType rule) (\<lambda>rule1. read_items B lim recover fuel rule1))"

definition readDefaultRule :: "srs_lib \<Rightarrow> limits \<Rightarrow> bool \<Rightarrow> headless_options reader" where
  "readDefaultRule B lim recover bs = read_items B lim recover (Suc (length bs)) NoHeadlessOptions bs"

text \<open>\<^verbatim>\<open>E.Cause\<close> around the error of a reader.\<close>

definition rd_cause :: "string \<Rightarrow> 'a reader \<Rightarrow> 'a reader" where
  "rd_cause what r bs = (case r bs of Err e \<Rightarrow> Err (ErrCause e [what]) | x \<Rightarrow> x)"

primrec read_rule :: "srs_lib \<Rightarrow> limits \<Rightarrow> bool \<Rightarrow> nat \<Rightarrow> headless_opt reader" where
  "read_rule B lim recover 0 = (\<lambda>bs. Panic ''out of fuel'')"
| "read_rule B lim recover (Suc fuel) =
     rd_bind rd_byte (\<lambda>ruleType.
       if ruleType = 0 then rd_bind (readDefaultRule B lim recover) (\<lambda>r. rd_return (DefaultHeadlessOpt r))
       else if ruleType = 1 then
         rd_bind rd_byte (\<lambda>mode.
           if mode \<noteq> 0 \<and> mode \<noteq> 1 then rd_fail (ErrNew [''unknown logical mode: ''])
           else rd_bind ReadUvarint (\<lambda>n. rd_bind (rd_make (li_rules lim) (unat n)) (\<lambda>_.
             rd_bind (rd_times (unat n) (rd_cause ''read logical rule'' (read_rule B lim recover fuel))) (\<lambda>rules.
               rd_bind rd_bool (\<lambda>invert.
                 rd_return (LogicalHeadlessOpt (if mode = 0 then LogicalTypeAnd else LogicalTypeOr) rules invert))))))
       else rd_fail (ErrNew [''unknown rule type: '']))"

definition readRule :: "srs_lib \<Rightarrow> limits \<Rightarrow> bool \<Rightarrow> headless_opt reader" where
  "readRule B lim recover bs = read_rule B lim recover (Suc (length bs)) bs"

abbreviation RuleSetVersion1 :: "8 word" where "RuleSetVersion1 \<equiv> 1"
abbreviation RuleSetVersion2 :: "8 word" where "RuleSetVersion2 \<equiv> 2"
abbreviation RuleSetVersion3 :: "8 word" where "RuleSetVersion3 \<equiv> 3"
abbreviation RuleSetVersion4 :: "8 word" where "RuleSetVersion4 \<equiv> 4"
abbreviation RuleSetVersionCurrent :: "8 word" where "RuleSetVersionCurrent \<equiv> RuleSetVersion4"

text \<open>The first error or panic of the parts, or all their bytes.\<close>

fun write_all :: "bytes go_out list \<Rightarrow> bytes go_out" where
  "write_all [] = Ok []"
| "write_all (x # xs) =
     (case x of
        Err e \<Rightarrow> Err e
      | Panic p \<Rightarrow> Panic p
      | Ok b \<Rightarrow> (case write_all xs of Ok bs \<Rightarrow> Ok (b @ bs) | Err e \<Rightarrow> Err e | Panic p \<Rightarrow> Panic p))"

text \<open>An item that is written only if it is there, and only in files of some version or later.\<close>

definition item_if :: "bool \<Rightarrow> bytes go_out \<Rightarrow> bytes go_out" where
  "item_if c x = (if c then x else Ok [])"

definition since :: "8 word \<Rightarrow> 8 word \<Rightarrow> string \<Rightarrow> bytes \<Rightarrow> bytes go_out" where
  "since generateVersion version msg b = (if generateVersion < version then Err (ErrNew [msg]) else Ok b)"

definition with_cause :: "string \<Rightarrow> 'a go_out \<Rightarrow> 'a go_out" where
  "with_cause what x = (case x of Err e \<Rightarrow> Err (ErrCause e [what]) | _ \<Rightarrow> x)"

definition write_items :: "rule_lib \<Rightarrow> srs_lib \<Rightarrow> headless_options \<Rightarrow> 8 word \<Rightarrow> bytes go_out list" where
  "write_items L B rule generateVersion =
     [item_if (ho_QueryType rule \<noteq> []) (Ok (writeRuleItemUint16 B ruleItemQueryType (ho_QueryType rule))),
      item_if (ho_Network rule \<noteq> []) (Ok (writeRuleItemString B ruleItemNetwork (ho_Network rule))),
      item_if (ho_Domain rule \<noteq> [] \<or> ho_DomainSuffix rule \<noteq> [])
        (Ok (ruleItemDomain # sb_WriteMatcher B (ho_Domain rule) (ho_DomainSuffix rule) (generateVersion = RuleSetVersion1))),
      item_if (ho_DomainKeyword rule \<noteq> []) (Ok (writeRuleItemString B ruleItemDomainKeyword (ho_DomainKeyword rule))),
      item_if (ho_DomainRegex rule \<noteq> []) (Ok (writeRuleItemString B ruleItemDomainRegex (ho_DomainRegex rule))),
      item_if (ho_SourceIPCIDR rule \<noteq> [])
        (with_cause ''source_ip_cidr'' (writeRuleItemCIDR L B ruleItemSourceIPCIDR (ho_SourceIPCIDR rule))),
      item_if (ho_IPCIDR rule \<noteq> []) (with_cause ''ipcidr'' (writeRuleItemCIDR L B ruleItemIPCIDR (ho_IPCIDR rule))),
      item_if (ho_SourcePort rule \<noteq> []) (Ok (writeRuleItemUint16 B ruleItemSourcePort (ho_SourcePort rule))),
      item_if (ho_SourcePortRange rule \<noteq> []) (Ok (writeRuleItemString B ruleItemSourcePortRange (ho_SourcePortRange rule))),
      item_if (ho_Port rule \<noteq> []) (Ok (writeRuleItemUint16 B ruleItemPort (ho_Port rule))),
      item_if (ho_PortRange rule \<noteq> []) (Ok (writeRuleItemString B ruleItemPortRange (ho_PortRange rule))),
      item_if (ho_ProcessName rule \<noteq> []) (Ok (writeRuleItemString B ruleItemProcessName (ho_ProcessName rule))),
      item_if (ho_ProcessPath rule \<noteq> []) (Ok (writeRuleItemString B ruleItemProcessPath (ho_ProcessPath rule))),
      item_if (ho_ProcessPathRegex rule \<noteq> []) (Ok (writeRuleItemString B ruleItemProcessPathRegex (ho_ProcessPathRegex rule))),
      item_if (ho_PackageName rule \<noteq> []) (Ok (writeRuleItemString B ruleItemPackageName (ho_PackageName rule))),
      item_if (ho_NetworkType rule \<noteq> [])
        (since generateVersion RuleSetVersion3 ''`network_type` rule item is only supported in version 3 or later''
          (writeRuleItemUint8 B ruleItemNetworkType (ho_NetworkType rule))),
      item_if (ho_NetworkIsExpensive rule)
        (since generateVersion RuleSetVersion3 ''`network_is_expensive` rule item is only supported in version 3 or later''
          [ruleItemNetworkIsExpensive]),
      item_if (ho_NetworkIsConstrained rule)
        (since generateVersion RuleSetVersion3 ''`network_is_constrained` rule item is only supported in version 3 or later''
          [ruleItemNetworkIsConstrained]),
      item_if (ho_NetworkInterfaceAddress rule \<noteq> [])
        (since generateVersion RuleSetVersion4 ''`network_interface_address` rule item is only supported in version 4 or later''
          (ruleItemNetworkInterfaceAddress # wr_len B (ho_NetworkInterfaceAddress rule) @
             concat (map (write_entry B) (ho_NetworkInterfaceAddress rule)))),
      item_if (ho_DefaultInterfaceAddress rule \<noteq> [])
        (since generateVersion RuleSetVersion4 ''`default_interface_address` rule item is only supported in version 4 or later''
          (ruleItemDefaultInterfaceAddress # write_prefixes B (ho_DefaultInterfaceAddress rule))),
      item_if (ho_WIFISSID rule \<noteq> []) (Ok (writeRuleItemString B ruleItemWIFISSID (ho_WIFISSID rule))),
      item_if (ho_WIFIBSSID rule \<noteq> []) (Ok (writeRuleItemString B ruleItemWIFIBSSID (ho_WIFIBSSID rule))),
      item_if (ho_AdGuardDomain rule \<noteq> [])
        (since generateVersion RuleSetVersion2 ''AdGuard rule items is only supported in version 2 or later''
          (ruleItemAdGuardDomain # sb_WriteAdGuard B (ho_AdGuardDomain rule)))]"

definition writeDefaultRule :: "rule_lib \<Rightarrow> srs_lib \<Rightarrow> headless_options \<Rightarrow> 8 word \<Rightarrow> bytes go_out" where
  "writeDefaultRule L B rule generateVersion =
     write_all ([Ok [0]] @ write_items L B rule generateVersion @ [Ok [ruleItemFinal], Ok (wr_bool (ho_Invert rule))])"

fun writeRule :: "rule_lib \<Rightarrow> srs_lib \<Rightarrow> 8 word \<Rightarrow> headless_opt \<Rightarrow> bytes go_out" where
  "writeRule L B generateVersion (DefaultHeadlessOpt rule) = writeDefaultRule L B rule generateVersion"
| "writeRule L B generateVersion (LogicalHeadlessOpt mode rules invert) =
     (if mode \<noteq> LogicalTypeAnd \<and> mode \<noteq> LogicalTypeOr then Panic (''unknown logical mode: '' @ mode)
      else write_all ([Ok [1], Ok [if mode = LogicalTypeAnd then 0 else 1], Ok (wr_len B rules)] @
             map (\<lambda>r. writeRule L B generateVersion r) rules @ [Ok (wr_bool invert)]))"
| "writeRule L B generateVersion (UnknownHeadlessOpt t) = Panic (''unknown rule type: '' @ t)"

section \<open>Files\<close>

definition MagicBytes :: bytes where
  "MagicBytes = [0x53, 0x52, 0x53]"

definition srs_Write :: "rule_lib \<Rightarrow> srs_lib \<Rightarrow> headless_opt list \<Rightarrow> 8 word \<Rightarrow> bytes go_out" where
  "srs_Write L B rules generateVersion =
     (case write_all (Ok (wr_len B rules) # map (writeRule L B generateVersion) rules) of
        Ok body \<Rightarrow> Ok (MagicBytes @ [generateVersion] @ sb_Compress B body)
      | Err e \<Rightarrow> Err e
      | Panic p \<Rightarrow> Panic p)"

text \<open>The version and the rules of a file.\<close>

definition srs_Read :: "srs_lib \<Rightarrow> limits \<Rightarrow> bool \<Rightarrow> bytes \<Rightarrow> (8 word \<times> headless_opt list) go_out" where
  "srs_Read B lim recover bs =
     (case rd_bind (ReadFull 3) (\<lambda>magicBytes.
             if magicBytes \<noteq> MagicBytes then rd_fail (ErrNew [''invalid sing-box rule-set file'']) else rd_byte) bs of
        Err e \<Rightarrow> Err e
      | Panic p \<Rightarrow> Panic p
      | Ok (version, rest) \<Rightarrow>
          if version > RuleSetVersionCurrent then Err (ErrNew [''unsupported version: ''])
          else
            (case sb_Uncompress B rest of
               Inl e \<Rightarrow> Err e
             | Inr body \<Rightarrow>
                 (case rd_bind ReadUvarint (\<lambda>n. rd_bind (rd_make (li_rules lim) (unat n)) (\<lambda>_.
                         rd_times (unat n) (rd_cause ''read rule'' (readRule B lim recover)))) body of
                    Err e \<Rightarrow> Err e
                  | Panic p \<Rightarrow> Panic p
                  | Ok (rules, _) \<Rightarrow> Ok (version, rules))))"

text \<open>
  \<^verbatim>\<open>LocalRuleSet.reloadFile\<close>: \<open>content\<close> is what opening and reading the file gives, \<open>decode\<close> the JSON decoding
  of a source file.
\<close>

definition ruleset_Upgrade :: "8 word \<times> headless_opt list \<Rightarrow> headless_opt list go_out" where
  "ruleset_Upgrade x =
     (if fst x \<in> {RuleSetVersion1, RuleSetVersion2, RuleSetVersion3, RuleSetVersion4} then Ok (snd x)
      else Err (ErrNew [''unknown rule-set version: '']))"

definition lr_reloadFile ::
  "rule_lib \<Rightarrow> srs_lib \<Rightarrow> limits \<Rightarrow> bool \<Rightarrow> (bytes \<Rightarrow> go_err + 8 word \<times> headless_opt list) \<Rightarrow> string \<Rightarrow>
     go_err + bytes \<Rightarrow> local_rule_set \<Rightarrow> unit go_out \<times> local_rule_set" where
  "lr_reloadFile L B lim nm decode fileFormat content s =
     (case (if fileFormat = ''source'' \<or> fileFormat = []
            then (case content of
                    Inl e \<Rightarrow> Err e
                  | Inr bs \<Rightarrow> (case decode bs of Inl e \<Rightarrow> Err e | Inr x \<Rightarrow> Ok x))
            else if fileFormat = ''binary''
            then (case content of Inl e \<Rightarrow> Err e | Inr bs \<Rightarrow> srs_Read B lim False bs)
            else Err (ErrNew [''unknown rule-set format: '', fileFormat])) of
        Err e \<Rightarrow> (Err e, s)
      | Panic p \<Rightarrow> (Panic p, s)
      | Ok ruleSet \<Rightarrow>
          (case ruleset_Upgrade ruleSet of
             Err e \<Rightarrow> (Err e, s)
           | Panic p \<Rightarrow> (Panic p, s)
           | Ok rules \<Rightarrow> lr_reloadRules L nm rules s))"

end
