(* ===== verification/SRS_Theorems.thy ===== *)
theory SRS_Theorems
  imports SRS_Binary Binary_Forms
begin

text \<open>
  A rule-set written in the binary form and read back is the rule-set: the rules built from the file are
  those built from the source. The parts of the format are codecs. A length in a file that is too large
  makes the reader panic.
\<close>

section \<open>What is assumed of the libraries\<close>

text \<open>
  The integer writer is \<^verbatim>\<open>PutUvarint\<close>; a matcher is read back with what follows it left, and matches what a
  matcher of the same domains matches; an address set has ranges without zones and contains what the set
  of the rule items contains; an address is made from its bytes; a map appends a new key; compression can
  be undone.
\<close>

definition srs_ok :: "rule_lib \<Rightarrow> srs_lib \<Rightarrow> bool" where
  "srs_ok L B \<longleftrightarrow>
     (\<forall>v. sb_WriteUvarint B v = PutUvarint v) \<and>
     (\<forall>ds ss legacy rest. \<exists>m. sb_ReadMatcher B (sb_WriteMatcher B ds ss legacy @ rest) = Ok (m, rest) \<and>
        dm_Match m = rl_NewMatcher L ds ss) \<and>
     (\<forall>ls rest. \<exists>m. sb_ReadAdGuard B (sb_WriteAdGuard B ls @ rest) = Ok (m, rest) \<and>
        am_Match m = rl_NewAdGuardMatcher L ls) \<and>
     (\<forall>es. rl_IPSet L es = map_sum id (sb_Contains B) (sb_IPSet B es)) \<and>
     (\<forall>es rs a b. sb_IPSet B es = Inr rs \<longrightarrow> (a, b) \<in> set rs \<longrightarrow> \<not> addr_hasZone a \<and> \<not> addr_hasZone b) \<and>
     (\<forall>a. \<not> addr_hasZone a \<longrightarrow> sb_AddrFromIP B (addr_AsSlice a) = a) \<and>
     (\<forall>m k v. k \<notin> fst ` set m \<longrightarrow> sb_Put B m k v = m @ [(k, v)]) \<and>
     (\<forall>bs. sb_Uncompress B (sb_Compress B bs) = Inr bs)"

text \<open>Lengths that can be allocated are 64-bit numbers; an address can be.\<close>

definition limits_ok :: "limits \<Rightarrow> bool" where
  "limits_ok lim \<longleftrightarrow> 16 \<le> li_bytes lim \<and> li_bytes lim < 2 ^ 64 \<and> li_strings lim < 2 ^ 64 \<and> li_uint16s lim < 2 ^ 64 \<and>
     li_ranges lim < 2 ^ 64 \<and> li_rules lim < 2 ^ 64"

lemma wr_len_Put: "srs_ok L B \<Longrightarrow> wr_len B xs = PutUvarint (of_nat (length xs))"
  by (simp add: srs_ok_def wr_len_def)

section \<open>The parts are codecs\<close>

text \<open>A length, the check that it can be allocated, and what follows.\<close>

lemma read_length:
  assumes "srs_ok L B" and "length xs \<le> limit" and "limit < 2 ^ 64"
  shows "rd_bind ReadUvarint (\<lambda>n. rd_bind (rd_make limit (unat n)) (\<lambda>_. f (unat n))) (wr_len B xs @ rest) = f (length xs) rest"
proof -
  have "unat (of_nat (length xs) :: 64 word) = length xs" using assms by (intro unat_of_length) simp
  then show ?thesis using assms(2) unfolding wr_len_Put [OF assms(1)]
    by (simp add: uvarint.dec_bind rd_bind_Ok [OF rd_make_Ok])
qed

lemma sized_codec:
  assumes "srs_ok L B" and "limits_ok lim"
  shows "codec (\<lambda>xs. wr_len B xs @ xs) (rd_sized lim) (\<lambda>xs. length xs \<le> li_bytes lim)"
  by unfold_locales (use assms(2) in \<open>simp add: rd_sized_def read_length [OF assms(1)] limits_ok_def\<close>)

lemma string_codec:
  assumes "srs_ok L B" and "limits_ok lim"
  shows "codec (write_string B) (read_string lim) (\<lambda>s. length s \<le> li_bytes lim)"
proof
  fix s :: string and rest
  assume "length s \<le> li_bytes lim"
  then have "rd_sized lim ((wr_len B (bytes_of_string s) @ bytes_of_string s) @ rest) = Ok (bytes_of_string s, rest)"
    by (intro codec.dec_enc [OF sized_codec [OF assms]]) simp
  then show "read_string lim (write_string B s @ rest) = Ok (s, rest)"
    by (simp add: read_string_def write_string_def wr_len_def rd_bind_def rd_return_def)
qed

lemma length_AsSlice: "length (addr_AsSlice a) \<le> 16"
  by (cases a) simp_all

lemma address_read:
  assumes "srs_ok L B" and "limits_ok lim" and "\<not> addr_hasZone a"
  shows "rd_bind (rd_sized lim) (\<lambda>b. f (sb_AddrFromIP B b)) (wr_len B (addr_AsSlice a) @ addr_AsSlice a @ rest) = f a rest"
proof -
  have "length (addr_AsSlice a) \<le> li_bytes lim" using length_AsSlice [of a] assms(2) by (simp add: limits_ok_def)
  from codec.dec_bind [OF sized_codec [OF assms(1,2)] this, of "\<lambda>b. f (sb_AddrFromIP B b)" rest]
  show ?thesis using assms(1,3) by (simp add: srs_ok_def)
qed

lemma range_codec:
  assumes "srs_ok L B" and "limits_ok lim"
  shows "codec (write_range B) (read_range B lim) (\<lambda>r. \<not> addr_hasZone (fst r) \<and> \<not> addr_hasZone (snd r))"
proof
  fix r rest
  assume "\<not> addr_hasZone (fst r) \<and> \<not> addr_hasZone (snd r)"
  then show "read_range B lim (write_range B r @ rest) = Ok (r, rest)"
    using address_read [OF assms, of "fst r" "\<lambda>a. rd_bind (rd_sized lim) (\<lambda>b. rd_return (a, sb_AddrFromIP B b))"]
      address_read [OF assms, of "snd r" "\<lambda>b. rd_return (fst r, b)"]
    by (simp add: read_range_def write_range_def rd_return_def Let_def)
qed

text \<open>Prefixes as the package makes them are read back.\<close>

lemma prefix_codec:
  assumes "srs_ok L B" and "limits_ok lim"
  shows "codec (writePrefix B) (readPrefix B lim) prefix_fits"
proof
  fix p rest
  assume p: "prefix_fits p"
  then show "readPrefix B lim (writePrefix B p @ rest) = Ok (p, rest)"
    using address_read [OF assms, of "px_addr p" "\<lambda>a. rd_bind rd_byte (\<lambda>b. rd_return (PrefixFrom a (uint b)))"]
    by (simp add: readPrefix_def writePrefix_def Let_def prefix_fits_def rd_return_def rd_bind_def PrefixFrom_fits [OF p])
qed

lemma prefixes_codec:
  assumes "srs_ok L B" and "limits_ok lim"
  shows "codec (write_prefixes B) (read_prefixes B lim) (\<lambda>ps. length ps < 2 ^ 64 \<and> (\<forall>p \<in> set ps. prefix_fits p))"
proof
  fix ps rest
  assume ps: "length ps < 2 ^ 64 \<and> (\<forall>p \<in> set ps. prefix_fits p)"
  then have "unat (of_nat (length ps) :: 64 word) = length ps" by (intro unat_of_length) simp
  then show "read_prefixes B lim (write_prefixes B ps @ rest) = Ok (ps, rest)"
    using codec.dec_list [OF prefix_codec [OF assms], of ps rest] ps
    by (simp add: read_prefixes_def write_prefixes_def wr_len_Put [OF assms(1)] uvarint.dec_bind)
qed

lemma entry_codec:
  assumes "srs_ok L B" and "limits_ok lim"
  shows "codec (write_entry B) (read_entry B lim) (\<lambda>e. length (snd e) < 2 ^ 64 \<and> (\<forall>p \<in> set (snd e). prefix_fits p))"
proof
  fix e :: "interface_type \<times> prefix list" and rest
  assume "length (snd e) < 2 ^ 64 \<and> (\<forall>p \<in> set (snd e). prefix_fits p)"
  from codec.dec_enc [OF prefixes_codec [OF assms] this, of rest]
  show "read_entry B lim (write_entry B e @ rest) = Ok (e, rest)"
    by (simp add: read_entry_def write_entry_def rd_bind_def rd_return_def)
qed

text \<open>Putting entries with new keys one after the other gives the list of entries.\<close>

lemma foldl_Put:
  assumes "srs_ok L B"
  shows "distinct (map fst (m @ es)) \<Longrightarrow> foldl (\<lambda>m e. sb_Put B m (fst e) (snd e)) m es = m @ es"
proof (induction es arbitrary: m)
  case (Cons e es)
  then have "sb_Put B m (fst e) (snd e) = m @ [e]" using assms by (auto simp: srs_ok_def)
  then show ?case using Cons.IH [of "m @ [e]"] Cons.prems by simp
qed simp

lemma be_words_concat: "be_words (concat (map (be_bytes 2) ws)) = ws"
proof (induction ws)
  case (Cons w ws)
  obtain a b where ab: "be_bytes 2 w = [a, b]" by (simp add: numeral_2_eq_2)
  then have "be_word [a, b] = w" using be_roundtrip [of 2 w] by simp
  then show ?case using Cons ab by simp
qed simp

lemma ipset_codec:
  assumes "srs_ok L B" and "limits_ok lim"
  shows "codec (writeIPSet B) (readIPSet B lim)
    (\<lambda>rs. length rs \<le> li_ranges lim \<and> (\<forall>r \<in> set rs. \<not> addr_hasZone (fst r) \<and> \<not> addr_hasZone (snd r)))"
proof
  fix rs rest
  assume rs: "length rs \<le> li_ranges lim \<and> (\<forall>r \<in> set rs. \<not> addr_hasZone (fst r) \<and> \<not> addr_hasZone (snd r))"
  then have "unat (of_nat (length rs) :: 64 word) = length rs" using assms(2) by (intro unat_of_length) (simp add: limits_ok_def)
  then show "readIPSet B lim (writeIPSet B rs @ rest) = Ok (rs, rest)"
    using codec.dec_list [OF range_codec [OF assms], of rs rest] rs
    by (simp add: readIPSet_def writeIPSet_def be64.dec_bind rd_bind_Ok [OF rd_make_Ok])
qed

section \<open>Items\<close>

text \<open>
  A written item: nothing that changes nothing, or a type byte and a payload that reading turns into a
  change of the rule.
\<close>

definition item_reads :: "srs_lib \<Rightarrow> limits \<Rightarrow> bytes \<Rightarrow> (headless_options \<Rightarrow> headless_options) \<Rightarrow> bool" where
  "item_reads B lim b upd \<longleftrightarrow>
     (case b of
        [] \<Rightarrow> upd = id
      | t # payload \<Rightarrow> t \<noteq> ruleItemFinal \<and> (\<forall>rule rest. read_item B lim False t rule (payload @ rest) = Ok (upd rule, rest)))"

lemma read_items_all:
  "list_all2 (item_reads B lim) bs upds \<Longrightarrow> length (concat bs) < fuel \<Longrightarrow>
     read_items B lim False fuel rule (concat bs @ ruleItemFinal # wr_bool invert @ rest) =
       Ok ((fold (\<lambda>f. f) upds rule)\<lparr>ho_Invert := invert\<rparr>, rest)"
proof (induction bs upds arbitrary: fuel rule rule: list_all2_induct)
  case Nil
  then obtain k where "fuel = Suc k" by (cases fuel) auto
  then show ?case by (simp add: bool_byte.dec_bind rd_return_def)
next
  case (Cons b bs upd upds)
  show ?case
  proof (cases b)
    case Nil
    then show ?thesis using Cons by (simp add: item_reads_def)
  next
    case (Cons t payload)
    obtain k where k: "fuel = Suc k" using \<open>length (concat (b # bs)) < fuel\<close> by (cases fuel) auto
    have "t \<noteq> ruleItemFinal" and "read_item B lim False t rule (payload @ rest') = Ok (upd rule, rest')" for rest'
      using \<open>item_reads B lim b upd\<close> by (auto simp: item_reads_def Cons)
    then show ?thesis using Cons.IH [of k "upd rule"] \<open>length (concat (b # bs)) < fuel\<close>
      by (simp add: k Cons rd_bind_Ok)
  qed
qed

text \<open>The kinds of items.\<close>

definition strings_fit :: "limits \<Rightarrow> string list \<Rightarrow> bool" where
  "strings_fit lim xs \<longleftrightarrow> length xs \<le> li_strings lim \<and> (\<forall>s \<in> set xs. length s \<le> li_bytes lim)"

lemma read_strings:
  assumes "srs_ok L B" and "limits_ok lim" and "strings_fit lim xs"
  shows "rd_bind (readRuleItemString lim) f ((wr_len B xs @ concat (map (write_string B) xs)) @ rest) = f xs rest"
proof -
  have "readRuleItemString lim (wr_len B xs @ concat (map (write_string B) xs) @ rest) = Ok (xs, rest)"
    using assms(2,3) codec.dec_list [OF string_codec [OF assms(1,2)], of xs rest]
      read_length [OF assms(1), of xs "li_strings lim" "\<lambda>n. rd_times n (read_string lim)"]
    by (simp add: readRuleItemString_def limits_ok_def strings_fit_def)
  then show ?thesis by (simp add: rd_bind_Ok)
qed

lemma read_uint16s:
  assumes "srs_ok L B" and "limits_ok lim" and "length xs \<le> li_uint16s lim"
  shows "rd_bind (readRuleItemUint16 lim) f ((wr_len B xs @ concat (map (be_bytes 2) xs)) @ rest) = f xs rest"
proof -
  have len: "length (concat (map (be_bytes 2) xs)) = 2 * length xs" for xs :: "16 word list"
    by (induction xs) simp_all
  have "readRuleItemUint16 lim (wr_len B xs @ concat (map (be_bytes 2) xs) @ rest) = Ok (xs, rest)"
    using assms(2,3) ReadFull_append [OF len, of xs rest]
      read_length [OF assms(1), of xs "li_uint16s lim" "\<lambda>n. rd_bind (ReadFull (2 * n)) (\<lambda>b. rd_return (be_words b))"]
    by (simp add: readRuleItemUint16_def limits_ok_def rd_bind_def [of "ReadFull (2 * length xs)"] be_words_concat rd_return_def)
  then show ?thesis by (simp add: rd_bind_Ok)
qed

lemma read_uint8s:
  assumes "srs_ok L B" and "limits_ok lim" and "length xs \<le> li_bytes lim"
  shows "rd_bind (readRuleItemUint8 lim) f ((wr_len B xs @ xs) @ rest) = f xs rest"
  unfolding readRuleItemUint8_def by (rule codec.dec_bind [OF sized_codec [OF assms(1,2)] assms(3)])

lemma read_prefix_lists:
  assumes "srs_ok L B" and "limits_ok lim" and "length ps < 2 ^ 64" and "\<forall>p \<in> set ps. prefix_fits p"
  shows "rd_bind (read_prefixes B lim) f (write_prefixes B ps @ rest) = f ps rest"
  by (rule codec.dec_bind [OF prefixes_codec [OF assms(1,2)]]) (use assms(3,4) in simp)

definition addresses_fit :: "interface_addresses \<Rightarrow> bool" where
  "addresses_fit m \<longleftrightarrow> distinct (map fst m) \<and> length m < 2 ^ 64 \<and>
     (\<forall>e \<in> set m. length (snd e) < 2 ^ 64 \<and> (\<forall>p \<in> set (snd e). prefix_fits p))"

lemma read_interface_addresses:
  assumes "srs_ok L B" and "limits_ok lim" and "addresses_fit m"
  shows "rd_bind (read_addresses B lim) f ((wr_len B m @ concat (map (write_entry B) m)) @ rest) = f m rest"
proof -
  have "unat (of_nat (length m) :: 64 word) = length m" using assms(3) by (intro unat_of_length) (simp add: addresses_fit_def)
  then have "read_addresses B lim (wr_len B m @ concat (map (write_entry B) m) @ rest) = Ok (m, rest)"
    using assms(3) foldl_Put [OF assms(1), of "[]" m]
    by (simp add: read_addresses_def wr_len_Put [OF assms(1)] uvarint.dec_bind addresses_fit_def rd_return_def
        codec.dec_list_bind [OF entry_codec [OF assms(1,2)]])
  then show ?thesis by (simp add: rd_bind_Ok)
qed

section \<open>Default rules\<close>

text \<open>The rule as it is read back: lists of domains and addresses have become matchers.\<close>

definition ip_matcher :: "rule_lib \<Rightarrow> string list \<Rightarrow> (addr \<Rightarrow> bool) option" where
  "ip_matcher L ss =
     (if ss = [] then None
      else case parse_prefixes L ss of
        Inl _ \<Rightarrow> None
      | Inr es \<Rightarrow> (case rl_IPSet L es of Inl _ \<Rightarrow> None | Inr f \<Rightarrow> Some f))"

definition compiled :: "rule_lib \<Rightarrow> headless_options \<Rightarrow> headless_options" where
  "compiled L o1 =
     o1\<lparr>ho_Domain := [], ho_DomainSuffix := [],
        ho_DomainMatcher := (if ho_Domain o1 \<noteq> [] \<or> ho_DomainSuffix o1 \<noteq> []
          then Some (rl_NewMatcher L (ho_Domain o1) (ho_DomainSuffix o1)) else None),
        ho_SourceIPCIDR := [], ho_SourceIPSet := ip_matcher L (ho_SourceIPCIDR o1),
        ho_IPCIDR := [], ho_IPSet := ip_matcher L (ho_IPCIDR o1),
        ho_AdGuardDomain := [],
        ho_AdGuardDomainMatcher := (if ho_AdGuardDomain o1 \<noteq> [] then Some (rl_NewAdGuardMatcher L (ho_AdGuardDomain o1)) else None)\<rparr>"

text \<open>A rule from a source file (without matchers) whose lists have lengths that can be allocated.\<close>

definition ranges_fit :: "rule_lib \<Rightarrow> srs_lib \<Rightarrow> limits \<Rightarrow> string list \<Rightarrow> bool" where
  "ranges_fit L B lim ss \<longleftrightarrow>
     (\<forall>es rs. parse_prefixes L ss = Inr es \<longrightarrow> sb_IPSet B es = Inr rs \<longrightarrow> length rs \<le> li_ranges lim)"

definition default_fits :: "rule_lib \<Rightarrow> srs_lib \<Rightarrow> limits \<Rightarrow> headless_options \<Rightarrow> bool" where
  "default_fits L B lim o1 \<longleftrightarrow>
     strings_fit lim (ho_Network o1) \<and> strings_fit lim (ho_DomainKeyword o1) \<and> strings_fit lim (ho_DomainRegex o1)\<and>
     strings_fit lim (ho_SourcePortRange o1) \<and> strings_fit lim (ho_PortRange o1) \<and> strings_fit lim (ho_ProcessName o1)\<and>
     strings_fit lim (ho_ProcessPath o1) \<and> strings_fit lim (ho_ProcessPathRegex o1)\<and>
     strings_fit lim (ho_PackageName o1) \<and> strings_fit lim (ho_WIFISSID o1) \<and> strings_fit lim (ho_WIFIBSSID o1) \<and>
     length (ho_QueryType o1) \<le> li_uint16s lim \<and> length (ho_SourcePort o1) \<le> li_uint16s lim \<and>
     length (ho_Port o1) \<le> li_uint16s lim \<and> length (ho_NetworkType o1) \<le> li_bytes lim \<and>
     ranges_fit L B lim (ho_SourceIPCIDR o1) \<and> ranges_fit L B lim (ho_IPCIDR o1) \<and>
     addresses_fit (ho_NetworkInterfaceAddress o1) \<and>
     length (ho_DefaultInterfaceAddress o1) < 2 ^ 64 \<and> (\<forall>p \<in> set (ho_DefaultInterfaceAddress o1). prefix_fits p) \<and>
     ho_DomainMatcher o1 = None \<and> ho_SourceIPSet o1 = None \<and> ho_IPSet o1 = None \<and> ho_AdGuardDomainMatcher o1 = None"

text \<open>What reading each item of \<open>write_items\<close> does to the rule.\<close>

definition upd_if :: "bool \<Rightarrow> (headless_options \<Rightarrow> headless_options) \<Rightarrow> headless_options \<Rightarrow> headless_options" where
  "upd_if c f = (if c then f else id)"

definition item_effects :: "rule_lib \<Rightarrow> headless_options \<Rightarrow> (headless_options \<Rightarrow> headless_options) list" where
  "item_effects L o1 =
     [upd_if (ho_QueryType o1 \<noteq> []) (\<lambda>r. r\<lparr>ho_QueryType := ho_QueryType o1\<rparr>),
      upd_if (ho_Network o1 \<noteq> []) (\<lambda>r. r\<lparr>ho_Network := ho_Network o1\<rparr>),
      upd_if (ho_Domain o1 \<noteq> [] \<or> ho_DomainSuffix o1 \<noteq> [])
        (\<lambda>r. r\<lparr>ho_DomainMatcher := Some (rl_NewMatcher L (ho_Domain o1) (ho_DomainSuffix o1))\<rparr>),
      upd_if (ho_DomainKeyword o1 \<noteq> []) (\<lambda>r. r\<lparr>ho_DomainKeyword := ho_DomainKeyword o1\<rparr>),
      upd_if (ho_DomainRegex o1 \<noteq> []) (\<lambda>r. r\<lparr>ho_DomainRegex := ho_DomainRegex o1\<rparr>),
      upd_if (ho_SourceIPCIDR o1 \<noteq> []) (\<lambda>r. r\<lparr>ho_SourceIPSet := ip_matcher L (ho_SourceIPCIDR o1)\<rparr>),
      upd_if (ho_IPCIDR o1 \<noteq> []) (\<lambda>r. r\<lparr>ho_IPSet := ip_matcher L (ho_IPCIDR o1)\<rparr>),
      upd_if (ho_SourcePort o1 \<noteq> []) (\<lambda>r. r\<lparr>ho_SourcePort := ho_SourcePort o1\<rparr>),
      upd_if (ho_SourcePortRange o1 \<noteq> []) (\<lambda>r. r\<lparr>ho_SourcePortRange := ho_SourcePortRange o1\<rparr>),
      upd_if (ho_Port o1 \<noteq> []) (\<lambda>r. r\<lparr>ho_Port := ho_Port o1\<rparr>),
      upd_if (ho_PortRange o1 \<noteq> []) (\<lambda>r. r\<lparr>ho_PortRange := ho_PortRange o1\<rparr>),
      upd_if (ho_ProcessName o1 \<noteq> []) (\<lambda>r. r\<lparr>ho_ProcessName := ho_ProcessName o1\<rparr>),
      upd_if (ho_ProcessPath o1 \<noteq> []) (\<lambda>r. r\<lparr>ho_ProcessPath := ho_ProcessPath o1\<rparr>),
      upd_if (ho_ProcessPathRegex o1 \<noteq> []) (\<lambda>r. r\<lparr>ho_ProcessPathRegex := ho_ProcessPathRegex o1\<rparr>),
      upd_if (ho_PackageName o1 \<noteq> []) (\<lambda>r. r\<lparr>ho_PackageName := ho_PackageName o1\<rparr>),
      upd_if (ho_NetworkType o1 \<noteq> []) (\<lambda>r. r\<lparr>ho_NetworkType := ho_NetworkType o1\<rparr>),
      upd_if (ho_NetworkIsExpensive o1) (\<lambda>r. r\<lparr>ho_NetworkIsExpensive := True\<rparr>),
      upd_if (ho_NetworkIsConstrained o1) (\<lambda>r. r\<lparr>ho_NetworkIsConstrained := True\<rparr>),
      upd_if (ho_NetworkInterfaceAddress o1 \<noteq> []) (\<lambda>r. r\<lparr>ho_NetworkInterfaceAddress := ho_NetworkInterfaceAddress o1\<rparr>),
      upd_if (ho_DefaultInterfaceAddress o1 \<noteq> []) (\<lambda>r. r\<lparr>ho_DefaultInterfaceAddress := ho_DefaultInterfaceAddress o1\<rparr>),
      upd_if (ho_WIFISSID o1 \<noteq> []) (\<lambda>r. r\<lparr>ho_WIFISSID := ho_WIFISSID o1\<rparr>),
      upd_if (ho_WIFIBSSID o1 \<noteq> []) (\<lambda>r. r\<lparr>ho_WIFIBSSID := ho_WIFIBSSID o1\<rparr>),
      upd_if (ho_AdGuardDomain o1 \<noteq> []) (\<lambda>r. r\<lparr>ho_AdGuardDomainMatcher := Some (rl_NewAdGuardMatcher L (ho_AdGuardDomain o1))\<rparr>)]"

lemma item_reads_if:
  "item_if c x = Ok b \<Longrightarrow> (\<And>b'. c \<Longrightarrow> x = Ok b' \<Longrightarrow> item_reads B lim b' f) \<Longrightarrow> item_reads B lim b (upd_if c f)"
  by (auto simp: item_if_def upd_if_def item_reads_def split: if_splits)

lemma since_Ok: "since gv v msg b = Ok b' \<Longrightarrow> b' = b"
  by (simp add: since_def split: if_splits)

lemma ip_item_reads:
  assumes "srs_ok L B" and "limits_ok lim" and "ss \<noteq> []" and "ranges_fit L B lim ss"
    and "with_cause what (writeRuleItemCIDR L B t ss) = Ok b"
  shows "\<exists>rs. b = t # writeIPSet B rs \<and> ip_matcher L ss = Some (sb_Contains B rs) \<and>
    (\<forall>f rest. rd_bind (readIPSet B lim) f (writeIPSet B rs @ rest) = f rs rest)"
proof -
  obtain es rs where es: "parse_prefixes L ss = Inr es" and rs: "sb_IPSet B es = Inr rs" and b: "b = t # writeIPSet B rs"
    using assms(5) by (auto simp: with_cause_def writeRuleItemCIDR_def split: sum.splits go_out.splits)
  have law: "rl_IPSet L es = map_sum id (sb_Contains B) (sb_IPSet B es)"
    and zone: "(a, c) \<in> set rs \<Longrightarrow> \<not> addr_hasZone a \<and> \<not> addr_hasZone c" for a c
    using assms(1) rs by (auto simp: srs_ok_def)
  have "length rs \<le> li_ranges lim" using assms(4) es rs by (simp add: ranges_fit_def)
  then have "rd_bind (readIPSet B lim) f (writeIPSet B rs @ rest) = f rs rest" for f :: "ip_set \<Rightarrow> 'a reader" and rest
    using zone by (intro codec.dec_bind [OF ipset_codec [OF assms(1,2)]]) auto
  moreover have "ip_matcher L ss = Some (sb_Contains B rs)" using assms(3) es rs law by (simp add: ip_matcher_def)
  ultimately show ?thesis using b by blast
qed

text \<open>One lemma per kind of item; \<open>f\<close> is the change of the rule the payload is read as.\<close>

lemma string_item:
  assumes "item_if c (Ok (writeRuleItemString B t xs)) = Ok b" and "srs_ok L B" and "limits_ok lim"
    and "\<And>rule. read_item B lim False t rule = rd_bind (readRuleItemString lim) (\<lambda>v. rd_return (f v rule))"
    and "t \<noteq> ruleItemFinal" and "strings_fit lim xs"
  shows "item_reads B lim b (upd_if c (f xs))"
  by (rule item_reads_if [OF assms(1)])
    (use assms(5) in \<open>auto simp: item_reads_def writeRuleItemString_def assms(4) rd_return_def
       read_strings [OF assms(2,3,6), simplified]\<close>)

lemma uint16_item:
  assumes "item_if c (Ok (writeRuleItemUint16 B t xs)) = Ok b" and "srs_ok L B" and "limits_ok lim"
    and "\<And>rule. read_item B lim False t rule = rd_bind (readRuleItemUint16 lim) (\<lambda>v. rd_return (f v rule))"
    and "t \<noteq> ruleItemFinal" and "length xs \<le> li_uint16s lim"
  shows "item_reads B lim b (upd_if c (f xs))"
  by (rule item_reads_if [OF assms(1)])
    (use assms(5) in \<open>auto simp: item_reads_def writeRuleItemUint16_def assms(4) rd_return_def
       read_uint16s [OF assms(2,3,6), simplified]\<close>)

lemma ip_item:
  assumes "item_if c (with_cause what (writeRuleItemCIDR L B t ss)) = Ok b" and "srs_ok L B" and "limits_ok lim"
    and "\<And>rule. read_item B lim False t rule = rd_bind (readIPSet B lim) (\<lambda>v. rd_return (f (Some (sb_Contains B v)) rule))"
    and "t \<noteq> ruleItemFinal" and "ranges_fit L B lim ss" and "c \<longleftrightarrow> ss \<noteq> []"
  shows "item_reads B lim b (upd_if c (f (ip_matcher L ss)))"
proof (rule item_reads_if [OF assms(1)])
  fix b'
  assume "c" and b': "with_cause what (writeRuleItemCIDR L B t ss) = Ok b'"
  then have "ss \<noteq> []" using assms(7) by blast
  from ip_item_reads [OF assms(2,3) this assms(6) b', where ?'a = headless_options]
  show "item_reads B lim b' (f (ip_matcher L ss))" using assms(5) by (auto simp: item_reads_def assms(4) rd_return_def)
qed

lemma since_item:
  assumes "item_if c (since gv v msg (t # payload)) = Ok b"
    and "\<And>rule rest. c \<Longrightarrow> read_item B lim False t rule (payload @ rest) = Ok (f rule, rest)" and "t \<noteq> ruleItemFinal"
  shows "item_reads B lim b (upd_if c f)"
  by (rule item_reads_if [OF assms(1)]) (use assms(2,3) in \<open>auto simp: item_reads_def dest!: since_Ok\<close>)

lemma plain_item:
  assumes "item_if c (Ok (t # payload)) = Ok b"
    and "\<And>rule rest. c \<Longrightarrow> read_item B lim False t rule (payload @ rest) = Ok (f rule, rest)" and "t \<noteq> ruleItemFinal"
  shows "item_reads B lim b (upd_if c f)"
  by (rule item_reads_if [OF assms(1)]) (use assms(2,3) in \<open>auto simp: item_reads_def\<close>)

lemma matcher_read:
  assumes "srs_ok L B"
  shows "rd_bind (sb_ReadMatcher B) (\<lambda>m. rd_return (f (dm_Match m))) (sb_WriteMatcher B ds ss legacy @ rest) =
      Ok (f (rl_NewMatcher L ds ss), rest)"
    and "rd_bind (sb_ReadAdGuard B) (\<lambda>m. rd_return (g (am_Match m))) (sb_WriteAdGuard B ls @ rest) =
      Ok (g (rl_NewAdGuardMatcher L ls), rest)"
proof -
  obtain m where "sb_ReadMatcher B (sb_WriteMatcher B ds ss legacy @ rest) = Ok (m, rest)" "dm_Match m = rl_NewMatcher L ds ss"
    using assms unfolding srs_ok_def by meson
  then show "rd_bind (sb_ReadMatcher B) (\<lambda>m. rd_return (f (dm_Match m))) (sb_WriteMatcher B ds ss legacy @ rest) =
      Ok (f (rl_NewMatcher L ds ss), rest)" by (simp add: rd_bind_Ok rd_return_def)
  obtain a where "sb_ReadAdGuard B (sb_WriteAdGuard B ls @ rest) = Ok (a, rest)" "am_Match a = rl_NewAdGuardMatcher L ls"
    using assms unfolding srs_ok_def by meson
  then show "rd_bind (sb_ReadAdGuard B) (\<lambda>m. rd_return (g (am_Match m))) (sb_WriteAdGuard B ls @ rest) =
      Ok (g (rl_NewAdGuardMatcher L ls), rest)" by (simp add: rd_bind_Ok rd_return_def)
qed

lemma items_read:
  assumes ok: "srs_ok L B" "limits_ok lim" and fits: "default_fits L B lim o1"
  shows "list_all2 (\<lambda>w u. \<forall>b. w = Ok b \<longrightarrow> item_reads B lim b u) (write_items L B o1 gv) (item_effects L o1)"
  unfolding write_items_def item_effects_def
proof (intro list.rel_intros allI impI, goal_cases)
  case (1 b) show ?case by (rule uint16_item [OF 1 ok, where f = "\<lambda>v r. r\<lparr>ho_QueryType := v\<rparr>"]) (use fits in \<open>simp_all add: read_item_def default_fits_def\<close>)
next
  case (2 b) show ?case by (rule string_item [OF 2 ok, where f = "\<lambda>v r. r\<lparr>ho_Network := v\<rparr>"]) (use fits in \<open>simp_all add: read_item_def default_fits_def\<close>)
next
  case (3 b) show ?case by (rule plain_item [OF 3]) (simp_all add: read_item_def matcher_read(1) [OF ok(1), where f = "\<lambda>v. r\<lparr>ho_DomainMatcher := Some v\<rparr>" for r])
next
  case (4 b) show ?case by (rule string_item [OF 4 ok, where f = "\<lambda>v r. r\<lparr>ho_DomainKeyword := v\<rparr>"]) (use fits in \<open>simp_all add: read_item_def default_fits_def\<close>)
next
  case (5 b) show ?case by (rule string_item [OF 5 ok, where f = "\<lambda>v r. r\<lparr>ho_DomainRegex := v\<rparr>"]) (use fits in \<open>simp_all add: read_item_def default_fits_def\<close>)
next
  case (6 b) show ?case by (rule ip_item [OF 6 ok, where f = "\<lambda>v r. r\<lparr>ho_SourceIPSet := v\<rparr>"]) (use fits in \<open>simp_all add: read_item_def default_fits_def\<close>)
next
  case (7 b) show ?case by (rule ip_item [OF 7 ok, where f = "\<lambda>v r. r\<lparr>ho_IPSet := v\<rparr>"]) (use fits in \<open>simp_all add: read_item_def default_fits_def\<close>)
next
  case (8 b) show ?case by (rule uint16_item [OF 8 ok, where f = "\<lambda>v r. r\<lparr>ho_SourcePort := v\<rparr>"]) (use fits in \<open>simp_all add: read_item_def default_fits_def\<close>)
next
  case (9 b) show ?case by (rule string_item [OF 9 ok, where f = "\<lambda>v r. r\<lparr>ho_SourcePortRange := v\<rparr>"]) (use fits in \<open>simp_all add: read_item_def default_fits_def\<close>)
next
  case (10 b) show ?case by (rule uint16_item [OF 10 ok, where f = "\<lambda>v r. r\<lparr>ho_Port := v\<rparr>"]) (use fits in \<open>simp_all add: read_item_def default_fits_def\<close>)
next
  case (11 b) show ?case by (rule string_item [OF 11 ok, where f = "\<lambda>v r. r\<lparr>ho_PortRange := v\<rparr>"]) (use fits in \<open>simp_all add: read_item_def default_fits_def\<close>)
next
  case (12 b) show ?case by (rule string_item [OF 12 ok, where f = "\<lambda>v r. r\<lparr>ho_ProcessName := v\<rparr>"]) (use fits in \<open>simp_all add: read_item_def default_fits_def\<close>)
next
  case (13 b) show ?case by (rule string_item [OF 13 ok, where f = "\<lambda>v r. r\<lparr>ho_ProcessPath := v\<rparr>"]) (use fits in \<open>simp_all add: read_item_def default_fits_def\<close>)
next
  case (14 b) show ?case by (rule string_item [OF 14 ok, where f = "\<lambda>v r. r\<lparr>ho_ProcessPathRegex := v\<rparr>"]) (use fits in \<open>simp_all add: read_item_def default_fits_def\<close>)
next
  case (15 b) show ?case by (rule string_item [OF 15 ok, where f = "\<lambda>v r. r\<lparr>ho_PackageName := v\<rparr>"]) (use fits in \<open>simp_all add: read_item_def default_fits_def\<close>)
next
  case (16 b) show ?case by (rule since_item [OF 16 [unfolded writeRuleItemUint8_def]])
    (use fits in \<open>simp_all add: read_item_def default_fits_def read_uint8s [OF ok, simplified] rd_return_def\<close>)
next
  case (17 b) show ?case by (rule since_item [OF 17]) (simp_all add: read_item_def rd_return_def)
next
  case (18 b) show ?case by (rule since_item [OF 18]) (simp_all add: read_item_def rd_return_def)
next
  case (19 b) show ?case by (rule since_item [OF 19])
    (use fits in \<open>simp_all add: read_item_def default_fits_def read_interface_addresses [OF ok, simplified] rd_return_def\<close>)
next
  case (20 b) show ?case by (rule since_item [OF 20])
    (use fits in \<open>simp_all add: read_item_def default_fits_def read_prefix_lists [OF ok] rd_return_def\<close>)
next
  case (21 b) show ?case by (rule string_item [OF 21 ok, where f = "\<lambda>v r. r\<lparr>ho_WIFISSID := v\<rparr>"]) (use fits in \<open>simp_all add: read_item_def default_fits_def\<close>)
next
  case (22 b) show ?case by (rule string_item [OF 22 ok, where f = "\<lambda>v r. r\<lparr>ho_WIFIBSSID := v\<rparr>"]) (use fits in \<open>simp_all add: read_item_def default_fits_def\<close>)
next
  case (23 b) show ?case by (rule since_item [OF 23]) (simp_all add: read_item_def matcher_read(2) [OF ok(1), where g = "\<lambda>v. r\<lparr>ho_AdGuardDomainMatcher := Some v\<rparr>" for r])
qed

text \<open>The changes together give the compiled rule.\<close>

lemma upd_if_fields:
  "upd_if c (\<lambda>r. r\<lparr>ho_QueryType := v0\<rparr>) = ho_QueryType_update (\<lambda>x. if c then v0 else x)"
  "upd_if c (\<lambda>r. r\<lparr>ho_Network := v1\<rparr>) = ho_Network_update (\<lambda>x. if c then v1 else x)"
  "upd_if c (\<lambda>r. r\<lparr>ho_DomainMatcher := v2\<rparr>) = ho_DomainMatcher_update (\<lambda>x. if c then v2 else x)"
  "upd_if c (\<lambda>r. r\<lparr>ho_DomainKeyword := v3\<rparr>) = ho_DomainKeyword_update (\<lambda>x. if c then v3 else x)"
  "upd_if c (\<lambda>r. r\<lparr>ho_DomainRegex := v4\<rparr>) = ho_DomainRegex_update (\<lambda>x. if c then v4 else x)"
  "upd_if c (\<lambda>r. r\<lparr>ho_SourceIPSet := v5\<rparr>) = ho_SourceIPSet_update (\<lambda>x. if c then v5 else x)"
  "upd_if c (\<lambda>r. r\<lparr>ho_IPSet := v6\<rparr>) = ho_IPSet_update (\<lambda>x. if c then v6 else x)"
  "upd_if c (\<lambda>r. r\<lparr>ho_SourcePort := v7\<rparr>) = ho_SourcePort_update (\<lambda>x. if c then v7 else x)"
  "upd_if c (\<lambda>r. r\<lparr>ho_SourcePortRange := v8\<rparr>) = ho_SourcePortRange_update (\<lambda>x. if c then v8 else x)"
  "upd_if c (\<lambda>r. r\<lparr>ho_Port := v9\<rparr>) = ho_Port_update (\<lambda>x. if c then v9 else x)"
  "upd_if c (\<lambda>r. r\<lparr>ho_PortRange := v10\<rparr>) = ho_PortRange_update (\<lambda>x. if c then v10 else x)"
  "upd_if c (\<lambda>r. r\<lparr>ho_ProcessName := v11\<rparr>) = ho_ProcessName_update (\<lambda>x. if c then v11 else x)"
  "upd_if c (\<lambda>r. r\<lparr>ho_ProcessPath := v12\<rparr>) = ho_ProcessPath_update (\<lambda>x. if c then v12 else x)"
  "upd_if c (\<lambda>r. r\<lparr>ho_ProcessPathRegex := v13\<rparr>) = ho_ProcessPathRegex_update (\<lambda>x. if c then v13 else x)"
  "upd_if c (\<lambda>r. r\<lparr>ho_PackageName := v14\<rparr>) = ho_PackageName_update (\<lambda>x. if c then v14 else x)"
  "upd_if c (\<lambda>r. r\<lparr>ho_NetworkType := v15\<rparr>) = ho_NetworkType_update (\<lambda>x. if c then v15 else x)"
  "upd_if c (\<lambda>r. r\<lparr>ho_NetworkIsExpensive := v16\<rparr>) = ho_NetworkIsExpensive_update (\<lambda>x. if c then v16 else x)"
  "upd_if c (\<lambda>r. r\<lparr>ho_NetworkIsConstrained := v17\<rparr>) = ho_NetworkIsConstrained_update (\<lambda>x. if c then v17 else x)"
  "upd_if c (\<lambda>r. r\<lparr>ho_NetworkInterfaceAddress := v18\<rparr>) = ho_NetworkInterfaceAddress_update (\<lambda>x. if c then v18 else x)"
  "upd_if c (\<lambda>r. r\<lparr>ho_DefaultInterfaceAddress := v19\<rparr>) = ho_DefaultInterfaceAddress_update (\<lambda>x. if c then v19 else x)"
  "upd_if c (\<lambda>r. r\<lparr>ho_WIFISSID := v20\<rparr>) = ho_WIFISSID_update (\<lambda>x. if c then v20 else x)"
  "upd_if c (\<lambda>r. r\<lparr>ho_WIFIBSSID := v21\<rparr>) = ho_WIFIBSSID_update (\<lambda>x. if c then v21 else x)"
  "upd_if c (\<lambda>r. r\<lparr>ho_AdGuardDomainMatcher := v22\<rparr>) = ho_AdGuardDomainMatcher_update (\<lambda>x. if c then v22 else x)"
  by (simp_all add: upd_if_def fun_eq_iff)

lemma effects_compiled:
  assumes "default_fits L B lim o1"
  shows "(fold (\<lambda>f. f) (item_effects L o1) NoHeadlessOptions)\<lparr>ho_Invert := ho_Invert o1\<rparr> = compiled L o1"
  unfolding item_effects_def upd_if_fields fold_simps
  by (rule headless_options.equality)
    (use assms in \<open>simp_all add: NoHeadlessOptions_def compiled_def default_fits_def ip_matcher_def\<close>)

lemma write_all_Ok: "write_all ws = Ok bs \<Longrightarrow> \<exists>bl. ws = map Ok bl \<and> bs = concat bl"
proof (induction ws arbitrary: bs)
  case (Cons w ws)
  then obtain b bs' where "w = Ok b" "write_all ws = Ok bs'" "bs = b @ bs'"
    by (auto split: go_out.splits)
  moreover from Cons.IH [OF this(2)] obtain bl where "ws = map Ok bl \<and> bs' = concat bl" by blast
  ultimately show ?case by (intro exI [of _ "b # bl"]) simp
qed simp

lemma list_all2_Ok:
  "list_all2 (\<lambda>w u. \<forall>b. w = Ok b \<longrightarrow> P b u) (map Ok bl) us \<Longrightarrow> list_all2 P bl us"
  by (simp add: list.rel_map list_all2_conv_all_nth)

lemma readDefaultRule_write:
  assumes "srs_ok L B" and "limits_ok lim" and "default_fits L B lim o1" and "writeDefaultRule L B o1 gv = Ok bs"
  shows "\<exists>payload. bs = 0 # payload \<and> readDefaultRule B lim False (payload @ rest) = Ok (compiled L o1, rest)"
proof -
  obtain bl where bl: "[Ok [0]] @ write_items L B o1 gv @ [Ok [ruleItemFinal], Ok (wr_bool (ho_Invert o1))] = map Ok bl"
    and bs: "bs = concat bl"
    using write_all_Ok [OF assms(4) [unfolded writeDefaultRule_def]] by blast
  obtain items where items: "write_items L B o1 gv = map Ok items"
    and bl': "bl = [0] # items @ [[ruleItemFinal], wr_bool (ho_Invert o1)]"
    using bl by (auto simp: Cons_eq_map_conv append_eq_map_conv)
  have "list_all2 (item_reads B lim) items (item_effects L o1)"
    using items_read [OF assms(1-3), of gv] unfolding items by (rule list_all2_Ok)
  from read_items_all [OF this, of "Suc (length (concat items @ ruleItemFinal # wr_bool (ho_Invert o1) @ rest))"
      NoHeadlessOptions "ho_Invert o1" rest]
  show ?thesis using effects_compiled [OF assms(3)]
    by (intro exI [of _ "concat items @ ruleItemFinal # wr_bool (ho_Invert o1)"]) (simp add: bs bl' readDefaultRule_def)
qed

section \<open>Rules and files\<close>

fun compiled_opt :: "rule_lib \<Rightarrow> headless_opt \<Rightarrow> headless_opt" where
  "compiled_opt L (DefaultHeadlessOpt o1) = DefaultHeadlessOpt (compiled L o1)"
| "compiled_opt L (LogicalHeadlessOpt mode rules invert) = LogicalHeadlessOpt mode (map (\<lambda>r. compiled_opt L r) rules) invert"
| "compiled_opt L (UnknownHeadlessOpt t) = UnknownHeadlessOpt t"

fun rule_fits :: "rule_lib \<Rightarrow> srs_lib \<Rightarrow> limits \<Rightarrow> headless_opt \<Rightarrow> bool" where
  "rule_fits L B lim (DefaultHeadlessOpt o1) = default_fits L B lim o1"
| "rule_fits L B lim (LogicalHeadlessOpt mode rules invert) =
     (length rules \<le> li_rules lim \<and> list_all (\<lambda>r. rule_fits L B lim r) rules)"
| "rule_fits L B lim (UnknownHeadlessOpt t) = False"

text \<open>A list of rules, each read back by \<open>r\<close>, is read back.\<close>

lemma read_rules:
  "list_all2 (\<lambda>x b. \<forall>rest. r (b @ rest) = Ok (f x, rest)) xs bl \<Longrightarrow>
     rd_times (length xs) (rd_cause what r) (concat bl @ rest) = Ok (map f xs, rest)"
  by (induction xs bl rule: list_all2_induct) (simp_all add: rd_return_def rd_bind_def rd_cause_def)

lemma map_Ok_list_all2: "map f xs = map Ok bl \<longleftrightarrow> list_all2 (\<lambda>x b. f x = Ok b) xs bl"
  by (auto simp: list_all2_conv_all_nth list_eq_iff_nth_eq)

lemma write_logical_Ok:
  assumes "writeRule L B gv (LogicalHeadlessOpt mode rules invert) = Ok bs"
  shows "(mode = LogicalTypeAnd \<or> mode = LogicalTypeOr) \<and>
    (\<exists>rl. list_all2 (\<lambda>x b. writeRule L B gv x = Ok b) rules rl \<and>
      bs = [1, if mode = LogicalTypeAnd then 0 else 1] @ wr_len B rules @ concat rl @ wr_bool invert)"
proof -
  have mode: "mode = LogicalTypeAnd \<or> mode = LogicalTypeOr" using assms by (auto split: if_splits)
  then have "write_all ([Ok [1], Ok [if mode = LogicalTypeAnd then 0 else 1], Ok (wr_len B rules)] @
      map (\<lambda>r. writeRule L B gv r) rules @ [Ok (wr_bool invert)]) = Ok bs"
    using assms by (simp del: write_all.simps split: if_splits)
  from write_all_Ok [OF this] obtain tl1 where bs: "bs = [1, if mode = LogicalTypeAnd then 0 else 1] @ wr_len B rules @ concat tl1"
    and "map (\<lambda>r. writeRule L B gv r) rules @ [Ok (wr_bool invert)] = map Ok tl1"
    by (auto simp: Cons_eq_map_conv)
  from this(2) obtain rl where "map (\<lambda>r. writeRule L B gv r) rules = map Ok rl" "tl1 = rl @ [wr_bool invert]"
    by (auto simp: append_eq_map_conv Cons_eq_map_conv)
  then show ?thesis using mode bs by (auto simp: map_Ok_list_all2 intro!: exI [of _ rl])
qed

lemma read_rule_write:
  assumes "srs_ok L B" and "limits_ok lim"
  shows "rule_fits L B lim x \<Longrightarrow> writeRule L B gv x = Ok bs \<Longrightarrow> length bs \<le> fuel \<Longrightarrow>
    read_rule B lim False fuel (bs @ rest) = Ok (compiled_opt L x, rest)"
proof (induction x arbitrary: bs fuel rest)
  case (DefaultHeadlessOpt o1)
  then obtain payload where "bs = 0 # payload"
    and r: "readDefaultRule B lim False (payload @ rest) = Ok (compiled L o1, rest)"
    using readDefaultRule_write [OF assms, of o1 gv bs rest] by auto
  moreover from this DefaultHeadlessOpt.prems(3) obtain k where "fuel = Suc k" by (cases fuel) auto
  ultimately show ?case by (simp add: rd_bind_Ok [of "readDefaultRule B lim False", OF r] rd_return_def)
next
  case (LogicalHeadlessOpt mode rules invert)
  obtain rl where mode: "mode = LogicalTypeAnd \<or> mode = LogicalTypeOr"
    and rl: "list_all2 (\<lambda>x b. writeRule L B gv x = Ok b) rules rl"
    and bs': "bs = [1, if mode = LogicalTypeAnd then 0 else 1] @ wr_len B rules @ concat rl @ wr_bool invert"
    using write_logical_Ok [OF LogicalHeadlessOpt.prems(2)] by blast
  obtain k where k: "fuel = Suc k" using LogicalHeadlessOpt.prems(3) bs' by (cases fuel) auto
  have "list_all2 (\<lambda>x b. \<forall>rest. read_rule B lim False k (b @ rest) = Ok (compiled_opt L x, rest)) rules rl"
  proof (rule list_all2_all_nthI)
    show len: "length rules = length rl" using rl by (rule list_all2_lengthD)
    fix n
    assume n: "n < length rules"
    have "length (rl ! n) \<le> length (concat rl)" using n len by (simp add: length_concat member_le_sum_list)
    then show "\<forall>rest. read_rule B lim False k (rl ! n @ rest) = Ok (compiled_opt L (rules ! n), rest)"
      using LogicalHeadlessOpt.IH [of "rules ! n"] LogicalHeadlessOpt.prems(1,3) n list_all2_nthD [OF rl n]
      by (auto simp: list_all_length bs' k)
  qed
  note sub = read_rules [OF this, of "''read logical rule''"]
  define body where "body = (\<lambda>n. rd_bind (rd_times n (rd_cause ''read logical rule'' (read_rule B lim False k)))
    (\<lambda>rs. rd_bind rd_bool (\<lambda>inv1. rd_return (LogicalHeadlessOpt mode rs inv1))))"
  have "body (length rules) (concat rl @ wr_bool invert @ rest) = Ok (LogicalHeadlessOpt mode (map (compiled_opt L) rules) invert, rest)"
    unfolding body_def by (simp add: rd_bind_Ok [of "rd_times _ _", OF sub] bool_byte.dec_bind rd_return_def)
  then show ?case using mode LogicalHeadlessOpt.prems(1) assms(2) read_length [OF assms(1), of rules "li_rules lim" body]
    by (auto simp: bs' k limits_ok_def body_def)
qed simp

lemma srs_Read_Write:
  assumes "srs_ok L B" and "limits_ok lim" and "\<forall>r \<in> set rules. rule_fits L B lim r" and "length rules \<le> li_rules lim"
    and "gv \<le> RuleSetVersionCurrent" and "srs_Write L B rules gv = Ok bs"
  shows "srs_Read B lim False bs = Ok (gv, map (compiled_opt L) rules)"
proof -
  obtain body where "write_all (Ok (wr_len B rules) # map (writeRule L B gv) rules) = Ok body"
    and bs: "bs = MagicBytes @ gv # sb_Compress B body"
    using assms(6) by (auto simp: srs_Write_def simp del: write_all.simps split: go_out.splits)
  from write_all_Ok [OF this(1)] obtain bl where bl: "list_all2 (\<lambda>x b. writeRule L B gv x = Ok b) rules bl"
    and body: "body = wr_len B rules @ concat bl"
    by (auto simp: Cons_eq_map_conv map_Ok_list_all2)
  have "list_all2 (\<lambda>x b. \<forall>rest. readRule B lim False (b @ rest) = Ok (compiled_opt L x, rest)) rules bl"
  proof (rule list_all2_all_nthI)
    show "length rules = length bl" using bl by (rule list_all2_lengthD)
    fix n
    assume n: "n < length rules"
    then show "\<forall>rest. readRule B lim False (bl ! n @ rest) = Ok (compiled_opt L (rules ! n), rest)"
      using read_rule_write [OF assms(1,2) _ list_all2_nthD [OF bl n]] assms(3)
      by (simp add: readRule_def del: read_rule.simps)
  qed
  note rules = read_rules [OF this, of "''read rule''" "[]"]
  have "rd_bind ReadUvarint (\<lambda>n. rd_bind (rd_make (li_rules lim) (unat n)) (\<lambda>_.
      rd_times (unat n) (rd_cause ''read rule'' (readRule B lim False)))) body = Ok (map (compiled_opt L) rules, [])"
    using read_length [OF assms(1,4), of "\<lambda>n. rd_times n (rd_cause ''read rule'' (readRule B lim False))" "concat bl"]
      assms(2) rules by (simp add: body limits_ok_def)
  moreover have "sb_Uncompress B (sb_Compress B body) = Inr body" using assms(1) by (simp add: srs_ok_def)
  moreover have "ReadFull 3 bs = Ok (MagicBytes, gv # sb_Compress B body)" 
    unfolding bs by (rule ReadFull_append) (simp add: MagicBytes_def)
  ultimately show ?thesis using assms(5) by (simp add: srs_Read_def rd_bind_Ok)
qed

section \<open>The rules built from a file\<close>

text \<open>Building a rule takes the steps whose condition holds; only these matter.\<close>

definition taken :: "'i step list \<Rightarrow> 'i step list" where
  "taken steps = concat (map (\<lambda>st. if fst st then [(True, snd st)] else []) steps)"

lemma build_rule_taken: "build_rule steps r = build_rule (taken steps) r"
  by (induction steps r rule: build_rule.induct) (auto simp: taken_def split: sum.splits)

lemma build_rule_same: "taken steps = taken steps' \<Longrightarrow> r = r' \<Longrightarrow> build_rule steps r = build_rule steps' r'"
  by (metis build_rule_taken)

lemma taken_one:
  "c = c' \<Longrightarrow> (c' \<Longrightarrow> x = x') \<Longrightarrow> taken xs = taken ys \<Longrightarrow> taken ((c, g, x) # xs) = taken ((c', g, x') # ys)"
  by (auto simp: taken_def)

text \<open>Of two steps the first is taken on one side, the second on the other.\<close>

lemma taken_swap:
  "\<not> d \<Longrightarrow> \<not> c' \<Longrightarrow> c = d' \<Longrightarrow> (c \<Longrightarrow> x = y') \<Longrightarrow> taken xs = taken ys \<Longrightarrow>
     taken ((c, g, x) # (d, g, y) # xs) = taken ((c', g, x') # (d', g, y') # ys)"
  by (auto simp: taken_def)

lemma build_rule_items_Inr: "build_rule steps r = Inr r' \<Longrightarrow> (True, g, x) \<in> set steps \<Longrightarrow> \<exists>i. x = Inr i"
  by (induction steps r rule: build_rule.induct) (auto split: if_splits sum.splits)

text \<open>A step with a list of addresses or domains, and the one with the matcher that takes its place.\<close>

lemma NewIPCIDRItem_raw:
  "ss \<noteq> [] \<Longrightarrow> cause what (NewIPCIDRItem L src ss) = Inr i \<Longrightarrow>
     ip_matcher L ss \<noteq> None \<and> i = NewRawIPCIDRItem src (the (ip_matcher L ss))"
  by (auto simp: cause_def NewIPCIDRItem_def NewRawIPCIDRItem_def ip_matcher_def split: sum.splits)

lemma compiled_rule_same:
  assumes "NewDefaultHeadlessRule L nm o1 = Inr r"
    and "ho_DomainMatcher o1 = None" "ho_SourceIPSet o1 = None" "ho_IPSet o1 = None" "ho_AdGuardDomainMatcher o1 = None"
  shows "NewDefaultHeadlessRule L nm (compiled L o1) = Inr r"
proof -
  note Inr = build_rule_items_Inr [OF assms(1) [unfolded NewDefaultHeadlessRule_def]]
  have dom: "ho_Domain o1 \<noteq> [] \<or> ho_DomainSuffix o1 \<noteq> [] \<Longrightarrow>
      NewDomainItem L (ho_Domain o1) (ho_DomainSuffix o1) = Inr (NewRawDomainItem (rl_NewMatcher L (ho_Domain o1) (ho_DomainSuffix o1)))"
    using Inr [of GDestinationAddress "NewDomainItem L (ho_Domain o1) (ho_DomainSuffix o1)"]
    by (auto simp: NewDomainItem_def NewRawDomainItem_def split: if_splits)
  have src: "ho_SourceIPCIDR o1 \<noteq> [] \<Longrightarrow> ip_matcher L (ho_SourceIPCIDR o1) \<noteq> None \<and>
      cause ''source_ip_cidr'' (NewIPCIDRItem L True (ho_SourceIPCIDR o1)) =
        Inr (NewRawIPCIDRItem True (the (ip_matcher L (ho_SourceIPCIDR o1))))"
    using Inr [of GSourceAddress "cause ''source_ip_cidr'' (NewIPCIDRItem L True (ho_SourceIPCIDR o1))"] NewIPCIDRItem_raw by fastforce
  have dst: "ho_IPCIDR o1 \<noteq> [] \<Longrightarrow> ip_matcher L (ho_IPCIDR o1) \<noteq> None \<and>
      cause ''ipcidr'' (NewIPCIDRItem L False (ho_IPCIDR o1)) = Inr (NewRawIPCIDRItem False (the (ip_matcher L (ho_IPCIDR o1))))"
    using Inr [of GDestinationIPCIDR "cause ''ipcidr'' (NewIPCIDRItem L False (ho_IPCIDR o1))"] NewIPCIDRItem_raw by fastforce
  have none: "Option.is_none (ip_matcher L (ho_IPCIDR o1)) \<longleftrightarrow> ho_IPCIDR o1 = []"
    "Option.is_none (ip_matcher L (ho_SourceIPCIDR o1)) \<longleftrightarrow> ho_SourceIPCIDR o1 = []"
    using src dst by (auto simp: ip_matcher_def Option.is_none_def)
  show ?thesis unfolding assms(1) [symmetric] NewDefaultHeadlessRule_def
    by (rule sym, rule build_rule_same [OF taken_one [OF _ _ taken_swap [OF _ _ _ _ taken_one [OF _ _ taken_one [OF _ _ taken_swap [OF _ _ _ _ taken_swap [OF _ _ _ _ taken_one [OF _ _ taken_one [OF _ _ taken_one [OF _ _ taken_one [OF _ _ taken_one [OF _ _ taken_one [OF _ _ taken_one [OF _ _ taken_one [OF _ _ taken_one [OF _ _ taken_one [OF _ _ taken_one [OF _ _ taken_one [OF _ _ taken_one [OF _ _ taken_one [OF _ _ taken_one [OF _ _ taken_swap [OF _ _ _ _ refl]]]]]]]]]]]]]]]]]]]]]]])
      (simp_all add: compiled_def assms(2-5) none dom src dst NewAdGuardDomainItem_def NewRawAdGuardDomainItem_def)
qed

text \<open>Rules from a source file have no matchers.\<close>

definition no_matchers :: "headless_options \<Rightarrow> bool" where
  "no_matchers o1 \<longleftrightarrow> ho_DomainMatcher o1 = None \<and> ho_SourceIPSet o1 = None \<and> ho_IPSet o1 = None \<and> ho_AdGuardDomainMatcher o1 = None"

lemma ip_matcher_Nil: "ip_matcher L [] = None"
  by (simp add: ip_matcher_def)

lemma compiled_valid:
  assumes "no_matchers o1" and "ho_SourceIPCIDR o1 \<noteq> [] \<Longrightarrow> ip_matcher L (ho_SourceIPCIDR o1) \<noteq> None"
    and "ho_IPCIDR o1 \<noteq> [] \<Longrightarrow> ip_matcher L (ho_IPCIDR o1) \<noteq> None"
  shows "DefaultHeadlessRule_IsValid (compiled L o1) = DefaultHeadlessRule_IsValid o1"
  using assms by (auto simp: DefaultHeadlessRule_IsValid_def compiled_def no_matchers_def Option.is_none_def ip_matcher_Nil)

text \<open>A rule that was written has addresses that can be parsed.\<close>

lemma written_addresses:
  assumes "srs_ok L B" and "writeDefaultRule L B o1 gv = Ok bs"
  shows "ho_SourceIPCIDR o1 \<noteq> [] \<Longrightarrow> ip_matcher L (ho_SourceIPCIDR o1) \<noteq> None"
    and "ho_IPCIDR o1 \<noteq> [] \<Longrightarrow> ip_matcher L (ho_IPCIDR o1) \<noteq> None"
proof -
  have written: "ip_matcher L ss \<noteq> None" if "ss \<noteq> []" "item_if (ss \<noteq> []) (with_cause what (writeRuleItemCIDR L B t ss)) = Ok b" for ss what t b
    using that assms(1)
    by (auto simp: item_if_def with_cause_def writeRuleItemCIDR_def ip_matcher_def srs_ok_def split: sum.splits go_out.splits)
  obtain bl where "[Ok [0]] @ write_items L B o1 gv @ [Ok [ruleItemFinal], Ok (wr_bool (ho_Invert o1))] = map Ok bl"
    using write_all_Ok [OF assms(2) [unfolded writeDefaultRule_def]] by blast
  then have all: "\<forall>w \<in> set (write_items L B o1 gv). \<exists>b. w = Ok b"
    by (metis (no_types, lifting) Un_iff ex_map_conv set_append)
  show "ho_SourceIPCIDR o1 \<noteq> [] \<Longrightarrow> ip_matcher L (ho_SourceIPCIDR o1) \<noteq> None"
    using all written by (fastforce simp: write_items_def)
  show "ho_IPCIDR o1 \<noteq> [] \<Longrightarrow> ip_matcher L (ho_IPCIDR o1) \<noteq> None"
    using all written by (fastforce simp: write_items_def)
qed

lemma compiled_opt_valid:
  assumes "srs_ok L B"
  shows "rule_fits L B lim x \<Longrightarrow> writeRule L B gv x = Ok bs \<Longrightarrow>
    HeadlessRule_IsValid L (compiled_opt L x) = HeadlessRule_IsValid L x"
proof (induction x arbitrary: bs)
  case (DefaultHeadlessOpt o1)
  then show ?case using compiled_valid [of o1 L] written_addresses [OF assms, of o1 gv bs]
    by (simp add: default_fits_def no_matchers_def)
next
  case (LogicalHeadlessOpt mode rules invert)
  obtain rl where "list_all2 (\<lambda>x b. writeRule L B gv x = Ok b) rules rl"
    using write_logical_Ok [OF LogicalHeadlessOpt.prems(2)] by blast
  then have "\<exists>b. writeRule L B gv r = Ok b" if "r \<in> set rules" for r
    using that by (auto simp: list_all2_conv_all_nth in_set_conv_nth)
  then have "map (\<lambda>r. HeadlessRule_IsValid L (compiled_opt L r)) rules = map (\<lambda>r. HeadlessRule_IsValid L r) rules"
    using LogicalHeadlessOpt.IH LogicalHeadlessOpt.prems(1) by (fastforce simp: list_all_iff)
  then show ?case by (simp add: comp_def del: map_eq_conv)
qed simp

lemma collect_map_same:
  "collect what (map f xs) = Ok ys \<Longrightarrow> (\<And>x y. x \<in> set xs \<Longrightarrow> f x = Ok y \<Longrightarrow> g x = Ok y) \<Longrightarrow> collect what (map g xs) = Ok ys"
  by (induction xs arbitrary: ys) (auto split: go_out.splits)

lemma compiled_opt_same:
  assumes "srs_ok L B"
  shows "rule_fits L B lim x \<Longrightarrow> writeRule L B gv x = Ok bs \<Longrightarrow> NewHeadlessRule L nm x = Ok r \<Longrightarrow>
    NewHeadlessRule L nm (compiled_opt L x) = Ok r"
proof (induction x arbitrary: bs r)
  case (DefaultHeadlessOpt o1)
  obtain a where a: "NewDefaultHeadlessRule L nm o1 = Inr a" "r = DefaultHeadlessRule a" "DefaultHeadlessRule_IsValid o1"
    using DefaultHeadlessOpt.prems(3) by (auto split: if_splits sum.splits)
  have "NewDefaultHeadlessRule L nm (compiled L o1) = Inr a"
    by (rule compiled_rule_same [OF a(1)]) (use DefaultHeadlessOpt.prems(1) in \<open>simp_all add: default_fits_def\<close>)
  moreover have "DefaultHeadlessRule_IsValid (compiled L o1)"
    using compiled_opt_valid [OF assms DefaultHeadlessOpt.prems(1,2)] a(3) by simp
  ultimately show ?case using a(2) by simp
next
  case (LogicalHeadlessOpt mode rules invert)
  have valid: "HeadlessRule_IsValid L (compiled_opt L (LogicalHeadlessOpt mode rules invert)) = HeadlessRule_IsValid L (LogicalHeadlessOpt mode rules invert)"
    by (rule compiled_opt_valid [OF assms LogicalHeadlessOpt.prems(1,2)])
  obtain rl where "list_all2 (\<lambda>x b. writeRule L B gv x = Ok b) rules rl"
    using write_logical_Ok [OF LogicalHeadlessOpt.prems(2)] by blast
  then have "\<exists>b. writeRule L B gv r = Ok b" if "r \<in> set rules" for r
    using that by (auto simp: list_all2_conv_all_nth in_set_conv_nth)
  then have sub: "NewHeadlessRule L nm (compiled_opt L x) = Ok y" if "x \<in> set rules" "NewHeadlessRule L nm x = Ok y" for x y
    using LogicalHeadlessOpt.IH [OF that(1)] LogicalHeadlessOpt.prems(1) that by (fastforce simp: list_all_iff)
  obtain rs where rs: "collect ''sub rule'' (map (\<lambda>r. NewHeadlessRule L nm r) rules) = Ok rs"
    and ok: "HeadlessRule_IsValid L (LogicalHeadlessOpt mode rules invert) = Ok True"
      "mode = LogicalTypeAnd \<or> mode = LogicalTypeOr" "r = LogicalHeadlessRule rs mode invert"
    using LogicalHeadlessOpt.prems(3)
    by (auto simp: NewLogicalHeadlessRule_def simp del: HeadlessRule_IsValid.simps split: go_out.splits if_splits)
  have "collect ''sub rule'' (map (\<lambda>r. NewHeadlessRule L nm (compiled_opt L r)) rules) = Ok rs"
    by (rule collect_map_same [OF rs sub])
  then show ?case using valid ok by (auto simp: NewLogicalHeadlessRule_def comp_def simp del: HeadlessRule_IsValid.simps)
qed simp

text \<open>The flags of a rule-set do not change either.\<close>

lemma compiled_has:
  assumes "srs_ok L B"
    and "\<And>o1. (ho_IPCIDR o1 \<noteq> [] \<Longrightarrow> ip_matcher L (ho_IPCIDR o1) \<noteq> None) \<Longrightarrow> no_matchers o1 \<Longrightarrow> cond (compiled L o1) = cond o1"
  shows "rule_fits L B lim x \<Longrightarrow> writeRule L B gv x = Ok bs \<Longrightarrow>
    has_headless_rule cond (compiled_opt L x) = has_headless_rule cond x"
proof (induction x arbitrary: bs)
  case (DefaultHeadlessOpt o1)
  then show ?case using assms(2) [of o1] written_addresses(2) [OF assms(1), of o1 gv bs]
    by (simp add: default_fits_def no_matchers_def)
next
  case (LogicalHeadlessOpt mode rules invert)
  obtain rl where "list_all2 (\<lambda>x b. writeRule L B gv x = Ok b) rules rl"
    using write_logical_Ok [OF LogicalHeadlessOpt.prems(2)] by blast
  then have "\<exists>b. writeRule L B gv r = Ok b" if "r \<in> set rules" for r
    using that by (auto simp: list_all2_conv_all_nth in_set_conv_nth)
  then show ?case using LogicalHeadlessOpt.IH LogicalHeadlessOpt.prems(1)
    by (fastforce simp: list_all_iff list_ex_iff)
qed simp

lemma compiled_conditions:
  "isProcessHeadlessRule (compiled L o1) = isProcessHeadlessRule o1" "isWIFIHeadlessRule (compiled L o1) = isWIFIHeadlessRule o1"
  "(ho_IPCIDR o1 \<noteq> [] \<Longrightarrow> ip_matcher L (ho_IPCIDR o1) \<noteq> None) \<Longrightarrow> no_matchers o1 \<Longrightarrow>
     isIPCIDRHeadlessRule (compiled L o1) = isIPCIDRHeadlessRule o1"
  by (auto simp: isProcessHeadlessRule_def isWIFIHeadlessRule_def isIPCIDRHeadlessRule_def compiled_def no_matchers_def
      ip_matcher_Nil Option.is_none_def)

lemma reloadRules_compiled:
  assumes "srs_ok L B" and "\<forall>r \<in> set rules. rule_fits L B lim r \<and> (\<exists>b. writeRule L B gv r = Ok b)"
    and "lr_reloadRules L nm rules s = (Ok (), s')"
  shows "lr_reloadRules L nm (map (compiled_opt L) rules) s = (Ok (), s')"
proof -
  obtain rs where rs: "collect ''parse rule_set.rules'' (map (NewHeadlessRule L nm) rules) = Ok rs"
    using assms(3) by (auto simp: lr_reloadRules_def split: go_out.splits)
  have "collect ''parse rule_set.rules'' (map (\<lambda>x. NewHeadlessRule L nm (compiled_opt L x)) rules) = Ok rs"
    by (rule collect_map_same [OF rs]) (use assms(2) compiled_opt_same [OF assms(1)] in blast)
  moreover have "has_headless_rule c (compiled_opt L x) = has_headless_rule c x"
    if "x \<in> set rules" "c \<in> {isProcessHeadlessRule, isWIFIHeadlessRule, isIPCIDRHeadlessRule}" for x c
  proof -
    have "c (compiled L o1) = c o1" if "ho_IPCIDR o1 \<noteq> [] \<Longrightarrow> ip_matcher L (ho_IPCIDR o1) \<noteq> None" "no_matchers o1" for o1
      using \<open>c \<in> _\<close> compiled_conditions(1,2) [of L o1] compiled_conditions(3) [OF that] by auto
    from compiled_has [where cond = c, OF assms(1) this] show ?thesis using assms(2) that(1) by blast
  qed
  ultimately show ?thesis using assms(3) rs
    by (auto simp: lr_reloadRules_def HasHeadlessRule_def comp_def list_ex_iff)
qed

lemma srs_Write_rules: "srs_Write L B rules gv = Ok bs \<Longrightarrow> \<forall>r \<in> set rules. \<exists>b. writeRule L B gv r = Ok b"
proof -
  assume "srs_Write L B rules gv = Ok bs"
  then obtain body where "write_all (Ok (wr_len B rules) # map (writeRule L B gv) rules) = Ok body"
    by (auto simp: srs_Write_def simp del: write_all.simps split: go_out.splits)
  from write_all_Ok [OF this] obtain zs where "map (writeRule L B gv) rules = map Ok zs" by (auto simp: Cons_eq_map_conv)
  then show ?thesis by (auto simp: map_Ok_list_all2 list_all2_conv_all_nth in_set_conv_nth)
qed

text \<open>
  C27: A rule-set compiled to the binary form is the rule-set of its source. For a library that keeps its
  contract, rules without matchers and with lengths that can be allocated: if the rules are written in a known
  version, and a local rule-set can be loaded from the rules themselves, then loading it from the file gives
  the same rule-set, rule by rule, with the same flags.
\<close>

theorem srs_file_is_source:
  assumes "srs_ok L B" and "limits_ok lim" and "\<forall>r \<in> set rules. rule_fits L B lim r" and "length rules \<le> li_rules lim"
    and "gv \<in> {RuleSetVersion1, RuleSetVersion2, RuleSetVersion3, RuleSetVersion4}"
    and "srs_Write L B rules gv = Ok bs" and "lr_reloadRules L nm rules s = (Ok (), s')"
  shows "lr_reloadFile L B lim nm decode ''binary'' (Inr bs) s = (Ok (), s')"
proof -
  have "srs_Read B lim False bs = Ok (gv, map (compiled_opt L) rules)"
    by (rule srs_Read_Write [OF assms(1-4) _ assms(6)]) (use assms(5) in auto)
  moreover have "lr_reloadRules L nm (map (compiled_opt L) rules) s = (Ok (), s')"
    by (rule reloadRules_compiled [OF assms(1) _ assms(7)]) (use assms(3) srs_Write_rules [OF assms(6)] in blast)
  ultimately show ?thesis using assms(5) by (auto simp: lr_reloadFile_def ruleset_Upgrade_def)
qed

section \<open>A concrete library\<close>

text \<open>
  Lists of strings: \<open>1\<close> before each byte of a string, \<open>2\<close> before each string, \<open>0\<close> at the end. The decoder
  returns the bytes up to the next string, the strings, and the rest.
\<close>

definition demo_string :: "string \<Rightarrow> bytes" where
  "demo_string s = concat (map (\<lambda>b. [1, b]) (bytes_of_string s))"

definition demo_strings :: "string list \<Rightarrow> bytes" where
  "demo_strings ss = concat (map (\<lambda>s. 2 # demo_string s) ss) @ [0]"

fun demo_decode :: "bytes \<Rightarrow> ((string \<times> string list) \<times> bytes) go_out" where
  "demo_decode [] = Err EOF"
| "demo_decode (t # bs) =
     (if t = 0 then Ok (([], []), bs)
      else if t = 2 then
        (case demo_decode bs of Ok ((cur, ss), rest) \<Rightarrow> Ok (([], cur # ss), rest) | Err e \<Rightarrow> Err e | Panic p \<Rightarrow> Panic p)
      else (case bs of
          [] \<Rightarrow> Err EOF
        | b # bs' \<Rightarrow>
            (case demo_decode bs' of
               Ok ((cur, ss), rest) \<Rightarrow> Ok ((char_of (unat b) # cur, ss), rest) | Err e \<Rightarrow> Err e | Panic p \<Rightarrow> Panic p)))"

lemma demo_decode_string:
  "demo_decode bs = Ok ((cur, ss), rest) \<Longrightarrow> demo_decode (demo_string s @ bs) = Ok ((s @ cur, ss), rest)"
  by (induction s) (simp_all add: demo_string_def bytes_of_string_def byte_of_char)

lemma demo_decode_strings: "demo_decode (demo_strings ss @ rest) = Ok (([], ss), rest)"
proof (induction ss)
  case (Cons s ss)
  show ?case using demo_decode_string [OF Cons.IH, of s] by (simp add: demo_strings_def)
qed (simp add: demo_strings_def)

definition demo_rule_lib :: rule_lib where
  "demo_rule_lib = demo_lib
     \<lparr>rl_IPSet := (\<lambda>es. Inr (\<lambda>a. Inr a \<in> set es \<and> \<not> addr_hasZone a)),
      rl_ParseAddr := (\<lambda>s. if s = ''10.0.0.1'' then Inr (Addr4 0x0A000001) else Inl (ErrExt ''no address''))\<rparr>"

definition demo_srs :: srs_lib where
  "demo_srs =
     \<lparr>sb_WriteUvarint = PutUvarint,
      sb_WriteMatcher = (\<lambda>ds ss legacy. demo_strings ds @ demo_strings ss),
      sb_ReadMatcher = rd_bind demo_decode (\<lambda>ds. rd_bind demo_decode (\<lambda>ss.
        rd_return \<lparr>dm_Match = (\<lambda>h. h \<in> set (snd ds)), dm_Dump = (snd ds, snd ss)\<rparr>)),
      sb_WriteAdGuard = demo_strings,
      sb_ReadAdGuard = rd_bind demo_decode (\<lambda>ls. rd_return \<lparr>am_Match = (\<lambda>_. False), am_Dump = snd ls\<rparr>),
      sb_IPSet = (\<lambda>es. Inr (concat (map (\<lambda>e. case e of Inl _ \<Rightarrow> [] | Inr a \<Rightarrow> if addr_hasZone a then [] else [(a, a)]) es))),
      sb_Contains = (\<lambda>rs a. (a, a) \<in> set rs), sb_Prefixes = (\<lambda>_. []), sb_AddrFromIP = AddrFromSlice,
      sb_Put = (\<lambda>m k v. m @ [(k, v)]), sb_Compress = id, sb_Uncompress = Inr\<rparr>"

lemma demo_srs_ok: "srs_ok demo_rule_lib demo_srs"
proof -
  have set: "(\<lambda>a. Inr a \<in> set es \<and> \<not> addr_hasZone a) =
      (\<lambda>a. (a, a) \<in> set (concat (map (\<lambda>e. case e of Inl _ \<Rightarrow> [] | Inr a \<Rightarrow> if addr_hasZone a then [] else [(a, a)]) es)))"
    for es :: "(prefix + addr) list"
    by (rule ext, induction es) (auto split: sum.splits)
  show ?thesis
    unfolding srs_ok_def by (auto simp: demo_srs_def demo_rule_lib_def demo_lib_def set rd_bind_def rd_return_def demo_decode_strings
        split: sum.splits if_splits)
qed

definition demo_limits :: limits where
  "demo_limits = \<lparr>li_bytes = 1000, li_strings = 1000, li_uint16s = 1000, li_ranges = 1000, li_rules = 1000\<rparr>"

definition demo_rules :: "headless_opt list" where
  "demo_rules =
     [DefaultHeadlessOpt (NoHeadlessOptions\<lparr>ho_Domain := [''a.b''], ho_IPCIDR := [''10.0.0.1''], ho_Port := [80]\<rparr>),
      LogicalHeadlessOpt LogicalTypeOr [DefaultHeadlessOpt (NoHeadlessOptions\<lparr>ho_Network := [''tcp''], ho_Invert := True\<rparr>)] False]"

lemma demo_rules_fit: "\<forall>r \<in> set demo_rules. rule_fits demo_rule_lib demo_srs demo_limits r"
  by (auto simp: demo_rules_def default_fits_def NoHeadlessOptions_def strings_fit_def demo_limits_def ranges_fit_def
      addresses_fit_def demo_rule_lib_def demo_lib_def demo_srs_def)

lemma demo_rules_written: "\<exists>bs. srs_Write demo_rule_lib demo_srs demo_rules RuleSetVersion2 = Ok bs"
  by (simp add: srs_Write_def demo_rules_def writeDefaultRule_def write_items_def item_if_def since_def with_cause_def
      NoHeadlessOptions_def writeRuleItemCIDR_def demo_rule_lib_def demo_lib_def demo_srs_def LogicalTypeOr_def LogicalTypeAnd_def)

lemma demo_rules_loaded: "\<exists>s'. lr_reloadRules demo_rule_lib True demo_rules (EmptyLocalRuleSet ''t'') = (Ok (), s')"
  by (simp add: lr_reloadRules_def demo_rules_def DefaultHeadlessRule_IsValid_def NewDefaultHeadlessRule_def NoHeadlessOptions_def
      NewDomainItem_def NewIPCIDRItem_def NewLogicalHeadlessRule_def cause_def demo_rule_lib_def demo_lib_def LogicalTypeOr_def
      LogicalTypeAnd_def)

theorem srs_file_is_source_witness:
  "\<exists>bs s'. srs_Write demo_rule_lib demo_srs demo_rules RuleSetVersion2 = Ok bs \<and>
     lr_reloadRules demo_rule_lib True demo_rules (EmptyLocalRuleSet ''t'') = (Ok (), s') \<and>
     lr_reloadFile demo_rule_lib demo_srs demo_limits True (\<lambda>_. Inl EOF) ''binary'' (Inr bs) (EmptyLocalRuleSet ''t'') = (Ok (), s')"
proof -
  obtain bs s' where w: "srs_Write demo_rule_lib demo_srs demo_rules RuleSetVersion2 = Ok bs"
    and l: "lr_reloadRules demo_rule_lib True demo_rules (EmptyLocalRuleSet ''t'') = (Ok (), s')"
    using demo_rules_written demo_rules_loaded by blast
  have "lr_reloadFile demo_rule_lib demo_srs demo_limits True (\<lambda>_. Inl EOF) ''binary'' (Inr bs) (EmptyLocalRuleSet ''t'') = (Ok (), s')"
    by (rule srs_file_is_source [OF demo_srs_ok _ demo_rules_fit _ _ w l]) (simp_all add: limits_ok_def demo_limits_def demo_rules_def)
  then show ?thesis using w l by blast
qed

section \<open>Malformed files\<close>

text \<open>
  A length in a file is trusted. A file whose header is right and whose number of rules is larger than
  what can be allocated makes the reader panic, and with it the load of the rule-set, instead of returning
  an error.
\<close>

theorem srs_huge_length_panics:
  assumes "\<forall>bs. sb_Uncompress B (sb_Compress B bs) = Inr bs" and "unat n > li_rules lim" and "gv \<le> RuleSetVersionCurrent"
  shows "lr_reloadFile L B lim nm decode ''binary'' (Inr (MagicBytes @ [gv] @ sb_Compress B (PutUvarint n @ rest))) s =
    (Panic ''runtime error: makeslice: len out of range'', s)"
proof -
  have "ReadFull 3 (MagicBytes @ gv # sb_Compress B (PutUvarint n @ rest)) = Ok (MagicBytes, gv # sb_Compress B (PutUvarint n @ rest))"
    by (rule ReadFull_append) (simp add: MagicBytes_def)
  then have "srs_Read B lim False (MagicBytes @ gv # sb_Compress B (PutUvarint n @ rest)) =
      Panic ''runtime error: makeslice: len out of range''"
    using assms by (simp add: srs_Read_def rd_bind_Ok uvarint.dec_bind) (simp add: rd_bind_def rd_make_def)
  then show ?thesis by (simp add: lr_reloadFile_def)
qed

theorem srs_huge_length_panics_witness:
  "lr_reloadFile demo_rule_lib demo_srs demo_limits True (\<lambda>_. Inl EOF) ''binary''
     (Inr (MagicBytes @ [2] @ sb_Compress demo_srs (PutUvarint (2 ^ 60) @ []))) (EmptyLocalRuleSet ''t'') =
   (Panic ''runtime error: makeslice: len out of range'', EmptyLocalRuleSet ''t'')"
  by (rule srs_huge_length_panics) (simp_all add: demo_srs_def demo_limits_def)

section \<open>Reading ends\<close>

lemma steady_cause [steady_intros]: "steady n r \<Longrightarrow> steady n (rd_cause what r)"
  by (auto simp: steady_def rd_cause_def split: go_out.splits)

lemma steady_parts [steady_intros]:
  "steady n (rd_sized lim)" "steady n (readPrefix B lim)" "steady n (readIPSet B lim)" "steady n (readRuleItemString lim)"
  "steady n (readRuleItemUint8 lim)" "steady n (readRuleItemUint16 lim)" "steady n (read_prefixes B lim)"
  "steady n (read_addresses B lim)"
  unfolding rd_sized_def readPrefix_def readIPSet_def read_range_def readRuleItemString_def read_string_def
    readRuleItemUint8_def readRuleItemUint16_def read_prefixes_def read_addresses_def read_entry_def Let_def
  by (intro steady_intros; fail)+

lemma steady_read_item:
  assumes "\<And>n. steady n (sb_ReadMatcher B)" and "\<And>n. steady n (sb_ReadAdGuard B)"
  shows "steady n (read_item B lim recover t rule)"
  unfolding read_item_def Let_def by (intro steady_intros assms)

lemma steady_read_items:
  assumes "\<And>n. steady n (sb_ReadMatcher B)" and "\<And>n. steady n (sb_ReadAdGuard B)"
  shows "steady fuel (read_items B lim recover fuel rule)"
proof (induction fuel arbitrary: rule)
  case (Suc fuel)
  show ?case unfolding read_items.simps
    by (intro steady_byte_bind steady_intros steady_read_item assms Suc)
qed (simp add: steady_def)

lemma steady_default:
  assumes "\<And>n. steady n (sb_ReadMatcher B)" and "\<And>n. steady n (sb_ReadAdGuard B)"
  shows "steady n (readDefaultRule B lim recover)"
  using steady_read_items [OF assms, of _ lim recover NoHeadlessOptions] unfolding steady_def readDefaultRule_def by blast

lemma steady_read_rule:
  assumes "\<And>n. steady n (sb_ReadMatcher B)" and "\<And>n. steady n (sb_ReadAdGuard B)"
  shows "steady fuel (read_rule B lim recover fuel)"
proof (induction fuel)
  case (Suc fuel)
  show ?case unfolding read_rule.simps
    by (intro steady_byte_bind steady_intros steady_default assms Suc)
qed (simp add: steady_def)


lemma demo_decode_steady: "steady n demo_decode"
proof -
  have "demo_decode bs \<noteq> Panic p \<and> (\<forall>x rest. demo_decode bs = Ok (x, rest) \<longrightarrow> length rest \<le> length bs)" for bs p
  proof (induction bs rule: length_induct)
    case (1 bs)
    show ?case
    proof (cases bs)
      case (Cons t bs1)
      consider "t = 0" | "t = 2" | b bs2 where "t \<noteq> 0" "t \<noteq> 2" "bs1 = b # bs2" | "t \<noteq> 0" "t \<noteq> 2" "bs1 = []"
        by (cases bs1) auto
      then show ?thesis
      proof cases
        case 2
        from 1 [rule_format, of bs1] show ?thesis using Cons 2 by (cases "demo_decode bs1") (auto intro: le_SucI)
      next
        case (3 b bs2)
        from 1 [rule_format, of bs2] show ?thesis using Cons 3 by (cases "demo_decode bs2") (auto intro: le_SucI)
      qed (use Cons in auto)
    qed simp
  qed
  then show ?thesis by (simp add: steady_def)
qed


end
