(* ===== verification/Sniffers.thy ===== *)
theory Sniffers
  imports Sniff Varbin
begin

unbundle bit_operations_syntax

text \<open>
  The sniffers of \<^verbatim>\<open>common/sniff\<close> that only look at bytes: BitTorrent, RDP, SSH and DNS over a stream; uTP,
  UDP trackers, NTP, STUN, DTLS and DNS in packets. A sniffer of a stream gets the buffers read so far. The
  DNS message parser and \<^verbatim>\<open>E.Cause1\<close> are third-party (\<open>sniff_lib\<close>).
\<close>

record sniff_lib =
  sl_Cause1 :: "go_err \<Rightarrow> go_err \<Rightarrow> go_err"
  sl_Unpack :: "bytes \<Rightarrow> go_err option \<times> dns_msg"

definition ErrNeedMoreData :: go_err where
  "ErrNeedMoreData = ErrNew [''need more data'']"

text \<open>An error of reading means that more data is needed.\<close>

definition rd_more :: "sniff_lib \<Rightarrow> 'a reader \<Rightarrow> 'a reader" where
  "rd_more L r bs = (case r bs of Err e \<Rightarrow> Err (sl_Cause1 L ErrNeedMoreData e) | x \<Rightarrow> x)"

text \<open>A guard that ends with \<^verbatim>\<open>os.ErrInvalid\<close>.\<close>

definition rd_check :: "bool \<Rightarrow> 'a reader \<Rightarrow> 'a reader" where
  "rd_check c r = (if c then r else rd_fail ErrInvalid)"

definition rd_result :: "'a reader \<Rightarrow> bytes \<Rightarrow> 'a go_out" where
  "rd_result r bs = (case r bs of Ok (x, _) \<Rightarrow> Ok x | Err e \<Rightarrow> Err e | Panic p \<Rightarrow> Panic p)"

definition ProtocolIs :: "string \<Rightarrow> metadata \<Rightarrow> metadata" where
  "ProtocolIs p m = m\<lparr>md_Protocol := p\<rparr>"

section \<open>Streams\<close>

text \<open>What one \<^verbatim>\<open>Read\<close> of several buffers gives: bytes of the first one that is not empty.\<close>

fun single_read :: "nat \<Rightarrow> bytes list \<Rightarrow> bytes" where
  "single_read n [] = []"
| "single_read n (c # cs) = (if c = [] then single_read n cs else take n c)"

fun drop_byte :: "bytes list \<Rightarrow> bytes list" where
  "drop_byte [] = []"
| "drop_byte (c # cs) = (if c = [] then drop_byte cs else tl c # cs)"

definition bittorrent_header :: bytes where
  "bittorrent_header = bytes_of_string ''BitTorrent protocol''"

definition sniff_BitTorrent :: "sniff_lib \<Rightarrow> metadata \<Rightarrow> bytes list \<Rightarrow> metadata go_out" where
  "sniff_BitTorrent L m buffers =
     (case concat buffers of
        [] \<Rightarrow> Err (sl_Cause1 L ErrNeedMoreData EOF)
      | first # _ \<Rightarrow>
          if first \<noteq> 19 then Err ErrInvalid
          else
            let protocol = single_read 19 (drop_byte buffers)
            in if protocol \<noteq> take (length protocol) bittorrent_header then Err ErrInvalid
               else if protocol = [] then Err (sl_Cause1 L ErrNeedMoreData EOF)
               else if length protocol < 19 then Err ErrNeedMoreData
               else Ok (ProtocolIs ''bittorrent'' m))"

text \<open>The other sniffers of streams fill what they read, so only the bytes matter.\<close>

definition rdp_reader :: "sniff_lib \<Rightarrow> unit reader" where
  "rdp_reader L =
     rd_bind (rd_more L rd_byte) (\<lambda>tpktVersion. rd_check (tpktVersion = 3)
      (rd_bind (rd_more L rd_byte) (\<lambda>tpktReserved. rd_check (tpktReserved = 0)
      (rd_bind (rd_more L (rd_be 2)) (\<lambda>tpktLength :: 16 word. rd_check (tpktLength = 19)
      (rd_bind (rd_more L rd_byte) (\<lambda>cotpLength. rd_check (cotpLength = 14)
      (rd_bind (rd_more L rd_byte) (\<lambda>cotpTpduType. rd_check (cotpTpduType = 0xE0)
      (rd_bind (rd_more L (ReadFull 5)) (\<lambda>_.
       rd_bind (rd_more L rd_byte) (\<lambda>rdpType. rd_check (rdpType = 1)
      (rd_bind (rd_more L rd_byte) (\<lambda>rdpFlags.
       rd_bind (rd_more L rd_byte) (\<lambda>rdpLength. rd_check (rdpLength = 8) (rd_return ()))))))))))))))))"

definition sniff_RDP :: "sniff_lib \<Rightarrow> metadata \<Rightarrow> bytes list \<Rightarrow> metadata go_out" where
  "sniff_RDP L m buffers =
     (case rd_result (rdp_reader L) (concat buffers) of
        Ok _ \<Rightarrow> Ok (ProtocolIs ''rdp'' m) | Err e \<Rightarrow> Err e | Panic p \<Rightarrow> Panic p)"

text \<open>
  \<^verbatim>\<open>bufio.Reader.ReadLine\<close> with its buffer of 4096 bytes, for data that is not empty: a line without its end,
  what there is at the end of the data, or as much as fits, without a carriage return at its end.
\<close>

definition strip_cr :: "bytes \<Rightarrow> bytes" where
  "strip_cr l = (if l \<noteq> [] \<and> last l = 13 then butlast l else l)"

definition ReadLine :: "bytes \<Rightarrow> bytes" where
  "ReadLine bs =
     (let buf = take 4096 bs; line = takeWhile (\<lambda>b. b \<noteq> 10) buf
      in if length line < length buf then strip_cr line
         else if length buf = 4096 then strip_cr line
         else line)"

definition ssh_prefix :: bytes where
  "ssh_prefix = bytes_of_string ''SSH-2.0-''"

definition sniff_SSH :: "sniff_lib \<Rightarrow> metadata \<Rightarrow> bytes list \<Rightarrow> metadata go_out" where
  "sniff_SSH L m buffers =
     (let bs = concat buffers; pre = take 8 bs
      in if pre \<noteq> take (length pre) ssh_prefix then Err ErrInvalid
         else if length pre < 8 then Err (sl_Cause1 L ErrNeedMoreData EOF)
         else
           let line = ReadLine bs
           in if length line < 8 then Panic ''slice bounds out of range''
              else Ok ((ProtocolIs ''ssh'' m)\<lparr>md_Client := string_of_bytes (drop 8 line)\<rparr>))"

text \<open>\<^verbatim>\<open>DomainNameQuery\<close>: a message that is not a query ends it with the error of the parser, which is nil.\<close>

definition sniff_DomainNameQuery :: "sniff_lib \<Rightarrow> metadata \<Rightarrow> bytes \<Rightarrow> metadata go_out" where
  "sniff_DomainNameQuery L m packet =
     (case sl_Unpack L packet of
        (Some e, _) \<Rightarrow> Err e
      | (None, msg) \<Rightarrow>
          if m_Response msg \<or> m_Question msg = [] \<or> m_Answer msg \<noteq> [] \<or> m_Ns msg \<noteq> [] then Ok m
          else Ok (ProtocolIs ''dns'' m))"

definition dns_header_bad :: "bytes \<Rightarrow> bool" where
  "dns_header_bad packet \<longleftrightarrow>
     (let n = length packet
      in n > 2 \<and> packet ! 2 AND 0x80 \<noteq> 0 \<or> n > 5 \<and> packet ! 4 = 0 \<and> packet ! 5 = 0 \<or>
         list_ex (\<lambda>i. n > i \<and> packet ! i \<noteq> 0) [6, 7, 8, 9])"

definition sniff_StreamDomainNameQuery :: "sniff_lib \<Rightarrow> metadata \<Rightarrow> bytes list \<Rightarrow> metadata go_out" where
  "sniff_StreamDomainNameQuery L m buffers =
     (case rd_more L (rd_be 2) (concat buffers) of
        Err e \<Rightarrow> Err e
      | Panic p \<Rightarrow> Panic p
      | Ok (length1 :: 16 word, rest) \<Rightarrow>
          if length1 < 12 then Err ErrInvalid
          else
            let packet = take (unat length1) rest
            in if dns_header_bad packet then Err ErrInvalid
               else if length packet < unat length1
                 then Err (sl_Cause1 L ErrNeedMoreData (if packet = [] then EOF else ErrUnexpectedEOF))
               else sniff_DomainNameQuery L m packet)"

section \<open>Packets\<close>

text \<open>An element and a slice of a packet: outside of it they panic.\<close>

definition at_index :: "bytes \<Rightarrow> nat \<Rightarrow> 8 word go_out" where
  "at_index packet i = (if i < length packet then Ok (packet ! i) else Panic ''index out of range'')"

definition at_slice :: "bytes \<Rightarrow> nat \<Rightarrow> nat \<Rightarrow> bytes go_out" where
  "at_slice packet a b =
     (if a \<le> b \<and> b \<le> length packet then Ok (take (b - a) (drop a packet)) else Panic ''slice bounds out of range'')"

definition go_bind :: "'a go_out \<Rightarrow> ('a \<Rightarrow> 'b go_out) \<Rightarrow> 'b go_out" where
  "go_bind r f = (case r of Ok x \<Rightarrow> f x | Err e \<Rightarrow> Err e | Panic p \<Rightarrow> Panic p)"

definition go_check :: "bool \<Rightarrow> 'a go_out \<Rightarrow> 'a go_out" where
  "go_check c r = (if c then r else Err ErrInvalid)"

text \<open>The chain of extensions of a uTP packet; a seek beyond the end is no error, the read after it is.\<close>

function utp_extensions :: "8 word \<Rightarrow> bytes \<Rightarrow> unit go_out" where
  "utp_extensions extension reader =
     (if extension = 0 then Ok ()
      else case reader of
        [] \<Rightarrow> Err EOF
      | ext # r \<Rightarrow>
          if ext > 4 then Err ErrInvalid
          else (case r of [] \<Rightarrow> Err EOF | len # r' \<Rightarrow> utp_extensions ext (drop (unat len) r')))"
  by pat_completeness auto
termination by (relation "measure (\<lambda>(e, r). length r)") auto

declare utp_extensions.simps [simp del]

definition sniff_UTP :: "metadata \<Rightarrow> bytes \<Rightarrow> metadata go_out" where
  "sniff_UTP m packet =
     go_check (length packet \<ge> 20)
      (go_bind (at_index packet 0) (\<lambda>b. go_check (b AND 0x0F = 1 \<and> drop_bit 4 b \<le> 4)
      (go_bind (at_index packet 1) (\<lambda>extension. go_bind (at_slice packet 20 (length packet)) (\<lambda>reader.
       go_bind (utp_extensions extension reader) (\<lambda>_. Ok (ProtocolIs ''bittorrent'' m)))))))"

definition sniff_UDPTracker :: "metadata \<Rightarrow> bytes \<Rightarrow> metadata go_out" where
  "sniff_UDPTracker m packet =
     go_check (length packet \<ge> 16)
      (go_bind (at_slice packet 0 8) (\<lambda>protocolID. go_check (be_word protocolID = (0x41727101980 :: 64 word))
      (go_bind (at_slice packet 8 12) (\<lambda>action. go_check (be_word action = (0 :: 32 word))
        (Ok (ProtocolIs ''bittorrent'' m))))))"

text \<open>A delay of more than 16 seconds, in units of 1/65536 of a second.\<close>

definition sniff_NTP :: "metadata \<Rightarrow> bytes \<Rightarrow> metadata go_out" where
  "sniff_NTP m packet =
     go_check (length packet \<ge> 48)
      (go_bind (at_index packet 0) (\<lambda>firstByte.
         let li = drop_bit 6 firstByte AND 3; vn = drop_bit 3 firstByte AND 7; mode = firstByte AND 7
         in go_check (\<not> li > 3) (go_check (vn = 3 \<or> vn = 4) (go_check (mode = 3)
      (go_bind (at_slice packet 4 8) (\<lambda>rootDelay. go_bind (at_slice packet 8 12) (\<lambda>rootDispersion.
         go_check (\<not> uint (be_word rootDelay :: 32 word) > 16 * 65536)
        (go_check (\<not> uint (be_word rootDispersion :: 32 word) > 16 * 65536)
          (Ok (ProtocolIs ''ntp'' m))))))))))"

definition sniff_STUNMessage :: "metadata \<Rightarrow> bytes \<Rightarrow> metadata go_out" where
  "sniff_STUNMessage m packet =
     go_check (length packet \<ge> 20)
      (go_bind (at_slice packet 4 8) (\<lambda>cookie. go_check (be_word cookie = (0x2112A442 :: 32 word))
      (go_bind (at_slice packet 2 4) (\<lambda>len. go_check (\<not> length packet < 20 + unat (be_word len :: 16 word))
        (Ok (ProtocolIs ''stun'' m))))))"

definition sniff_DTLSRecord :: "metadata \<Rightarrow> bytes \<Rightarrow> metadata go_out" where
  "sniff_DTLSRecord m packet =
     go_check (length packet \<ge> 13)
      (go_bind (at_index packet 0) (\<lambda>contentType. go_check (contentType \<in> {20, 21, 22, 23, 25})
      (go_bind (at_index packet 1) (\<lambda>versionMajor. go_check (versionMajor = 0xfe)
      (go_bind (at_index packet 2) (\<lambda>versionMinor. go_check (versionMinor = 0xff \<or> versionMinor = 0xfd)
        (Ok (ProtocolIs ''dtls'' m))))))))"

end
