(* ===== verification/Sniff_Theorems.thy ===== *)
theory Sniff_Theorems
  imports Sniffers
begin

unbundle bit_operations_syntax

text \<open>
  What the sniffers of streams promise the loop that feeds them: a verdict other than a request for more data
  does not change when more data arrives. It follows that a protocol is recognised however the network cuts
  its first bytes into segments; except for BitTorrent when the bytes are in two buffers.
\<close>

section \<open>Readers that only look ahead as far as they must\<close>

named_theorems extend_intros

definition extends :: "(go_err \<Rightarrow> bool) \<Rightarrow> 'a reader \<Rightarrow> bool" where
  "extends wants r \<longleftrightarrow>
     (\<forall>p q. (\<forall>x rest. r p = Ok (x, rest) \<longrightarrow> r (p @ q) = Ok (x, rest @ q)) \<and>
            (\<forall>e. r p = Err e \<longrightarrow> \<not> wants e \<longrightarrow> r (p @ q) = Err e) \<and> \<not> is_panic (r p))"

lemma extends_return [extend_intros]: "extends wants (rd_return x)"
  by (simp add: extends_def rd_return_def)

lemma extends_check [extend_intros]: "extends wants r \<Longrightarrow> extends wants (rd_check c r)"
  by (simp add: extends_def rd_check_def rd_fail_def)

lemma extends_bind [extend_intros]:
  assumes r: "extends wants r" and f: "\<And>x. extends wants (f x)"
  shows "extends wants (rd_bind r f)"
  unfolding extends_def
proof (intro allI conjI impI)
  fix p q
  have r1: "r p = Ok (x, rest) \<Longrightarrow> r (p @ q) = Ok (x, rest @ q)" "r p = Err e \<Longrightarrow> \<not> wants e \<Longrightarrow> r (p @ q) = Err e" "\<not> is_panic (r p)"
    for x rest e using r by (auto simp: extends_def)
  show "rd_bind r f (p @ q) = Ok (x, rest @ q)" if "rd_bind r f p = Ok (x, rest)" for x rest
    using that r1 f by (auto simp: rd_bind_def extends_def split: go_out.splits)
  show "rd_bind r f (p @ q) = Err e" if "rd_bind r f p = Err e" "\<not> wants e" for e
    using that r1 f by (auto simp: rd_bind_def extends_def split: go_out.splits)
  show "\<not> is_panic (rd_bind r f p)"
    using r1(3) f by (auto simp: rd_bind_def extends_def split: go_out.splits)
qed

text \<open>What the sniffers rely on: a wrapped \<^verbatim>\<open>ErrNeedMoreData\<close> is recognised, other errors are not.\<close>

definition sniff_lib_ok :: "sniff_lib \<Rightarrow> (go_err \<Rightarrow> bool) \<Rightarrow> bool" where
  "sniff_lib_ok L wants \<longleftrightarrow>
     wants ErrNeedMoreData \<and> (\<forall>e. wants (sl_Cause1 L ErrNeedMoreData e)) \<and> \<not> wants ErrInvalid \<and>
     (\<forall>bs e m. sl_Unpack L bs = (Some e, m) \<longrightarrow> \<not> wants e)"

lemma extends_full [extend_intros]: "sniff_lib_ok L wants \<Longrightarrow> extends wants (rd_more L (ReadFull n))"
  by (auto simp: extends_def rd_more_def ReadFull_def sniff_lib_ok_def)

lemma extends_byte [extend_intros]: "sniff_lib_ok L wants \<Longrightarrow> extends wants (rd_more L rd_byte)"
  by (auto simp: extends_def rd_more_def sniff_lib_ok_def split: go_out.splits elim!: rd_byte.elims)

lemma extends_be [extend_intros]: "sniff_lib_ok L wants \<Longrightarrow> extends wants (rd_more L (rd_be n))"
  by (auto simp: extends_def rd_more_def rd_be_def rd_bind_def ReadFull_def rd_return_def sniff_lib_ok_def)

lemma extends_rdp: "sniff_lib_ok L wants \<Longrightarrow> extends wants (rdp_reader L)"
  unfolding rdp_reader_def by (intro extend_intros)

section \<open>Stable sniffers\<close>

text \<open>A sniffer on the bytes of one buffer; its verdict does not depend on the metadata.\<close>

locale stable_sniffer =
  fixes sniff :: "metadata \<Rightarrow> bytes \<Rightarrow> metadata go_out"
    and wants :: "go_err \<Rightarrow> bool"
  assumes accept_stable: "is_ok (sniff m p) \<Longrightarrow> is_ok (sniff m (p @ q))"
    and reject_stable: "sniff m p = Err e \<Longrightarrow> \<not> wants e \<Longrightarrow> \<exists>e'. sniff m (p @ q) = Err e' \<and> \<not> wants e'"
    and no_panic: "\<not> is_panic (sniff m p)"
begin

lemma verdict_cases:
  obtains "is_ok (sniff m p)" | e where "sniff m p = Err e" "wants e" | e where "sniff m p = Err e" "\<not> wants e"
  using no_panic [of m p] by (cases "sniff m p") auto

lemma rejected_prefix: "sniff m p = Err e \<Longrightarrow> \<not> wants e \<Longrightarrow> \<not> is_ok (sniff m (p @ q))"
  using reject_stable [of m p e q] by auto

end

text \<open>The first \<open>n\<close> bytes, as far as they are there, are those expected.\<close>

definition starts :: "bytes \<Rightarrow> nat \<Rightarrow> bytes \<Rightarrow> bool" where
  "starts h n p \<longleftrightarrow> take n p = take (length (take n p)) h"

lemma starts_keep: "starts h n p \<Longrightarrow> n \<le> length p \<Longrightarrow> starts h n (p @ q)"
  by (simp add: starts_def min_def)

lemma starts_full: "starts h n p \<Longrightarrow> n \<le> length p \<Longrightarrow> length h = n \<Longrightarrow> take n p = h"
  by (simp add: starts_def min_def)

lemma starts_back: "starts h n (p @ q) \<Longrightarrow> starts h n p"
proof -
  have eq: "starts h n p \<longleftrightarrow> Sublist.prefix (take n p) h" for p
    unfolding starts_def by (metis append_eq_conv_conj prefix_def take_is_prefix)
  have "Sublist.prefix (take n p) (take n (p @ q))" by simp
  then show "starts h n (p @ q) \<Longrightarrow> starts h n p" unfolding eq using prefix_order.trans by blast
qed

lemma ReadLine_ssh:
  assumes "take 8 bs = ssh_prefix"
  shows "8 \<le> length (ReadLine bs)"
proof -
  obtain r where bs: "bs = ssh_prefix @ r" using assms by (metis append_take_drop_id)
  have len: "length ssh_prefix = 8" by (simp add: ssh_prefix_def)
  have pre: "takeWhile (\<lambda>b. b \<noteq> 10) (ssh_prefix @ x) = ssh_prefix @ takeWhile (\<lambda>b. b \<noteq> 10) x" for x
    by (rule takeWhile_append2) (auto simp: ssh_prefix_def bytes_of_string_def)
  have last: "last ssh_prefix \<noteq> 13" by (simp add: ssh_prefix_def bytes_of_string_def)
  have strip: "8 \<le> length (strip_cr (ssh_prefix @ x))" for x
    using last len by (cases x) (auto simp: strip_cr_def)
  have "take 4096 bs = ssh_prefix @ take 4088 r" using len by (simp add: bs)
  then show ?thesis using strip len by (simp add: ReadLine_def Let_def pre)
qed

section \<open>The sniffers\<close>

lemma bittorrent_one:
  "sniff_BitTorrent L m [bs] =
     (case bs of
        [] \<Rightarrow> Err (sl_Cause1 L ErrNeedMoreData EOF)
      | first # r \<Rightarrow>
          if first \<noteq> 19 then Err ErrInvalid
          else if \<not> starts bittorrent_header 19 r then Err ErrInvalid
          else if r = [] then Err (sl_Cause1 L ErrNeedMoreData EOF)
          else if length r < 19 then Err ErrNeedMoreData
          else Ok (ProtocolIs ''bittorrent'' m))"
proof (cases bs)
  case (Cons b r)
  have "length (take 19 r) < 19 \<longleftrightarrow> length r < 19" "take 19 r = [] \<longleftrightarrow> r = []" by auto
  moreover have "single_read 19 [r] = take 19 r" by simp
  ultimately show ?thesis
    unfolding Cons sniff_BitTorrent_def starts_def by (simp del: length_take single_read.simps)
qed (simp add: sniff_BitTorrent_def)

lemma bittorrent_stable: "sniff_lib_ok L wants \<Longrightarrow> stable_sniffer (\<lambda>m bs. sniff_BitTorrent L m [bs]) wants"
proof
  assume ok: "sniff_lib_ok L wants"
  fix m p q e
  show "\<not> is_panic (sniff_BitTorrent L m [p])" by (simp add: bittorrent_one split: list.split)
  show "is_ok (sniff_BitTorrent L m [p @ q])" if "is_ok (sniff_BitTorrent L m [p])"
    using that by (auto simp: bittorrent_one starts_keep split: list.splits if_splits)
  show "\<exists>e'. sniff_BitTorrent L m [p @ q] = Err e' \<and> \<not> wants e'"
    if "sniff_BitTorrent L m [p] = Err e" "\<not> wants e"
    using that ok starts_back by (auto simp: bittorrent_one sniff_lib_ok_def split: list.splits if_splits)
qed

lemma rdp_stable: "sniff_lib_ok L wants \<Longrightarrow> stable_sniffer (\<lambda>m bs. sniff_RDP L m [bs]) wants"
proof
  assume ok: "sniff_lib_ok L wants"
  fix m p q e
  have ext: "rdp_reader L p = Ok (x, rest) \<Longrightarrow> rdp_reader L (p @ q) = Ok (x, rest @ q)"
    "rdp_reader L p = Err e \<Longrightarrow> \<not> wants e \<Longrightarrow> rdp_reader L (p @ q) = Err e" "\<not> is_panic (rdp_reader L p)"
    for x rest e using extends_rdp [OF ok] unfolding extends_def by blast+
  show "\<not> is_panic (sniff_RDP L m [p])"
    using ext(3) by (auto simp: sniff_RDP_def rd_result_def split: go_out.splits)
  show "is_ok (sniff_RDP L m [p @ q])" if "is_ok (sniff_RDP L m [p])"
    using that ext(1) by (auto simp: sniff_RDP_def rd_result_def split: go_out.splits)
  show "\<exists>e'. sniff_RDP L m [p @ q] = Err e' \<and> \<not> wants e'" if "sniff_RDP L m [p] = Err e" "\<not> wants e"
    using that ext(2) by (auto simp: sniff_RDP_def rd_result_def split: go_out.splits)
qed

lemma ssh_one:
  "sniff_SSH L m [bs] =
     (if \<not> starts ssh_prefix 8 bs then Err ErrInvalid
      else if length bs < 8 then Err (sl_Cause1 L ErrNeedMoreData EOF)
      else Ok ((ProtocolIs ''ssh'' m)\<lparr>md_Client := string_of_bytes (drop 8 (ReadLine bs))\<rparr>))"
proof -
  have "\<not> length (ReadLine bs) < 8" if "starts ssh_prefix 8 bs" "\<not> length bs < 8"
    using ReadLine_ssh [OF starts_full [OF that(1)]] that(2) by (simp add: ssh_prefix_def)
  moreover have "length (take 8 bs) < 8 \<longleftrightarrow> length bs < 8" by auto
  ultimately show ?thesis by (simp add: sniff_SSH_def Let_def starts_def del: length_take)
qed

lemma ssh_stable: "sniff_lib_ok L wants \<Longrightarrow> stable_sniffer (\<lambda>m bs. sniff_SSH L m [bs]) wants"
  by unfold_locales (auto simp: ssh_one starts_keep sniff_lib_ok_def dest: starts_back split: if_splits)

lemma dns_header_bad_extend: "dns_header_bad x \<Longrightarrow> dns_header_bad (x @ y)"
  by (auto simp: dns_header_bad_def Let_def nth_append)

lemma stream_dns_stable:
  "sniff_lib_ok L wants \<Longrightarrow> stable_sniffer (\<lambda>m bs. sniff_StreamDomainNameQuery L m [bs]) wants"
proof
  assume ok: "sniff_lib_ok L wants"
  fix m p q e
  let ?r = "rd_more L (rd_be 2) :: 16 word reader"
  have ext: "?r p = Ok (x, rest) \<Longrightarrow> ?r (p @ q) = Ok (x, rest @ q)"
    "?r p = Err e \<Longrightarrow> \<not> wants e \<Longrightarrow> ?r (p @ q) = Err e" "\<not> is_panic (?r p)"
    for x rest e using extends_be [OF ok] unfolding extends_def by blast+
  have unpack: "\<not> is_panic (sniff_DomainNameQuery L m x)" for x
    by (simp add: sniff_DomainNameQuery_def split: prod.split option.split)
  have body: "sniff_DomainNameQuery L m x = Err e' \<Longrightarrow> \<not> wants e'" for x e'
    using ok by (auto simp: sniff_DomainNameQuery_def sniff_lib_ok_def split: prod.splits option.splits if_splits)
  show "\<not> is_panic (sniff_StreamDomainNameQuery L m [p])"
    using ext(3) unpack by (auto simp: sniff_StreamDomainNameQuery_def Let_def split: go_out.splits)
  show "is_ok (sniff_StreamDomainNameQuery L m [p @ q])" if "is_ok (sniff_StreamDomainNameQuery L m [p])"
    using that ext(1) by (auto simp: sniff_StreamDomainNameQuery_def Let_def split: go_out.splits if_splits)
  show "\<exists>e'. sniff_StreamDomainNameQuery L m [p @ q] = Err e' \<and> \<not> wants e'"
    if err: "sniff_StreamDomainNameQuery L m [p] = Err e" "\<not> wants e"
  proof (cases "?r p")
    case (Ok y)
    obtain n rest where y: "y = (n, rest)" by (cases y)
    have inv: "\<not> wants ErrInvalid" and more: "wants (sl_Cause1 L ErrNeedMoreData x)" for x
      using ok by (simp_all add: sniff_lib_ok_def)
    consider "n < 12" | "\<not> n < 12" "dns_header_bad (take (unat n) rest)"
      | "\<not> n < 12" "\<not> dns_header_bad (take (unat n) rest)" "unat n \<le> length rest"
      using err more Ok y by (auto simp: sniff_StreamDomainNameQuery_def Let_def split: if_splits)
    then show ?thesis
    proof cases
      case 2
      then show ?thesis
        using dns_header_bad_extend inv ext(1) [OF Ok [unfolded y]]
        by (auto simp: sniff_StreamDomainNameQuery_def Let_def)
    next
      case 3
      then show ?thesis
        using err body ext(1) [OF Ok [unfolded y]] Ok y
        by (auto simp: sniff_StreamDomainNameQuery_def Let_def split: if_splits)
    qed (use inv ext(1) [OF Ok [unfolded y]] in \<open>auto simp: sniff_StreamDomainNameQuery_def\<close>)
  qed (use err ext in \<open>auto simp: sniff_StreamDomainNameQuery_def\<close>)
qed

section \<open>Segments\<close>

text \<open>The environment of the sniff action with the sniffers above in it.\<close>

definition own_sniffers :: "stream_sniffer set" where
  "own_sniffers = {StreamDomainNameQuery, BitTorrent, SSH, RDP}"

fun own_sniffer :: "sniff_lib \<Rightarrow> stream_sniffer \<Rightarrow> metadata \<Rightarrow> bytes list \<Rightarrow> metadata go_out" where
  "own_sniffer L StreamDomainNameQuery = sniff_StreamDomainNameQuery L"
| "own_sniffer L BitTorrent = sniff_BitTorrent L"
| "own_sniffer L SSH = sniff_SSH L"
| "own_sniffer L RDP = sniff_RDP L"
| "own_sniffer L _ = (\<lambda>m buffers. Err ErrInvalid)"

definition own_env :: "sniff_lib \<Rightarrow> sniff_env \<Rightarrow> sniff_env" where
  "own_env L E = E\<lparr>se_stream := (\<lambda>s m buffers.
     if s \<in> own_sniffers
     then (case own_sniffer L s m buffers of Ok m' \<Rightarrow> (None, m') | Err e \<Rightarrow> (Some e, m) | Panic p \<Rightarrow> (Some (ErrExt p), m))
     else se_stream E s m buffers)\<rparr>"

text \<open>\<^verbatim>\<open>E.Errors\<close> of two errors keeps both, and is nil for none.\<close>

definition errors_ok :: "sniff_env \<Rightarrow> bool" where
  "errors_ok E \<longleftrightarrow> (\<forall>a e. se_Errors E [a, Some e] \<noteq> None \<and>
     need_more E (se_Errors E [a, Some e]) = (need_more E a \<or> se_NeedMoreData E e))"

locale sniff_laws =
  fixes L :: sniff_lib and wants :: "go_err \<Rightarrow> bool"
  assumes lib: "sniff_lib_ok L wants"

sublocale sniff_laws \<subseteq> bittorrent: stable_sniffer "\<lambda>m bs. sniff_BitTorrent L m [bs]" wants
  by (rule bittorrent_stable [OF lib])

sublocale sniff_laws \<subseteq> rdp: stable_sniffer "\<lambda>m bs. sniff_RDP L m [bs]" wants
  by (rule rdp_stable [OF lib])

sublocale sniff_laws \<subseteq> ssh: stable_sniffer "\<lambda>m bs. sniff_SSH L m [bs]" wants
  by (rule ssh_stable [OF lib])

sublocale sniff_laws \<subseteq> dns: stable_sniffer "\<lambda>m bs. sniff_StreamDomainNameQuery L m [bs]" wants
  by (rule stream_dns_stable [OF lib])

context sniff_laws
begin

lemma own_stable: "s \<in> own_sniffers \<Longrightarrow> stable_sniffer (\<lambda>m bs. own_sniffer L s m [bs]) wants"
  using bittorrent_stable rdp_stable ssh_stable stream_dns_stable lib by (auto simp: own_sniffers_def)

lemma own_nothing: "s \<in> own_sniffers \<Longrightarrow> \<not> is_ok (own_sniffer L s m [[]])"
  by (auto simp: own_sniffers_def bittorrent_one ssh_one sniff_RDP_def rd_result_def rdp_reader_def rd_bind_def
      rd_more_def sniff_StreamDomainNameQuery_def rd_be_def ReadFull_def split: if_splits)

end

lemma need_more_own [simp]: "need_more (own_env L E) = need_more E"
  by (rule ext) (simp add: need_more_def own_env_def split: option.split)

lemma own_stream:
  assumes "sniff_lib_ok L (se_NeedMoreData E)" and "s \<in> own_sniffers"
  shows "se_stream (own_env L E) s m [bs] =
      (case own_sniffer L s m [bs] of Ok m' \<Rightarrow> (None, m') | Err e \<Rightarrow> (Some e, m) | Panic p \<Rightarrow> (Some (ErrExt p), m))"
    and "\<not> is_panic (own_sniffer L s m [bs])"
  using assms(2) stable_sniffer.no_panic [OF sniff_laws.own_stable [OF sniff_laws.intro [OF assms(1)] assms(2)]]
  by (simp_all add: own_env_def)

lemma round_accepts:
  assumes lib: "sniff_lib_ok L (se_NeedMoreData E)"
  shows "set ss \<subseteq> own_sniffers \<Longrightarrow> \<exists>s \<in> set ss. is_ok (own_sniffer L s m [bs]) \<Longrightarrow>
    \<exists>m'. stream_round (own_env L E) ss [bs] err m = ((True, None), m')"
proof (induction ss arbitrary: err)
  case (Cons s ss)
  then have own: "s \<in> own_sniffers" by simp
  show ?case
  proof (cases "own_sniffer L s m [bs]")
    case (Err e)
    then have "\<exists>s \<in> set ss. is_ok (own_sniffer L s m [bs])" using Cons.prems by auto
    with Cons Err show ?thesis by (simp add: own_stream [OF lib own])
  qed (use own_stream [OF lib own, of m bs] in auto)
qed simp

lemma round_rejects:
  assumes lib: "sniff_lib_ok L (se_NeedMoreData E)" and errs: "errors_ok E"
  shows "set ss \<subseteq> own_sniffers \<Longrightarrow> \<not> (\<exists>s \<in> set ss. is_ok (own_sniffer L s m [bs])) \<Longrightarrow>
    \<exists>err'. stream_round (own_env L E) ss [bs] err m = ((False, err'), m) \<and> (ss \<noteq> [] \<longrightarrow> err' \<noteq> None) \<and>
      (need_more E err' \<longleftrightarrow>
         need_more E err \<or> (\<exists>s \<in> set ss. \<exists>e. own_sniffer L s m [bs] = Err e \<and> se_NeedMoreData E e))"
proof (induction ss arbitrary: err)
  case (Cons s ss)
  then have own: "s \<in> own_sniffers" by simp
  note stream = own_stream [OF lib own, of m bs]
  obtain e where e: "own_sniffer L s m [bs] = Err e"
    using Cons.prems(2) stream(2) by (cases "own_sniffer L s m [bs]") auto
  let ?err = "se_Errors E [err, Some e]"
  have "set ss \<subseteq> own_sniffers" "\<not> (\<exists>s \<in> set ss. is_ok (own_sniffer L s m [bs]))" using Cons.prems by auto
  from Cons.IH [OF this, of ?err] obtain err'
    where r: "stream_round (own_env L E) ss [bs] ?err m = ((False, err'), m)" and n: "ss \<noteq> [] \<longrightarrow> err' \<noteq> None"
      and w: "need_more E err' \<longleftrightarrow> need_more E ?err \<or>
        (\<exists>s \<in> set ss. \<exists>e. own_sniffer L s m [bs] = Err e \<and> se_NeedMoreData E e)"
    by blast
  have "se_Errors (own_env L E) = se_Errors E" by (simp add: own_env_def)
  then have "stream_round (own_env L E) (s # ss) [bs] err m = ((False, err'), m)" using r e stream(1) by simp
  moreover have "err' \<noteq> None" using n r errs by (cases "ss = []") (auto simp: errors_ok_def)
  moreover have "need_more E err' \<longleftrightarrow> need_more E err \<or>
      (\<exists>s' \<in> set (s # ss). \<exists>e. own_sniffer L s' m [bs] = Err e \<and> se_NeedMoreData E e)"
    using w e errs by (auto simp: errors_ok_def)
  ultimately show ?case by blast
qed simp

lemma peek_own:
  assumes lib: "sniff_lib_ok L (se_NeedMoreData E)" and errs: "errors_ok E" and own: "set ss \<subseteq> own_sniffers" and "ss \<noteq> []"
  shows "\<not> (\<exists>s \<in> set ss. is_ok (own_sniffer L s m [buffer])) \<Longrightarrow> (again \<longrightarrow> err \<noteq> None) \<Longrightarrow>
    (fst (peek_loop (own_env L E) ss [] again err buffer (map Payload segments) m) = None) \<longleftrightarrow>
    (\<exists>s \<in> set ss. is_ok (own_sniffer L s m [buffer @ concat segments]))"
proof (induction segments arbitrary: again err buffer)
  case Nil
  then show ?case by auto
next
  case (Cons d ds)
  note stable = sniff_laws.own_stable [OF sniff_laws.intro [OF lib]]
  show ?case
  proof (cases "\<exists>s \<in> set ss. is_ok (own_sniffer L s m [buffer @ d])")
    case True
    then obtain s where s: "s \<in> set ss" "is_ok (own_sniffer L s m [buffer @ d])" by blast
    have "is_ok (own_sniffer L s m [(buffer @ d) @ concat ds])"
      using stable_sniffer.accept_stable [OF stable s(2)] s(1) own by blast
    with s(1) round_accepts [OF lib own True, of None] show ?thesis by auto
  next
    case False
    obtain err' where r: "stream_round (own_env L E) ss [buffer @ d] None m = ((False, err'), m)" and n: "err' \<noteq> None"
      and w: "need_more E err' \<longleftrightarrow> (\<exists>s \<in> set ss. \<exists>e. own_sniffer L s m [buffer @ d] = Err e \<and> se_NeedMoreData E e)"
      using round_rejects [OF lib errs own False, of None] assms(4) by (auto simp: need_more_def)
    show ?thesis
    proof (cases "need_more E err'")
      case True
      with r n Cons.IH [OF False, of True err'] show ?thesis by simp
    next
      case ended: False
      have "\<not> is_ok (own_sniffer L s m [(buffer @ d) @ concat ds])" if s: "s \<in> set ss" for s
      proof (rule stable_sniffer.verdict_cases [OF stable, of s m "buffer @ d"])
        show "s \<in> own_sniffers" using own s by blast
        fix e assume "own_sniffer L s m [buffer @ d] = Err e" "\<not> se_NeedMoreData E e"
        then show ?thesis using stable_sniffer.rejected_prefix [OF stable] own s by blast
      qed (use False ended w s in auto)
      with r n ended show ?thesis by simp
    qed
  qed
qed

text \<open>
  C31: whether a stream is recognised does not depend on how its first bytes arrive. For any of the byte-level
  sniffers (DNS, BitTorrent, SSH, RDP), reading segment after segment recognises the stream exactly if one of
  them recognises all the bytes at once.
\<close>

theorem sniff_any_segments:
  assumes "sniff_lib_ok L (se_NeedMoreData E)" and "errors_ok E" and "set ss \<subseteq> own_sniffers" and "ss \<noteq> []"
  shows "fst (PeekStream (own_env L E) ss [] (map Payload segments) m) = None \<longleftrightarrow>
    (\<exists>s \<in> set ss. is_ok (own_sniffer L s m [concat segments]))"
proof -
  have "\<not> (\<exists>s \<in> set ss. is_ok (own_sniffer L s m [[]]))"
    using sniff_laws.own_nothing [OF sniff_laws.intro [OF assms(1)]] assms(3) by blast
  from peek_own [OF assms this, of False None segments] show ?thesis by (simp add: PeekStream_def)
qed

definition demo_sniff_lib :: sniff_lib where
  "demo_sniff_lib = \<lparr>sl_Cause1 = (\<lambda>e c. e), sl_Unpack = (\<lambda>bs. (Some ErrInvalid, NoMsg))\<rparr>"

definition demo_sniff_env :: sniff_env where
  "demo_sniff_env =
     \<lparr>se_stream = (\<lambda>s m bs. (Some ErrInvalid, m)), se_packet = (\<lambda>s m bs. (Some ErrInvalid, m)),
      se_Errors = (\<lambda>es. if Some ErrNeedMoreData \<in> set es then Some ErrNeedMoreData else last es),
      se_NeedMoreData = (\<lambda>e. e = ErrNeedMoreData), se_DeadlineExceeded = (\<lambda>e. False),
      se_IsDomainName = (\<lambda>s. True), se_timeout = ErrExt ''timeout''\<rparr>"

interpretation demo_sniff_laws: sniff_laws demo_sniff_lib "\<lambda>e. e = ErrNeedMoreData"
  by unfold_locales (simp add: sniff_lib_ok_def demo_sniff_lib_def ErrNeedMoreData_def)

lemma demo_sniff_env_ok:
  "sniff_lib_ok demo_sniff_lib (se_NeedMoreData demo_sniff_env)" "errors_ok demo_sniff_env"
  by (auto simp: sniff_lib_ok_def demo_sniff_lib_def demo_sniff_env_def errors_ok_def need_more_def ErrNeedMoreData_def
      split: option.splits)

theorem sniff_any_segments_witness:
  "fst (PeekStream (own_env demo_sniff_lib demo_sniff_env) [RDP, SSH] []
     (map Payload [bytes_of_string ''SSH-'', bytes_of_string ''2.0-x'']) NoMetadata) = None"
  by (subst sniff_any_segments [OF demo_sniff_env_ok])
     (simp_all add: own_sniffers_def ssh_one starts_def ssh_prefix_def bytes_of_string_def)

section \<open>Buffers\<close>

text \<open>
  a BitTorrent handshake whose first bytes, more than one, were read by an earlier sniff action is never
  recognised: the sniffer reads the header with a single read, which ends with the buffer, and asks for more
  data whatever follows. In one buffer the same bytes are recognised.
\<close>

theorem bittorrent_split_missed:
  assumes "2 \<le> length first" and "length first < 20" and "first @ rest = 19 # bittorrent_header @ tail"
  shows "sniff_BitTorrent L m [first @ rest] = Ok (ProtocolIs ''bittorrent'' m) \<and>
    sniff_BitTorrent L m [first, rest @ later] = Err ErrNeedMoreData"
proof
  have len: "length bittorrent_header = 19" by (simp add: bittorrent_header_def)
  show "sniff_BitTorrent L m [first @ rest] = Ok (ProtocolIs ''bittorrent'' m)"
    unfolding assms(3) using len by (auto simp: bittorrent_one starts_def)
  obtain f where first: "first = 19 # f" and f: "f \<noteq> []" using assms(1,3) by (cases first) force+
  have "take (length f) (f @ rest) = take (length f) (bittorrent_header @ tail)" using assms(3) first by simp
  then have "take (length f) bittorrent_header = f" using assms(2) first len by simp
  with f first assms(2) show "sniff_BitTorrent L m [first, rest @ later] = Err ErrNeedMoreData"
    by (simp add: sniff_BitTorrent_def Let_def)
qed

theorem bittorrent_split_missed_witness:
  "sniff_BitTorrent demo_sniff_lib NoMetadata [[19, 66], tl bittorrent_header @ [0]] = Err ErrNeedMoreData"
proof -
  have "[19, 66] @ tl bittorrent_header = 19 # bittorrent_header @ []" by (simp add: bittorrent_header_def bytes_of_string_def)
  from bittorrent_split_missed [OF _ _ this, of demo_sniff_lib NoMetadata "[0]"] show ?thesis by simp
qed

section \<open>Packets\<close>

lemma utp_no_panic: "\<not> is_panic (utp_extensions extension reader)"
proof (induction extension reader rule: utp_extensions.induct)
  case (1 extension reader)
  show ?case
    by (subst utp_extensions.simps) (use 1 in \<open>auto split: list.split\<close>)
qed


text \<open>
  A DNS message that is not a query is reported as recognised, with no protocol.
\<close>

lemma dns_reply_recognised:
  "sl_Unpack L packet = (None, msg) \<Longrightarrow> m_Response msg \<Longrightarrow> sniff_DomainNameQuery L m packet = Ok m"
  by (simp add: sniff_DomainNameQuery_def)

end
