(* ===== verification/Geosite.thy ===== *)
theory Geosite
  imports Rules Varbin "HOL-Library.List_Lexorder"
begin

text \<open>
  \<^verbatim>\<open>common/geosite\<close>: the data base of domain lists by code. A file is an index of the codes, with the
  place and number of the items of each, followed by the items. A Go map of lists is an association list
  with distinct keys; \<open>WriteUvarint\<close> is that of \<^verbatim>\<open>varbin\<close>.
\<close>

section \<open>Items and rules\<close>

abbreviation RuleTypeDomain :: "8 word" where "RuleTypeDomain \<equiv> 0"
abbreviation RuleTypeDomainSuffix :: "8 word" where "RuleTypeDomainSuffix \<equiv> 1"
abbreviation RuleTypeDomainKeyword :: "8 word" where "RuleTypeDomainKeyword \<equiv> 2"
abbreviation RuleTypeDomainRegex :: "8 word" where "RuleTypeDomainRegex \<equiv> 3"

record geosite_item =
  gi_Type :: "8 word"
  gi_Value :: string

text \<open>The second loop of \<^verbatim>\<open>Compile\<close> and that of \<^verbatim>\<open>Merge\<close>; the first ones only compute capacities.\<close>

definition compile_item :: "geosite_item \<Rightarrow> rule_options \<Rightarrow> rule_options" where
  "compile_item item r =
     (if gi_Type item = RuleTypeDomain then r\<lparr>ro_Domain := ro_Domain r @ [gi_Value item]\<rparr>
      else if gi_Type item = RuleTypeDomainSuffix then r\<lparr>ro_DomainSuffix := ro_DomainSuffix r @ [gi_Value item]\<rparr>
      else if gi_Type item = RuleTypeDomainKeyword then r\<lparr>ro_DomainKeyword := ro_DomainKeyword r @ [gi_Value item]\<rparr>
      else if gi_Type item = RuleTypeDomainRegex then r\<lparr>ro_DomainRegex := ro_DomainRegex r @ [gi_Value item]\<rparr>
      else r)"

definition geosite_Compile :: "geosite_item list \<Rightarrow> rule_options" where
  "geosite_Compile code = fold compile_item code NoRuleOptions"

definition merge_rule :: "rule_options \<Rightarrow> rule_options \<Rightarrow> rule_options" where
  "merge_rule subRule r =
     r\<lparr>ro_Domain := ro_Domain r @ ro_Domain subRule, ro_DomainSuffix := ro_DomainSuffix r @ ro_DomainSuffix subRule,
       ro_DomainKeyword := ro_DomainKeyword r @ ro_DomainKeyword subRule, ro_DomainRegex := ro_DomainRegex r @ ro_DomainRegex subRule\<rparr>"

definition geosite_Merge :: "rule_options list \<Rightarrow> rule_options" where
  "geosite_Merge rules = fold merge_rule rules NoRuleOptions"

section \<open>Writing\<close>

definition writeString :: "(64 word \<Rightarrow> bytes) \<Rightarrow> string \<Rightarrow> bytes" where
  "writeString WriteUvarint v = WriteUvarint (of_nat (length v)) @ bytes_of_string v"

definition write_item :: "(64 word \<Rightarrow> bytes) \<Rightarrow> geosite_item \<Rightarrow> bytes" where
  "write_item WriteUvarint item = gi_Type item # writeString WriteUvarint (gi_Value item)"

definition items_of :: "(string \<times> geosite_item list) list \<Rightarrow> string \<Rightarrow> geosite_item list" where
  "items_of domains code = (case map_of domains code of None \<Rightarrow> [] | Some items \<Rightarrow> items)"

definition write_code :: "(64 word \<Rightarrow> bytes) \<Rightarrow> (string \<times> geosite_item list) list \<Rightarrow> string \<Rightarrow> bytes" where
  "write_code WriteUvarint domains code = concat (map (write_item WriteUvarint) (items_of domains code))"

text \<open>The position of a code's items: the length of the content before them.\<close>

fun index_of :: "(64 word \<Rightarrow> bytes) \<Rightarrow> (string \<times> geosite_item list) list \<Rightarrow> string list \<Rightarrow> string \<Rightarrow> nat" where
  "index_of WriteUvarint domains [] code = 0"
| "index_of WriteUvarint domains (k # ks) code =
     (if k = code then 0 else length (write_code WriteUvarint domains k) + index_of WriteUvarint domains ks code)"

definition write_index :: "(64 word \<Rightarrow> bytes) \<Rightarrow> string \<times> 64 word \<times> 64 word \<Rightarrow> bytes" where
  "write_index WriteUvarint e =
     (case e of (code, idx, len) \<Rightarrow> writeString WriteUvarint code @ WriteUvarint idx @ WriteUvarint len)"

definition geosite_keys :: "(string \<times> geosite_item list) list \<Rightarrow> string list" where
  "geosite_keys domains = sort (map fst domains)"

definition geosite_index :: "(64 word \<Rightarrow> bytes) \<Rightarrow> (string \<times> geosite_item list) list \<Rightarrow> (string \<times> 64 word \<times> 64 word) list" where
  "geosite_index WriteUvarint domains =
     (let keys = geosite_keys domains
      in map (\<lambda>code. (code, of_nat (index_of WriteUvarint domains keys code), of_nat (length (items_of domains code)))) keys)"

definition geosite_Write :: "(64 word \<Rightarrow> bytes) \<Rightarrow> (string \<times> geosite_item list) list \<Rightarrow> bytes" where
  "geosite_Write WriteUvarint domains =
     (let keys = geosite_keys domains
      in [0] @ WriteUvarint (of_nat (length keys)) @
         concat (map (write_index WriteUvarint) (geosite_index WriteUvarint domains)) @
         concat (map (write_code WriteUvarint domains) keys))"

section \<open>Reading\<close>

text \<open>The largest lengths \<^verbatim>\<open>make\<close> allocates for bytes, strings and items.\<close>

record geosite_limits =
  gl_bytes :: nat
  gl_strings :: nat
  gl_items :: nat

definition readString :: "geosite_limits \<Rightarrow> string reader" where
  "readString lim =
     rd_bind ReadUvarint (\<lambda>n. rd_bind (rd_make (gl_bytes lim) (unat n)) (\<lambda>_.
       rd_bind (rd_times (unat n) rd_byte) (\<lambda>b. rd_return (string_of_bytes b))))"

definition read_index :: "geosite_limits \<Rightarrow> (string \<times> 64 word \<times> 64 word) reader" where
  "read_index lim =
     rd_bind (readString lim) (\<lambda>code. rd_bind ReadUvarint (\<lambda>codeIndex. rd_bind ReadUvarint (\<lambda>codeLength.
       rd_return (code, codeIndex, codeLength))))"

text \<open>The reader: what is behind it, where the items start, and the two maps (64-bit signed).\<close>

record geosite_reader =
  gr_reader :: bytes
  gr_metadataIndex :: int
  gr_domainIndex :: "string \<Rightarrow> int option"
  gr_domainLength :: "string \<Rightarrow> int option"

definition put_index :: "string \<times> 64 word \<times> 64 word \<Rightarrow> geosite_reader \<Rightarrow> geosite_reader" where
  "put_index e r =
     (case e of (code, codeIndex, codeLength) \<Rightarrow>
        r\<lparr>gr_domainIndex := (gr_domainIndex r)(code \<mapsto> sint codeIndex),
          gr_domainLength := (gr_domainLength r)(code \<mapsto> sint codeLength)\<rparr>)"

definition geosite_NewReader :: "geosite_limits \<Rightarrow> bytes \<Rightarrow> geosite_reader go_out" where
  "geosite_NewReader lim data =
     (case rd_bind rd_byte (\<lambda>version.
             if version \<noteq> 0 then rd_fail (ErrNew [''unknown version''])
             else rd_bind ReadUvarint (\<lambda>n. rd_bind (rd_make (gl_strings lim) (unat n)) (\<lambda>_.
               rd_times (unat n) (read_index lim)))) data of
        Err e \<Rightarrow> Err e
      | Panic p \<Rightarrow> Panic p
      | Ok (entries, rest) \<Rightarrow>
          Ok (fold put_index entries
            \<lparr>gr_reader = data, gr_metadataIndex = int (length data) - int (length rest),
             gr_domainIndex = Map.empty, gr_domainLength = Map.empty\<rparr>))"

definition read_geosite_item :: "geosite_limits \<Rightarrow> geosite_item reader" where
  "read_geosite_item lim =
     rd_bind rd_byte (\<lambda>typeByte. rd_bind (readString lim) (\<lambda>v. rd_return \<lparr>gi_Type = typeByte, gi_Value = v\<rparr>))"

text \<open>The position is a 64-bit sum; a negative one is an error of the seek, a negative length a panic.\<close>

definition geosite_Read :: "geosite_limits \<Rightarrow> string \<Rightarrow> geosite_reader \<Rightarrow> geosite_item list go_out" where
  "geosite_Read lim code r =
     (case gr_domainIndex r code of
        None \<Rightarrow> Err (ErrNew [''code '', code, '' not exists!''])
      | Some index \<Rightarrow>
          let pos = sint (word_of_int (gr_metadataIndex r + index) :: 64 word);
              n = (case gr_domainLength r code of None \<Rightarrow> 0 | Some k \<Rightarrow> k)
          in if pos < 0 then Err (ErrExt ''negative position'')
             else if n < 0 \<or> nat n > gl_items lim then Panic ''runtime error: makeslice: len out of range''
             else (case rd_times (nat n) (read_geosite_item lim) (drop (nat pos) (gr_reader r)) of
                     Ok (items, _) \<Rightarrow> Ok items | Err e \<Rightarrow> Err e | Panic p \<Rightarrow> Panic p))"

section \<open>Codecs of the parts\<close>

definition geosite_limits_ok :: "geosite_limits \<Rightarrow> bool" where
  "geosite_limits_ok lim \<longleftrightarrow> gl_bytes lim < 2 ^ 63 \<and> gl_strings lim < 2 ^ 63 \<and> gl_items lim < 2 ^ 63"

lemma readString_codec:
  assumes "geosite_limits_ok lim"
  shows "codec (writeString PutUvarint) (readString lim) (\<lambda>s. length s \<le> gl_bytes lim)"
proof
  fix s rest
  assume s: "length (s :: string) \<le> gl_bytes lim"
  then have n: "unat (of_nat (length s) :: 64 word) = length s"
    using assms by (intro unat_of_length) (simp add: geosite_limits_ok_def)
  have bytes: "rd_times (length b) rd_byte (b @ rest) = Ok (b, rest)" for b :: bytes
    using byte.dec_list [of b rest] by simp
  show "readString lim (writeString PutUvarint s @ rest) = Ok (s, rest)"
    using s bytes [of "bytes_of_string s"]
    by (simp add: readString_def writeString_def uvarint.dec_bind n rd_bind_def [of "rd_make _ _"] rd_make_Ok)
       (simp add: rd_bind_def rd_return_def)
qed

definition index_fits :: "geosite_limits \<Rightarrow> string \<times> 64 word \<times> 64 word \<Rightarrow> bool" where
  "index_fits lim e \<longleftrightarrow> length (fst e) \<le> gl_bytes lim"

lemma read_index_codec:
  assumes "geosite_limits_ok lim"
  shows "codec (write_index PutUvarint) (read_index lim) (index_fits lim)"
proof
  fix e rest
  assume "index_fits lim e"
  then show "read_index lim (write_index PutUvarint e @ rest) = Ok (e, rest)"
    by (cases e) (simp add: read_index_def write_index_def index_fits_def uvarint.dec_bind rd_return_def
        codec.dec_bind [OF readString_codec [OF assms]])
qed

definition item_fits :: "geosite_limits \<Rightarrow> geosite_item \<Rightarrow> bool" where
  "item_fits lim item \<longleftrightarrow> length (gi_Value item) \<le> gl_bytes lim"

lemma geosite_item_codec:
  assumes "geosite_limits_ok lim"
  shows "codec (write_item PutUvarint) (read_geosite_item lim) (item_fits lim)"
  by unfold_locales
     (simp add: read_geosite_item_def write_item_def item_fits_def rd_return_def codec.dec_bind [OF readString_codec [OF assms]])

section \<open>A written data base is read back\<close>

lemma fold_put_index:
  "fold put_index (map (\<lambda>c. (c, f c, g c)) ks) r =
     r\<lparr>gr_domainIndex := (\<lambda>c. if c \<in> set ks then Some (sint (f c)) else gr_domainIndex r c),
       gr_domainLength := (\<lambda>c. if c \<in> set ks then Some (sint (g c)) else gr_domainLength r c)\<rparr>"
  by (induction ks arbitrary: r) (auto simp: put_index_def fun_eq_iff intro!: geosite_reader.equality)

lemma drop_index:
  "code \<in> set ks \<Longrightarrow>
     \<exists>rest. drop (index_of w domains ks code) (concat (map (write_code w domains) ks)) = write_code w domains code @ rest"
  by (induction ks) auto

lemma index_of_le: "index_of w domains ks code \<le> length (concat (map (write_code w domains) ks))"
  by (induction ks) auto

lemma sint_of_nat: "n < 2 ^ 63 \<Longrightarrow> sint (of_nat n :: 64 word) = int n"
  by (simp add: signed_of_nat signed_take_bit_int_eq_self)

lemma sint_of_position: "0 \<le> i \<Longrightarrow> i < 2 ^ 63 \<Longrightarrow> sint (word_of_int i :: 64 word) = i"
  by (simp add: signed_of_int signed_take_bit_int_eq_self)

definition domains_fit :: "geosite_limits \<Rightarrow> (string \<times> geosite_item list) list \<Rightarrow> bool" where
  "domains_fit lim domains \<longleftrightarrow>
     distinct (map fst domains) \<and> length domains \<le> gl_strings lim \<and>
     (\<forall>(code, items) \<in> set domains. length code \<le> gl_bytes lim \<and> length items \<le> gl_items lim \<and> list_all (item_fits lim) items) \<and>
     length (geosite_Write PutUvarint domains) < 2 ^ 63"

lemma geosite_keys_props: "set (geosite_keys domains) = fst ` set domains" "length (geosite_keys domains) = length domains"
  by (simp_all add: geosite_keys_def)

text \<open>The parts of a file: what comes before the items, and the items.\<close>

definition geosite_content :: "(string \<times> geosite_item list) list \<Rightarrow> bytes" where
  "geosite_content domains = concat (map (write_code PutUvarint domains) (geosite_keys domains))"

lemma NewReader_written:
  assumes lim: "geosite_limits_ok lim" and fit: "domains_fit lim domains"
  shows "geosite_NewReader lim (geosite_Write PutUvarint domains) = Ok
     \<lparr>gr_reader = geosite_Write PutUvarint domains,
      gr_metadataIndex = int (length (geosite_Write PutUvarint domains)) - int (length (geosite_content domains)),
      gr_domainIndex = (\<lambda>c. if c \<in> fst ` set domains
        then Some (sint (of_nat (index_of PutUvarint domains (geosite_keys domains) c) :: 64 word)) else None),
      gr_domainLength = (\<lambda>c. if c \<in> fst ` set domains then Some (sint (of_nat (length (items_of domains c)) :: 64 word)) else None)\<rparr>"
proof -
  let ?es = "geosite_index PutUvarint domains"
  have n: "unat (of_nat (length ?es) :: 64 word) = length ?es"
    using fit lim by (intro unat_of_length) (simp add: geosite_index_def Let_def geosite_keys_props domains_fit_def geosite_limits_ok_def)
  have ok: "\<forall>e \<in> set ?es. index_fits lim e"
    using fit by (auto simp: geosite_index_def Let_def geosite_keys_props index_fits_def domains_fit_def)
  have len: "length ?es \<le> gl_strings lim" "length (geosite_keys domains) = length ?es"
    using fit by (simp_all add: geosite_index_def Let_def geosite_keys_props domains_fit_def)
  have data: "geosite_Write PutUvarint domains =
      0 # PutUvarint (of_nat (length ?es)) @ concat (map (write_index PutUvarint) ?es) @ geosite_content domains"
    by (simp add: geosite_Write_def Let_def geosite_content_def len(2))
  have read: "rd_times (length ?es) (read_index lim) (concat (map (write_index PutUvarint) ?es) @ geosite_content domains) =
      Ok (?es, geosite_content domains)"
    by (rule codec.dec_list [OF read_index_codec [OF lim] ok])
  have folded: "fold put_index ?es
      \<lparr>gr_reader = d, gr_metadataIndex = i, gr_domainIndex = Map.empty, gr_domainLength = Map.empty\<rparr> =
      \<lparr>gr_reader = d, gr_metadataIndex = i,
       gr_domainIndex = (\<lambda>c. if c \<in> fst ` set domains
         then Some (sint (of_nat (index_of PutUvarint domains (geosite_keys domains) c) :: 64 word)) else None),
       gr_domainLength = (\<lambda>c. if c \<in> fst ` set domains
         then Some (sint (of_nat (length (items_of domains c)) :: 64 word)) else None)\<rparr>" for d i
    unfolding geosite_index_def Let_def fold_put_index geosite_keys_props by (simp cong: if_cong)
  have "geosite_NewReader lim (geosite_Write PutUvarint domains) = Ok (fold put_index ?es
      \<lparr>gr_reader = geosite_Write PutUvarint domains,
       gr_metadataIndex = int (length (geosite_Write PutUvarint domains)) - int (length (geosite_content domains)),
       gr_domainIndex = Map.empty, gr_domainLength = Map.empty\<rparr>)"
    using read len(1)
    by (subst geosite_NewReader_def) (simp add: data uvarint.dec_bind n rd_bind_def [of "rd_make _ _"] rd_make_Ok)
  then show ?thesis unfolding folded .
qed

lemma Read_written:
  assumes lim: "geosite_limits_ok lim" and fit: "domains_fit lim domains" and c: "map_of domains code = Some items"
    and r: "geosite_NewReader lim (geosite_Write PutUvarint domains) = Ok r"
  shows "geosite_Read lim code r = Ok items"
proof -
  let ?data = "geosite_Write PutUvarint domains" and ?content = "geosite_content domains"
  let ?i = "index_of PutUvarint domains (geosite_keys domains) code"
  have mem: "(code, items) \<in> set domains" using c by (rule map_of_SomeD)
  then have code: "code \<in> fst ` set domains" by force
  have items: "items_of domains code = items" using c by (simp add: items_of_def)
  have fits: "length items \<le> gl_items lim" "list_all (item_fits lim) items" "length ?data < 2 ^ 63"
    using fit mem by (auto simp: domains_fit_def)
  have i: "?i \<le> length ?content" unfolding geosite_content_def by (rule index_of_le)
  obtain hdr where data: "?data = hdr @ ?content" by (simp add: geosite_Write_def Let_def geosite_content_def) 
  obtain rest where d: "drop ?i ?content = write_code PutUvarint domains code @ rest"
    using drop_index [of code "geosite_keys domains"] code unfolding geosite_content_def geosite_keys_props(1) [symmetric] by blast
  have pos: "sint (word_of_int (int (length ?data) - int (length ?content) + int ?i) :: 64 word) = int (length hdr + ?i)"
    using fits(3) i data by (subst sint_of_position) simp_all
  have n: "sint (of_nat (length items) :: 64 word) = int (length items)" "sint (of_nat ?i :: 64 word) = int ?i"
    using fits lim i data by (intro sint_of_nat; simp add: geosite_limits_ok_def)+
  have "rd_times (length items) (read_geosite_item lim) (concat (map (write_item PutUvarint) items) @ rest) = Ok (items, rest)"
    by (rule codec.dec_list [OF geosite_item_codec [OF lim]]) (use fits(2) in \<open>simp add: list_all_iff\<close>)
  moreover have "drop (length hdr + ?i) ?data = concat (map (write_item PutUvarint) items) @ rest"
    using d by (simp add: data write_code_def items)
  moreover have "gr_domainIndex r code = Some (int ?i)" "gr_domainLength r code = Some (int (length items))"
    "gr_metadataIndex r = int (length ?data) - int (length ?content)" "gr_reader r = ?data"
    using r unfolding NewReader_written [OF lim fit] go_out.inject by (auto simp: code n items)
  ultimately show ?thesis using fits(1) pos by (simp add: geosite_Read_def Let_def nat_add_distrib del: of_nat_add)
qed

text \<open>
  C33: a geosite data base that was written is read back: it has exactly the codes that were written, each gives
  its items in order, and any other code is an error.
\<close>

theorem geosite_roundtrip:
  assumes "geosite_limits_ok lim" and "domains_fit lim domains"
  shows "\<exists>r. geosite_NewReader lim (geosite_Write PutUvarint domains) = Ok r \<and>
    dom (gr_domainIndex r) = fst ` set domains \<and>
    (\<forall>code. geosite_Read lim code r =
       (case map_of domains code of Some items \<Rightarrow> Ok items | None \<Rightarrow> Err (ErrNew [''code '', code, '' not exists!''])))"
proof -
  note new = NewReader_written [OF assms]
  let ?r = "case geosite_NewReader lim (geosite_Write PutUvarint domains) of Ok r \<Rightarrow> r"
  have r: "geosite_NewReader lim (geosite_Write PutUvarint domains) = Ok ?r" by (simp add: new)
  have "geosite_Read lim code ?r =
      (case map_of domains code of Some items \<Rightarrow> Ok items | None \<Rightarrow> Err (ErrNew [''code '', code, '' not exists!'']))" for code
  proof (cases "map_of domains code")
    case None
    then have "code \<notin> fst ` set domains" by (simp add: map_of_eq_None_iff)
    then show ?thesis using None by (simp add: new geosite_Read_def)
  qed (use Read_written [OF assms _ r] in simp)
  moreover have "dom (gr_domainIndex ?r) = fst ` set domains" by (auto simp: new dom_def)
  ultimately show ?thesis using r by blast
qed

definition demo_geosite_limits :: geosite_limits where
  "demo_geosite_limits = \<lparr>gl_bytes = 255, gl_strings = 10, gl_items = 10\<rparr>"

definition demo_domains :: "(string \<times> geosite_item list) list" where
  "demo_domains = [(''us'', [\<lparr>gi_Type = 1, gi_Value = ''us''\<rparr>]), (''cn'', [\<lparr>gi_Type = 0, gi_Value = ''a.cn''\<rparr>])]"

lemma demo_domains_fit: "geosite_limits_ok demo_geosite_limits" "domains_fit demo_geosite_limits demo_domains"
  by (simp_all add: geosite_limits_ok_def demo_geosite_limits_def domains_fit_def demo_domains_def item_fits_def
      geosite_Write_def geosite_index_def write_index_def write_code_def items_of_def write_item_def writeString_def
      geosite_keys_def Let_def PutUvarint.simps)

theorem geosite_roundtrip_witness:
  "\<exists>r. geosite_NewReader demo_geosite_limits (geosite_Write PutUvarint demo_domains) = Ok r \<and>
     geosite_Read demo_geosite_limits ''cn'' r = Ok [\<lparr>gi_Type = 0, gi_Value = ''a.cn''\<rparr>]"
proof -
  obtain r where r: "geosite_NewReader demo_geosite_limits (geosite_Write PutUvarint demo_domains) = Ok r"
    "geosite_Read demo_geosite_limits ''cn'' r = (case map_of demo_domains ''cn'' of Some items \<Rightarrow> Ok items
       | None \<Rightarrow> Err (ErrNew [''code '', ''cn'', '' not exists!'']))"
    using geosite_roundtrip [OF demo_domains_fit] by blast
  have "map_of demo_domains ''cn'' = Some [\<lparr>gi_Type = 0, gi_Value = ''a.cn''\<rparr>]" by (simp add: demo_domains_def)
  with r show ?thesis by simp
qed

section \<open>Rules of codes\<close>

lemma compile_merge: "fold compile_item items r = merge_rule (geosite_Compile items) r"
proof -
  have "compile_item item (merge_rule s r) = merge_rule (compile_item item s) r" for item s
    by (simp add: compile_item_def merge_rule_def)
  then have "fold compile_item items (merge_rule s r) = merge_rule (fold compile_item items s) r" for s
    by (induction items arbitrary: s) simp_all
  moreover have "merge_rule NoRuleOptions r = r" by (simp add: merge_rule_def NoRuleOptions_def)
  ultimately show ?thesis by (metis geosite_Compile_def)
qed

text \<open>Merging the rules of several codes gives the rule of all their items.\<close>

lemma geosite_merge_compile: "geosite_Merge (map geosite_Compile codes) = geosite_Compile (concat codes)"
proof -
  have "fold merge_rule (map geosite_Compile codes) r = fold compile_item (concat codes) r" for r
    by (induction codes arbitrary: r) (simp_all add: compile_merge)
  then show ?thesis by (simp add: geosite_Merge_def geosite_Compile_def)
qed

end
