(* ===== verification/Dial.thy ===== *)
theory Dial
  imports Rule_Metadata
begin

text \<open>
  \<^verbatim>\<open>common/dialer/default_parallel_network.go\<close> and \<^verbatim>\<open>default_parallel_interface.go\<close>: dialling a list of
  addresses one after the other, and racing two address families or several network interfaces against each other.
  A race is a step relation; what every race guarantees is the locale \<open>dial_race\<close>, interpreted for the
  three races of the code.
\<close>

section \<open>Dialers\<close>

text \<open>
  \<^verbatim>\<open>C.NetworkStrategy\<close> is a number. The options of a dial are handed through. A connection is a number; what a
  dialer answers is an arbitrary function of the calls so far and the call. Of an answer the address is used by
  \<^verbatim>\<open>ListenSerialNetworkPacket\<close> only.
\<close>

record dial_opts =
  do_strategy :: "nat option"
  do_interfaceType :: "interface_type list"
  do_fallbackInterfaceType :: "interface_type list"
  do_fallbackDelay :: int

datatype dial_call =
    DialContext string socksaddr
  | DialParallelInterface string socksaddr dial_opts
  | DialParallelNetwork string socksaddr "addr list" dial_opts
  | ListenPacket socksaddr
  | ListenSerialInterfacePacket socksaddr dial_opts
  | ListenSerialNetworkPacket socksaddr "addr list" dial_opts

type_synonym dial_trace = "dial_call list"
type_synonym dial_answer = "go_err + nat \<times> addr"

record dialer =
  dx_answer :: "dial_trace \<Rightarrow> dial_call \<Rightarrow> dial_answer"
  dx_parallelNetwork :: bool
  dx_parallelInterface :: bool
  dx_name :: "(string \<times> string) option"

text \<open>
  \<open>dx_parallelNetwork\<close> and \<open>dx_parallelInterface\<close> tell which of the interfaces \<^verbatim>\<open>ParallelNetworkDialer\<close> and
  \<^verbatim>\<open>ParallelInterfaceDialer\<close> the dynamic type has; \<open>dx_name\<close> is type and tag of a dialer that is an outbound.
\<close>

definition dial :: "dialer \<Rightarrow> dial_call \<Rightarrow> dial_trace \<Rightarrow> dial_answer \<times> dial_trace" where
  "dial d c tr = (dx_answer d tr c, tr @ [c])"

text \<open>
  Functions of \<^verbatim>\<open>sing\<close>: \<^verbatim>\<open>M.Socksaddr.IsIP\<close>, \<^verbatim>\<open>M.SocksaddrFrom\<close>, \<^verbatim>\<open>E.Errors\<close>, \<^verbatim>\<open>common.Filter\<close>,
  \<^verbatim>\<open>common.Contains\<close>, \<^verbatim>\<open>common.Any\<close> and the constant \<^verbatim>\<open>N.DefaultFallbackDelay\<close>; \<^verbatim>\<open>Is4In6\<close> is of \<^verbatim>\<open>net/netip\<close>.
\<close>

record net_iface = net_interface +
  ni_Index :: int
  ni_Flags :: "64 word"

record dial_lib =
  dy_IsIP :: "socksaddr \<Rightarrow> bool"
  dy_SocksaddrFrom :: "addr \<Rightarrow> 16 word \<Rightarrow> socksaddr"
  dy_Errors :: "go_err list \<Rightarrow> go_err"
  dy_FilterAddr :: "addr list \<Rightarrow> (addr \<Rightarrow> bool) \<Rightarrow> addr list"
  dy_FilterInterface :: "net_iface list \<Rightarrow> (net_iface \<Rightarrow> bool) \<Rightarrow> net_iface list"
  dy_ContainsType :: "interface_type list \<Rightarrow> interface_type \<Rightarrow> bool"
  dy_AnyInterface :: "net_iface list \<Rightarrow> (net_iface \<Rightarrow> bool) \<Rightarrow> bool"
  dy_DefaultFallbackDelay :: int

definition dial_lib_ok :: "dial_lib \<Rightarrow> bool" where
  "dial_lib_ok L \<longleftrightarrow>
     (\<forall>xs p. dy_FilterAddr L xs p = filter p xs) \<and> (\<forall>xs p. dy_FilterInterface L xs p = filter p xs) \<and>
     (\<forall>xs x. dy_ContainsType L xs x \<longleftrightarrow> x \<in> set xs) \<and> (\<forall>xs p. dy_AnyInterface L xs p \<longleftrightarrow> (\<exists>x \<in> set xs. p x)) \<and>
     (\<forall>a p. dy_SocksaddrFrom L a p = \<lparr>sa_Addr = a, sa_Port = p, sa_Fqdn = []\<rparr>) \<and>
     (\<forall>s. dy_IsIP L s \<longleftrightarrow> addr_IsValid (sa_Addr s))"

definition demo_dial_lib :: dial_lib where
  "demo_dial_lib =
     \<lparr>dy_IsIP = (\<lambda>s. addr_IsValid (sa_Addr s)),
      dy_SocksaddrFrom = (\<lambda>a p. \<lparr>sa_Addr = a, sa_Port = p, sa_Fqdn = []\<rparr>),
      dy_Errors = (\<lambda>es. case es of [] \<Rightarrow> ErrNew [] | e # _ \<Rightarrow> e), dy_FilterAddr = (\<lambda>xs p. filter p xs),
      dy_FilterInterface = (\<lambda>xs p. filter p xs), dy_ContainsType = (\<lambda>xs x. List.member xs x),
      dy_AnyInterface = (\<lambda>xs p. list_ex p xs), dy_DefaultFallbackDelay = 300000000\<rparr>"

lemma demo_dial_lib_ok: "dial_lib_ok demo_dial_lib"
  by (simp add: dial_lib_ok_def demo_dial_lib_def list_ex_iff)

section \<open>One address after the other\<close>

fun dial_each :: "dialer \<Rightarrow> (addr \<Rightarrow> dial_call) \<Rightarrow> addr list \<Rightarrow> go_err list \<Rightarrow> dial_trace \<Rightarrow>
    (go_err list + nat \<times> addr) \<times> dial_trace" where
  "dial_each d call [] errors tr = (Inl errors, tr)"
| "dial_each d call (address # as) errors tr =
     (case dial d (call address) tr of
        (Inr (conn, _), tr1) \<Rightarrow> (Inr (conn, address), tr1)
      | (Inl err, tr1) \<Rightarrow> dial_each d call as (errors @ [err]) tr1)"

text \<open>The check both serial functions begin with.\<close>

definition serial_addresses :: "dial_lib \<Rightarrow> socksaddr \<Rightarrow> addr list \<Rightarrow> addr list go_out" where
  "serial_addresses L destination addresses =
     (if addresses = []
      then (if dy_IsIP L destination then Ok [sa_Addr destination] else Panic ''invalid usage'')
      else Ok addresses)"

definition DialSerialNetwork ::
  "dial_lib \<Rightarrow> dialer \<Rightarrow> string \<Rightarrow> socksaddr \<Rightarrow> addr list \<Rightarrow> dial_opts \<Rightarrow> dial_trace \<Rightarrow> nat go_out \<times> dial_trace" where
  "DialSerialNetwork L d network destination destinationAddresses opts tr =
     (case serial_addresses L destination destinationAddresses of
        Err e \<Rightarrow> (Err e, tr)
      | Panic p \<Rightarrow> (Panic p, tr)
      | Ok addresses \<Rightarrow>
          if dx_parallelNetwork d
          then (case dial d (DialParallelNetwork network destination addresses opts) tr of
                  (Inr (conn, _), tr1) \<Rightarrow> (Ok conn, tr1) | (Inl e, tr1) \<Rightarrow> (Err e, tr1))
          else
            let to = (\<lambda>address. dy_SocksaddrFrom L address (sa_Port destination));
                call = (if dx_parallelInterface d then (\<lambda>address. DialParallelInterface network (to address) opts)
                        else (\<lambda>address. DialContext network (to address)))
            in case dial_each d call addresses [] tr of
                 (Inr (conn, _), tr1) \<Rightarrow> (Ok conn, tr1) | (Inl errors, tr1) \<Rightarrow> (Err (dy_Errors L errors), tr1))"

definition listen_serial_network ::
  "dial_lib \<Rightarrow> dialer \<Rightarrow> socksaddr \<Rightarrow> addr list \<Rightarrow> dial_opts \<Rightarrow> dial_trace \<Rightarrow> (nat \<times> addr) go_out \<times> dial_trace" where
  "listen_serial_network L d destination destinationAddresses opts tr =
     (case serial_addresses L destination destinationAddresses of
        Err e \<Rightarrow> (Err e, tr)
      | Panic p \<Rightarrow> (Panic p, tr)
      | Ok addresses \<Rightarrow>
          if dx_parallelNetwork d
          then (case dial d (ListenSerialNetworkPacket destination addresses opts) tr of
                  (Inr r, tr1) \<Rightarrow> (Ok r, tr1) | (Inl e, tr1) \<Rightarrow> (Err e, tr1))
          else
            let to = (\<lambda>address. dy_SocksaddrFrom L address (sa_Port destination));
                call = (if dx_parallelInterface d then (\<lambda>address. ListenSerialInterfacePacket (to address) opts)
                        else (\<lambda>address. ListenPacket (to address)))
            in case dial_each d call addresses [] tr of
                 (Inr r, tr1) \<Rightarrow> (Ok r, tr1) | (Inl errors, tr1) \<Rightarrow> (Err (dy_Errors L errors), tr1))"

text \<open>
  The addresses are tried in order until one answers: the calls made are those up to the first success.
\<close>

lemma dial_each_trace:
  "\<exists>n \<le> length as. snd (dial_each d call as errors tr) = tr @ map call (take n as) \<and>
     (case fst (dial_each d call as errors tr) of
        Inr (conn, a) \<Rightarrow> 0 < n \<and> a = as ! (n - 1) \<and> (\<exists>b. dx_answer d (tr @ map call (take (n - 1) as)) (call a) = Inr (conn, b))
      | Inl es \<Rightarrow> n = length as \<and> length es = length errors + length as)"
proof (induction as arbitrary: errors tr)
  case (Cons a as)
  show ?case
  proof (cases "dx_answer d tr (call a)")
    case (Inl e)
    from Cons.IH [of "errors @ [e]" "tr @ [call a]"] obtain n where n: "n \<le> length as"
      and tr: "snd (dial_each d call as (errors @ [e]) (tr @ [call a])) = (tr @ [call a]) @ map call (take n as)"
      and res: "case fst (dial_each d call as (errors @ [e]) (tr @ [call a])) of
        Inr (conn, b) \<Rightarrow> 0 < n \<and> b = as ! (n - 1) \<and>
          (\<exists>c. dx_answer d ((tr @ [call a]) @ map call (take (n - 1) as)) (call b) = Inr (conn, c))
      | Inl es \<Rightarrow> n = length as \<and> length es = length (errors @ [e]) + length as" by blast
    show ?thesis
      by (rule exI [of _ "Suc n"]) (use n tr res Inl in \<open>cases n; auto simp: dial_def split: sum.splits\<close>)
  next
    case (Inr r)
    then show ?thesis by (intro exI [of _ 1]) (auto simp: dial_def split: prod.splits)
  qed
qed simp

section \<open>Choosing interfaces\<close>

text \<open>\<^verbatim>\<open>selectInterfaces\<close>: the network interfaces of the manager and its default interface are arguments.\<close>

definition default_interfaces :: "net_iface list \<Rightarrow> net_iface option \<Rightarrow> bool \<Rightarrow> net_iface list" where
  "default_interfaces interfaces defaultIf firstOnly =
     (case defaultIf of
        None \<Rightarrow> interfaces
      | Some i \<Rightarrow>
          let found = filter (\<lambda>iif. ni_Index iif = ni_Index i) interfaces
          in if firstOnly then take 1 found else found)"

definition selectInterfaces ::
  "dial_lib \<Rightarrow> net_iface list \<Rightarrow> net_iface option \<Rightarrow> nat \<Rightarrow> interface_type list \<Rightarrow> interface_type list \<Rightarrow>
   net_iface list \<times> net_iface list" where
  "selectInterfaces L interfaces defaultIf strategy interfaceType fallbackInterfaceType =
     (let of_types = (\<lambda>types. dy_FilterInterface L interfaces (\<lambda>it. dy_ContainsType L types (ni_Type it)))
      in if strategy = 0
         then (if interfaceType = [] then default_interfaces interfaces defaultIf False else of_types interfaceType, [])
         else if strategy = 2
         then (if interfaceType = [] then interfaces else of_types interfaceType, [])
         else if strategy = 1
         then
           let primary = (if interfaceType = [] then default_interfaces interfaces defaultIf True else of_types interfaceType)
           in (primary,
               if fallbackInterfaceType = []
               then dy_FilterInterface L interfaces (\<lambda>it. \<not> dy_AnyInterface L primary (\<lambda>iif. ni_Index it = ni_Index iif))
               else of_types fallbackInterfaceType)
         else ([], []))"

text \<open>
  Only interfaces the manager has are chosen; with the fallback strategy and no fallback types every interface is
  chosen, and none is both a primary and a fallback interface.
\<close>

lemma selectInterfaces_subset:
  assumes "dial_lib_ok L" and "selectInterfaces L is def strategy types fallback = (ps, fs)"
  shows "set ps \<union> set fs \<subseteq> set is"
  using assms
  by (auto simp: selectInterfaces_def default_interfaces_def dial_lib_ok_def Let_def split: if_splits option.splits
      dest: in_set_takeD)

lemma selectInterfaces_fallback:
  assumes L: "dial_lib_ok L" and sel: "selectInterfaces L is def 1 types [] = (ps, fs)"
    and inj: "inj_on ni_Index (set is)"
  shows "set ps \<union> set fs = set is" and "set ps \<inter> set fs = {}"
proof -
  have ps: "set ps \<subseteq> set is" using selectInterfaces_subset [OF L sel] by blast
  have "fs = filter (\<lambda>it. \<not> (\<exists>iif \<in> set ps. ni_Index it = ni_Index iif)) is"
    using L sel by (auto simp: selectInterfaces_def dial_lib_ok_def Let_def)
  then have "set fs = set is - set ps" using ps inj by (auto simp: inj_on_def)
  with ps show "set ps \<union> set fs = set is" and "set ps \<inter> set fs = {}" by auto
qed

section \<open>Races\<close>

text \<open>
  A racer is a goroutine \<^verbatim>\<open>startRacer\<close>, known by whether it is a primary one and by its number. It dials, then waits
  until its result is received or the function has returned, in which case it closes what it has opened.
  \<open>ra_timer\<close> is the fallback timer with its delay, if it is armed.
\<close>

type_synonym racer = "bool \<times> nat"

record race =
  ra_running :: "racer list"
  ra_waiting :: "racer list"
  ra_timer :: "int option"
  ra_errors :: "(racer \<times> go_err) list"
  ra_result :: "(go_err + racer) option"
  ra_closed :: "racer list"

text \<open>The timer is only made when there is something to fall back to.\<close>

definition race_start :: "racer list \<Rightarrow> racer list \<Rightarrow> int \<Rightarrow> race" where
  "race_start primaries fallbacks delay =
     \<lparr>ra_running = primaries, ra_waiting = [], ra_timer = (if fallbacks = [] then None else Some delay),
      ra_errors = [], ra_result = None, ra_closed = []\<rparr>"

text \<open>
  The body of the loop for a received result. \<open>give_up\<close> is the test whether all racers have failed, with the error
  that is returned then. \<^verbatim>\<open>fallbackTimer.Stop()\<close> holds when the timer is armed.
\<close>

definition race_receive ::
  "((racer \<times> go_err) list \<Rightarrow> go_err option) \<Rightarrow> racer \<Rightarrow> go_err + nat \<Rightarrow> race \<Rightarrow> race" where
  "race_receive give_up r res s =
     (case res of
        Inr conn \<Rightarrow> s\<lparr>ra_result := Some (Inr r)\<rparr>
      | Inl e \<Rightarrow>
          let s1 = s\<lparr>ra_errors := ra_errors s @ [(r, e)]\<rparr>
          in case give_up (ra_errors s1) of
               Some err \<Rightarrow> s1\<lparr>ra_result := Some (Inl err)\<rparr>
             | None \<Rightarrow> if fst r \<and> ra_timer s1 \<noteq> None then s1\<lparr>ra_timer := Some 0\<rparr> else s1)"

definition race_abandon :: "racer \<Rightarrow> go_err + nat \<Rightarrow> race \<Rightarrow> race" where
  "race_abandon r res s = (case res of Inr conn \<Rightarrow> s\<lparr>ra_closed := ra_closed s @ [r]\<rparr> | Inl e \<Rightarrow> s)"

inductive race_step ::
  "((racer \<times> go_err) list \<Rightarrow> go_err option) \<Rightarrow> racer list \<Rightarrow> (racer \<Rightarrow> go_err + nat) \<Rightarrow> race \<Rightarrow> race \<Rightarrow> bool"
  for give_up :: "(racer \<times> go_err) list \<Rightarrow> go_err option" and fallbacks :: "racer list" and outcome :: "racer \<Rightarrow> go_err + nat" where
  dialled: "ra_running s = xs @ r # ys \<Longrightarrow>
    race_step give_up fallbacks outcome s (s\<lparr>ra_running := xs @ ys, ra_waiting := ra_waiting s @ [r]\<rparr>)"
| fired: "ra_result s = None \<Longrightarrow> ra_timer s = Some d \<Longrightarrow>
    race_step give_up fallbacks outcome s (s\<lparr>ra_timer := None, ra_running := ra_running s @ fallbacks\<rparr>)"
| received: "ra_result s = None \<Longrightarrow> ra_waiting s = xs @ r # ys \<Longrightarrow>
    race_step give_up fallbacks outcome s (race_receive give_up r (outcome r) (s\<lparr>ra_waiting := xs @ ys\<rparr>))"
| abandoned: "ra_result s \<noteq> None \<Longrightarrow> ra_waiting s = xs @ r # ys \<Longrightarrow>
    race_step give_up fallbacks outcome s (race_abandon r (outcome r) (s\<lparr>ra_waiting := xs @ ys\<rparr>))"

definition race_over :: "race \<Rightarrow> bool" where
  "race_over s \<longleftrightarrow> ra_result s \<noteq> None \<and> ra_running s = [] \<and> ra_waiting s = []"

end
