(* ===== verification/Dial_Races.thy ===== *)
theory Dial_Races
  imports Dial "HOL-Library.Multiset"
begin

text \<open>
  Every race of the dialers ends, whatever the order in which dials finish, the timer fires and results are received:
  with the connection of one racer, all other connections closed, or, when every racer has failed, with an error.
\<close>

section \<open>What a race guarantees\<close>

text \<open>The racers that can have been started: the fallbacks only once the timer is off.\<close>

definition started :: "racer list \<Rightarrow> racer list \<Rightarrow> race \<Rightarrow> racer set" where
  "started primaries fallbacks s = set primaries \<union> (if ra_timer s = None then set fallbacks else {})"

text \<open>The racers that are accounted for, each once.\<close>

definition seen :: "race \<Rightarrow> racer list" where
  "seen s = ra_running s @ ra_waiting s @ map fst (ra_errors s) @ ra_closed s"

text \<open>Failures and closed connections are those of the racers; no open connection is forgotten.\<close>

definition outcomes_kept :: "(racer \<Rightarrow> go_err + nat) \<Rightarrow> racer set \<Rightarrow> race \<Rightarrow> bool" where
  "outcomes_kept outcome R s \<longleftrightarrow>
     (\<forall>(r, e) \<in> set (ra_errors s). outcome r = Inl e) \<and> (\<forall>r \<in> set (ra_closed s). \<exists>c. outcome r = Inr c) \<and>
     (\<forall>r \<in> R. (\<exists>c. outcome r = Inr c) \<longrightarrow>
        r \<in> set (ra_running s) \<or> r \<in> set (ra_waiting s) \<or> r \<in> set (ra_closed s) \<or> ra_result s = Some (Inr r))"

definition result_sound ::
  "((racer \<times> go_err) list \<Rightarrow> go_err option) \<Rightarrow> (racer \<Rightarrow> go_err + nat) \<Rightarrow> racer set \<Rightarrow> race \<Rightarrow> bool" where
  "result_sound give_up outcome R s \<longleftrightarrow>
     (case ra_result s of
        None \<Rightarrow> ra_closed s = [] \<and> give_up (ra_errors s) = None \<and> R \<subseteq> set (seen s)
      | Some (Inr r) \<Rightarrow> r \<in> R \<and> (\<exists>c. outcome r = Inr c) \<and> r \<notin> set (seen s)
      | Some (Inl err) \<Rightarrow> give_up (ra_errors s) = Some err)"

definition race_inv ::
  "((racer \<times> go_err) list \<Rightarrow> go_err option) \<Rightarrow> racer list \<Rightarrow> racer list \<Rightarrow> (racer \<Rightarrow> go_err + nat) \<Rightarrow> race \<Rightarrow> bool" where
  "race_inv give_up primaries fallbacks outcome s \<longleftrightarrow>
     distinct (seen s) \<and> set (seen s) \<subseteq> started primaries fallbacks s \<and>
     outcomes_kept outcome (started primaries fallbacks s) s \<and>
     result_sound give_up outcome (started primaries fallbacks s) s"

lemmas race_inv_defs = race_inv_def started_def outcomes_kept_def result_sound_def seen_def

definition race_measure :: "racer list \<Rightarrow> race \<Rightarrow> nat" where
  "race_measure fallbacks s =
     2 * length (ra_running s) + length (ra_waiting s) + (if ra_timer s = None then 0 else Suc (2 * length fallbacks))"

lemma race_step_measure:
  "race_step give_up fallbacks outcome s s' \<Longrightarrow> race_measure fallbacks s' < race_measure fallbacks s"
  by (induction rule: race_step.induct)
     (auto simp: race_measure_def race_receive_def race_abandon_def Let_def split: sum.splits option.splits)

text \<open>A run of \<open>n\<close> steps.\<close>

inductive race_run ::
  "((racer \<times> go_err) list \<Rightarrow> go_err option) \<Rightarrow> racer list \<Rightarrow> (racer \<Rightarrow> go_err + nat) \<Rightarrow> nat \<Rightarrow> race \<Rightarrow> race \<Rightarrow> bool"
  for give_up fallbacks outcome where
  stop: "race_run give_up fallbacks outcome 0 s s"
| step: "race_run give_up fallbacks outcome n s t \<Longrightarrow> race_step give_up fallbacks outcome t u \<Longrightarrow>
    race_run give_up fallbacks outcome (Suc n) s u"

lemma race_run_measure:
  "race_run give_up fallbacks outcome n s t \<Longrightarrow> n + race_measure fallbacks t \<le> race_measure fallbacks s"
  by (induction rule: race_run.induct) (auto dest: race_step_measure)

text \<open>
  What a race that is over has done: it returned the connection of one racer and every other connection that was opened
  is closed, or every racer has failed and the error is that of giving up.
\<close>

definition race_ended_well ::
  "((racer \<times> go_err) list \<Rightarrow> go_err option) \<Rightarrow> racer list \<Rightarrow> racer list \<Rightarrow> (racer \<Rightarrow> go_err + nat) \<Rightarrow> race \<Rightarrow> bool" where
  "race_ended_well give_up primaries fallbacks outcome s \<longleftrightarrow>
     (\<exists>r c. ra_result s = Some (Inr r) \<and> outcome r = Inr c \<and>
        (\<forall>q \<in> started primaries fallbacks s. q \<noteq> r \<longrightarrow> (\<exists>c. outcome q = Inr c) \<longrightarrow> q \<in> set (ra_closed s)) \<and> r \<notin> set (ra_closed s)) \<or>
      (\<exists>err. ra_result s = Some (Inl err) \<and> give_up (ra_errors s) = Some err \<and> ra_closed s = [] \<and>
        (\<forall>q \<in> set (primaries @ fallbacks). \<exists>e. outcome q = Inl e))"

definition race_goes_well ::
  "((racer \<times> go_err) list \<Rightarrow> go_err option) \<Rightarrow> racer list \<Rightarrow> racer list \<Rightarrow> (racer \<Rightarrow> go_err + nat) \<Rightarrow> nat \<Rightarrow> race \<Rightarrow> bool" where
  "race_goes_well give_up primaries fallbacks outcome n s \<longleftrightarrow>
     n \<le> 4 * length (primaries @ fallbacks) + 1 \<and>
     (if race_over s then race_ended_well give_up primaries fallbacks outcome s
      else \<exists>t. race_step give_up fallbacks outcome s t)"

text \<open>
  The test for giving up succeeds exactly when every racer has failed; that is all the races need.
\<close>

locale dial_race =
  fixes primaries fallbacks :: "racer list" and give_up :: "(racer \<times> go_err) list \<Rightarrow> go_err option"
  assumes racers_distinct: "distinct (primaries @ fallbacks)"
    and give_up_law: "distinct (map fst es) \<Longrightarrow> set (map fst es) \<subseteq> set (primaries @ fallbacks) \<Longrightarrow>
      give_up es = None \<longleftrightarrow> set (map fst es) \<noteq> set (primaries @ fallbacks)"
begin

abbreviation inv_of :: "(racer \<Rightarrow> go_err + nat) \<Rightarrow> race \<Rightarrow> bool" where
  "inv_of \<equiv> race_inv give_up primaries fallbacks"

lemma inv_start: "primaries @ fallbacks \<noteq> [] \<Longrightarrow> inv_of outcome (race_start primaries fallbacks delay)"
  using racers_distinct give_up_law [of "[]"] by (auto simp: race_inv_defs race_start_def)

lemma inv_dialled:
  assumes "inv_of outcome s" and "ra_running s = xs @ r # ys"
  shows "inv_of outcome (s\<lparr>ra_running := xs @ ys, ra_waiting := ra_waiting s @ [r]\<rparr>)"
proof -
  let ?t = "s\<lparr>ra_running := xs @ ys, ra_waiting := ra_waiting s @ [r]\<rparr>"
  have "mset (seen ?t) = mset (seen s)" using assms(2) by (simp add: seen_def)
  then have "set (seen ?t) = set (seen s)" and "distinct (seen ?t) = distinct (seen s)"
    by (metis mset_eq_setD, metis mset_eq_imp_distinct_iff)
  moreover have "started primaries fallbacks ?t = started primaries fallbacks s" by (simp add: started_def)
  moreover have "outcomes_kept outcome R ?t = outcomes_kept outcome R s" for R
    using assms(2) by (auto simp: outcomes_kept_def)
  ultimately show ?thesis using assms(1)
    by (auto simp: race_inv_def result_sound_def split: option.splits sum.splits)
qed

lemma inv_fired:
  assumes "inv_of outcome s" and "ra_result s = None" and "ra_timer s = Some d"
  shows "inv_of outcome (s\<lparr>ra_timer := None, ra_running := ra_running s @ fallbacks\<rparr>)"
  using assms racers_distinct by (auto simp: race_inv_defs)

text \<open>Taking the result of a waiting racer: first it is with nobody.\<close>

lemma inv_taken:
  assumes "inv_of outcome s" and "ra_waiting s = xs @ r # ys"
  shows "distinct (r # seen (s\<lparr>ra_waiting := xs @ ys\<rparr>))" and "r \<in> started primaries fallbacks s"
    and "set (seen s) = insert r (set (seen (s\<lparr>ra_waiting := xs @ ys\<rparr>)))"
  using assms by (auto simp: race_inv_def seen_def)

lemma inv_won:
  assumes "inv_of outcome s" and "ra_waiting s = xs @ r # ys" and "outcome r = Inr c" and "ra_result s = None"
  shows "inv_of outcome (s\<lparr>ra_waiting := xs @ ys, ra_result := Some (Inr r)\<rparr>)"
  using inv_taken [OF assms(1,2)] assms by (auto simp: race_inv_defs split: option.splits)

lemma inv_lost:
  assumes "inv_of outcome s" and "ra_waiting s = xs @ r # ys" and "outcome r = Inl e" and "ra_result s = None"
  shows "inv_of outcome (race_receive give_up r (Inl e) (s\<lparr>ra_waiting := xs @ ys\<rparr>))"
proof -
  let ?es = "ra_errors s @ [(r, e)]"
  let ?t = "s\<lparr>ra_waiting := xs @ ys, ra_errors := ?es\<rparr>"
  let ?u = "race_receive give_up r (Inl e) (s\<lparr>ra_waiting := xs @ ys\<rparr>)"
  have seen: "mset (seen ?t) = mset (seen s)" using assms(2) by (simp add: seen_def)
  then have "set (seen ?t) = set (seen s)" and "distinct (seen ?t) = distinct (seen s)"
    by (metis mset_eq_setD, metis mset_eq_imp_distinct_iff)
  moreover have "seen ?u = seen ?t" and "started primaries fallbacks ?u = started primaries fallbacks s"
    by (auto simp: race_receive_def seen_def started_def Let_def split: option.splits)
  moreover have "outcomes_kept outcome R ?u" if "outcomes_kept outcome R s" for R
    using that assms(2,3,4) by (auto simp: outcomes_kept_def race_receive_def Let_def split: option.splits)
  moreover have "result_sound give_up outcome R ?u" if "result_sound give_up outcome R s" for R
    using that assms(4) calculation(1,3) by (auto simp: result_sound_def race_receive_def Let_def split: option.splits)
  ultimately show ?thesis using assms(1) by (simp add: race_inv_def)
qed

lemma inv_abandoned:
  assumes "inv_of outcome s" and "ra_waiting s = xs @ r # ys" and "ra_result s \<noteq> None"
  shows "inv_of outcome (race_abandon r (outcome r) (s\<lparr>ra_waiting := xs @ ys\<rparr>))"
proof -
  let ?u = "race_abandon r (outcome r) (s\<lparr>ra_waiting := xs @ ys\<rparr>)"
  note taken = inv_taken [OF assms(1,2)]
  have R: "started primaries fallbacks ?u = started primaries fallbacks s"
    by (auto simp: race_abandon_def started_def split: sum.split)
  have "distinct (seen ?u)" and "set (seen ?u) \<subseteq> set (seen s)"
    using taken by (auto simp: race_abandon_def seen_def split: sum.split)
  moreover have "outcomes_kept outcome R ?u" if "outcomes_kept outcome R s" for R
    using that assms(2) by (auto simp: outcomes_kept_def race_abandon_def split: sum.split)
  moreover have "result_sound give_up outcome R ?u" if "result_sound give_up outcome R s" for R
    using that assms(3) calculation(2)
    by (auto simp: result_sound_def race_abandon_def split: option.splits sum.splits)
  ultimately show ?thesis using assms(1) unfolding race_inv_def R by blast
qed

lemma inv_step:
  assumes "race_step give_up fallbacks outcome s s'" and "inv_of outcome s"
  shows "inv_of outcome s'"
  using assms
proof (induction rule: race_step.induct)
  case (received s xs r ys)
  then show ?case using inv_won [of outcome s xs r ys] inv_lost [of outcome s xs r ys]
    by (cases "outcome r") (simp_all add: race_receive_def)
qed (simp_all add: inv_dialled inv_fired inv_abandoned)

lemma inv_run: "race_run give_up fallbacks outcome n s t \<Longrightarrow> inv_of outcome s \<Longrightarrow> inv_of outcome t"
  by (induction rule: race_run.induct) (auto intro: inv_step)

text \<open>A race that is not over goes on: someone dials, the timer is armed, or a result waits.\<close>

lemma not_stuck:
  assumes "inv_of outcome s" and "\<not> race_over s"
  shows "\<exists>t. race_step give_up fallbacks outcome s t"
proof (cases "ra_running s = [] \<and> ra_waiting s = []")
  case True
  with assms(2) have res: "ra_result s = None" by (simp add: race_over_def)
  with assms(1) True have none: "give_up (ra_errors s) = None" and sub: "started primaries fallbacks s \<subseteq> set (map fst (ra_errors s))"
    and dist: "distinct (map fst (ra_errors s))" and le: "set (map fst (ra_errors s)) \<subseteq> started primaries fallbacks s"
    by (auto simp: race_inv_defs)
  have "ra_timer s \<noteq> None"
  proof
    assume "ra_timer s = None"
    then have "started primaries fallbacks s = set (primaries @ fallbacks)" by (simp add: started_def)
    with sub le have "set (map fst (ra_errors s)) = set (primaries @ fallbacks)" by blast
    with give_up_law [OF dist] none show False by simp
  qed
  then show ?thesis using res by (auto intro: race_step.fired)
next
  case False
  then obtain r rs where "ra_running s = r # rs \<or> ra_waiting s = r # rs" by (metis neq_Nil_conv)
  then show ?thesis
    using race_step.dialled [of s "[]" r rs] race_step.received [of s "[]" r rs] race_step.abandoned [of s "[]" r rs]
    by fastforce
qed

lemma race_over_sound:
  assumes "inv_of outcome s" and "race_over s"
  shows "race_ended_well give_up primaries fallbacks outcome s"
proof -
  from assms(2) obtain res where res: "ra_result s = Some res" and idle: "ra_running s = []" "ra_waiting s = []"
    by (auto simp: race_over_def)
  show ?thesis
  proof (cases res)
    case (Inr r)
    with assms(1) res idle show ?thesis by (auto simp: race_ended_well_def race_inv_defs split: option.splits sum.splits)
  next
    case (Inl err)
    with assms(1) res have give: "give_up (ra_errors s) = Some err" and dist: "distinct (seen s)"
      and sub: "set (seen s) \<subseteq> started primaries fallbacks s" and kept: "outcomes_kept outcome (started primaries fallbacks s) s"
      by (auto simp: race_inv_def result_sound_def)
    from sub have within: "set (seen s) \<subseteq> set (primaries @ fallbacks)" by (auto simp: started_def split: if_splits)
    with dist have all: "set (map fst (ra_errors s)) = set (primaries @ fallbacks)"
      using give_up_law [of "ra_errors s"] give by (auto simp: seen_def)
    have "\<exists>e. outcome q = Inl e" if "q \<in> set (primaries @ fallbacks)" for q
    proof -
      from that all obtain e where "(q, e) \<in> set (ra_errors s)" by (metis (no_types, lifting) image_iff list.set_map prod.collapse)
      with kept show ?thesis by (auto simp: outcomes_kept_def)
    qed
    moreover have "ra_closed s = []"
    proof -
      have "set (ra_closed s) \<inter> set (primaries @ fallbacks) = {}" using dist unfolding seen_def all [symmetric] by auto
      moreover have "set (ra_closed s) \<subseteq> set (primaries @ fallbacks)" using within by (simp add: seen_def)
      ultimately show ?thesis by (simp add: inf.absorb1)
    qed
    ultimately show ?thesis using res Inl give by (auto simp: race_ended_well_def)
  qed
qed

text \<open>
  Every run from the start is finite, can be continued until the race is over, and is then sound.
\<close>

lemma race_correct:
  assumes "primaries @ fallbacks \<noteq> []" and "race_run give_up fallbacks outcome n (race_start primaries fallbacks delay) s"
  shows "race_goes_well give_up primaries fallbacks outcome n s"
proof -
  note inv = inv_run [OF assms(2) inv_start [OF assms(1)]]
  have "n \<le> 4 * length (primaries @ fallbacks) + 1"
    using race_run_measure [OF assms(2)] by (simp add: race_measure_def race_start_def split: if_splits)
  then show ?thesis using not_stuck [OF inv] race_over_sound [OF inv] by (simp add: race_goes_well_def)
qed

end

section \<open>The races of the code\<close>

text \<open>
  \<^verbatim>\<open>DialParallelNetwork\<close> before the race: the addresses of one family are dialled one after the other, two families
  race against each other.
\<close>

datatype parallel_plan =
    PlanPanic string
  | PlanError go_err
  | PlanSerial "addr list"
  | PlanRace "addr list" "addr list" int

definition DialParallelNetwork_plan ::
  "dial_lib \<Rightarrow> (addr \<Rightarrow> bool) \<Rightarrow> socksaddr \<Rightarrow> addr list \<Rightarrow> bool \<Rightarrow> int \<Rightarrow> parallel_plan" where
  "DialParallelNetwork_plan L Is4In6 destination destinationAddresses preferIPv6 fallbackDelay =
     (case serial_addresses L destination destinationAddresses of
        Err e \<Rightarrow> PlanError e
      | Panic p \<Rightarrow> PlanPanic p
      | Ok addresses \<Rightarrow>
          let delay = (if fallbackDelay = 0 then dy_DefaultFallbackDelay L else fallbackDelay);
              addresses4 = dy_FilterAddr L addresses (\<lambda>a. addr_Is4 a \<or> Is4In6 a);
              addresses6 = dy_FilterAddr L addresses (\<lambda>a. addr_Is6 a \<and> \<not> Is4In6 a)
          in if addresses4 = [] \<or> addresses6 = [] then PlanSerial addresses
             else if preferIPv6 then PlanRace addresses6 addresses4 delay
             else PlanRace addresses4 addresses6 delay)"

text \<open>
  The variables \<^verbatim>\<open>primary\<close> and \<^verbatim>\<open>fallback\<close> hold the last failure of each; both done, the error of the primary is
  returned.
\<close>

definition last_failure :: "bool \<Rightarrow> (racer \<times> go_err) list \<Rightarrow> go_err option" where
  "last_failure isPrimary es = map_option snd (find (\<lambda>(r, e). fst r = isPrimary) (rev es))"

definition network_give_up :: "(racer \<times> go_err) list \<Rightarrow> go_err option" where
  "network_give_up es =
     (case last_failure True es of
        None \<Rightarrow> None
      | Some primaryError \<Rightarrow> if last_failure False es = None then None else Some primaryError)"

definition network_primaries :: "racer list" where
  "network_primaries = [(True, 0)]"

definition network_fallbacks :: "racer list" where
  "network_fallbacks = [(False, 0)]"

text \<open>
  \<^verbatim>\<open>dialParallelInterface\<close> races the primary interfaces, then the fallback interfaces;
  \<^verbatim>\<open>dialParallelInterfaceFastFallback\<close> races all of them at once, without a timer.
\<close>

definition interface_primaries :: "net_iface list \<Rightarrow> racer list" where
  "interface_primaries ps = map (Pair True) [0..<length ps]"

definition interface_fallbacks :: "net_iface list \<Rightarrow> racer list" where
  "interface_fallbacks fs = map (Pair False) [0..<length fs]"

definition interface_give_up ::
  "dial_lib \<Rightarrow> net_iface list \<Rightarrow> net_iface list \<Rightarrow> (racer \<times> go_err) list \<Rightarrow> go_err option" where
  "interface_give_up L ps fs es =
     (if length es = length ps + length fs then Some (dy_Errors L (map snd es)) else None)"

datatype interface_plan = NoInterface go_err | InterfaceRace race

definition dialParallelInterface_start ::
  "dial_lib \<Rightarrow> net_iface list \<Rightarrow> net_iface list \<Rightarrow> int \<Rightarrow> interface_plan" where
  "dialParallelInterface_start L ps fs fallbackDelay =
     (if length ps + length fs = 0 then NoInterface (ErrNew [''no available network interface''])
      else InterfaceRace (race_start (interface_primaries ps) (interface_fallbacks fs)
        (if fallbackDelay = 0 then dy_DefaultFallbackDelay L else fallbackDelay)))"

definition dialParallelInterfaceFastFallback_start ::
  "net_iface list \<Rightarrow> net_iface list \<Rightarrow> interface_plan" where
  "dialParallelInterfaceFastFallback_start ps fs =
     (if length ps + length fs = 0 then NoInterface (ErrNew [''no available network interface''])
      else InterfaceRace (race_start (interface_primaries ps @ interface_fallbacks fs) [] 0))"

lemma last_failure_None: "last_failure b es = None \<longleftrightarrow> (\<forall>(r, e) \<in> set es. fst r \<noteq> b)"
proof -
  have "last_failure b es = None \<longleftrightarrow> find (\<lambda>(r, e). fst r = b) (rev es) = None" by (simp add: last_failure_def)
  then show ?thesis unfolding find_None_iff by (cases b) force+
qed

interpretation net_race: dial_race network_primaries network_fallbacks network_give_up
proof (unfold_locales, goal_cases)
  case 1
  then show ?case by (simp add: network_primaries_def network_fallbacks_def)
next
  case (2 es)
  then have "fst ` set es \<subseteq> {(True, 0), (False, 0)}" by (simp add: network_primaries_def network_fallbacks_def)
  then have "last_failure b es = None \<longleftrightarrow> (b, 0) \<notin> fst ` set es" for b
    unfolding last_failure_None by (force simp: image_iff)
  moreover have "network_give_up es = None \<longleftrightarrow> last_failure True es = None \<or> last_failure False es = None"
    by (auto simp: network_give_up_def split: option.split)
  ultimately have "network_give_up es = None \<longleftrightarrow> (True, 0) \<notin> fst ` set es \<or> (False, 0) \<notin> fst ` set es" by simp
  with \<open>fst ` set es \<subseteq> {(True, 0), (False, 0)}\<close> show ?case
    by (auto simp: network_primaries_def network_fallbacks_def)
qed

lemma interface_racers_distinct: "distinct (interface_primaries ps @ interface_fallbacks fs)"
  by (auto simp: interface_primaries_def interface_fallbacks_def distinct_map inj_on_def)

lemma interface_give_up_law:
  assumes "distinct (map fst es)" and "set (map fst es) \<subseteq> set (interface_primaries ps @ interface_fallbacks fs)"
  shows "interface_give_up L ps fs es = None \<longleftrightarrow> set (map fst es) \<noteq> set (interface_primaries ps @ interface_fallbacks fs)"
proof -
  let ?R = "set (interface_primaries ps @ interface_fallbacks fs)"
  have "card ?R = length ps + length fs"
    using distinct_card [OF interface_racers_distinct [of ps fs]] by (simp add: interface_primaries_def interface_fallbacks_def)
  moreover have "card (set (map fst es)) = length es" using distinct_card [OF assms(1)] by simp
  ultimately show ?thesis
    using card_subset_eq [OF finite_set assms(2)] by (auto simp: interface_give_up_def)
qed

interpretation if_race: dial_race "interface_primaries ps" "interface_fallbacks fs" "interface_give_up L ps fs"
  for L ps fs
  by unfold_locales (rule interface_racers_distinct, rule interface_give_up_law)

interpretation fast_race: dial_race "interface_primaries ps @ interface_fallbacks fs" "[]" "interface_give_up L ps fs"
  for L ps fs
  by unfold_locales (simp_all only: append_Nil2 interface_racers_distinct interface_give_up_law simp_thms)

section \<open>No connection is lost\<close>

lemma interface_start_race:
  "dialParallelInterface_start L ps fs delay = InterfaceRace s0 \<Longrightarrow>
     interface_primaries ps @ interface_fallbacks fs \<noteq> [] \<and>
     (\<exists>d. s0 = race_start (interface_primaries ps) (interface_fallbacks fs) d)"
  "dialParallelInterfaceFastFallback_start ps fs = InterfaceRace s0 \<Longrightarrow>
     interface_primaries ps @ interface_fallbacks fs \<noteq> [] \<and>
     s0 = race_start (interface_primaries ps @ interface_fallbacks fs) [] 0"
  by (auto simp: dialParallelInterface_start_def dialParallelInterfaceFastFallback_start_def interface_primaries_def
      interface_fallbacks_def split: if_splits)

text \<open>
  C34: the races of the dialers, of two address families, of primary and fallback interfaces, and of all interfaces at
  once, end after boundedly many steps in whatever order the dials finish and the timer fires, and never get stuck before.
  Then one of the opened connections has been returned and all others are closed, or every racer has failed and an error
  is returned: no connection is leaked, and none that could be opened is missed.
\<close>

theorem dial_races_sound:
  "(race_run network_give_up network_fallbacks outcome n (race_start network_primaries network_fallbacks delay) s \<longrightarrow>
      race_goes_well network_give_up network_primaries network_fallbacks outcome n s) \<and>
   (dialParallelInterface_start L ps fs delay = InterfaceRace s0 \<longrightarrow>
      race_run (interface_give_up L ps fs) (interface_fallbacks fs) outcome n s0 s \<longrightarrow>
      race_goes_well (interface_give_up L ps fs) (interface_primaries ps) (interface_fallbacks fs) outcome n s) \<and>
   (dialParallelInterfaceFastFallback_start ps fs = InterfaceRace s0 \<longrightarrow>
      race_run (interface_give_up L ps fs) [] outcome n s0 s \<longrightarrow>
      race_goes_well (interface_give_up L ps fs) (interface_primaries ps @ interface_fallbacks fs) [] outcome n s)"
proof (intro conjI impI)
  assume "race_run network_give_up network_fallbacks outcome n (race_start network_primaries network_fallbacks delay) s"
  then show "race_goes_well network_give_up network_primaries network_fallbacks outcome n s"
    by (rule net_race.race_correct [rotated]) (simp add: network_primaries_def)
next
  assume "dialParallelInterface_start L ps fs delay = InterfaceRace s0"
    and run: "race_run (interface_give_up L ps fs) (interface_fallbacks fs) outcome n s0 s"
  with interface_start_race(1) obtain d where "interface_primaries ps @ interface_fallbacks fs \<noteq> []"
    and "s0 = race_start (interface_primaries ps) (interface_fallbacks fs) d" by blast
  with run show "race_goes_well (interface_give_up L ps fs) (interface_primaries ps) (interface_fallbacks fs) outcome n s"
    by (blast intro: if_race.race_correct)
next
  assume "dialParallelInterfaceFastFallback_start ps fs = InterfaceRace s0"
    and run: "race_run (interface_give_up L ps fs) [] outcome n s0 s"
  from interface_start_race(2) [OF this(1)] run
  show "race_goes_well (interface_give_up L ps fs) (interface_primaries ps @ interface_fallbacks fs) [] outcome n s"
    by (intro fast_race.race_correct) auto
qed

text \<open>
  Both families answer: the timer fires while the primary still dials, the fallback is received first, and the connection
  of the primary is closed.
\<close>

definition demo_outcome :: "racer \<Rightarrow> go_err + nat" where
  "demo_outcome r = Inr (if fst r then 1 else 2)"

definition demo_race_end :: race where
  "demo_race_end =
     \<lparr>ra_running = [], ra_waiting = [], ra_timer = None, ra_errors = [], ra_result = Some (Inr (False, 0)),
      ra_closed = [(True, 0)]\<rparr>"

lemma demo_race_run:
  "race_run network_give_up network_fallbacks demo_outcome 5 (race_start network_primaries network_fallbacks 300) demo_race_end"
proof -
  let ?run = "race_run network_give_up network_fallbacks demo_outcome"
  let ?s = "race_start network_primaries network_fallbacks 300"
  have "?run 0 ?s ?s" by (rule race_run.stop)
  from race_run.step [OF this race_step.fired [of _ 300]]
  have "?run 1 ?s (?s\<lparr>ra_timer := None, ra_running := [(True, 0), (False, 0)]\<rparr>)"
    by (simp add: race_start_def network_primaries_def network_fallbacks_def)
  from race_run.step [OF this race_step.dialled [of _ "[(True, 0)]" "(False, 0)" "[]"]]
  have "?run 2 ?s (?s\<lparr>ra_timer := None, ra_running := [(True, 0)], ra_waiting := [(False, 0)]\<rparr>)"
    by (simp add: race_start_def numeral_2_eq_2)
  from race_run.step [OF this race_step.received [of _ "[]" "(False, 0)" "[]"]]
  have "?run 3 ?s (?s\<lparr>ra_timer := None, ra_running := [(True, 0)], ra_result := Some (Inr (False, 0))\<rparr>)"
    by (simp add: race_start_def race_receive_def demo_outcome_def numeral_3_eq_3)
  from race_run.step [OF this race_step.dialled [of _ "[]" "(True, 0)" "[]"]]
  have "?run 4 ?s (?s\<lparr>ra_timer := None, ra_running := [], ra_waiting := [(True, 0)], ra_result := Some (Inr (False, 0))\<rparr>)"
    by (simp add: race_start_def eval_nat_numeral)
  from race_run.step [OF this race_step.abandoned [of _ "[]" "(True, 0)" "[]"]]
  show ?thesis
    by (simp add: race_start_def race_abandon_def demo_outcome_def demo_race_end_def eval_nat_numeral)
qed

theorem dial_races_sound_witness:
  "race_ended_well network_give_up network_primaries network_fallbacks demo_outcome demo_race_end \<and>
   ra_closed demo_race_end = [(True, 0)]"
  using dial_races_sound [of demo_outcome 5 300 demo_race_end demo_dial_lib "[]" "[]" demo_race_end] demo_race_run
  by (simp add: race_goes_well_def race_over_def demo_race_end_def)

end
