(* ===== verification/Connections.thy ===== *)
theory Connections
  imports Dial Bytes
begin

text \<open>
  \<^verbatim>\<open>route/conn.go\<close>: the connection manager. It keeps a list of the outgoing connections so that all of them can be
  closed at once, opens the outgoing side of a routed connection, and copies between the two sides with one goroutine for
  each direction. What is observable of a connection is the sequence of its events.
\<close>

section \<open>Tracked connections\<close>

text \<open>
  An element of the linked list is known by a number that is never used again (in the code, by its address). \<open>'c\<close> is what
  is closed.
\<close>

record 'c tracked =
  tk_element :: nat
  tk_conn :: 'c

record 'c conn_manager =
  cm_connections :: "'c tracked list"
  cm_fresh :: nat

definition NewConnectionManager :: "'c conn_manager" where
  "NewConnectionManager = \<lparr>cm_connections = [], cm_fresh = 0\<rparr>"

definition cm_Count :: "'c conn_manager \<Rightarrow> nat" where
  "cm_Count m = length (cm_connections m)"

text \<open>\<^verbatim>\<open>TrackConn\<close> and \<^verbatim>\<open>TrackPacketConn\<close>: the element is what the returned connection keeps.\<close>

definition cm_Track :: "'c \<Rightarrow> 'c conn_manager \<Rightarrow> nat \<times> 'c conn_manager" where
  "cm_Track conn m =
     (cm_fresh m,
      m\<lparr>cm_connections := cm_connections m @ [\<lparr>tk_element = cm_fresh m, tk_conn = conn\<rparr>], cm_fresh := Suc (cm_fresh m)\<rparr>)"

definition cm_Remove :: "nat \<Rightarrow> 'c conn_manager \<Rightarrow> 'c conn_manager" where
  "cm_Remove element m = m\<lparr>cm_connections := filter (\<lambda>t. tk_element t \<noteq> element) (cm_connections m)\<rparr>"

text \<open>\<^verbatim>\<open>Close\<close> of a tracked connection: the element leaves the list, then the connection is closed.\<close>

definition tracked_Close :: "nat \<Rightarrow> 'c \<Rightarrow> 'c conn_manager \<Rightarrow> 'c list \<times> 'c conn_manager" where
  "tracked_Close element conn m = ([conn], cm_Remove element m)"

text \<open>The loop of \<^verbatim>\<open>CloseAll\<close> takes the elements out one by one; then what was collected is closed.\<close>

fun close_all_loop :: "'c tracked list \<Rightarrow> 'c list \<Rightarrow> 'c conn_manager \<Rightarrow> 'c list \<times> 'c conn_manager" where
  "close_all_loop [] closers m = (closers, m)"
| "close_all_loop (t # ts) closers m = close_all_loop ts (closers @ [tk_conn t]) (cm_Remove (tk_element t) m)"

definition cm_CloseAll :: "'c conn_manager \<Rightarrow> 'c list \<times> 'c conn_manager" where
  "cm_CloseAll m = close_all_loop (cm_connections m) [] m"

definition cm_Close :: "'c conn_manager \<Rightarrow> 'c list \<times> 'c conn_manager" where
  "cm_Close m = cm_CloseAll m"

section \<open>Events\<close>

text \<open>
  \<open>LocalConn\<close> is the connection the inbound accepted, \<open>RemoteConn\<close> the one that was dialled. \<open>OnClose\<close> is a call of the
  handler \<^verbatim>\<open>onClose\<close>.
\<close>

datatype conn_side = LocalConn | RemoteConn

datatype conn_event =
    OnClose "go_err option"
  | CloseConn conn_side
  | CloseWrite conn_side
  | WriteConn conn_side bytes
  | Counted conn_side nat
  | UpdateDestination addr

fun is_OnClose :: "conn_event \<Rightarrow> bool" where
  "is_OnClose (OnClose _) = True"
| "is_OnClose _ = False"

definition on_close_count :: "conn_event list \<Rightarrow> nat" where
  "on_close_count es = length (filter is_OnClose es)"

text \<open>
  Functions outside the repository and the behaviour of the two connections: whether a handler was given,
  \<^verbatim>\<open>N.CloseOnHandshakeFailure\<close>, what reporting success answers, \<^verbatim>\<open>N.NeedHandshakeForWrite\<close>, the cached data of a
  reader, what a write answers, the errors a handshake ignores (\<^verbatim>\<open>E.IsMulti\<close> and \<^verbatim>\<open>E.IsTimeout\<close>), whether \<^verbatim>\<open>CloseWrite\<close>
  exists, the texts of addresses, \<^verbatim>\<open>N.DialSerial\<close>, the remote address of a connection, whether the inbound side is a
  \<^verbatim>\<open>NATPacketConn\<close>, and \<^verbatim>\<open>Socksaddr.IsValid\<close>.
\<close>

record conn_env =
  cv_lib :: dial_lib
  cv_onClose :: bool
  cv_CloseOnHandshakeFailure :: "go_err \<Rightarrow> conn_event list"
  cv_ReportSuccess :: "go_err option"
  cv_NeedHandshakeForWrite :: "conn_side \<Rightarrow> bool"
  cv_ReadCached :: "conn_side \<Rightarrow> bytes option"
  cv_Write :: "conn_side \<Rightarrow> bytes \<Rightarrow> go_err option"
  cv_ignored :: "go_err \<Rightarrow> bool"
  cv_WriteCloser :: "conn_side \<Rightarrow> bool"
  cv_AddrString :: "addr \<Rightarrow> string"
  cv_SocksaddrString :: "socksaddr \<Rightarrow> string"
  cv_DialSerial :: "socksaddr \<Rightarrow> addr list \<Rightarrow> go_err + nat"
  cv_RemoteAddr :: "nat \<Rightarrow> addr"
  cv_isNAT :: bool
  cv_IsValid :: "socksaddr \<Rightarrow> bool"

text \<open>A failed handshake closes the inbound connection and tells the handler, once if there is one.\<close>

definition conn_env_ok :: "conn_env \<Rightarrow> bool" where
  "conn_env_ok E \<longleftrightarrow>
     (\<forall>err. on_close_count (cv_CloseOnHandshakeFailure E err) = (if cv_onClose E then 1 else 0) \<and>
        CloseConn LocalConn \<in> set (cv_CloseOnHandshakeFailure E err))"

definition call_onClose :: "conn_env \<Rightarrow> go_err option \<Rightarrow> conn_event list" where
  "call_onClose E err = (if cv_onClose E then [OnClose err] else [])"

text \<open>\<^verbatim>\<open>common.Close(source, destination)\<close>\<close>

fun other_side :: "conn_side \<Rightarrow> conn_side" where
  "other_side LocalConn = RemoteConn"
| "other_side RemoteConn = LocalConn"

definition close_both :: "conn_side \<Rightarrow> conn_event list" where
  "close_both source = [CloseConn source, CloseConn (other_side source)]"

section \<open>Copying\<close>

text \<open>
  Where a goroutine is: copying, after the copy, before \<^verbatim>\<open>done.Swap\<close> with the error so far, after it with the old value of
  \<^verbatim>\<open>done\<close>, or at its end. The goroutine of a direction is known by its source.
\<close>

datatype copy_state =
    Copying
  | Copied "go_err option"
  | BeforeSwap "go_err option"
  | Swapped bool "go_err option"
  | CopyEnd

record pump =
  pm_done :: bool
  pm_goroutine :: "conn_side \<Rightarrow> copy_state"
  pm_events :: "conn_event list"

definition pump_start :: "conn_event list \<Rightarrow> pump" where
  "pump_start es = \<lparr>pm_done = False, pm_goroutine = (\<lambda>_. Copying), pm_events = es\<rparr>"

text \<open>\<^verbatim>\<open>connectionCopy\<close> between the copy and the swap; \<open>w\<close> is the answer of \<^verbatim>\<open>CloseWrite\<close>.\<close>

definition stream_before ::
  "conn_env \<Rightarrow> conn_side \<Rightarrow> go_err option \<Rightarrow> go_err option \<Rightarrow> conn_event list \<times> go_err option" where
  "stream_before E source r w =
     (let destination = other_side source
      in case r of
           Some e \<Rightarrow> (close_both source, Some e)
         | None \<Rightarrow>
             if cv_WriteCloser E destination
             then (CloseWrite destination # (if w = None then [] else close_both source), w)
             else ([CloseConn destination], None))"

text \<open>The rest of it: the goroutine that finds \<^verbatim>\<open>done\<close> already set tells the handler and closes both sides.\<close>

definition stream_after :: "conn_env \<Rightarrow> conn_side \<Rightarrow> bool \<Rightarrow> go_err option \<Rightarrow> conn_event list" where
  "stream_after E source old err = (if old then call_onClose E err @ close_both source else [])"

text \<open>\<^verbatim>\<open>packetConnectionCopy\<close>: the first goroutine tells the handler, both close.\<close>

definition packet_before ::
  "conn_env \<Rightarrow> conn_side \<Rightarrow> go_err option \<Rightarrow> go_err option \<Rightarrow> conn_event list \<times> go_err option" where
  "packet_before E source r w = ([], r)"

definition packet_after :: "conn_env \<Rightarrow> conn_side \<Rightarrow> bool \<Rightarrow> go_err option \<Rightarrow> conn_event list" where
  "packet_after E source old err = (if old then [] else call_onClose E err) @ close_both source"

type_synonym copy_before = "conn_side \<Rightarrow> go_err option \<Rightarrow> go_err option \<Rightarrow> conn_event list \<times> go_err option"
type_synonym copy_after = "conn_side \<Rightarrow> bool \<Rightarrow> go_err option \<Rightarrow> conn_event list"

text \<open>The two goroutines in any order; what a copy and a \<^verbatim>\<open>CloseWrite\<close> end with is arbitrary.\<close>

inductive pump_step :: "copy_before \<Rightarrow> copy_after \<Rightarrow> pump \<Rightarrow> pump \<Rightarrow> bool"
  for before :: copy_before and after :: copy_after where
  copied: "pm_goroutine s source = Copying \<Longrightarrow>
    pump_step before after s (s\<lparr>pm_goroutine := (pm_goroutine s)(source := Copied r)\<rparr>)"
| closing: "pm_goroutine s source = Copied r \<Longrightarrow> before source r w = (es, err) \<Longrightarrow>
    pump_step before after s
      (s\<lparr>pm_goroutine := (pm_goroutine s)(source := BeforeSwap err), pm_events := pm_events s @ es\<rparr>)"
| swap: "pm_goroutine s source = BeforeSwap err \<Longrightarrow>
    pump_step before after s
      (s\<lparr>pm_goroutine := (pm_goroutine s)(source := Swapped (pm_done s) err), pm_done := True\<rparr>)"
| finish: "pm_goroutine s source = Swapped old err \<Longrightarrow>
    pump_step before after s
      (s\<lparr>pm_goroutine := (pm_goroutine s)(source := CopyEnd), pm_events := pm_events s @ after source old err\<rparr>)"

definition pump_over :: "pump \<Rightarrow> bool" where
  "pump_over s \<longleftrightarrow> pm_goroutine s LocalConn = CopyEnd \<and> pm_goroutine s RemoteConn = CopyEnd"

section \<open>Opening the outgoing side\<close>

text \<open>
  \<^verbatim>\<open>kickWriteHandshake\<close>: a connection whose handshake is made by the first write gets the data that is cached, or
  nothing. \<open>Some es\<close> means that the connection has ended. \<^verbatim>\<open>done\<close> is not set yet when it is called.
\<close>

definition kickWriteHandshake :: "conn_env \<Rightarrow> conn_side \<Rightarrow> bool \<times> conn_event list" where
  "kickWriteHandshake E source =
     (let destination = other_side source
      in if \<not> cv_NeedHandshakeForWrite E destination then (False, [])
         else
           let cached = cv_ReadCached E source;
               payload = (case cached of None \<Rightarrow> [] | Some bs \<Rightarrow> bs);
               wrotePayload = (cached \<noteq> None);
               counted = (if wrotePayload then [Counted source (length payload), Counted destination (length payload)] else [])
           in case cv_Write E destination payload of
                None \<Rightarrow> (False, WriteConn destination payload # counted)
              | Some err \<Rightarrow>
                  if \<not> wrotePayload \<and> cv_ignored E err then (False, [WriteConn destination payload])
                  else (True, WriteConn destination payload # call_onClose E (Some err) @ close_both source))"

text \<open>How opening a connection ends: it has failed, or two goroutines copy.\<close>

record opened =
  op_events :: "conn_event list"
  op_running :: bool
  op_fragmented :: bool

definition open_failed :: "conn_event list \<Rightarrow> opened" where
  "open_failed es = \<lparr>op_events = es, op_running = False, op_fragmented = False\<rparr>"

definition metadata_opts :: "metadata \<Rightarrow> dial_opts" where
  "metadata_opts m =
     \<lparr>do_strategy = md_NetworkStrategy m, do_interfaceType = md_NetworkType m,
      do_fallbackInterfaceType = md_FallbackNetworkType m, do_fallbackDelay = md_FallbackDelay m\<rparr>"

fun join_comma :: "string list \<Rightarrow> string" where
  "join_comma [] = []"
| "join_comma [s] = s"
| "join_comma (s # ss) = s @ '','' @ join_comma ss"

definition remoteString :: "conn_env \<Rightarrow> metadata \<Rightarrow> string" where
  "remoteString E m =
     (if md_DestinationAddresses m \<noteq> []
      then ''['' @ join_comma (map (cv_AddrString E) (md_DestinationAddresses m)) @ '']''
      else cv_SocksaddrString E (md_Destination m))"

definition dialerString :: "dialer \<Rightarrow> string" where
  "dialerString d =
     (case dx_name d of None \<Rightarrow> [] | Some (typ, tag) \<Rightarrow> '' using outbound/'' @ typ @ ''['' @ tag @ '']'')"

definition dial_conn :: "dialer \<Rightarrow> dial_call \<Rightarrow> dial_trace \<Rightarrow> nat go_out \<times> dial_trace" where
  "dial_conn d c tr =
     (case dial d c tr of (Inr (conn, _), tr1) \<Rightarrow> (Ok conn, tr1) | (Inl e, tr1) \<Rightarrow> (Err e, tr1))"

text \<open>\<^verbatim>\<open>NewConnection\<close> up to the start of its goroutines.\<close>

definition NewConnection :: "conn_env \<Rightarrow> dialer \<Rightarrow> metadata \<Rightarrow> dial_trace \<Rightarrow> opened go_out \<times> dial_trace" where
  "NewConnection E this m tr =
     (case (if md_DestinationAddresses m \<noteq> [] \<or> dy_IsIP (cv_lib E) (md_Destination m)
            then DialSerialNetwork (cv_lib E) this ''tcp'' (md_Destination m) (md_DestinationAddresses m) (metadata_opts m) tr
            else dial_conn this (DialContext ''tcp'' (md_Destination m)) tr) of
        (Panic p, tr1) \<Rightarrow> (Panic p, tr1)
      | (Err err, tr1) \<Rightarrow>
          (Ok (open_failed (cv_CloseOnHandshakeFailure E
             (ErrCause err [''open connection to '', remoteString E m, dialerString this]))), tr1)
      | (Ok remoteConn, tr1) \<Rightarrow>
          (case cv_ReportSuccess E of
             Some err \<Rightarrow>
               (Ok (open_failed (CloseConn RemoteConn # cv_CloseOnHandshakeFailure E (ErrCause err [''report handshake success'']))), tr1)
           | None \<Rightarrow>
               (case kickWriteHandshake E LocalConn of
                  (True, es) \<Rightarrow> (Ok (open_failed es), tr1)
                | (False, es) \<Rightarrow>
                    (case kickWriteHandshake E RemoteConn of
                       (True, es') \<Rightarrow> (Ok (open_failed (es @ es')), tr1)
                     | (False, es') \<Rightarrow>
                         (Ok \<lparr>op_events = es @ es', op_running = True,
                              op_fragmented = (md_TLSFragment m \<or> md_TLSRecordFragment m)\<rparr>, tr1)))))"

section \<open>Packets\<close>

definition PortProtocols :: "16 word \<Rightarrow> string" where
  "PortProtocols port =
     (if port = 53 then ''dns'' else if port = 123 then ''ntp'' else if port = 3478 then ''stun''
      else if port = 443 then ''quic'' else [])"

text \<open>In nanoseconds; a missing key is zero.\<close>

definition ProtocolTimeouts :: "string \<Rightarrow> int" where
  "ProtocolTimeouts protocol =
     (if protocol = ''dns'' \<or> protocol = ''ntp'' \<or> protocol = ''stun'' then 10 * 1000000000
      else if protocol = ''quic'' \<or> protocol = ''dtls'' then 30 * 1000000000 else 0)"

definition udp_timeout :: "metadata \<Rightarrow> int" where
  "udp_timeout m =
     (if 0 < md_UDPTimeout m then md_UDPTimeout m
      else
        let protocol = (if md_Protocol m = [] then PortProtocols (sa_Port (md_Destination m)) else md_Protocol m)
        in if protocol \<noteq> [] then ProtocolTimeouts protocol else 0)"

text \<open>How the addresses of packets are translated: a wrapper around the remote side with its two addresses.\<close>

datatype nat_wrap =
    NoNAT
  | UpdateNAT addr
  | UnidirectionalNAT socksaddr socksaddr
  | BidirectionalNAT socksaddr socksaddr
  | DestinationNAT socksaddr socksaddr

definition packet_nat :: "conn_env \<Rightarrow> metadata \<Rightarrow> addr \<Rightarrow> nat_wrap" where
  "packet_nat E m destinationAddress =
     (if addr_IsValid destinationAddress
      then
        let originDestination = (if cv_IsValid E (md_RouteOriginalDestination m) then md_RouteOriginalDestination m
                                 else md_Destination m);
            translated = dy_SocksaddrFrom (cv_lib E) destinationAddress (sa_Port (md_Destination m))
        in if cv_isNAT E then UpdateNAT destinationAddress
           else if md_Destination m \<noteq> translated
           then (if md_UDPDisableDomainUnmapping m then UnidirectionalNAT translated originDestination
                 else BidirectionalNAT translated originDestination)
           else NoNAT
      else if cv_IsValid E (md_RouteOriginalDestination m) \<and> md_RouteOriginalDestination m \<noteq> md_Destination m
      then DestinationNAT (md_Destination m) (md_RouteOriginalDestination m)
      else NoNAT)"

text \<open>The dial of \<^verbatim>\<open>NewPacketConnection\<close>: a connected socket, or one that listens.\<close>

definition packet_connect :: "conn_env \<Rightarrow> dialer \<Rightarrow> metadata \<Rightarrow> dial_trace \<Rightarrow> nat go_out \<times> dial_trace" where
  "packet_connect E this m tr =
     (if md_DestinationAddresses m \<noteq> []
      then (if dx_parallelInterface this
            then DialSerialNetwork (cv_lib E) this ''udp'' (md_Destination m) (md_DestinationAddresses m) (metadata_opts m) tr
            else (case cv_DialSerial E (md_Destination m) (md_DestinationAddresses m) of
                    Inl e \<Rightarrow> (Err e, tr) | Inr conn \<Rightarrow> (Ok conn, tr)))
      else if dy_IsIP (cv_lib E) (md_Destination m)
      then (if dx_parallelInterface this
            then DialSerialNetwork (cv_lib E) this ''udp'' (md_Destination m) (md_DestinationAddresses m) (metadata_opts m) tr
            else dial_conn this (DialContext ''udp'' (md_Destination m)) tr)
      else dial_conn this (DialContext ''udp'' (md_Destination m)) tr)"

definition packet_listen ::
  "conn_env \<Rightarrow> dialer \<Rightarrow> metadata \<Rightarrow> dial_trace \<Rightarrow> (nat \<times> addr) go_out \<times> dial_trace" where
  "packet_listen E this m tr =
     (if md_DestinationAddresses m \<noteq> []
      then listen_serial_network (cv_lib E) this (md_Destination m) (md_DestinationAddresses m) (metadata_opts m) tr
      else (case dial_conn this (ListenPacket (md_Destination m)) tr of
              (Ok conn, tr1) \<Rightarrow> (Ok (conn, NoAddr), tr1)
            | (Err e, tr1) \<Rightarrow> (Err e, tr1)
            | (Panic p, tr1) \<Rightarrow> (Panic p, tr1)))"

definition packet_dial ::
  "conn_env \<Rightarrow> dialer \<Rightarrow> metadata \<Rightarrow> dial_trace \<Rightarrow> (nat \<times> addr) go_out \<times> dial_trace" where
  "packet_dial E this m tr =
     (if md_UDPConnect m
      then
        (case packet_connect E this m tr of
           (Panic p, tr1) \<Rightarrow> (Panic p, tr1)
         | (Err err, tr1) \<Rightarrow>
             (Err (ErrCause err [''open packet connection to '', remoteString E m, dialerString this]), tr1)
         | (Ok conn, tr1) \<Rightarrow>
             (Ok (conn, if cv_RemoteAddr E conn \<noteq> sa_Addr (md_Destination m) then cv_RemoteAddr E conn else NoAddr), tr1))
      else
        (case packet_listen E this m tr of
           (Panic p, tr1) \<Rightarrow> (Panic p, tr1)
         | (Err err, tr1) \<Rightarrow> (Err (ErrCause err [''listen packet connection using '', dialerString this]), tr1)
         | (Ok r, tr1) \<Rightarrow> (Ok r, tr1)))"

record opened_packet = opened +
  op_nat :: nat_wrap
  op_timeout :: "int option"

definition NewPacketConnection ::
  "conn_env \<Rightarrow> dialer \<Rightarrow> metadata \<Rightarrow> dial_trace \<Rightarrow> opened_packet go_out \<times> dial_trace" where
  "NewPacketConnection E this m tr =
     (let failed = (\<lambda>es. \<lparr>op_events = es, op_running = False, op_fragmented = False, op_nat = NoNAT, op_timeout = None\<rparr>)
      in case packet_dial E this m tr of
           (Panic p, tr1) \<Rightarrow> (Panic p, tr1)
         | (Err err, tr1) \<Rightarrow> (Ok (failed (cv_CloseOnHandshakeFailure E err)), tr1)
         | (Ok (conn, destinationAddress), tr1) \<Rightarrow>
             (case cv_ReportSuccess E of
                Some err \<Rightarrow> (Ok (failed [CloseConn LocalConn, CloseConn RemoteConn]), tr1)
              | None \<Rightarrow>
                  let wrap = packet_nat E m destinationAddress; timeout = udp_timeout m
                  in (Ok \<lparr>op_events = (case wrap of UpdateNAT a \<Rightarrow> [UpdateDestination a] | _ \<Rightarrow> []), op_running = True,
                          op_fragmented = False, op_nat = wrap,
                          op_timeout = (if 0 < timeout then Some timeout else None)\<rparr>, tr1)))"

end
