(* ===== verification/Network.thy ===== *)
theory Network
  imports Connections Router_Lifecycle Inbound_Manager Outbound_Manager DNS_Client
begin

unbundle bit_operations_syntax

text \<open>
  \<^verbatim>\<open>route/network.go\<close>: the network manager. It owns the monitors of the operating system, keeps the known network interfaces
  and the state of the wireless network, and resets all connections when the default interface changes.
\<close>

section \<open>State\<close>

text \<open>The platform, and what the parts of the operating system answer when they are made, started and closed.\<close>

datatype net_part = NetworkMonitor | InterfaceMonitor | PowerListener | PackageManager | WIFIMonitor

record net_env =
  ne_IsLinux :: bool
  ne_IsDarwin :: bool
  ne_IsWindows :: bool
  ne_IsAndroid :: bool
  ne_Make :: "net_part \<Rightarrow> go_err option"
  ne_Start :: "net_part \<Rightarrow> go_err option"
  ne_Close :: "net_part \<Rightarrow> go_err option"
  ne_UsePlatformWIFIMonitor :: bool
  ne_UsePlatformNetworkInterfaces :: bool

definition demo_net_env :: net_env where
  "demo_net_env =
     \<lparr>ne_IsLinux = True, ne_IsDarwin = False, ne_IsWindows = False, ne_IsAndroid = False, ne_Make = (\<lambda>_. None),
      ne_Start = (\<lambda>_. None), ne_Close = (\<lambda>_. None), ne_UsePlatformWIFIMonitor = False,
      ne_UsePlatformNetworkInterfaces = False\<rparr>"

record network_opts =
  np_AutoDetectInterface :: bool
  np_OverrideAndroidVPN :: bool
  np_DefaultInterface :: string
  np_DefaultMark :: "32 word"
  np_DefaultNetworkStrategy :: "nat option"
  np_DefaultNetworkType :: "interface_type list"
  np_DefaultFallbackNetworkType :: "interface_type list"
  np_DefaultFallbackDelay :: int
  np_DomainResolver :: "string \<times> query_options"

record network_defaults =
  nd_BindInterface :: string
  nd_RoutingMark :: "32 word"
  nd_DomainResolver :: string
  nd_DomainResolveOptions :: query_options
  nd_NetworkStrategy :: "nat option"
  nd_NetworkType :: "interface_type list"
  nd_FallbackNetworkType :: "interface_type list"
  nd_FallbackDelay :: int

text \<open>
  A field that can be nil is a flag here. \<open>nw_connectionManager\<close> tells whether a connection manager was registered when
  the network manager was made.
\<close>

record network_manager =
  nw_autoDetectInterface :: bool
  nw_defaultOptions :: network_defaults
  nw_autoRedirectOutputMark :: "32 word"
  nw_networkInterfaces :: "net_iface list"
  nw_networkMonitor :: bool
  nw_interfaceMonitor :: bool
  nw_packageManager :: bool
  nw_powerListener :: bool
  nw_wifiMonitor :: bool
  nw_platformInterface :: bool
  nw_connectionManager :: bool
  nw_needWIFIState :: bool
  nw_wifiState :: "string \<times> string"
  nw_started :: bool

section \<open>Making, starting and closing\<close>

definition network_check :: "net_env \<Rightarrow> network_opts \<Rightarrow> go_err option" where
  "network_check N o1 =
     (let desktop = (ne_IsLinux N \<or> ne_IsDarwin N \<or> ne_IsWindows N)
      in if np_AutoDetectInterface o1 \<and> \<not> desktop
         then Some (ErrNew [''`auto_detect_interface` is only supported on Linux, Windows and macOS''])
         else if np_OverrideAndroidVPN o1 \<and> \<not> ne_IsAndroid N
         then Some (ErrNew [''`override_android_vpn` is only supported on Android''])
         else if np_DefaultInterface o1 \<noteq> [] \<and> \<not> desktop
         then Some (ErrNew [''`default_interface` is only supported on Linux, Windows and macOS''])
         else if np_DefaultMark o1 \<noteq> 0 \<and> \<not> ne_IsLinux N
         then Some (ErrNew [''`default_mark` is only supported on linux''])
         else None)"

definition strategy_check :: "network_opts \<Rightarrow> go_err option" where
  "strategy_check o1 =
     (if np_DefaultNetworkStrategy o1 = None then None
      else if np_DefaultInterface o1 \<noteq> []
      then Some (ErrNew [''`default_network_strategy` is conflict with `default_interface`''])
      else if \<not> np_AutoDetectInterface o1
      then Some (ErrNew [''`auto_detect_interface` is required by `default_network_strategy`''])
      else None)"

definition network_defaults_of :: "network_opts \<Rightarrow> network_defaults" where
  "network_defaults_of o1 =
     \<lparr>nd_BindInterface = np_DefaultInterface o1, nd_RoutingMark = np_DefaultMark o1,
      nd_DomainResolver = fst (np_DomainResolver o1), nd_DomainResolveOptions = snd (np_DomainResolver o1),
      nd_NetworkStrategy = np_DefaultNetworkStrategy o1, nd_NetworkType = np_DefaultNetworkType o1,
      nd_FallbackNetworkType = np_DefaultFallbackNetworkType o1, nd_FallbackDelay = np_DefaultFallbackDelay o1\<rparr>"

definition NewNetworkManager ::
  "net_env \<Rightarrow> bool \<Rightarrow> bool \<Rightarrow> network_opts \<Rightarrow> action_opts rule_opt list \<Rightarrow> dns_action_opts rule_opt list \<Rightarrow>
   network_manager go_out" where
  "NewNetworkManager N platform connections o1 rules dnsRules =
     (case network_check N o1 of
        Some e \<Rightarrow> Err e
      | None \<Rightarrow>
          let nm = \<lparr>nw_autoDetectInterface = np_AutoDetectInterface o1, nw_defaultOptions = network_defaults_of o1,
                    nw_autoRedirectOutputMark = 0, nw_networkInterfaces = [], nw_networkMonitor = False,
                    nw_interfaceMonitor = False, nw_packageManager = False, nw_powerListener = False, nw_wifiMonitor = False,
                    nw_platformInterface = platform, nw_connectionManager = connections,
                    nw_needWIFIState = (hasRule rules isWIFIRule \<or> hasRule dnsRules isWIFIRule),
                    nw_wifiState = ([], []), nw_started = False\<rparr>
          in case strategy_check o1 of
               Some e \<Rightarrow> Err e
             | None \<Rightarrow>
                 if platform then Ok (nm\<lparr>nw_interfaceMonitor := True\<rparr>)
                 else (case ne_Make N NetworkMonitor of
                         Some err \<Rightarrow>
                           if \<not> np_AutoDetectInterface o1 \<or> err = ErrInvalid then Ok nm
                           else Err (ErrCause err [''create network monitor''])
                       | None \<Rightarrow>
                           if ne_Make N InterfaceMonitor \<noteq> None
                           then Err (ErrNew [''auto_detect_interface unsupported on current platform''])
                           else Ok (nm\<lparr>nw_networkMonitor := True, nw_interfaceMonitor := True\<rparr>)))"

text \<open>\<^verbatim>\<open>Start\<close> of one part that is there.\<close>

definition start_part :: "net_env \<Rightarrow> bool \<Rightarrow> net_part \<Rightarrow> go_err option" where
  "start_part N present part = (if present then ne_Start N part else None)"

definition nw_Start :: "net_env \<Rightarrow> start_stage \<Rightarrow> network_manager \<Rightarrow> unit go_out \<times> network_manager" where
  "nw_Start N stage nm =
     (case stage of
        StartStateInitialize \<Rightarrow>
          (case start_part N (nw_networkMonitor nm) NetworkMonitor of
             Some err \<Rightarrow> (Err err, nm)
           | None \<Rightarrow> (of_error (start_part N (nw_interfaceMonitor nm) InterfaceMonitor), nm))
      | StartStateStart \<Rightarrow>
          let nm1 = (if ne_IsWindows N \<and> ne_Make N PowerListener = None then nm\<lparr>nw_powerListener := True\<rparr> else nm)
          in (case start_part N (nw_powerListener nm1) PowerListener of
                Some err \<Rightarrow> (Err (ErrCause err [''start power listener'']), nm1)
              | None \<Rightarrow>
                  if ne_IsAndroid N \<and> \<not> nw_platformInterface nm1
                  then (case ne_Make N PackageManager of
                          Some err \<Rightarrow> (Err (ErrCause err [''create package manager'']), nm1)
                        | None \<Rightarrow>
                            (Ok (), if ne_Start N PackageManager = None then nm1\<lparr>nw_packageManager := True\<rparr> else nm1))
                  else (Ok (), nm1))
      | StartStatePostStart \<Rightarrow>
          let nm1 = (if nw_needWIFIState nm \<and> \<not> (nw_platformInterface nm \<and> ne_UsePlatformWIFIMonitor N) \<and>
                        ne_Make N WIFIMonitor = None
                     then nm\<lparr>nw_wifiMonitor := True\<rparr> else nm)
          in (Ok (), nm1\<lparr>nw_started := True\<rparr>)
      | StartStateStarted \<Rightarrow> (Ok (), nm))"

text \<open>The rule-sets are asked in order whether they look at the wireless network.\<close>

fun nw_Initialize :: "rule_set_metadata list \<Rightarrow> network_manager \<Rightarrow> network_manager" where
  "nw_Initialize [] nm = nm"
| "nw_Initialize (metadata # ms) nm =
     (if rm_ContainsWIFIRule metadata then nm\<lparr>nw_needWIFIState := True\<rparr> else nw_Initialize ms nm)"

text \<open>\<^verbatim>\<open>Close\<close>: all parts are closed, the errors are appended.\<close>

definition close_part :: "net_env \<Rightarrow> bool \<Rightarrow> net_part \<Rightarrow> string \<Rightarrow> go_err list" where
  "close_part N present part name =
     (if present then (case ne_Close N part of None \<Rightarrow> [] | Some err \<Rightarrow> [ErrCause err [''close '' @ name]]) else [])"

definition nw_Close :: "net_env \<Rightarrow> network_manager \<Rightarrow> go_err list" where
  "nw_Close N nm =
     close_part N (nw_packageManager nm) PackageManager ''package manager'' @
     close_part N (nw_powerListener nm) PowerListener ''power listener'' @
     close_part N (nw_interfaceMonitor nm) InterfaceMonitor ''interface monitor'' @
     close_part N (nw_networkMonitor nm) NetworkMonitor ''network monitor'' @
     close_part N (nw_wifiMonitor nm) WIFIMonitor ''WIFI monitor''"

section \<open>Interfaces\<close>

text \<open>
  \<^verbatim>\<open>UpdateInterfaces\<close>: \<open>finder\<close> is what the interface finder answers to an update, \<open>platformInterfaces\<close> what the platform
  reports, \<open>ByIndex\<close> the look-up in the finder. \<^verbatim>\<open>net.FlagUp\<close> is the lowest bit.
\<close>

definition iface_up :: "net_iface \<Rightarrow> bool" where
  "iface_up it \<longleftrightarrow> ni_Flags it AND 1 \<noteq> 0"

definition take_iface :: "(int \<Rightarrow> net_iface option) \<Rightarrow> net_iface \<Rightarrow> net_iface" where
  "take_iface ByIndex it =
     (case ByIndex (ni_Index it) of
        None \<Rightarrow> it
      | Some iif \<Rightarrow> it\<lparr>ni_Name := ni_Name iif, ni_Addresses := ni_Addresses iif, ni_Index := ni_Index iif, ni_Flags := ni_Flags iif\<rparr>)"

definition UpdateInterfaces ::
  "dial_lib \<Rightarrow> net_env \<Rightarrow> go_err option \<Rightarrow> go_err + net_iface list \<Rightarrow> (int \<Rightarrow> net_iface option) \<Rightarrow> network_manager \<Rightarrow>
   unit go_out \<times> network_manager" where
  "UpdateInterfaces L N finder platformInterfaces ByIndex nm =
     (if \<not> nw_platformInterface nm \<or> \<not> ne_UsePlatformNetworkInterfaces N then (of_error finder, nm)
      else (case platformInterfaces of
              Inl err \<Rightarrow> (Err err, nm)
            | Inr interfaces \<Rightarrow>
                if ne_IsDarwin N \<and> finder \<noteq> None then (of_error finder, nm)
                else
                  let known = (if ne_IsDarwin N then map (take_iface ByIndex) interfaces else interfaces)
                  in (Ok (), nm\<lparr>nw_networkInterfaces := dy_FilterInterface L known iface_up\<rparr>)))"

text \<open>
  The default interface of the monitor, with what is known of it. A manager without an interface monitor panics: the
  field is not checked.
\<close>

definition DefaultNetworkInterface :: "net_iface option \<Rightarrow> network_manager \<Rightarrow> net_iface option go_out" where
  "DefaultNetworkInterface defaultInterface nm =
     (if \<not> nw_interfaceMonitor nm then Panic ''nil pointer dereference''
      else
        (case defaultInterface of
           None \<Rightarrow> Ok None
         | Some iif \<Rightarrow>
             (case find (\<lambda>it. ni_Index it = ni_Index iif) (nw_networkInterfaces nm) of
                Some it \<Rightarrow> Ok (Some it)
              | None \<Rightarrow> Ok (Some (iif\<lparr>ni_Type := InterfaceTypeWIFI, ni_Expensive := False, ni_Constrained := False\<rparr>)))))"

definition RegisterAutoRedirectOutputMark :: "32 word \<Rightarrow> network_manager \<Rightarrow> unit go_out \<times> network_manager" where
  "RegisterAutoRedirectOutputMark mark nm =
     (if 0 < nw_autoRedirectOutputMark nm then (Err (ErrNew [''only one auto-redirect can be configured'']), nm)
      else (Ok (), nm\<lparr>nw_autoRedirectOutputMark := mark\<rparr>))"

section \<open>Wireless networks\<close>

definition onWIFIStateChanged :: "string \<times> string \<Rightarrow> network_manager \<Rightarrow> network_manager" where
  "onWIFIStateChanged state nm = (if state \<noteq> nw_wifiState nm then nm\<lparr>nw_wifiState := state\<rparr> else nm)"

definition UpdateWIFIState ::
  "net_env \<Rightarrow> string \<times> string \<Rightarrow> string \<times> string \<Rightarrow> network_manager \<Rightarrow> network_manager" where
  "UpdateWIFIState N monitorState platformState nm =
     (if nw_wifiMonitor nm then onWIFIStateChanged monitorState nm
      else if nw_platformInterface nm \<and> ne_UsePlatformWIFIMonitor N then onWIFIStateChanged platformState nm
      else nm)"

section \<open>Resetting the network\<close>

text \<open>
  What a reset does: the connections that were closed and the components that were told. \<open>listens\<close> tells which components
  have the method \<^verbatim>\<open>InterfaceUpdated\<close>.
\<close>

datatype 'c net_event =
    NetworkPause
  | NetworkWake
  | DevicePause
  | DeviceWake
  | ConnectionsClosed "'c list"
  | InterfaceUpdated comp

definition nw_ResetNetwork ::
  "(comp \<Rightarrow> bool) \<Rightarrow> endpoint_manager \<Rightarrow> inbound_manager \<Rightarrow> outbound_manager \<Rightarrow> network_manager \<Rightarrow> 'c conn_manager \<Rightarrow>
   'c net_event list \<times> 'c conn_manager" where
  "nw_ResetNetwork listens em im om nm cm =
     (case (if nw_connectionManager nm
            then (case cm_CloseAll cm of (closed, cm1) \<Rightarrow> ([ConnectionsClosed closed], cm1))
            else ([], cm)) of
        (es, cm1) \<Rightarrow>
          (es @ map InterfaceUpdated (filter listens (em_Endpoints em)) @
                map InterfaceUpdated (filter listens (im_Inbounds im)) @
                map InterfaceUpdated (filter listens (om_Outbounds om)), cm1))"

text \<open>
  \<open>updateWIFI\<close> is \<^verbatim>\<open>UpdateWIFIState\<close> with the states of that moment; \<open>known\<close> is \<^verbatim>\<open>common.Find\<close>, which answers with an
  interface without a name when there is none.
\<close>

definition notifyInterfaceUpdate ::
  "net_env \<Rightarrow> (net_iface list \<Rightarrow> (net_iface \<Rightarrow> bool) \<Rightarrow> net_iface) \<Rightarrow> (network_manager \<Rightarrow> network_manager) \<Rightarrow>
   (comp \<Rightarrow> bool) \<Rightarrow> endpoint_manager \<Rightarrow> inbound_manager \<Rightarrow> outbound_manager \<Rightarrow> net_iface option \<Rightarrow>
   network_manager \<Rightarrow> 'c conn_manager \<Rightarrow> 'c net_event list \<times> network_manager \<times> 'c conn_manager" where
  "notifyInterfaceUpdate N known updateWIFI listens em im om defaultInterface nm cm =
     (case defaultInterface of
        None \<Rightarrow> ([NetworkPause], nm, cm)
      | Some iif \<Rightarrow>
          if \<not> (ne_IsAndroid N \<and> \<not> nw_platformInterface nm) \<and> nw_platformInterface nm \<and>
             ni_Name (known (nw_networkInterfaces nm) (\<lambda>it. ni_Index it = ni_Index iif)) = []
          then ([NetworkWake], nm, cm)
          else
            let nm1 = updateWIFI nm
            in if \<not> nw_started nm1 then ([NetworkWake], nm1, cm)
               else (case nw_ResetNetwork listens em im om nm1 cm of (es, cm1) \<Rightarrow> (NetworkWake # es, nm1, cm1)))"

datatype power_event = EVENT_SUSPEND | EVENT_RESUME | EVENT_RESUME_AUTOMATIC | OTHER_EVENT

definition notifyWindowsPowerEvent ::
  "bool \<Rightarrow> (comp \<Rightarrow> bool) \<Rightarrow> endpoint_manager \<Rightarrow> inbound_manager \<Rightarrow> outbound_manager \<Rightarrow> power_event \<Rightarrow>
   network_manager \<Rightarrow> 'c conn_manager \<Rightarrow> 'c net_event list \<times> 'c conn_manager" where
  "notifyWindowsPowerEvent devicePaused listens em im om event nm cm =
     (case nw_ResetNetwork listens em im om nm cm of
        (es, cm1) \<Rightarrow>
          (case event of
             EVENT_SUSPEND \<Rightarrow> (DevicePause # es, cm1)
           | EVENT_RESUME \<Rightarrow> if \<not> devicePaused then ([], cm) else (DeviceWake # es, cm1)
           | EVENT_RESUME_AUTOMATIC \<Rightarrow> (DeviceWake # es, cm1)
           | OTHER_EVENT \<Rightarrow> ([], cm)))"

end
