(* ===== verification/Box.thy ===== *)
theory Box
  imports Options Network DNS_Router Service_Manager Router_Lifecycle
begin

text \<open>
  \<^verbatim>\<open>box.go\<close>: a box is the whole program. It is made from a configuration, which creates the managers and everything they
  manage, started in stages, and closed. The managers, the two routers, the network manager and the connection manager are
  those of their own theories; the internal services (cache file, Clash server, V2Ray server, time service) and the
  log factory are components of which only the calls are seen.
\<close>

record ('c, 'd, 'r, 'm) box =
  bx_logger :: comp
  bx_network :: network_manager
  bx_endpoint :: endpoint_manager
  bx_inbound :: inbound_manager
  bx_outbound :: outbound_manager
  bx_service :: service_manager
  bx_dnsTransport :: transport_manager
  bx_dnsRouter :: "('c, 'd, 'r, 'm) dns_router"
  bx_connection :: "nat conn_manager"
  bx_router :: router
  bx_trackers :: "string list"
  bx_internalService :: "comp list"
  bx_done :: bool

text \<open>
  The surroundings at run time: what components answer, the parts of the operating system, the result of starting the
  rule-sets concurrently, and \<^verbatim>\<open>E.Errors\<close>, to which \<^verbatim>\<open>E.Append\<close> amounts in the end.
\<close>

record box_env =
  bv_S :: "comp sing_common"
  bv_calls :: call_env
  bv_net :: net_env
  bv_ruleSets :: "go_err option"
  bv_androidPlatform :: bool
  bv_Errors :: "go_err list \<Rightarrow> go_err"

type_synonym ('c, 'd, 'r, 'm) world = "('c, 'd, 'r, 'm) box \<times> trace"

text \<open>Steps one after the other; the first that does not end with \<open>Ok\<close> is the last.\<close>

fun run_steps :: "('s \<Rightarrow> unit go_out \<times> 's) list \<Rightarrow> 's \<Rightarrow> unit go_out \<times> 's" where
  "run_steps [] s = (Ok (), s)"
| "run_steps (f # fs) s =
     (case f s of (Ok _, s') \<Rightarrow> run_steps fs s' | (Err e, s') \<Rightarrow> (Err e, s') | (Panic p, s') \<Rightarrow> (Panic p, s'))"

section \<open>Starting\<close>

text \<open>\<^verbatim>\<open>Start\<close> of each part, as a change of the box and the trace of calls.\<close>

definition start_network :: "box_env \<Rightarrow> start_stage \<Rightarrow> ('c, 'd, 'r, 'm) world \<Rightarrow> unit go_out \<times> ('c, 'd, 'r, 'm) world" where
  "start_network E stage = (\<lambda>(b, tr).
     case nw_Start (bv_net E) stage (bx_network b) of (r, nm) \<Rightarrow> (r, b\<lparr>bx_network := nm\<rparr>, tr))"

definition start_dnsTransport :: "box_env \<Rightarrow> start_stage \<Rightarrow> ('c, 'd, 'r, 'm) world \<Rightarrow> unit go_out \<times> ('c, 'd, 'r, 'm) world" where
  "start_dnsTransport E stage = (\<lambda>(b, tr).
     case tm_Start (bv_S E) (bv_calls E) stage (bx_dnsTransport b) tr of (r, m, tr1) \<Rightarrow> (r, b\<lparr>bx_dnsTransport := m\<rparr>, tr1))"

definition start_dnsRouter :: "start_stage \<Rightarrow> ('c, 'd, 'r, 'm) world \<Rightarrow> unit go_out \<times> ('c, 'd, 'r, 'm) world" where
  "start_dnsRouter stage = (\<lambda>(b, tr).
     case dns_Start stage (rr_store (bx_router b)) (bx_dnsRouter b) of
       (r, store, d) \<Rightarrow> (r, b\<lparr>bx_dnsRouter := d, bx_router := (bx_router b)\<lparr>rr_store := store\<rparr>\<rparr>, tr))"

definition start_connection :: "start_stage \<Rightarrow> ('c, 'd, 'r, 'm) world \<Rightarrow> unit go_out \<times> ('c, 'd, 'r, 'm) world" where
  "start_connection stage w = (Ok (), w)"

text \<open>Once its rule-sets are started, the router tells the network manager what they look at.\<close>

definition sets_metadata :: "router \<Rightarrow> rule_set_metadata list" where
  "sets_metadata r = concat (map (\<lambda>tag. case rr_store r tag of None \<Rightarrow> [] | Some s \<Rightarrow> [lr_metadata s]) (rr_sets r))"

definition start_router :: "box_env \<Rightarrow> start_stage \<Rightarrow> ('c, 'd, 'r, 'm) world \<Rightarrow> unit go_out \<times> ('c, 'd, 'r, 'm) world" where
  "start_router E stage = (\<lambda>(b, tr).
     case router_Start (bv_ruleSets E) (bv_androidPlatform E) stage (bx_router b) of
       (r, rt) \<Rightarrow>
         (r, b\<lparr>bx_router := rt,
               bx_network := (if stage = StartStateStart \<and> is_ok r then nw_Initialize (sets_metadata rt) (bx_network b)
                              else bx_network b)\<rparr>, tr))"

definition start_outbound_manager :: "box_env \<Rightarrow> start_stage \<Rightarrow> ('c, 'd, 'r, 'm) world \<Rightarrow> unit go_out \<times> ('c, 'd, 'r, 'm) world" where
  "start_outbound_manager E stage = (\<lambda>(b, tr).
     case om_Start (bv_S E) (bv_calls E) (bx_endpoint b) stage (bx_outbound b) tr of
       (r, m, tr1) \<Rightarrow> (r, b\<lparr>bx_outbound := m\<rparr>, tr1))"

definition start_inbound_manager :: "box_env \<Rightarrow> start_stage \<Rightarrow> ('c, 'd, 'r, 'm) world \<Rightarrow> unit go_out \<times> ('c, 'd, 'r, 'm) world" where
  "start_inbound_manager E stage = (\<lambda>(b, tr).
     case im_Start (bv_calls E) stage (bx_inbound b) tr of (r, m, tr1) \<Rightarrow> (r, b\<lparr>bx_inbound := m\<rparr>, tr1))"

definition start_endpoint_manager :: "box_env \<Rightarrow> start_stage \<Rightarrow> ('c, 'd, 'r, 'm) world \<Rightarrow> unit go_out \<times> ('c, 'd, 'r, 'm) world" where
  "start_endpoint_manager E stage = (\<lambda>(b, tr).
     case em_Start (bv_calls E) stage (bx_endpoint b) tr of (r, m, tr1) \<Rightarrow> (r, b\<lparr>bx_endpoint := m\<rparr>, tr1))"

definition start_service_manager :: "box_env \<Rightarrow> start_stage \<Rightarrow> ('c, 'd, 'r, 'm) world \<Rightarrow> unit go_out \<times> ('c, 'd, 'r, 'm) world" where
  "start_service_manager E stage = (\<lambda>(b, tr).
     case sm_Start (bv_calls E) stage (bx_service b) tr of (r, m, tr1) \<Rightarrow> (r, b\<lparr>bx_service := m\<rparr>, tr1))"

text \<open>An internal service is a \<^verbatim>\<open>LifecycleService\<close>; the time service is wrapped as a legacy one.\<close>

definition start_internal :: "box_env \<Rightarrow> comp \<Rightarrow> start_stage \<Rightarrow> ('c, 'd, 'r, 'm) world \<Rightarrow> unit go_out \<times> ('c, 'd, 'r, 'm) world" where
  "start_internal E c stage = (\<lambda>(b, tr).
     case LegacyStart (bv_calls E) c stage tr of (r, tr1) \<Rightarrow> (of_error r, b, tr1))"

definition start_internals :: "box_env \<Rightarrow> start_stage \<Rightarrow> ('c, 'd, 'r, 'm) world \<Rightarrow> unit go_out \<times> ('c, 'd, 'r, 'm) world" where
  "start_internals E stage = (\<lambda>(b, tr).
     adapter_StartNamed stage (map (\<lambda>c. (c_tag c, start_internal E c)) (bx_internalService b)) (b, tr))"

definition start_logger :: "box_env \<Rightarrow> ('c, 'd, 'r, 'm) world \<Rightarrow> unit go_out \<times> ('c, 'd, 'r, 'm) world" where
  "start_logger E = (\<lambda>(b, tr).
     case do_call (bv_calls E) (CallLegacyStart (bx_logger b)) tr of
       (None, tr1) \<Rightarrow> (Ok (), b, tr1)
     | (Some e, tr1) \<Rightarrow> (Err (ErrCause e [''start logger'']), b, tr1))"

text \<open>The parts by name, for \<^verbatim>\<open>adapter.Start\<close>.\<close>

datatype box_part =
    PartNetwork | PartDNSTransport | PartDNSRouter | PartConnection | PartRouter | PartOutbound | PartInbound
  | PartEndpoint | PartService

fun part_service :: "box_env \<Rightarrow> box_part \<Rightarrow> ('c, 'd, 'r, 'm) world service" where
  "part_service E PartNetwork = (''networkmanager'', start_network E)"
| "part_service E PartDNSTransport = (''transportmanager'', start_dnsTransport E)"
| "part_service E PartDNSRouter = (''router'', start_dnsRouter)"
| "part_service E PartConnection = (''connectionmanager'', start_connection)"
| "part_service E PartRouter = (''router'', start_router E)"
| "part_service E PartOutbound = (''manager'', start_outbound_manager E)"
| "part_service E PartInbound = (''manager'', start_inbound_manager E)"
| "part_service E PartEndpoint = (''manager'', start_endpoint_manager E)"
| "part_service E PartService = (''manager'', start_service_manager E)"

definition start_parts :: "box_env \<Rightarrow> start_stage \<Rightarrow> box_part list \<Rightarrow> ('c, 'd, 'r, 'm) world \<Rightarrow> unit go_out \<times> ('c, 'd, 'r, 'm) world" where
  "start_parts E stage parts = adapter_Start stage (map (part_service E) parts)"

definition preStart :: "box_env \<Rightarrow> ('c, 'd, 'r, 'm) world \<Rightarrow> unit go_out \<times> ('c, 'd, 'r, 'm) world" where
  "preStart E = run_steps
     [start_logger E,
      start_internals E StartStateInitialize,
      start_parts E StartStateInitialize
        [PartNetwork, PartDNSTransport, PartDNSRouter, PartConnection, PartRouter, PartOutbound, PartInbound, PartEndpoint,
         PartService],
      start_parts E StartStateStart
        [PartOutbound, PartDNSTransport, PartDNSRouter, PartNetwork, PartConnection, PartRouter]]"

definition box_start :: "box_env \<Rightarrow> ('c, 'd, 'r, 'm) world \<Rightarrow> unit go_out \<times> ('c, 'd, 'r, 'm) world" where
  "box_start E = run_steps
     [preStart E,
      start_internals E StartStateStart,
      start_parts E StartStateStart [PartInbound, PartEndpoint, PartService],
      start_parts E StartStatePostStart
        [PartOutbound, PartNetwork, PartDNSTransport, PartDNSRouter, PartConnection, PartRouter, PartInbound, PartEndpoint,
         PartService],
      start_internals E StartStatePostStart,
      start_parts E StartStateStarted
        [PartNetwork, PartDNSTransport, PartDNSRouter, PartConnection, PartRouter, PartOutbound, PartInbound, PartEndpoint,
         PartService],
      start_internals E StartStateStarted]"

section \<open>Closing\<close>

definition ErrClosed :: go_err where
  "ErrClosed = ErrExt ''file already closed''"

text \<open>What closing a part answers becomes at most one error, with the name of the part.\<close>

definition close_error :: "string \<Rightarrow> unit go_out \<Rightarrow> go_err list" where
  "close_error name r = (case r of Err e \<Rightarrow> [ErrCause e [''close '', name]] | _ \<Rightarrow> [])"

fun close_internals :: "call_env \<Rightarrow> comp list \<Rightarrow> trace \<Rightarrow> go_err list \<times> trace" where
  "close_internals env [] tr = ([], tr)"
| "close_internals env (c # cs) tr =
     (case do_call env (CallClose c) tr of
        (r, tr1) \<Rightarrow> (case close_internals env cs tr1 of (es, tr2) \<Rightarrow> (close_error (c_tag c) (of_error r) @ es, tr2)))"

text \<open>The closed connections are not components of the trace; the errors of the parts are in the order of closing.\<close>

definition close_parts :: "box_env \<Rightarrow> ('c, 'd, 'r, 'm) world \<Rightarrow> go_err list \<times> ('c, 'd, 'r, 'm) world" where
  "close_parts E = (\<lambda>(b, tr0).
     case sm_Close (bv_calls E) (bx_service b) tr0 of (r1, sm, tr1) \<Rightarrow>
     case em_Close (bv_calls E) (bx_endpoint b) tr1 of (r2, em, tr2) \<Rightarrow>
     case im_Close (bv_calls E) (bx_inbound b) tr2 of (r3, im, tr3) \<Rightarrow>
     case om_Close (bv_calls E) (bx_outbound b) tr3 of (r4, om, tr4) \<Rightarrow>
     case tm_Close (bv_calls E) (bx_dnsTransport b) tr4 of (r8, tm, tr8) \<Rightarrow>
       let network = nw_Close (bv_net E) (bx_network b)
       in (close_error ''service'' r1 @ close_error ''endpoint'' r2 @ close_error ''inbound'' r3 @ close_error ''outbound'' r4 @
           close_error ''dns-transport'' r8 @
           close_error ''network'' (if network = [] then Ok () else Err (bv_Errors E network)),
           b\<lparr>bx_service := sm, bx_endpoint := em, bx_inbound := im, bx_outbound := om, bx_router := router_Close (bx_router b),
             bx_connection := snd (cm_Close (bx_connection b)), bx_dnsTransport := tm\<rparr>, tr8))"

definition box_Close :: "box_env \<Rightarrow> ('c, 'd, 'r, 'm) world \<Rightarrow> unit go_out \<times> ('c, 'd, 'r, 'm) world" where
  "box_Close E w =
     (if bx_done (fst w) then (Err ErrClosed, w)
      else
        (case close_parts E ((fst w)\<lparr>bx_done := True\<rparr>, snd w) of (es, b1, tr1) \<Rightarrow>
         case close_internals (bv_calls E) (bx_internalService b1) tr1 of (es', tr2) \<Rightarrow>
         case do_call (bv_calls E) (CallClose (bx_logger b1)) tr2 of (r, tr3) \<Rightarrow>
           let errors = es @ es' @ close_error ''logger'' (of_error r)
           in (if errors = [] then Ok () else Err (bv_Errors E errors), b1, tr3)))"

definition box_PreStart :: "box_env \<Rightarrow> ('c, 'd, 'r, 'm) world \<Rightarrow> unit go_out \<times> ('c, 'd, 'r, 'm) world" where
  "box_PreStart E w =
     (case preStart E w of
        (Err e, w1) \<Rightarrow> (Err e, snd (box_Close E w1))
      | r \<Rightarrow> r)"

definition box_Start :: "box_env \<Rightarrow> ('c, 'd, 'r, 'm) world \<Rightarrow> unit go_out \<times> ('c, 'd, 'r, 'm) world" where
  "box_Start E w =
     (case box_start E w of
        (Err e, w1) \<Rightarrow> (Err e, snd (box_Close E w1))
      | r \<Rightarrow> r)"

end
