(* ===== verification/Box_New.thy ===== *)
theory Box_New
  imports Box
begin

text \<open>
  \<^verbatim>\<open>New\<close> of \<^verbatim>\<open>box.go\<close>: a box is made from decoded options. The steps are in the order of the source, because what is looked up
  in the context is only found if it was registered before.
\<close>

section \<open>Options and surroundings\<close>

text \<open>An entry of the lists of DNS servers, endpoints, inbounds, outbounds and services.\<close>

record 'o item =
  it_Tag :: string
  it_Type :: string
  it_Options :: "'o option"

record ('o, 'r) box_opts =
  bo_Servers :: "'o item list"
  bo_Endpoints :: "'o item list"
  bo_Inbounds :: "'o item list"
  bo_Outbounds :: "'o item list"
  bo_Services :: "'o item list"
  bo_RouteFinal :: string
  bo_Rules :: "action_opts rule_opt list"
  bo_RuleSets :: "(string \<times> local_rule_set go_out) list"
  bo_FindProcess :: bool
  bo_NetworkOptions :: network_opts
  bo_DNSFinal :: string
  bo_DNSRules :: "dns_action_opts rule_opt list"
  bo_DNSStrategy :: nat
  bo_ReverseMapping :: bool
  bo_DNSClient :: "'r client_options"
  bo_CacheFile :: "bool option"
  bo_ClashAPI :: bool
  bo_V2RayListen :: "string option"
  bo_Certificate :: bool
  bo_NTP :: bool
  bo_PlatformLogWriter :: bool

text \<open>
  What the code outside this model answers: registries found in the context, the log factory, the certificate store, the
  fallback outbound and DNS server, the platform and the internal services. \<open>bn_registered\<close> are the services the caller
  has registered; \<open>bn_ToString\<close> is \<^verbatim>\<open>F.ToString\<close> of an index.
\<close>

record ('o, 'c, 'd, 'r, 'm) new_env =
  bn_registered :: "string list"
  bn_endpointRegistry :: "'o registry option"
  bn_inboundRegistry :: "'o registry option"
  bn_outboundRegistry :: "'o registry option"
  bn_dnsRegistry :: "'o registry option"
  bn_serviceRegistry :: "'o registry option"
  bn_debug :: "go_err option"
  bn_log :: "go_err + comp"
  bn_certificate :: "go_err + comp"
  bn_L :: rule_lib
  bn_A :: action_lib
  bn_dns :: "('c, 'd, 'r, 'm) dns_env"
  bn_direct :: "go_err + comp"
  bn_local :: "go_err + comp"
  bn_platform :: "go_err option option"
  bn_cacheFile :: comp
  bn_clash :: "go_err + comp"
  bn_v2ray :: "go_err + comp \<times> bool"
  bn_ntp :: "go_err + comp"
  bn_ToString :: "nat \<Rightarrow> string"

section \<open>Creating the managed components\<close>

text \<open>
  The loop over the entries of one list; an entry without a tag is created under its index. \<open>name\<close> is the start of the
  error.
\<close>

fun create_items ::
  "(string \<Rightarrow> string \<Rightarrow> 'o option \<Rightarrow> 's \<Rightarrow> unit go_out \<times> 's) \<Rightarrow> (nat \<Rightarrow> string) \<Rightarrow> string \<Rightarrow> nat \<Rightarrow> 'o item list \<Rightarrow> 's \<Rightarrow>
   unit go_out \<times> 's" where
  "create_items create F_ToString name i [] s = (Ok (), s)"
| "create_items create F_ToString name i (it # its) s =
     (case create (effective_tag F_ToString i (it_Tag it)) (it_Type it) (it_Options it) s of
        (Ok _, s1) \<Rightarrow> create_items create F_ToString name (Suc i) its s1
      | (Err e, s1) \<Rightarrow> (Err (ErrCause e [name, ''['', F_ToString i, '']'']), s1)
      | (Panic p, s1) \<Rightarrow> (Panic p, s1))"

text \<open>
  The state of \<^verbatim>\<open>New\<close>: the box so far, the trace of the calls on components, and the names of the services registered in
  the context.
\<close>

type_synonym ('c, 'd, 'r, 'm) making = "('c, 'd, 'r, 'm) world \<times> string list"

definition create_server ::
  "box_env \<Rightarrow> 'o registry \<Rightarrow> string \<Rightarrow> string \<Rightarrow> 'o option \<Rightarrow> ('c, 'd, 'r, 'm) making \<Rightarrow> unit go_out \<times> ('c, 'd, 'r, 'm) making" where
  "create_server E reg tag typ options = (\<lambda>((b, tr), ctx).
     case tm_Create (bv_S E) (bv_calls E) reg tag typ options (bx_dnsTransport b) tr of
       (r, m, tr1) \<Rightarrow> (r, (b\<lparr>bx_dnsTransport := m\<rparr>, tr1), ctx))"

definition create_endpoint ::
  "box_env \<Rightarrow> 'o registry \<Rightarrow> string \<Rightarrow> string \<Rightarrow> 'o option \<Rightarrow> ('c, 'd, 'r, 'm) making \<Rightarrow> unit go_out \<times> ('c, 'd, 'r, 'm) making" where
  "create_endpoint E reg tag typ options = (\<lambda>((b, tr), ctx).
     case em_Create (bv_S E) (bv_calls E) reg tag typ options (bx_endpoint b) tr of
       (r, m, tr1) \<Rightarrow> (r, (b\<lparr>bx_endpoint := m\<rparr>, tr1), ctx))"

definition create_inbound ::
  "box_env \<Rightarrow> 'o registry \<Rightarrow> string \<Rightarrow> string \<Rightarrow> 'o option \<Rightarrow> ('c, 'd, 'r, 'm) making \<Rightarrow> unit go_out \<times> ('c, 'd, 'r, 'm) making" where
  "create_inbound E reg tag typ options = (\<lambda>((b, tr), ctx).
     case im_Create (bv_S E) (bv_calls E) reg tag typ options (bx_inbound b) tr of
       (r, m, tr1) \<Rightarrow> (r, (b\<lparr>bx_inbound := m\<rparr>, tr1), ctx))"

definition create_outbound ::
  "box_env \<Rightarrow> 'o registry \<Rightarrow> string \<Rightarrow> string \<Rightarrow> 'o option \<Rightarrow> ('c, 'd, 'r, 'm) making \<Rightarrow> unit go_out \<times> ('c, 'd, 'r, 'm) making" where
  "create_outbound E reg tag typ options = (\<lambda>((b, tr), ctx).
     case om_Create (bv_S E) (bv_calls E) reg tag typ options (bx_outbound b) tr of
       (r, m, tr1) \<Rightarrow> (r, (b\<lparr>bx_outbound := m\<rparr>, tr1), ctx))"

definition create_service ::
  "box_env \<Rightarrow> 'o registry \<Rightarrow> string \<Rightarrow> string \<Rightarrow> 'o option \<Rightarrow> ('c, 'd, 'r, 'm) making \<Rightarrow> unit go_out \<times> ('c, 'd, 'r, 'm) making" where
  "create_service E reg tag typ options = (\<lambda>((b, tr), ctx).
     case sm_Create (bv_S E) (bv_calls E) reg tag typ options (bx_service b) tr of
       (r, m, tr1) \<Rightarrow> (r, (b\<lparr>bx_service := m\<rparr>, tr1), ctx))"

section \<open>The steps\<close>

text \<open>Steps that only fail, and steps that only change the box.\<close>

definition demand :: "go_err option \<Rightarrow> 's \<Rightarrow> unit go_out \<times> 's" where
  "demand e s = (of_error e, s)"

definition change :: "(('c, 'd, 'r, 'm) box \<Rightarrow> ('c, 'd, 'r, 'm) box) \<Rightarrow> ('c, 'd, 'r, 'm) making \<Rightarrow> unit go_out \<times> ('c, 'd, 'r, 'm) making" where
  "change f = (\<lambda>((b, tr), ctx). (Ok (), (f b, tr), ctx))"

definition register :: "string list \<Rightarrow> ('c, 'd, 'r, 'm) making \<Rightarrow> unit go_out \<times> ('c, 'd, 'r, 'm) making" where
  "register names = (\<lambda>(w, ctx). (Ok (), w, ctx @ names))"

text \<open>A service that may fail to be made; it joins the internal services.\<close>

definition add_internal ::
  "bool \<Rightarrow> string list \<Rightarrow> go_err + comp \<Rightarrow> string list \<Rightarrow> ('c, 'd, 'r, 'm) making \<Rightarrow> unit go_out \<times> ('c, 'd, 'r, 'm) making" where
  "add_internal wanted why made names = (\<lambda>((b, tr), ctx).
     if \<not> wanted then (Ok (), (b, tr), ctx)
     else (case made of
             Inl e \<Rightarrow> (Err (if why = [] then e else ErrCause e why), (b, tr), ctx)
           | Inr c \<Rightarrow> (Ok (), (b\<lparr>bx_internalService := bx_internalService b @ [c]\<rparr>, tr), ctx @ names)))"

definition add_tracker :: "bool \<Rightarrow> string \<Rightarrow> ('c, 'd, 'r, 'm) box \<Rightarrow> ('c, 'd, 'r, 'm) box" where
  "add_tracker wanted name b = (if wanted then b\<lparr>bx_trackers := bx_trackers b @ [name]\<rparr> else b)"

definition missing :: "string \<Rightarrow> 'o registry option \<Rightarrow> go_err option" where
  "missing name reg = (case reg of None \<Rightarrow> Some (ErrNew [''missing '' @ name @ '' registry in context'']) | Some _ \<Rightarrow> None)"

definition need_cache_file :: "('o, 'r) box_opts \<Rightarrow> bool" where
  "need_cache_file O1 \<longleftrightarrow> bo_CacheFile O1 = Some True \<or> bo_PlatformLogWriter O1"

definition need_clash_api :: "('o, 'r) box_opts \<Rightarrow> bool" where
  "need_clash_api O1 \<longleftrightarrow> bo_ClashAPI O1 \<or> bo_PlatformLogWriter O1"

definition need_v2ray_api :: "('o, 'r) box_opts \<Rightarrow> bool" where
  "need_v2ray_api O1 \<longleftrightarrow> (case bo_V2RayListen O1 of None \<Rightarrow> False | Some listen \<Rightarrow> listen \<noteq> [])"

definition make_network ::
  "box_env \<Rightarrow> ('o, 'c, 'd, 'r, 'm) new_env \<Rightarrow> ('o, 'r) box_opts \<Rightarrow> ('c, 'd, 'r, 'm) making \<Rightarrow> unit go_out \<times> ('c, 'd, 'r, 'm) making" where
  "make_network E N O1 = (\<lambda>((b, tr), ctx).
     case NewNetworkManager (bv_net E) (bn_platform N \<noteq> None) (List.member ctx ''ConnectionManager'')
            (bo_NetworkOptions O1) (bo_Rules O1) (bo_DNSRules O1) of
       Err e \<Rightarrow> (Err (ErrCause e [''initialize network manager'']), (b, tr), ctx)
     | Panic p \<Rightarrow> (Panic p, (b, tr), ctx)
     | Ok nm \<Rightarrow> (Ok (), (b\<lparr>bx_network := nm\<rparr>, tr), ctx @ [''NetworkManager'']))"

definition initialize_router ::
  "('o, 'c, 'd, 'r, 'm) new_env \<Rightarrow> ('o, 'r) box_opts \<Rightarrow> ('c, 'd, 'r, 'm) making \<Rightarrow> unit go_out \<times> ('c, 'd, 'r, 'm) making" where
  "initialize_router N O1 = (\<lambda>((b, tr), ctx).
     case router_Initialize (bn_L N) (bn_A N) (bo_Rules O1) (bo_RuleSets O1) (bx_router b) of
       (Ok _, r) \<Rightarrow> (Ok (), (b\<lparr>bx_router := r\<rparr>, tr), ctx)
     | (Err e, r) \<Rightarrow> (Err (ErrCause e [''initialize router'']), (b\<lparr>bx_router := r\<rparr>, tr), ctx)
     | (Panic p, r) \<Rightarrow> (Panic p, (b\<lparr>bx_router := r\<rparr>, tr), ctx))"

definition initialize_dns_router ::
  "('o, 'c, 'd, 'r, 'm) new_env \<Rightarrow> ('o, 'r) box_opts \<Rightarrow> ('c, 'd, 'r, 'm) making \<Rightarrow> unit go_out \<times> ('c, 'd, 'r, 'm) making" where
  "initialize_dns_router N O1 = (\<lambda>((b, tr), ctx).
     case dns_Initialize (bn_L N) (bo_DNSRules O1) (bx_dnsRouter b) of
       (Ok _, d) \<Rightarrow> (Ok (), (b\<lparr>bx_dnsRouter := d\<rparr>, tr), ctx)
     | (Err e, d) \<Rightarrow> (Err (ErrCause e [''initialize dns router'']), (b\<lparr>bx_dnsRouter := d\<rparr>, tr), ctx)
     | (Panic p, d) \<Rightarrow> (Panic p, (b\<lparr>bx_dnsRouter := d\<rparr>, tr), ctx))"

text \<open>The box before any step. Its network manager is replaced before it is used.\<close>

definition unset_network :: network_manager where
  "unset_network =
     \<lparr>nw_autoDetectInterface = False,
      nw_defaultOptions = \<lparr>nd_BindInterface = [], nd_RoutingMark = 0, nd_DomainResolver = [],
        nd_DomainResolveOptions = NoQueryOptions, nd_NetworkStrategy = None, nd_NetworkType = [],
        nd_FallbackNetworkType = [], nd_FallbackDelay = 0\<rparr>,
      nw_autoRedirectOutputMark = 0, nw_networkInterfaces = [], nw_networkMonitor = False, nw_interfaceMonitor = False,
      nw_packageManager = False, nw_powerListener = False, nw_wifiMonitor = False, nw_platformInterface = False,
      nw_connectionManager = False, nw_needWIFIState = False, nw_wifiState = ([], []), nw_started = False\<rparr>"

definition blank_box :: "('o, 'c, 'd, 'r, 'm) new_env \<Rightarrow> ('o, 'r) box_opts \<Rightarrow> comp \<Rightarrow> ('c, 'd, 'r, 'm) box" where
  "blank_box N O1 logFactory =
     \<lparr>bx_logger = logFactory, bx_network = unset_network, bx_endpoint = NewEndpointManager, bx_inbound = NewInboundManager,
      bx_outbound = NewOutboundManager (bo_RouteFinal O1), bx_service = NewServiceManager,
      bx_dnsTransport = NewTransportManager (bo_DNSFinal O1),
      bx_dnsRouter = NewDNSRouter (bn_dns N) (bo_DNSStrategy O1) (bo_ReverseMapping O1) (bo_DNSClient O1),
      bx_connection = NewConnectionManager, bx_router = NewRouter (bo_Rules O1) (bo_DNSRules O1) (bo_FindProcess O1),
      bx_trackers = [], bx_internalService = [], bx_done = False\<rparr>"

definition platform_initialize :: "('o, 'c, 'd, 'r, 'm) new_env \<Rightarrow> go_err option" where
  "platform_initialize N =
     (case bn_platform N of
        Some (Some e) \<Rightarrow> Some (ErrCause e [''initialize platform interface''])
      | _ \<Rightarrow> None)"

text \<open>The steps once the log factory is there; the registries have been checked.\<close>

definition new_steps ::
  "box_env \<Rightarrow> ('o, 'c, 'd, 'r, 'm) new_env \<Rightarrow> ('o, 'r) box_opts \<Rightarrow> 'o registry \<Rightarrow> 'o registry \<Rightarrow> 'o registry \<Rightarrow> 'o registry \<Rightarrow>
   'o registry \<Rightarrow> (('c, 'd, 'r, 'm) making \<Rightarrow> unit go_out \<times> ('c, 'd, 'r, 'm) making) list" where
  "new_steps E N O1 endpoints inbounds outbounds servers services =
     [add_internal (bo_Certificate O1) [] (bn_certificate N) [''CertificateStore''],
      register [''EndpointManager'', ''InboundManager'', ''OutboundManager'', ''DNSTransportManager'', ''ServiceManager'',
                ''DNSRouter''],
      make_network E N O1,
      register [''ConnectionManager'', ''Router''],
      initialize_router N O1,
      register (if bo_NTP O1 then [''TimeService''] else []),
      create_items (create_server E servers) (bn_ToString N) ''initialize DNS server'' 0 (bo_Servers O1),
      initialize_dns_router N O1,
      create_items (create_endpoint E endpoints) (bn_ToString N) ''initialize endpoint'' 0 (bo_Endpoints O1),
      create_items (create_inbound E inbounds) (bn_ToString N) ''initialize inbound'' 0 (bo_Inbounds O1),
      create_items (create_outbound E outbounds) (bn_ToString N) ''initialize outbound'' 0 (bo_Outbounds O1),
      create_items (create_service E services) (bn_ToString N) ''initialize service'' 0 (bo_Services O1),
      change (\<lambda>b. b\<lparr>bx_outbound := om_Initialize (bn_direct N) (bx_outbound b),
                    bx_dnsTransport := tm_Initialize (bn_local N) (bx_dnsTransport b)\<rparr>),
      demand (platform_initialize N),
      add_internal (need_cache_file O1) [] (Inr (bn_cacheFile N)) [''CacheFile''],
      add_internal (need_clash_api O1) [''create clash-server''] (bn_clash N) [''ClashServer''],
      change (add_tracker (need_clash_api O1) ''clash''),
      demand (if need_v2ray_api O1 then (case bn_v2ray N of Inl e \<Rightarrow> Some (ErrCause e [''create v2ray-server'']) | Inr _ \<Rightarrow> None)
              else None),
      (case bn_v2ray N of
         Inl e \<Rightarrow> demand None
       | Inr (v2ray, stats) \<Rightarrow> add_internal (need_v2ray_api O1 \<and> stats) [] (Inr v2ray) [''V2RayServer'']),
      (case bn_v2ray N of
         Inl e \<Rightarrow> demand None
       | Inr (v2ray, stats) \<Rightarrow> change (add_tracker (need_v2ray_api O1 \<and> stats) ''v2ray'')),
      add_internal (bo_NTP O1) [''create NTP service''] (bn_ntp N) []]"

definition box_New :: "box_env \<Rightarrow> ('o, 'c, 'd, 'r, 'm) new_env \<Rightarrow> ('o, 'r) box_opts \<Rightarrow> ('c, 'd, 'r, 'm) world go_out" where
  "box_New E N O1 =
     (case (bn_endpointRegistry N, bn_inboundRegistry N, bn_outboundRegistry N, bn_dnsRegistry N, bn_serviceRegistry N) of
        (Some endpoints, Some inbounds, Some outbounds, Some servers, Some services) \<Rightarrow>
          (case bn_debug N of
             Some e \<Rightarrow> Err e
           | None \<Rightarrow>
               (case bn_log N of
                  Inl e \<Rightarrow> Err (ErrCause e [''create log factory''])
                | Inr logFactory \<Rightarrow>
                    (case run_steps (new_steps E N O1 endpoints inbounds outbounds servers services)
                            ((blank_box N O1 logFactory, []), bn_registered N) of
                       (Ok _, (w, _)) \<Rightarrow> Ok w | (Err e, _) \<Rightarrow> Err e | (Panic p, _) \<Rightarrow> Panic p)))
      | _ \<Rightarrow>
          (case filter (\<lambda>e. e \<noteq> None)
               [missing ''endpoint'' (bn_endpointRegistry N), missing ''inbound'' (bn_inboundRegistry N),
                missing ''outbound'' (bn_outboundRegistry N), missing ''DNS transport'' (bn_dnsRegistry N),
                missing ''service'' (bn_serviceRegistry N)] of
             Some e # _ \<Rightarrow> Err e | _ \<Rightarrow> Panic []))"

section \<open>A sample box\<close>

text \<open>A box with one inbound, one outbound and one DNS server, and surroundings in which \<open>refused\<close> calls fail.\<close>

definition demo_box :: "(unit, unit, unit, unit) box" where
  "demo_box =
     \<lparr>bx_logger = (demo_comp 0 ''log'' [])\<lparr>c_lifecycle := False, c_start := True\<rparr>, bx_network = unset_network,
      bx_endpoint = NewEndpointManager, bx_inbound = im_append ''in'' (demo_comp 1 ''in'' []) NewInboundManager,
      bx_outbound = om_append ''out'' (demo_comp 2 ''out'' []) (NewOutboundManager []),
      bx_service = NewServiceManager,
      bx_dnsTransport = snd (tm_append ''dns'' (demo_comp 3 ''dns'' []) (NewTransportManager [])),
      bx_dnsRouter = \<lparr>dr_rules = [], dr_defaultDomainStrategy = 0,
        dr_client = \<lparr>cl_timeout = DNSTimeout, cl_disableCache = True, cl_disableExpire = False, cl_independentCache = False,
          cl_clientSubnet = NoPrefix, cl_rdrc = None, cl_initRDRCFunc = None, cl_cache = None, cl_transportCache = None\<rparr>,
        dr_dnsReverseMapping = None, dr_drops = (\<lambda>_. [])\<rparr>,
      bx_connection = snd (cm_Track 5 NewConnectionManager), bx_router = NewRouter [] [] False, bx_trackers = [],
      bx_internalService = [demo_comp 4 ''cache-file'' []], bx_done = False\<rparr>"

definition demo_box_env :: "(call \<Rightarrow> bool) \<Rightarrow> box_env" where
  "demo_box_env refused =
     \<lparr>bv_S = demo_sing, bv_calls = (\<lambda>tr k. if refused k then Some (ErrExt ''refused'') else None), bv_net = demo_net_env,
      bv_ruleSets = None, bv_androidPlatform = False,
      bv_Errors = (\<lambda>es. case es of [] \<Rightarrow> ErrNew [] | e # _ \<Rightarrow> e)\<rparr>"

lemmas demo_box_defs = demo_box_def demo_box_env_def demo_comp_def unset_network_def NewEndpointManager_def
  NewInboundManager_def im_append_def NewOutboundManager_def om_append_def NewServiceManager_def tm_append_def
  NewTransportManager_def DNSTypeFakeIP_def cm_Track_def NewConnectionManager_def NewRouter_def hasRule_def demo_net_env_def

lemmas box_start_defs = box_start_def preStart_def start_logger_def start_internals_def start_internal_def start_parts_def
  start_network_def start_dnsTransport_def start_dnsRouter_def start_connection_def start_router_def
  start_outbound_manager_def start_inbound_manager_def start_endpoint_manager_def start_service_manager_def
  nw_Start_def start_part_def tm_Start_def start_transports_def start_transport_def start_loop.simps dns_Start_def cl_Start_def
  router_Start_def start_sets_def sets_need_process_def post_start_def om_Start_def om_set_default_def start_outbounds_def
  start_outbound_def em_Endpoints_def im_Start_def em_Start_def sm_Start_def LegacyStart_def do_call_def
  sets_metadata_def Let_def

lemma demo_box_starts: "\<exists>b' tr'. box_Start (demo_box_env (\<lambda>_. False)) (demo_box, []) = (Ok (), (b', tr'))"
  by (simp add: box_Start_def box_start_defs demo_box_defs less_eq_start_stage_def)

end
