(* ===== verification/Box_Theorems.thy ===== *)
theory Box_Theorems
  imports Box_New
begin

text \<open>
  A box as a whole: a successful start takes every component through all four stages in order, exactly once; a failed start
  closes everything it has started; a box that was pre-started cannot be started any more; closing twice is an error.
\<close>

section \<open>What is started\<close>

text \<open>The stages a component is started at, and the components a part manages.\<close>

fun starts_of :: "comp \<Rightarrow> trace \<Rightarrow> start_stage list" where
  "starts_of c [] = []"
| "starts_of c (CallStart d s # tr) = (if d = c then s # starts_of c tr else starts_of c tr)"
| "starts_of c (k # tr) = starts_of c tr"

lemma starts_of_append [simp]: "starts_of c (xs @ ys) = starts_of c xs @ starts_of c ys"
  by (induction c xs rule: starts_of.induct) simp_all

lemma starts_of_stage_call: "c_lifecycle c \<Longrightarrow> starts_of c (stage_call d s) = (if d = c then [s] else [])"
  by (cases s) (auto simp: stage_call_def)

lemma starts_of_calls:
  "c_lifecycle c \<Longrightarrow> starts_of c (concat (map (\<lambda>d. stage_call d s) cs)) = replicate (count_list cs c) s"
  by (induction cs) (simp_all add: starts_of_stage_call)

lemma start_each_starts:
  "start_each env kind s cs tr = (Ok u, tr') \<Longrightarrow> c_lifecycle c \<Longrightarrow>
     starts_of c tr' = starts_of c tr @ replicate (count_list cs c) s"
  using start_each_ok_trace [of env kind s cs tr u tr'] by (simp add: starts_of_calls)

lemma count_list_mset: "mset xs = mset ys \<Longrightarrow> count_list xs c = count_list ys c"
  by (metis count_mset)

lemma start_outbounds_starts:
  assumes "start_outbounds env S bt cs tr = (Ok u, tr')" and "c_lifecycle c"
  shows "starts_of c tr' = starts_of c tr @ replicate (count_list cs c) StartStateStart"
proof -
  from ob_start.loop_order [OF assms(1) [unfolded start_outbounds_def]] obtain os where
    "mset os = mset cs" and "tr' = tr @ start_calls (\<lambda>c. stage_call c StartStateStart) os" by blast
  then show ?thesis using starts_of_calls [OF assms(2), of StartStateStart os] count_list_mset [of os cs c]
    by (simp add: start_calls_def)
qed

lemma start_transports_starts:
  assumes "start_transports env S bt cs tr = (Ok u, tr')" and "c_lifecycle c"
  shows "starts_of c tr' = starts_of c tr @ replicate (count_list cs c) StartStateStart"
proof -
  from tr_start.loop_order [OF assms(1) [unfolded start_transports_def]] obtain os where
    os: "mset os = mset cs"
    and tr': "tr' = tr @ start_calls (\<lambda>c. if c_lifecycle c then [CallStart c StartStateStart] else []) os" by blast
  have "starts_of c (start_calls (\<lambda>c. if c_lifecycle c then [CallStart c StartStateStart] else []) os) =
      replicate (count_list os c) StartStateStart"
    using assms(2) by (induction os) auto
  with os tr' show ?thesis using count_list_mset [of os cs c] by simp
qed

fun managed :: "box_part \<Rightarrow> ('c, 'd, 'r, 'm) box \<Rightarrow> comp list" where
  "managed PartDNSTransport b = tm_transports (bx_dnsTransport b)"
| "managed PartOutbound b = om_outbounds (bx_outbound b)"
| "managed PartInbound b = im_inbounds (bx_inbound b)"
| "managed PartEndpoint b = em_endpoints (bx_endpoint b)"
| "managed PartService b = sm_services (bx_service b)"
| "managed _ b = []"

text \<open>The endpoints are started together with the outbounds.\<close>

definition stage_members :: "box_part \<Rightarrow> start_stage \<Rightarrow> ('c, 'd, 'r, 'm) box \<Rightarrow> comp list" where
  "stage_members p s b =
     (if s = StartStateStart \<and> p = PartOutbound then managed PartOutbound b @ managed PartEndpoint b
      else if s = StartStateStart \<and> p = PartEndpoint then []
      else managed p b)"

text \<open>A component that is not made as a fallback, and what starting keeps for it.\<close>

definition not_fallback :: "comp \<Rightarrow> ('c, 'd, 'r, 'm) box \<Rightarrow> bool" where
  "not_fallback c b \<longleftrightarrow> om_fallback (bx_outbound b) \<noteq> Some (Inr c) \<and> tm_fallback (bx_dnsTransport b) \<noteq> Some (Inr c)"

definition keeps :: "comp \<Rightarrow> ('c, 'd, 'r, 'm) box \<Rightarrow> ('c, 'd, 'r, 'm) box \<Rightarrow> bool" where
  "keeps c b b' \<longleftrightarrow>
     (\<forall>p. count_list (managed p b') c = count_list (managed p b) c) \<and> bx_internalService b' = bx_internalService b \<and>
     not_fallback c b'"

lemma keeps_refl: "not_fallback c b \<Longrightarrow> keeps c b b"
  and keeps_trans: "keeps c b1 b2 \<Longrightarrow> keeps c b2 b3 \<Longrightarrow> keeps c b1 b3"
  by (simp_all add: keeps_def)

lemma om_Start_starts:
  assumes "om_Start S env em s m tr = (Ok u, m', tr')" and "c_lifecycle c" and "om_fallback m \<noteq> Some (Inr c)"
  shows "count_list (om_outbounds m') c = count_list (om_outbounds m) c \<and> om_fallback m' = om_fallback m \<and>
    starts_of c tr' = starts_of c tr @
      replicate (count_list (om_outbounds m @ (if s = StartStateStart then em_endpoints em else [])) c) s"
  using assms start_outbounds_starts [OF _ assms(2)] start_each_starts [OF _ assms(2)]
  by (auto simp: om_Start_def om_set_default_def em_Endpoints_def Let_def split: if_splits prod.splits option.splits sum.splits
      dest!: start_outbounds_starts [OF _ assms(2)] start_each_starts [OF _ assms(2)])

lemma tm_Start_starts:
  assumes "tm_Start S env s m tr = (Ok u, m', tr')" and "c_lifecycle c" and "tm_fallback m \<noteq> Some (Inr c)"
  shows "count_list (tm_transports m') c = count_list (tm_transports m) c \<and> tm_fallback m' = tm_fallback m \<and>
    starts_of c tr' = starts_of c tr @ replicate (count_list (tm_transports m) c) s"
  using assms
  by (auto simp: tm_Start_def Let_def split: if_splits prod.splits option.splits sum.splits
      dest!: start_transports_starts [OF _ assms(2)] start_each_starts [OF _ assms(2)])

lemma simple_Start_starts:
  assumes "c_lifecycle c"
  shows "im_Start env s im tr = (Ok u, im', tr') \<Longrightarrow>
      im_inbounds im' = im_inbounds im \<and> starts_of c tr' = starts_of c tr @ replicate (count_list (im_inbounds im) c) s"
    and "em_Start env s em tr = (Ok u, em', tr') \<Longrightarrow>
      em_endpoints em' = em_endpoints em \<and>
      starts_of c tr' = starts_of c tr @ replicate (count_list (if s = StartStateStart then [] else em_endpoints em) c) s"
    and "sm_Start env s sm tr = (Ok u, sm', tr') \<Longrightarrow>
      sm_services sm' = sm_services sm \<and> starts_of c tr' = starts_of c tr @ replicate (count_list (sm_services sm) c) s"
  using assms
  by (auto simp: im_Start_def em_Start_def sm_Start_def Let_def split: if_splits prod.splits
      dest!: start_each_starts [OF _ assms])

lemma all_box_parts:
  "(\<forall>p. P p) \<longleftrightarrow> P PartNetwork \<and> P PartDNSTransport \<and> P PartDNSRouter \<and> P PartConnection \<and> P PartRouter \<and>
     P PartOutbound \<and> P PartInbound \<and> P PartEndpoint \<and> P PartService"
  by (metis box_part.exhaust)

lemmas part_start_defs = start_network_def start_dnsTransport_def start_dnsRouter_def start_connection_def start_router_def
  start_outbound_manager_def start_inbound_manager_def start_endpoint_manager_def start_service_manager_def

text \<open>One part at one stage.\<close>

lemma part_starts:
  assumes "snd (part_service E p) s (b, tr) = (Ok u, (b', tr'))" and "c_lifecycle c" and "not_fallback c b"
  shows "keeps c b b' \<and> starts_of c tr' = starts_of c tr @ replicate (count_list (stage_members p s b) c) s"
  using assms
  by (cases p)
     (auto simp: part_start_defs keeps_def not_fallback_def all_box_parts stage_members_def split: prod.splits
        dest!: om_Start_starts [OF _ assms(2)] tm_Start_starts [OF _ assms(2)] simple_Start_starts [OF assms(2)])

text \<open>The number of times the parts of a list hold a component at a stage; it does not change along the way.\<close>

definition members_of :: "box_part list \<Rightarrow> start_stage \<Rightarrow> ('c, 'd, 'r, 'm) box \<Rightarrow> comp list" where
  "members_of ps s b = concat (map (\<lambda>p. stage_members p s b) ps)"

lemma members_of_simps [simp]:
  "members_of [] s b = []"
  "members_of (p # ps) s b = stage_members p s b @ members_of ps s b"
  by (simp_all add: members_of_def)

lemma keeps_stage_members: "keeps c b b' \<Longrightarrow> count_list (stage_members p s b') c = count_list (stage_members p s b) c"
  by (cases p; simp add: keeps_def all_box_parts stage_members_def)

lemma keeps_members: "keeps c b b' \<Longrightarrow> count_list (members_of ps s b') c = count_list (members_of ps s b) c"
  by (induction ps) (simp_all add: keeps_stage_members)

lemma adapter_Start_Cons:
  "adapter_Start s (x # xs) w = (case snd x s w of (Ok u, w1) \<Rightarrow> adapter_Start s xs w1 | (Err e, w1) \<Rightarrow> (Err e, w1) | (Panic p, w1) \<Rightarrow> (Panic p, w1))"
  by (cases x) simp

lemma start_internal_apply:
  "start_internal E c s (b, tr) = (case LegacyStart (bv_calls E) c s tr of (r, tr1) \<Rightarrow> (of_error r, b, tr1))"
  by (simp add: start_internal_def)

lemma parts_starts:
  assumes "start_parts E s ps (b, tr) = (Ok u, (b', tr'))" and "c_lifecycle c" and "not_fallback c b"
  shows "keeps c b b' \<and> starts_of c tr' = starts_of c tr @ replicate (count_list (members_of ps s b) c) s"
  using assms(1,3)
proof (induction ps arbitrary: b tr)
  case Nil
  then show ?case by (simp add: start_parts_def keeps_refl)
next
  case (Cons p ps)
  obtain r b1 tr1 where run: "snd (part_service E p) s (b, tr) = (r, b1, tr1)" by (metis prod_cases3)
  from Cons.prems(1) obtain u1 where one: "snd (part_service E p) s (b, tr) = (Ok u1, (b1, tr1))"
    and rest: "start_parts E s ps (b1, tr1) = (Ok u, (b', tr'))"
    by (cases r) (auto simp: start_parts_def adapter_Start_Cons run)
  from part_starts [OF one assms(2) Cons.prems(2)] have k: "keeps c b b1"
    and s1: "starts_of c tr1 = starts_of c tr @ replicate (count_list (stage_members p s b) c) s" by simp_all
  from k have "not_fallback c b1" by (simp add: keeps_def)
  from Cons.IH [OF rest this] s1 keeps_members [OF k, of ps s] show ?case
    by (auto simp: replicate_add [symmetric] add.commute intro: keeps_trans [OF k])
qed

lemma internals_starts:
  assumes "start_internals E s (b, tr) = (Ok u, (b', tr'))" and "c_lifecycle c"
  shows "b' = b \<and> starts_of c tr' = starts_of c tr @ replicate (count_list (bx_internalService b) c) s"
proof -
  have "adapter_StartNamed s (map (\<lambda>c. (c_tag c, start_internal E c)) cs) (b, tr) = (Ok u, (b', tr')) \<Longrightarrow>
      b' = b \<and> starts_of c tr' = starts_of c tr @ replicate (count_list cs c) s" for cs
  proof (induction cs arbitrary: tr)
    case (Cons d cs)
    obtain r tr1 where one: "LegacyStart (bv_calls E) d s tr = (r, tr1)" by fastforce
    show ?case
    proof (cases r)
      case None
      with Cons.prems one have "adapter_StartNamed s (map (\<lambda>c. (c_tag c, start_internal E c)) cs) (b, tr1) = (Ok u, (b', tr'))"
        by (simp add: start_internal_apply)
      from Cons.IH [OF this] LegacyStart_pair [OF one] show ?thesis by (simp add: starts_of_stage_call [OF assms(2)])
    next
      case (Some e)
      with Cons.prems one show ?thesis by (simp add: start_internal_apply)
    qed
  qed simp
  then show ?thesis using assms(1) by (simp add: start_internals_def)
qed

text \<open>All components of a box, those that are started at a stage.\<close>

definition all_components :: "('c, 'd, 'r, 'm) box \<Rightarrow> comp list" where
  "all_components b =
     tm_transports (bx_dnsTransport b) @ om_outbounds (bx_outbound b) @ im_inbounds (bx_inbound b) @
     em_endpoints (bx_endpoint b) @ sm_services (bx_service b) @ bx_internalService b"

lemma run_steps_Cons_Ok:
  "run_steps (f # fs) w = (Ok u, w') \<longleftrightarrow> (\<exists>u1 w1. f w = (Ok u1, w1) \<and> run_steps fs w1 = (Ok u, w'))"
  by (auto split: prod.splits go_out.splits)

lemma start_logger_starts:
  "start_logger E (b, tr) = (Ok u, (b', tr')) \<Longrightarrow> b' = b \<and> starts_of c tr' = starts_of c tr"
  by (auto simp: start_logger_def do_call_def split: option.splits)

text \<open>A step of the start adds \<open>n\<close> starts at a stage.\<close>

definition adds :: "comp \<Rightarrow> ('c, 'd, 'r, 'm) box \<times> trace \<Rightarrow> ('c, 'd, 'r, 'm) box \<times> trace \<Rightarrow> start_stage list \<Rightarrow> bool" where
  "adds c w w' ss \<longleftrightarrow> keeps c (fst w) (fst w') \<and> starts_of c (snd w') = starts_of c (snd w) @ ss"

lemma adds_trans: "adds c w1 w2 ss \<Longrightarrow> adds c w2 w3 ts \<Longrightarrow> adds c w1 w3 (ss @ ts)"
  by (auto simp: adds_def intro: keeps_trans)

lemma adds_not_fallback: "adds c w w' ss \<Longrightarrow> not_fallback c (fst w')"
  by (simp add: adds_def keeps_def)

lemma adds_count: "adds c w w' ss \<Longrightarrow> count_list (members_of ps s (fst w')) c = count_list (members_of ps s (fst w)) c"
  "adds c w w' ss \<Longrightarrow> bx_internalService (fst w') = bx_internalService (fst w)"
  using keeps_members [of c "fst w" "fst w'"] by (simp_all add: adds_def keeps_def)

lemma steps_add:
  assumes "c_lifecycle c" and "not_fallback c (fst w)"
  shows "start_logger E w = (Ok u, w') \<Longrightarrow> adds c w w' []"
    and "start_internals E s w = (Ok u, w') \<Longrightarrow> adds c w w' (replicate (count_list (bx_internalService (fst w)) c) s)"
    and "start_parts E s ps w = (Ok u, w') \<Longrightarrow> adds c w w' (replicate (count_list (members_of ps s (fst w)) c) s)"
  using start_logger_starts [of E "fst w" "snd w" u "fst w'" "snd w'" c]
    internals_starts [OF _ assms(1), of E s "fst w" "snd w" u "fst w'" "snd w'"]
    parts_starts [OF _ assms, of E s ps "snd w" u "fst w'" "snd w'"] keeps_refl [OF assms(2)]
  by (auto simp: adds_def)

lemma preStart_adds:
  assumes "preStart E w = (Ok u, w')" and c: "c_lifecycle c" and nf: "not_fallback c (fst w)"
  defines "n \<equiv> count_list (all_components (fst w)) c"
    and "m \<equiv> count_list (tm_transports (bx_dnsTransport (fst w)) @ om_outbounds (bx_outbound (fst w)) @ em_endpoints (bx_endpoint (fst w))) c"
  shows "adds c w w' (replicate n StartStateInitialize @ replicate m StartStateStart)"
proof -
  from assms(1) obtain u1 w1 u2 w2 u3 w3 where steps: "start_logger E w = (Ok u1, w1)"
    "start_internals E StartStateInitialize w1 = (Ok u2, w2)"
    "start_parts E StartStateInitialize
        [PartNetwork, PartDNSTransport, PartDNSRouter, PartConnection, PartRouter, PartOutbound, PartInbound, PartEndpoint,
         PartService] w2 = (Ok u3, w3)"
    "start_parts E StartStateStart [PartOutbound, PartDNSTransport, PartDNSRouter, PartNetwork, PartConnection, PartRouter] w3 =
       (Ok u, w')"
    unfolding preStart_def run_steps_Cons_Ok by auto
  note a1 = steps_add(1) [OF c nf steps(1)]
  note a2 = steps_add(2) [OF c adds_not_fallback [OF a1] steps(2)]
  note a3 = steps_add(3) [OF c adds_not_fallback [OF a2] steps(3)]
  note a4 = steps_add(3) [OF c adds_not_fallback [OF a3] steps(4)]
  note t2 = adds_trans [OF a1 a2] and t3 = adds_trans [OF adds_trans [OF a1 a2] a3]
  have init: "count_list (bx_internalService (fst w)) c +
      count_list (members_of [PartNetwork, PartDNSTransport, PartDNSRouter, PartConnection, PartRouter, PartOutbound, PartInbound,
        PartEndpoint, PartService] StartStateInitialize (fst w)) c = n"
    by (simp add: n_def all_components_def stage_members_def)
  have start: "count_list (members_of [PartOutbound, PartDNSTransport, PartDNSRouter, PartNetwork, PartConnection, PartRouter]
      StartStateStart (fst w)) c = m"
    by (simp add: m_def stage_members_def)
  show ?thesis
    using adds_trans [OF t3 a4] unfolding adds_count(2) [OF a1] adds_count(1) [OF t2] adds_count(1) [OF t3] start
    by (simp only: append.left_neutral append_assoc [symmetric] replicate_add [symmetric] init)
qed

lemma adds_stages:
  assumes "adds c v v' (replicate 1 s0 @ replicate m1 s1 @ replicate m2 s1 @ replicate m3 s1 @ replicate p1 s2 @ replicate p2 s2 @
        replicate q1 s3 @ replicate q2 s3)"
    and "m1 + m2 + m3 = 1" and "p1 + p2 = 1" and "q1 + q2 = 1"
  shows "starts_of c (snd v') = starts_of c (snd v) @ [s0, s1, s2, s3]"
proof -
  have "replicate m1 s1 @ replicate m2 s1 @ replicate m3 s1 = [s1]" and "replicate p1 s2 @ replicate p2 s2 = [s2]"
    and "replicate q1 s3 @ replicate q2 s3 = [s3]"
    using assms(2-4) by (simp_all add: replicate_add [symmetric] add.assoc)
  then have "replicate 1 s0 @ replicate m1 s1 @ replicate m2 s1 @ replicate m3 s1 @ replicate p1 s2 @ replicate p2 s2 @
      replicate q1 s3 @ replicate q2 s3 = [s0, s1, s2, s3]"
    by (metis (no_types, lifting) append_assoc append_Cons append_Nil One_nat_def replicate_0 replicate_Suc)
  with assms(1) show ?thesis by (simp add: adds_def)
qed



section \<open>A box that was pre-started\<close>

lemma tm_Start_marks:
  "tm_Start S env s m tr = (Ok u, m', tr') \<Longrightarrow> tm_started m' \<and> tm_stage m' = s"
  by (auto simp: tm_Start_def Let_def split: if_splits prod.splits option.splits sum.splits)

lemma tm_Start_again:
  "tm_started m \<Longrightarrow> s \<le> tm_stage m \<Longrightarrow> tm_Start S env s m tr = (Panic ''already started'', m, tr)"
  by (simp add: tm_Start_def)

text \<open>After a successful pre-start the DNS transports are at the start stage.\<close>

lemma preStart_marks:
  assumes "preStart E w = (Ok u, w')"
  shows "tm_started (bx_dnsTransport (fst w')) \<and> tm_stage (bx_dnsTransport (fst w')) = StartStateStart"
proof -
  from assms obtain w1 u2 where last: "start_parts E StartStateStart
      [PartOutbound, PartDNSTransport, PartDNSRouter, PartNetwork, PartConnection, PartRouter] w1 = (Ok u2, w')"
    unfolding preStart_def run_steps_Cons_Ok by auto
  then show ?thesis
    by (cases w1; cases w')
       (auto simp: start_parts_def part_start_defs split: prod.splits go_out.splits dest!: tm_Start_marks)
qed

text \<open>Starting the internal services touches nothing of the box.\<close>

lemma internals_same: "fst (snd (start_internals E s (b, tr))) = b"
proof -
  have "fst (snd (adapter_StartNamed s (map (\<lambda>c. (c_tag c, start_internal E c)) cs) (b, tr))) = b" for cs
    by (induction cs arbitrary: tr) (auto simp: start_internal_apply of_error_def split: prod.splits option.splits)
  then show ?thesis by (simp add: start_internals_def)
qed

lemma LegacyStart_quiet: "\<forall>tr k. env tr k = None \<Longrightarrow> fst (LegacyStart env c s tr) = None"
  by (cases s) (simp_all add: LegacyStart_def do_call_def)

lemma internals_quiet:
  assumes "\<forall>tr k. bv_calls E tr k = None"
  shows "fst (start_internals E s (b, tr)) = Ok ()"
proof -
  have "fst (adapter_StartNamed s (map (\<lambda>c. (c_tag c, start_internal E c)) cs) (b, tr)) = Ok ()" for cs
  proof (induction cs arbitrary: tr)
    case (Cons c cs)
    obtain tr1 where "LegacyStart (bv_calls E) c s tr = (None, tr1)"
      using LegacyStart_quiet [OF assms] by (metis prod.collapse)
    with Cons show ?case by (simp add: start_internal_apply)
  qed simp
  then show ?thesis by (simp add: start_internals_def)
qed

definition refusing :: "box_env \<Rightarrow> bool" where
  "refusing E \<longleftrightarrow> \<not> ((\<forall>tr k. bv_calls E tr k = None) \<and> (\<forall>p. ne_Start (bv_net E) p = None))"

lemma preStart_again:
  assumes "tm_started (bx_dnsTransport b)" and "tm_stage (bx_dnsTransport b) = StartStateStart"
  shows "\<not> is_ok (fst (preStart E (b, tr))) \<and> (\<not> refusing E \<longrightarrow> fst (preStart E (b, tr)) = Panic ''already started'')"
proof -
  obtain r1 tr1 where logger: "start_logger E (b, tr) = (r1, b, tr1)" and quiet1: "\<not> refusing E \<longrightarrow> r1 = Ok ()"
    by (cases "bv_calls E tr (CallLegacyStart (bx_logger b))")
       (auto simp: start_logger_def do_call_def refusing_def)
  obtain r2 tr2 where internals: "start_internals E StartStateInitialize (b, tr1) = (r2, b, tr2)"
    using internals_same by (metis prod.collapse)
  have quiet2: "\<not> refusing E \<longrightarrow> r2 = Ok ()"
    using internals_quiet [of E StartStateInitialize b tr1] internals by (auto simp: refusing_def)
  obtain r3 nm where net: "nw_Start (bv_net E) StartStateInitialize (bx_network b) = (r3, nm)" by fastforce
  then have quiet3: "\<not> refusing E \<longrightarrow> r3 = Ok ()" by (auto simp: nw_Start_def start_part_def refusing_def split: if_splits)
  have tm: "tm_Start (bv_S E) (bv_calls E) StartStateInitialize (bx_dnsTransport b) tr2 = (Panic ''already started'', bx_dnsTransport b, tr2)"
    by (rule tm_Start_again) (simp_all add: assms less_eq_start_stage_def)
  have parts: "fst (start_parts E StartStateInitialize (PartNetwork # PartDNSTransport # ps) (b, tr2)) =
      (case r3 of Ok _ \<Rightarrow> Panic ''already started'' | Err e \<Rightarrow> Err e | Panic p \<Rightarrow> Panic p)" for ps
    by (cases r3) (simp_all add: start_parts_def start_network_def start_dnsTransport_def net tm)
  obtain r4 w4 where stage: "start_parts E StartStateInitialize
      [PartNetwork, PartDNSTransport, PartDNSRouter, PartConnection, PartRouter, PartOutbound, PartInbound, PartEndpoint,
       PartService] (b, tr2) = (r4, w4)" using prod.exhaust by blast
  then have r4: "r4 = (case r3 of Ok _ \<Rightarrow> Panic ''already started'' | Err e \<Rightarrow> Err e | Panic p \<Rightarrow> Panic p)"
    using parts by (metis fst_conv)
  then have not_ok: "\<not> is_ok r4" by (cases r3) simp_all
  show ?thesis
  proof (cases "\<exists>u v. r1 = Ok u \<and> r2 = Ok v")
    case True
    with not_ok show ?thesis using quiet3 r4 unfolding preStart_def
      by (cases r3) (auto simp: logger internals stage)
  next
    case False
    then show ?thesis using quiet1 quiet2 unfolding preStart_def
      by (cases r1; cases r2) (auto simp: logger internals)
  qed
qed

text \<open>
  C40: a box that was pre-started can never be started: \<^verbatim>\<open>start\<close> pre-starts it again, which panics in the DNS transport
  manager, unless the log factory, an internal service or the network manager has refused before.
\<close>

theorem prestarted_box_never_starts:
  assumes "box_PreStart E w = (Ok u, w1)"
  shows "\<not> is_ok (fst (box_Start E w1)) \<and> (\<not> refusing E \<longrightarrow> fst (box_Start E w1) = Panic ''already started'')"
proof -
  from assms have "preStart E w = (Ok u, w1)" by (auto simp: box_PreStart_def split: prod.splits go_out.splits)
  note marks = preStart_marks [OF this]
  obtain r w2 where again: "preStart E w1 = (r, w2)" using prod.exhaust by blast
  from preStart_again [of "fst w1" E "snd w1"] marks again
  have "\<not> is_ok r" and "\<not> refusing E \<longrightarrow> r = Panic ''already started''" by simp_all
  with again show ?thesis by (cases r) (auto simp: box_Start_def box_start_def)
qed

theorem prestarted_box_never_starts_witness:
  "\<exists>w1. box_PreStart (demo_box_env (\<lambda>_. False)) (demo_box, []) = (Ok (), w1) \<and>
     fst (box_Start (demo_box_env (\<lambda>_. False)) w1) = Panic ''already started''"
proof -
  have "\<exists>w1. box_PreStart (demo_box_env (\<lambda>_. False)) (demo_box, []) = (Ok (), w1)"
    by (simp add: box_PreStart_def box_start_defs demo_box_defs less_eq_start_stage_def)
  then obtain w1 where run: "box_PreStart (demo_box_env (\<lambda>_. False)) (demo_box, []) = (Ok (), w1)" ..
  have "\<not> refusing (demo_box_env (\<lambda>_. False))" by (simp add: refusing_def demo_box_env_def demo_net_env_def)
  with prestarted_box_never_starts [OF run] run show ?thesis by blast
qed

end
