(* ===== verification/Connection_Theorems.thy ===== *)
theory Connection_Theorems
  imports Connections
begin

text \<open>
  What the connection manager promises: whatever order the two goroutines of a connection run in, its handler is told exactly
  once that it has ended, and both sides are closed; closing all connections closes what was tracked and not closed before.
\<close>

section \<open>Two goroutines and a flag\<close>

text \<open>
  The contract of the copying functions: before the swap the handler is not called, after it exactly for one of the two old values of
  the flag, and the goroutine that comes second closes both sides. \<open>told\<close> is whether there is a handler.
\<close>

lemma on_close_count_simps [simp]:
  "on_close_count [] = 0"
  "on_close_count (e # es) = (if is_OnClose e then Suc (on_close_count es) else on_close_count es)"
  "on_close_count (es @ fs) = on_close_count es + on_close_count fs"
  by (simp_all add: on_close_count_def)

lemma on_close_count_both [simp]:
  "on_close_count (close_both s) = 0"
  "on_close_count (call_onClose E err) = (if cv_onClose E then 1 else 0)"
  "set (close_both s) = {CloseConn LocalConn, CloseConn RemoteConn}"
  by (cases s; simp add: close_both_def call_onClose_def insert_commute)+

text \<open>What a goroutine at some point of its code still owes the handler, and how far it is from its end.\<close>

fun copy_owes :: "(bool \<Rightarrow> nat) \<Rightarrow> copy_state \<Rightarrow> nat" where
  "copy_owes told (Swapped old err) = told old"
| "copy_owes told _ = 0"

fun before_swap :: "copy_state \<Rightarrow> bool" where
  "before_swap (Swapped _ _) = False"
| "before_swap CopyEnd = False"
| "before_swap _ = True"

fun came_second :: "copy_state \<Rightarrow> bool" where
  "came_second (Swapped old _) = old"
| "came_second _ = False"

fun copy_left :: "copy_state \<Rightarrow> nat" where
  "copy_left Copying = 4"
| "copy_left (Copied _) = 3"
| "copy_left (BeforeSwap _) = 2"
| "copy_left (Swapped _ _) = 1"
| "copy_left CopyEnd = 0"

definition pump_measure :: "pump \<Rightarrow> nat" where
  "pump_measure s = copy_left (pm_goroutine s LocalConn) + copy_left (pm_goroutine s RemoteConn)"

lemma all_sides: "(\<forall>d. P d) \<longleftrightarrow> P LocalConn \<and> P RemoteConn"
  by (metis conn_side.exhaust)

lemma pump_step_measure: "pump_step before after s s' \<Longrightarrow> pump_measure s = Suc (pump_measure s')"
  by (induction rule: pump_step.induct; case_tac source) (simp_all add: pump_measure_def)

inductive pump_run :: "copy_before \<Rightarrow> copy_after \<Rightarrow> nat \<Rightarrow> pump \<Rightarrow> pump \<Rightarrow> bool"
  for before :: copy_before and after :: copy_after where
  stop: "pump_run before after 0 s s"
| step: "pump_run before after n s t \<Longrightarrow> pump_step before after t u \<Longrightarrow> pump_run before after (Suc n) s u"

lemma pump_run_measure: "pump_run before after n s t \<Longrightarrow> n + pump_measure t = pump_measure s"
  by (induction rule: pump_run.induct) (auto dest: pump_step_measure)

lemma pump_not_stuck:
  assumes "\<not> pump_over s"
  shows "\<exists>t. pump_step before after s t"
proof -
  from assms obtain d where d: "pm_goroutine s d \<noteq> CopyEnd" by (auto simp: pump_over_def)
  then show ?thesis
  proof (cases "pm_goroutine s d")
    case (Copied r)
    obtain es err where "before d r None = (es, err)" by (metis prod.exhaust)
    with Copied show ?thesis by (blast intro: pump_step.closing)
  qed (blast intro: pump_step.intros)+
qed

text \<open>How many swaps have happened decides what has been told and what is still owed.\<close>

definition swaps :: "pump \<Rightarrow> nat" where
  "swaps s = (if before_swap (pm_goroutine s LocalConn) then 0 else 1) + (if before_swap (pm_goroutine s RemoteConn) then 0 else 1)"

definition pump_inv :: "(bool \<Rightarrow> nat) \<Rightarrow> pump \<Rightarrow> bool" where
  "pump_inv told s \<longleftrightarrow>
     (pm_done s \<longleftrightarrow> 0 < swaps s) \<and>
     on_close_count (pm_events s) + copy_owes told (pm_goroutine s LocalConn) + copy_owes told (pm_goroutine s RemoteConn) =
       (if 0 < swaps s then told False else 0) + (if swaps s = 2 then told True else 0) \<and>
     (swaps s = 2 \<longrightarrow> came_second (pm_goroutine s LocalConn) \<or> came_second (pm_goroutine s RemoteConn) \<or>
        {CloseConn LocalConn, CloseConn RemoteConn} \<subseteq> set (pm_events s))"

locale copying =
  fixes before :: copy_before and after :: copy_after and told :: "bool \<Rightarrow> nat" and handler :: bool
  assumes before_quiet: "before source r w = (es, err) \<Longrightarrow> on_close_count es = 0"
    and after_told: "on_close_count (after source old err) = told old"
    and told_once: "told False + told True = (if handler then 1 else 0)"
    and after_closes: "{CloseConn LocalConn, CloseConn RemoteConn} \<subseteq> set (after source True err)"
begin

lemma inv_start: "on_close_count es = 0 \<Longrightarrow> pump_inv told (pump_start es)"
  by (simp add: pump_inv_def pump_start_def swaps_def)

lemma inv_step: "pump_step before after s s' \<Longrightarrow> pump_inv told s \<Longrightarrow> pump_inv told s'"
proof (induction rule: pump_step.induct)
  case (copied s source r)
  then show ?case by (cases source) (auto simp: pump_inv_def swaps_def split: if_splits)
next
  case (closing s source r w es err)
  then show ?case using before_quiet [OF closing(2)]
    by (cases source) (auto simp: pump_inv_def swaps_def split: if_splits)
next
  case (swap s source err)
  then show ?case by (cases source) (auto simp: pump_inv_def swaps_def split: if_splits)
next
  case (finish s source old err)
  then show ?case using after_told [of source old err] after_closes [of source err]
    by (cases source; cases old) (auto simp: pump_inv_def swaps_def split: if_splits)
qed

lemma inv_run: "pump_run before after n s t \<Longrightarrow> pump_inv told s \<Longrightarrow> pump_inv told t"
  by (induction rule: pump_run.induct) (auto intro: inv_step)

lemma told_at_most: "pump_inv told s \<Longrightarrow> on_close_count (pm_events s) \<le> (if handler then 1 else 0)"
  using told_once by (auto simp: pump_inv_def split: if_splits)

lemma over_sound:
  assumes "pump_inv told s" and "pump_over s"
  shows "on_close_count (pm_events s) = (if handler then 1 else 0)"
    and "{CloseConn LocalConn, CloseConn RemoteConn} \<subseteq> set (pm_events s)"
  using assms told_once by (auto simp: pump_inv_def pump_over_def swaps_def split: if_splits)

end

interpretation stream_copy: copying "stream_before E" "stream_after E" "\<lambda>old. if old \<and> cv_onClose E then 1 else 0" "cv_onClose E"
  for E
  by unfold_locales (auto simp: stream_before_def stream_after_def Let_def split: option.splits if_splits)

interpretation packet_copy: copying "packet_before E" "packet_after E" "\<lambda>old. if \<not> old \<and> cv_onClose E then 1 else 0" "cv_onClose E"
  for E
  by unfold_locales (auto simp: packet_before_def packet_after_def)

section \<open>The handler is told once\<close>

text \<open>
  A connection that could not be opened has told its handler once and closed the inbound side. One that was opened
  ends after eight steps in any order of its goroutines, does not stop before, and has then told the handler once and closed
  both sides; the handler is never told twice.
\<close>

definition told_once_and_closed :: "conn_env \<Rightarrow> copy_before \<Rightarrow> copy_after \<Rightarrow> ('x) opened_scheme \<Rightarrow> bool" where
  "told_once_and_closed E before after o1 \<longleftrightarrow>
     (if op_running o1
      then \<forall>n s. pump_run before after n (pump_start (op_events o1)) s \<longrightarrow>
        n \<le> 8 \<and> on_close_count (pm_events s) \<le> (if cv_onClose E then 1 else 0) \<and>
        (if pump_over s
         then on_close_count (pm_events s) = (if cv_onClose E then 1 else 0) \<and>
           {CloseConn LocalConn, CloseConn RemoteConn} \<subseteq> set (pm_events s)
         else \<exists>t. pump_step before after s t)
      else on_close_count (op_events o1) = (if cv_onClose E then 1 else 0) \<and> CloseConn LocalConn \<in> set (op_events o1))"

context copying
begin

lemma runs_well:
  assumes "on_close_count es = 0" and "pump_run before after n (pump_start es) s"
  shows "n \<le> 8" and "on_close_count (pm_events s) \<le> (if handler then 1 else 0)"
    and "pump_over s \<Longrightarrow> on_close_count (pm_events s) = (if handler then 1 else 0)"
    and "pump_over s \<Longrightarrow> {CloseConn LocalConn, CloseConn RemoteConn} \<subseteq> set (pm_events s)"
proof -
  note inv = inv_run [OF assms(2) inv_start [OF assms(1)]]
  show "n \<le> 8" using pump_run_measure [OF assms(2)] by (simp add: pump_measure_def pump_start_def)
  show "on_close_count (pm_events s) \<le> (if handler then 1 else 0)" by (rule told_at_most [OF inv])
  show "pump_over s \<Longrightarrow> on_close_count (pm_events s) = (if handler then 1 else 0)" by (rule over_sound(1) [OF inv])
  show "pump_over s \<Longrightarrow> {CloseConn LocalConn, CloseConn RemoteConn} \<subseteq> set (pm_events s)" by (rule over_sound(2) [OF inv])
qed

end

lemma stream_running:
  "op_running o1 \<Longrightarrow> on_close_count (op_events o1) = 0 \<Longrightarrow> told_once_and_closed E (stream_before E) (stream_after E) o1"
  and packet_running:
  "op_running o2 \<Longrightarrow> on_close_count (op_events o2) = 0 \<Longrightarrow> told_once_and_closed E (packet_before E) (packet_after E) o2"
  using stream_copy.runs_well packet_copy.runs_well pump_not_stuck
  unfolding told_once_and_closed_def by presburger+

lemma kick_quiet: "kickWriteHandshake E source = (False, es) \<Longrightarrow> on_close_count es = 0"
  and kick_ended: "kickWriteHandshake E source = (True, es) \<Longrightarrow>
    on_close_count es = (if cv_onClose E then 1 else 0) \<and> {CloseConn LocalConn, CloseConn RemoteConn} \<subseteq> set es"
  by (auto simp: kickWriteHandshake_def Let_def split: if_splits option.splits)

lemma DialSerialNetwork_no_panic:
  "addresses \<noteq> [] \<or> dy_IsIP L destination \<Longrightarrow> \<not> is_panic (fst (DialSerialNetwork L d network destination addresses opts tr))"
  "addresses \<noteq> [] \<or> dy_IsIP L destination \<Longrightarrow> \<not> is_panic (fst (listen_serial_network L d destination addresses opts tr))"
  by (auto simp: DialSerialNetwork_def listen_serial_network_def serial_addresses_def Let_def
      split: prod.splits sum.splits if_splits)

lemma dial_conn_no_panic [simp]: "\<not> is_panic (fst (dial_conn d c tr))"
  by (auto simp: dial_conn_def split: prod.splits sum.splits)

lemma not_panic_cases:
  assumes "\<not> is_panic (fst r)"
  obtains err tr where "r = (Err err, tr)" | x tr where "r = (Ok x, tr)"
  using assms by (cases r; cases "fst r") auto

lemma told_failed:
  "\<not> op_running o1 \<Longrightarrow> on_close_count (op_events o1) = (if cv_onClose E then 1 else 0) \<Longrightarrow> CloseConn LocalConn \<in> set (op_events o1) \<Longrightarrow>
     told_once_and_closed E before after o1"
  by (simp add: told_once_and_closed_def)

lemma handshake_failed:
  "conn_env_ok E \<Longrightarrow> on_close_count (cv_CloseOnHandshakeFailure E err) = (if cv_onClose E then 1 else 0)"
  "conn_env_ok E \<Longrightarrow> CloseConn LocalConn \<in> set (cv_CloseOnHandshakeFailure E err)"
  by (simp_all add: conn_env_ok_def)

lemma open_failed_simps [simp]: "op_running (open_failed es) = False" "op_events (open_failed es) = es"
  by (simp_all add: open_failed_def)

lemma packet_connect_no_panic: "\<not> is_panic (fst (packet_connect E this m tr))"
  by (simp add: packet_connect_def DialSerialNetwork_no_panic split: sum.split)

lemma packet_listen_no_panic: "\<not> is_panic (fst (packet_listen E this m tr))"
  using dial_conn_no_panic [of this "ListenPacket (md_Destination m)" tr]
  by (auto simp: packet_listen_def DialSerialNetwork_no_panic simp del: dial_conn_no_panic split: prod.split go_out.split)

lemma packet_dial_no_panic: "\<not> is_panic (fst (packet_dial E this m tr))"
  using packet_connect_no_panic [of E this m tr] packet_listen_no_panic [of E this m tr]
  by (auto simp: packet_dial_def split: prod.split go_out.split)

text \<open>What follows a successful dial.\<close>

lemma kicked_told:
  assumes "kickWriteHandshake E LocalConn = (b1, es1)" and "kickWriteHandshake E RemoteConn = (b2, es2)"
  shows "b1 \<Longrightarrow> told_once_and_closed E before after (open_failed es1)"
    and "\<not> b1 \<Longrightarrow> b2 \<Longrightarrow> told_once_and_closed E before after (open_failed (es1 @ es2))"
    and "\<not> b1 \<Longrightarrow> \<not> b2 \<Longrightarrow> told_once_and_closed E (stream_before E) (stream_after E)
      \<lparr>op_events = es1 @ es2, op_running = True, op_fragmented = f\<rparr>"
  using assms by (auto intro!: told_failed stream_running simp: kick_quiet dest: kick_ended)

text \<open>
  C35: routing a stream never panics, and it tells its handler exactly once that it has ended, with the inbound side closed: when
  it cannot be opened, and when it was opened, in whatever order the goroutines of the two directions end, and however they
  end. Both sides are closed then. The same holds for packets if reporting the success of the handshake does not
  fail.
\<close>

theorem handler_told_once:
  assumes "conn_env_ok E"
  shows "(\<exists>o1 tr1. NewConnection E this m tr = (Ok o1, tr1) \<and> told_once_and_closed E (stream_before E) (stream_after E) o1) \<and>
    (cv_ReportSuccess E = None \<longrightarrow>
      (\<exists>o2 tr2. NewPacketConnection E this m tr = (Ok o2, tr2) \<and> told_once_and_closed E (packet_before E) (packet_after E) o2))"
proof (intro conjI impI)
  let ?dial = "if md_DestinationAddresses m \<noteq> [] \<or> dy_IsIP (cv_lib E) (md_Destination m)
      then DialSerialNetwork (cv_lib E) this ''tcp'' (md_Destination m) (md_DestinationAddresses m) (metadata_opts m) tr
      else dial_conn this (DialContext ''tcp'' (md_Destination m)) tr"
  have "\<not> is_panic (fst ?dial)" by (simp add: DialSerialNetwork_no_panic)
  then show "\<exists>o1 tr1. NewConnection E this m tr = (Ok o1, tr1) \<and> told_once_and_closed E (stream_before E) (stream_after E) o1"
  proof (cases rule: not_panic_cases)
    case 1
    show ?thesis using handshake_failed [OF assms] unfolding NewConnection_def 1 by (simp add: told_failed)
  next
    case (2 conn tr1)
    obtain b1 es1 b2 es2 where kicks: "kickWriteHandshake E LocalConn = (b1, es1)" "kickWriteHandshake E RemoteConn = (b2, es2)"
      by (metis surj_pair)
    show ?thesis
    proof (cases "cv_ReportSuccess E")
      case None
      show ?thesis using kicked_told [OF kicks] unfolding NewConnection_def 2 by (cases b1; cases b2; simp add: kicks None)
    next
      case (Some err)
      show ?thesis using handshake_failed [OF assms] unfolding NewConnection_def 2 by (simp add: told_failed Some)
    qed
  qed
next
  assume report: "cv_ReportSuccess E = None"
  from packet_dial_no_panic [of E this m tr] show "\<exists>o2 tr2. NewPacketConnection E this m tr = (Ok o2, tr2) \<and> told_once_and_closed E (packet_before E) (packet_after E) o2"
  proof (cases rule: not_panic_cases)
    case 1
    then show ?thesis using handshake_failed [OF assms] by (simp add: NewPacketConnection_def Let_def told_failed)
  next
    case (2 r tr1)
    then show ?thesis using report
      by (cases r) (auto simp: NewPacketConnection_def Let_def intro!: packet_running split: nat_wrap.split)
  qed
qed

text \<open>
  A handler and connections that answer everything without error, and a dialer whose first address does not answer.
\<close>

definition demo_conn_env :: conn_env where
  "demo_conn_env =
     \<lparr>cv_lib = demo_dial_lib, cv_onClose = True, cv_CloseOnHandshakeFailure = (\<lambda>err. [OnClose (Some err), CloseConn LocalConn]),
      cv_ReportSuccess = None, cv_NeedHandshakeForWrite = (\<lambda>_. False), cv_ReadCached = (\<lambda>_. None), cv_Write = (\<lambda>_ _. None),
      cv_ignored = (\<lambda>_. False), cv_WriteCloser = (\<lambda>_. True), cv_AddrString = (\<lambda>_. []), cv_SocksaddrString = (\<lambda>_. []),
      cv_DialSerial = (\<lambda>_ _. Inr 0), cv_RemoteAddr = (\<lambda>_. NoAddr), cv_isNAT = False,
      cv_IsValid = (\<lambda>s. addr_IsValid (sa_Addr s))\<rparr>"

definition demo_dialer :: dialer where
  "demo_dialer =
     \<lparr>dx_answer = (\<lambda>tr c. if tr = [] then Inl (ErrExt ''refused'') else Inr (7, NoAddr)), dx_parallelNetwork = False,
      dx_parallelInterface = False, dx_name = None\<rparr>"

definition demo_two_addresses :: metadata where
  "demo_two_addresses = NoMetadata\<lparr>md_DestinationAddresses := [Addr4 1, Addr4 2]\<rparr>"

lemma demo_conn_env_ok: "conn_env_ok demo_conn_env"
  by (simp add: conn_env_ok_def demo_conn_env_def)

lemma demo_opened:
  "fst (NewConnection demo_conn_env demo_dialer demo_two_addresses []) =
     Ok \<lparr>op_events = [], op_running = True, op_fragmented = False\<rparr>"
  by (simp add: NewConnection_def DialSerialNetwork_def serial_addresses_def demo_conn_env_def demo_dialer_def
      demo_two_addresses_def dial_def demo_dial_lib_def kickWriteHandshake_def NoMetadata_def)

theorem handler_told_once_witness:
  "conn_env_ok demo_conn_env \<and>
   told_once_and_closed demo_conn_env (stream_before demo_conn_env) (stream_after demo_conn_env)
     \<lparr>op_events = [], op_running = True, op_fragmented = False\<rparr>"
  using handler_told_once [OF demo_conn_env_ok, of demo_dialer demo_two_addresses "[]"] demo_conn_env_ok demo_opened
  by auto

text \<open>
  a packet connection whose handshake success cannot be reported is closed on both sides, but its handler is never told
  that it has ended.
\<close>

theorem packet_report_failure_untold:
  assumes "packet_dial E this m tr = (Ok (conn, a), tr1)" and "cv_ReportSuccess E = Some err"
  shows "\<exists>o2. NewPacketConnection E this m tr = (Ok o2, tr1) \<and> \<not> op_running o2 \<and> on_close_count (op_events o2) = 0 \<and>
    {CloseConn LocalConn, CloseConn RemoteConn} \<subseteq> set (op_events o2)"
  using assms by (simp add: NewPacketConnection_def Let_def)

theorem packet_report_failure_untold_witness:
  "\<exists>o2. NewPacketConnection (demo_conn_env\<lparr>cv_ReportSuccess := Some ErrInvalid\<rparr>) demo_dialer demo_two_addresses [] =
       (Ok o2, [ListenPacket (dy_SocksaddrFrom demo_dial_lib (Addr4 1) 0), ListenPacket (dy_SocksaddrFrom demo_dial_lib (Addr4 2) 0)]) \<and>
     \<not> op_running o2 \<and> on_close_count (op_events o2) = 0 \<and> {CloseConn LocalConn, CloseConn RemoteConn} \<subseteq> set (op_events o2)"
  by (rule packet_report_failure_untold [where conn = 7 and a = "Addr4 2" and err = ErrInvalid])
     (simp_all add: packet_dial_def packet_listen_def listen_serial_network_def serial_addresses_def demo_conn_env_def
        demo_dialer_def demo_two_addresses_def dial_def demo_dial_lib_def NoMetadata_def NoSocksaddr_def)

section \<open>Closing all connections\<close>

text \<open>
  The list as its users see it: a map from elements to connections. Tracking adds one under a new element, closing removes
  it, and closing all empties the map and closes exactly what was in it.
\<close>

definition tracked_view :: "'c conn_manager \<Rightarrow> nat \<Rightarrow> 'c option" where
  "tracked_view m = map_of (map (\<lambda>t. (tk_element t, tk_conn t)) (cm_connections m))"

definition tracked_inv :: "'c conn_manager \<Rightarrow> bool" where
  "tracked_inv m \<longleftrightarrow> distinct (map tk_element (cm_connections m)) \<and> (\<forall>t \<in> set (cm_connections m). tk_element t < cm_fresh m)"

lemma tracked_inv_ops:
  "tracked_inv NewConnectionManager"
  "tracked_inv m \<Longrightarrow> tracked_inv (snd (cm_Track c m))"
  "tracked_inv m \<Longrightarrow> tracked_inv (cm_Remove n m)"
  by (auto simp: tracked_inv_def NewConnectionManager_def cm_Track_def cm_Remove_def distinct_map inj_on_def)

lemma close_all_loop_left:
  "fst (close_all_loop ts closers m) = closers @ map tk_conn ts"
  "cm_connections (snd (close_all_loop ts closers m)) = filter (\<lambda>t. tk_element t \<notin> tk_element ` set ts) (cm_connections m)"
  by (induction ts arbitrary: closers m) (simp_all add: cm_Remove_def conj_commute)

lemma cm_CloseAll_all:
  assumes "cm_CloseAll m = (cs, m')"
  shows "cs = map tk_conn (cm_connections m)" and "cm_Count m' = 0" and "tracked_view m' = Map.empty"
proof -
  have "filter (\<lambda>t. tk_element t \<notin> tk_element ` set (cm_connections m)) (cm_connections m) = []" by (simp add: filter_empty_conv)
  with close_all_loop_left(2) [of "cm_connections m" "[]" m] assms have left: "cm_connections m' = []"
    by (simp add: cm_CloseAll_def)
  show "cs = map tk_conn (cm_connections m)"
    using close_all_loop_left(1) [of "cm_connections m" "[]" m] assms by (simp add: cm_CloseAll_def)
  show "cm_Count m' = 0" and "tracked_view m' = Map.empty" using left by (simp_all add: cm_Count_def tracked_view_def)
qed

lemma tracked_view_ops:
  assumes "tracked_inv m"
  shows "tracked_view (snd (cm_Track c m)) = (tracked_view m)(cm_fresh m \<mapsto> c)"
    and "tracked_view (cm_Remove n m) = (tracked_view m)(n := None)"
proof -
  have fresh: "cm_fresh m \<notin> dom (tracked_view m)"
    using assms by (auto simp: tracked_inv_def tracked_view_def dom_map_of_conv_image_fst)
  have "tracked_view (snd (cm_Track c m)) = [cm_fresh m \<mapsto> c] ++ tracked_view m"
    by (simp add: tracked_view_def cm_Track_def)
  also have "\<dots> = (tracked_view m)(cm_fresh m \<mapsto> c)" using fresh by (auto simp: map_add_def fun_eq_iff split: option.split)
  finally show "tracked_view (snd (cm_Track c m)) = (tracked_view m)(cm_fresh m \<mapsto> c)" .
  have "map_of (map (\<lambda>t. (tk_element t, tk_conn t)) (filter (\<lambda>t. tk_element t \<noteq> n) ts)) =
      (map_of (map (\<lambda>t. (tk_element t, tk_conn t)) ts))(n := None)" for ts :: "'a tracked list"
    by (induction ts) auto
  then show "tracked_view (cm_Remove n m) = (tracked_view m)(n := None)" by (simp add: tracked_view_def cm_Remove_def)
qed

end
