(* ===== verification/Box_Closing.thy ===== *)
theory Box_Closing
  imports Box_Theorems Connection_Theorems
begin

text \<open>
  Closing a box, and what a failed start leaves: every component that was started is closed again, in whatever stage the start
  failed. A box that was pre-started can never be started.
\<close>

section \<open>Only managed components are started\<close>

text \<open>The calls of the loops, also when they fail.\<close>

lemma start_each_calls:
  "start_each env kind s cs tr = (r, tr') \<Longrightarrow> set tr' \<subseteq> set tr \<union> (\<Union>c \<in> set cs. set (stage_call c s))"
  by (induction cs arbitrary: tr) (fastforce dest: LegacyStart_pair split: prod.splits option.splits)+

lemma start_pass_calls:
  assumes "\<And>c tr. snd (starter c tr) = tr @ calls c"
  shows "start_pass starter cs st can tr = (e, st', can', tr') \<Longrightarrow> set tr' \<subseteq> set tr \<union> (\<Union>c \<in> set cs. set (calls c))"
proof (induction cs arbitrary: st can tr)
  case (Cons c cs)
  show ?case
  proof (cases "c_tag c \<in> set st \<or> \<not> set (c_deps c) \<subseteq> set st")
    case True
    with Cons.prems have "start_pass starter cs st can tr = (e, st', can', tr')" by (auto split: if_splits)
    from Cons.IH [OF this] show ?thesis by auto
  next
    case False
    obtain r tr1 where one: "starter c tr = (r, tr1)" by fastforce
    then have tr1: "tr1 = tr @ calls c" using assms [of c tr] by simp
    show ?thesis
    proof (cases r)
      case None
      with Cons.prems False one have "start_pass starter cs (st @ [c_tag c]) True tr1 = (e, st', can', tr')" by simp
      from Cons.IH [OF this] tr1 show ?thesis by auto
    next
      case (Some e1)
      with Cons.prems False one tr1 show ?thesis by auto
    qed
  qed
qed simp

lemma start_loop_calls:
  assumes "\<And>c tr. snd (starter c tr) = tr @ calls c"
  shows "start_loop starter kind S bt cs st tr = (r, tr') \<Longrightarrow> set tr' \<subseteq> set tr \<union> (\<Union>c \<in> set cs. set (calls c))"
  using assms
proof (induction starter kind S bt cs st tr rule: start_loop.induct)
  case (1 starter kind S bt cs st tr)
  obtain e st1 can tr1 where pass: "start_pass starter cs st False tr = (e, st1, can, tr1)" by (metis prod_cases4)
  note calls = start_pass_calls [OF "1.prems"(2) pass]
  show ?case
  proof (cases "e = None \<and> length st1 \<noteq> length cs \<and> can")
    case True
    then have "start_loop starter kind S bt cs st1 tr1 = (r, tr')"
      using "1.prems"(1) by (subst (asm) start_loop.simps) (simp add: pass)
    from "1.IH" [OF pass [symmetric] _ _ _ _ _ this "1.prems"(2)] True
    have "set tr' \<subseteq> set tr1 \<union> (\<Union>c \<in> set cs. set (calls c))" by auto
    with calls show ?thesis by blast
  next
    case False
    then have "tr' = tr1"
      using "1.prems"(1) by (subst (asm) start_loop.simps) (auto simp: pass split: option.splits if_splits)
    with calls show ?thesis by simp
  qed
qed

text \<open>The components that were started, and whether a part has been started.\<close>

definition touched :: "trace \<Rightarrow> comp set" where
  "touched tr = {c. \<exists>s. CallStart c s \<in> set tr}"

lemma touched_sub:
  "set tr' \<subseteq> set tr \<union> (\<Union>c \<in> set cs. set (stage_call c s)) \<Longrightarrow> \<forall>c \<in> touched tr'. c \<in> touched tr \<or> c \<in> set cs"
  by (fastforce simp: touched_def stage_call_def split: start_stage.splits if_splits)

lemma start_outbounds_touched:
  assumes "start_outbounds env S bt cs tr = (r, tr')"
  shows "\<forall>c \<in> touched tr'. c \<in> touched tr \<or> c \<in> set cs"
  using start_loop_calls [OF start_outbound_trace assms [unfolded start_outbounds_def]] by (rule touched_sub)

lemma start_transport_trace: "snd (start_transport env c tr) = tr @ (if c_lifecycle c then [CallStart c StartStateStart] else [])"
  by (auto simp: start_transport_def do_call_def split: option.splits)

lemma start_transports_touched:
  assumes "start_transports env S bt cs tr = (r, tr')"
  shows "\<forall>c \<in> touched tr'. c \<in> touched tr \<or> c \<in> set cs"
  using start_loop_calls [OF start_transport_trace assms [unfolded start_transports_def]]
  by (fastforce simp: touched_def split: if_splits)

lemma start_each_touched:
  assumes "start_each env kind s cs tr = (r, tr')"
  shows "\<forall>c \<in> touched tr'. c \<in> touched tr \<or> c \<in> set cs"
  using start_each_calls [OF assms] by (rule touched_sub)

fun part_started :: "box_part \<Rightarrow> ('c, 'd, 'r, 'm) box \<Rightarrow> bool" where
  "part_started PartDNSTransport b = tm_started (bx_dnsTransport b)"
| "part_started PartOutbound b = om_started (bx_outbound b)"
| "part_started PartInbound b = im_started (bx_inbound b)"
| "part_started PartEndpoint b = em_started (bx_endpoint b)"
| "part_started PartService b = sm_started (bx_service b)"
| "part_started _ b = True"

text \<open>Whatever was started belongs to a part that has been started, or is an internal service.\<close>

definition covered :: "('c, 'd, 'r, 'm) world \<Rightarrow> bool" where
  "covered w \<longleftrightarrow>
     (\<forall>c \<in> touched (snd w). c \<in> set (bx_internalService (fst w)) \<or> (\<exists>p. part_started p (fst w) \<and> c \<in> set (managed p (fst w))))"

text \<open>A step of the start loses nothing.\<close>

definition grows :: "('c, 'd, 'r, 'm) box \<Rightarrow> ('c, 'd, 'r, 'm) box \<Rightarrow> bool" where
  "grows b b' \<longleftrightarrow>
     (\<forall>p. (part_started p b \<longrightarrow> part_started p b') \<and> set (managed p b) \<subseteq> set (managed p b')) \<and>
     bx_internalService b' = bx_internalService b \<and> bx_done b' = bx_done b"

lemma grows_refl [simp]: "grows b b"
  and grows_trans: "grows b1 b2 \<Longrightarrow> grows b2 b3 \<Longrightarrow> grows b1 b3"
  by (auto simp: grows_def)

lemma covered_step:
  assumes "covered (b, tr)" and "grows b b'"
    and "\<And>c. c \<in> touched tr' \<Longrightarrow> c \<in> touched tr \<or> c \<in> set (bx_internalService b') \<or>
      (\<exists>p. part_started p b' \<and> c \<in> set (managed p b'))"
  shows "covered (b', tr')"
  using assms unfolding covered_def grows_def by (metis fst_conv snd_conv subset_iff)

lemma om_Start_kept:
  assumes "om_Start S env em s m tr = (r, m', tr')"
  shows "set (om_outbounds m) \<subseteq> set (om_outbounds m')" and "om_started m \<Longrightarrow> om_started m'" and "\<not> is_panic r \<Longrightarrow> om_started m'"
  using assms
  by (auto simp: om_Start_def om_set_default_def Let_def split: if_splits prod.splits option.splits sum.splits)

lemma om_Start_touched:
  assumes "om_Start S env em s m tr = (r, m', tr')"
  shows "\<forall>c \<in> touched tr'. c \<in> touched tr \<or> om_started m' \<and> (c \<in> set (om_outbounds m') \<or> s = StartStateStart \<and> c \<in> set (em_endpoints em))"
  using assms
  by (auto simp: om_Start_def om_set_default_def em_Endpoints_def Let_def
      split: if_splits prod.splits option.splits sum.splits dest!: start_outbounds_touched start_each_touched) blast+

lemma tm_Start_kept:
  assumes "tm_Start S env s m tr = (r, m', tr')"
  shows "set (tm_transports m) \<subseteq> set (tm_transports m')" and "tm_started m \<Longrightarrow> tm_started m'" and "\<not> is_panic r \<Longrightarrow> tm_started m'"
  using assms
  by (auto simp: tm_Start_def Let_def split: if_splits prod.splits option.splits sum.splits)

lemma tm_Start_touched:
  assumes "tm_Start S env s m tr = (r, m', tr')"
  shows "\<forall>c \<in> touched tr'. c \<in> touched tr \<or> tm_started m' \<and> c \<in> set (tm_transports m')"
  using assms
  by (auto simp: tm_Start_def Let_def split: if_splits prod.splits option.splits sum.splits
      dest!: start_transports_touched start_each_touched) blast+

lemma simple_Start_kept:
  "im_Start env s im tr = (r, im', tr') \<Longrightarrow> im_inbounds im' = im_inbounds im \<and> (im_started im \<longrightarrow> im_started im') \<and>
     (\<not> is_panic r \<longrightarrow> im_started im') \<and> (\<forall>c \<in> touched tr'. c \<in> touched tr \<or> im_started im' \<and> c \<in> set (im_inbounds im))"
  "em_Start env s em tr = (r, em', tr') \<Longrightarrow> em_endpoints em' = em_endpoints em \<and> (em_started em \<longrightarrow> em_started em') \<and>
     (\<not> is_panic r \<longrightarrow> em_started em') \<and> (\<forall>c \<in> touched tr'. c \<in> touched tr \<or> em_started em' \<and> c \<in> set (em_endpoints em))"
  "sm_Start env s sm tr = (r, sm', tr') \<Longrightarrow> sm_services sm' = sm_services sm \<and> (sm_started sm \<longrightarrow> sm_started sm') \<and>
     (\<not> is_panic r \<longrightarrow> sm_started sm') \<and> (\<forall>c \<in> touched tr'. c \<in> touched tr \<or> sm_started sm' \<and> c \<in> set (sm_services sm))"
  by (auto simp: im_Start_def em_Start_def sm_Start_def Let_def split: if_splits prod.splits dest!: start_each_touched)

section \<open>A failed start is undone\<close>

text \<open>A part that starts changes nothing of the others, and starts what it manages once it is marked as started.\<close>

definition part_ok :: "box_part \<Rightarrow> ('c, 'd, 'r, 'm) world \<Rightarrow> unit go_out \<Rightarrow> ('c, 'd, 'r, 'm) world \<Rightarrow> bool" where
  "part_ok p w r w' \<longleftrightarrow>
     (\<forall>c \<in> touched (snd w'). c \<in> touched (snd w) \<or> (\<exists>q. part_started q (fst w') \<and> c \<in> set (managed q (fst w')))) \<and>
     grows (fst w) (fst w') \<and> (\<not> is_panic r \<longrightarrow> part_started p (fst w'))"

lemma part_okI:
  assumes "\<forall>c \<in> touched tr'. c \<in> touched tr \<or> part_started p b' \<and> c \<in> set (managed p b')"
    and "part_started p b \<longrightarrow> part_started p b'" and "set (managed p b) \<subseteq> set (managed p b')"
    and "\<not> is_panic r \<longrightarrow> part_started p b'"
    and "\<forall>q. q \<noteq> p \<longrightarrow> part_started q b' = part_started q b \<and> managed q b' = managed q b"
    and "bx_internalService b' = bx_internalService b" and "bx_done b' = bx_done b"
  shows "part_ok p (b, tr) r (b', tr')"
proof -
  have "(part_started q b \<longrightarrow> part_started q b') \<and> set (managed q b) \<subseteq> set (managed q b')" for q
    using assms(2,3,5) by (cases "q = p") simp_all
  with assms(1,4,6,7) show ?thesis unfolding part_ok_def grows_def by auto
qed

lemma outbound_part_ok:
  assumes "start_outbound_manager E s (b, tr) = (r, (b', tr'))" and "s = StartStateStart \<longrightarrow> em_started (bx_endpoint b)"
  shows "part_ok PartOutbound (b, tr) r (b', tr')"
proof -
  from assms(1) obtain m where om: "om_Start (bv_S E) (bv_calls E) (bx_endpoint b) s (bx_outbound b) tr = (r, m, tr')"
    and b': "b' = b\<lparr>bx_outbound := m\<rparr>" by (auto simp: start_outbound_manager_def split: prod.splits)
  have "\<exists>q. part_started q b' \<and> c \<in> set (managed q b')" if "c \<in> touched tr'" and "c \<notin> touched tr" for c
  proof -
    from om_Start_touched [OF om] that have "om_started m \<and> c \<in> set (om_outbounds m) \<or>
        s = StartStateStart \<and> c \<in> set (em_endpoints (bx_endpoint b))" by blast
    then have "part_started PartOutbound b' \<and> c \<in> set (managed PartOutbound b') \<or>
        part_started PartEndpoint b' \<and> c \<in> set (managed PartEndpoint b')" using assms(2) by (auto simp: b')
    then show ?thesis by blast
  qed
  with om_Start_kept [OF om] show ?thesis by (auto simp: part_ok_def grows_def all_box_parts b')
qed

lemma part_start_ok:
  assumes "snd (part_service E p) s (b, tr) = (r, (b', tr'))"
    and "p = PartOutbound \<longrightarrow> s = StartStateStart \<longrightarrow> em_started (bx_endpoint b)"
  shows "part_ok p (b, tr) r (b', tr')"
proof (cases p)
  case PartOutbound
  with assms show ?thesis by (simp add: outbound_part_ok)
next
  case PartDNSTransport
  with assms(1) obtain m where "tm_Start (bv_S E) (bv_calls E) s (bx_dnsTransport b) tr = (r, m, tr')"
    and "b' = b\<lparr>bx_dnsTransport := m\<rparr>" by (auto simp: start_dnsTransport_def split: prod.splits)
  with tm_Start_touched [OF this(1)] tm_Start_kept [OF this(1)] PartDNSTransport show ?thesis
    by (intro part_okI) (simp_all add: all_box_parts)
next
  case PartInbound
  with assms(1) obtain m where "im_Start (bv_calls E) s (bx_inbound b) tr = (r, m, tr')"
    and "b' = b\<lparr>bx_inbound := m\<rparr>" by (auto simp: start_inbound_manager_def split: prod.splits)
  with simple_Start_kept(1) [OF this(1)] PartInbound show ?thesis by (intro part_okI) (simp_all add: all_box_parts)
next
  case PartEndpoint
  with assms(1) obtain m where "em_Start (bv_calls E) s (bx_endpoint b) tr = (r, m, tr')"
    and "b' = b\<lparr>bx_endpoint := m\<rparr>" by (auto simp: start_endpoint_manager_def split: prod.splits)
  with simple_Start_kept(2) [OF this(1)] PartEndpoint show ?thesis by (intro part_okI) (simp_all add: all_box_parts)
next
  case PartService
  with assms(1) obtain m where "sm_Start (bv_calls E) s (bx_service b) tr = (r, m, tr')"
    and "b' = b\<lparr>bx_service := m\<rparr>" by (auto simp: start_service_manager_def split: prod.splits)
  with simple_Start_kept(3) [OF this(1)] PartService show ?thesis by (intro part_okI) (simp_all add: all_box_parts)
qed (use assms(1) in \<open>auto simp: part_start_defs part_ok_def grows_def all_box_parts split: prod.splits\<close>)

text \<open>What holds all along a start from a box: everything started is covered, and nothing is lost.\<close>

definition sound_from :: "('c, 'd, 'r, 'm) box \<Rightarrow> ('c, 'd, 'r, 'm) world \<Rightarrow> bool" where
  "sound_from b0 w \<longleftrightarrow> covered w \<and> grows b0 (fst w)"

lemma part_ok_sound: "part_ok p w r w' \<Longrightarrow> sound_from b0 w \<Longrightarrow> sound_from b0 w'"
  by (auto simp: sound_from_def part_ok_def intro: grows_trans covered_step [of "fst w" "snd w" "fst w'" "snd w'", simplified])

lemma parts_sound:
  assumes "start_parts E s ps w = (r, w')" and "sound_from b0 w"
    and "PartOutbound \<in> set ps \<longrightarrow> s = StartStateStart \<longrightarrow> em_started (bx_endpoint (fst w))"
  shows "sound_from b0 w' \<and> (is_ok r \<longrightarrow> (\<forall>p \<in> set ps. part_started p (fst w')))"
  using assms
proof (induction ps arbitrary: w b0)
  case Nil
  then show ?case by (simp add: start_parts_def)
next
  case (Cons p ps)
  obtain r1 b1 tr1 where run: "snd (part_service E p) s w = (r1, b1, tr1)" by (metis prod_cases3)
  with Cons.prems(3) have ok: "part_ok p w r1 (b1, tr1)"
    using part_start_ok [of E p s "fst w" "snd w" r1 b1 tr1] by auto
  note one = part_ok_sound [OF ok Cons.prems(2)]
  show ?case
  proof (cases r1)
    case (Ok u)
    with Cons.prems(1) run have rest: "start_parts E s ps (b1, tr1) = (r, w')"
      by (simp add: start_parts_def adapter_Start_Cons)
    have em: "em_started (bx_endpoint (fst w)) \<longrightarrow> em_started (bx_endpoint b1)"
      using ok by (auto simp: part_ok_def grows_def dest: spec [of _ PartEndpoint])
    have p: "part_started p b1" using ok Ok by (simp add: part_ok_def)
    have own: "sound_from b1 (b1, tr1)" using one by (simp add: sound_from_def)
    have "sound_from b1 w' \<and> (is_ok r \<longrightarrow> (\<forall>p \<in> set ps. part_started p (fst w')))"
      by (rule Cons.IH [OF rest own]) (use Cons.prems(3) em in auto)
    moreover have "grows b0 b1" using one by (simp add: sound_from_def)
    ultimately show ?thesis using p by (auto simp: sound_from_def grows_def)
  next
    case (Err e)
    with Cons.prems(1) run one show ?thesis by (auto simp: start_parts_def adapter_Start_Cons)
  next
    case (Panic m)
    with Cons.prems(1) run one show ?thesis by (auto simp: start_parts_def adapter_Start_Cons)
  qed
qed

lemma internals_sound:
  assumes "start_internals E s w = (r, w')" and "sound_from b0 w"
  shows "sound_from b0 w' \<and> fst w' = fst w"
proof -
  have loop: "adapter_StartNamed s (map (\<lambda>c. (c_tag c, start_internal E c)) cs) (b, tr) = (r, w') \<Longrightarrow>
      fst w' = b \<and> (\<forall>c \<in> touched (snd w'). c \<in> touched tr \<or> c \<in> set cs)" for cs b tr
  proof (induction cs arbitrary: tr)
    case (Cons d cs)
    obtain r1 tr1 where one: "LegacyStart (bv_calls E) d s tr = (r1, tr1)" by fastforce
    have new: "\<forall>c \<in> touched tr1. c \<in> touched tr \<or> c = d"
      using LegacyStart_pair [OF one] touched_sub [where tr' = tr1 and tr = tr and cs = "[d]" and s = s] by auto
    show ?case
    proof (cases r1)
      case None
      with Cons.prems one have "adapter_StartNamed s (map (\<lambda>c. (c_tag c, start_internal E c)) cs) (b, tr1) = (r, w')"
        by (simp add: start_internal_apply)
      from Cons.IH [OF this] new show ?thesis by auto
    next
      case (Some e)
      with Cons.prems one have "w' = (b, tr1)" by (auto simp: start_internal_apply)
      with new show ?thesis by auto
    qed
  qed auto
  obtain b tr where w: "w = (b, tr)" by fastforce
  from loop [of "bx_internalService b" b tr] assms(1) have eq: "fst w' = b"
    and new: "\<forall>c \<in> touched (snd w'). c \<in> touched tr \<or> c \<in> set (bx_internalService b)" by (auto simp: start_internals_def w)
  have "covered (b, snd w')"
    by (rule covered_step [of b tr]) (use assms(2) new in \<open>auto simp: sound_from_def w\<close>)
  with eq assms(2) show ?thesis by (cases w') (simp add: sound_from_def w)
qed

lemma touched_other: "(\<And>c s. k \<noteq> CallStart c s) \<Longrightarrow> touched (tr @ [k]) = touched tr"
  by (auto simp: touched_def)

lemma logger_sound: "start_logger E w = (r, w') \<Longrightarrow> sound_from b0 w \<Longrightarrow> sound_from b0 w'"
  by (cases w) (auto simp: start_logger_def do_call_def sound_from_def covered_def touched_other split: option.splits)

lemma run_steps_inv:
  assumes "run_steps fs w = (r, w')" and "I w" and "\<And>f w r w'. f \<in> set fs \<Longrightarrow> f w = (r, w') \<Longrightarrow> I w \<Longrightarrow> I w'"
  shows "I w'"
  using assms
proof (induction fs arbitrary: w)
  case (Cons f fs)
  obtain r1 w1 where one: "f w = (r1, w1)" by fastforce
  have I: "I w1" by (rule Cons.prems(3) [of f w r1 w1]) (simp_all add: one Cons.prems(2))
  show ?case
  proof (cases r1)
    case (Ok u)
    with Cons.prems(1) one have "run_steps fs w1 = (r, w')" by simp
    from Cons.IH [OF this I] Cons.prems(3) show ?thesis by auto
  qed (use Cons.prems(1) one I in auto)
qed simp

lemma run_steps_append:
  "run_steps (fs @ gs) w = (case run_steps fs w of (Ok _, w1) \<Rightarrow> run_steps gs w1 | r \<Rightarrow> r)"
  by (induction fs arbitrary: w) (auto split: prod.splits go_out.splits)

lemma preStart_sound:
  assumes "preStart E w = (r, w')" and "sound_from b0 w"
  shows "sound_from b0 w'"
proof -
  let ?first = "[start_logger E, start_internals E StartStateInitialize]"
  let ?init = "start_parts E StartStateInitialize
        [PartNetwork, PartDNSTransport, PartDNSRouter, PartConnection, PartRouter, PartOutbound, PartInbound, PartEndpoint,
         PartService]"
  let ?start = "start_parts E StartStateStart [PartOutbound, PartDNSTransport, PartDNSRouter, PartNetwork, PartConnection, PartRouter]"
  obtain r1 w1 where one: "run_steps ?first w = (r1, w1)" by (rule prod.exhaust)
  obtain r2 w2 where two: "?init w1 = (r2, w2)" by (rule prod.exhaust)
  obtain r3 w3 where three: "?start w2 = (r3, w3)" by (rule prod.exhaust)
  have s1: "sound_from b0 w1"
    by (rule run_steps_inv [where I = "sound_from b0", OF one assms(2)]) (auto dest: internals_sound logger_sound)
  from parts_sound [OF two s1] have s2: "sound_from b0 w2"
    and em: "is_ok r2 \<longrightarrow> em_started (bx_endpoint (fst w2))" by (auto dest: bspec [of _ _ PartEndpoint])
  from parts_sound [OF three s2] em have s3: "is_ok r2 \<longrightarrow> sound_from b0 w3" by simp
  have "preStart E w = run_steps (?first @ [?init, ?start]) w" by (simp add: preStart_def)
  with assms(1) have "(case run_steps ?first w of (Ok _, w1) \<Rightarrow> run_steps [?init, ?start] w1 | r \<Rightarrow> r) = (r, w')"
    by (simp only: run_steps_append)
  with one s1 two s2 three s3 show ?thesis by (cases r1; cases r2; cases r3) auto
qed

lemma box_start_sound:
  assumes "box_start E w = (r, w')" and "sound_from b0 w"
  shows "sound_from b0 w'"
  using assms(1) unfolding box_start_def
  by (rule run_steps_inv [where I = "sound_from b0", OF _ assms(2)]) (auto dest: preStart_sound internals_sound parts_sound)

section \<open>Closing\<close>

text \<open>The components a close reaches: an outbound or a DNS server is closed if it has a \<^verbatim>\<open>Close\<close>.\<close>

definition closable :: "comp \<Rightarrow> bool" where
  "closable c \<longleftrightarrow> c_closer c"

lemma manager_Close_calls:
  "sm_Close env sm tr = (r, sm', tr') \<Longrightarrow> set tr \<subseteq> set tr' \<and> (sm_started sm \<longrightarrow> CallClose ` set (sm_services sm) \<subseteq> set tr')"
  "em_Close env em tr = (r, em', tr') \<Longrightarrow> set tr \<subseteq> set tr' \<and> (em_started em \<longrightarrow> CallClose ` set (em_endpoints em) \<subseteq> set tr')"
  "im_Close env im tr = (r, im', tr') \<Longrightarrow> set tr \<subseteq> set tr' \<and> (im_started im \<longrightarrow> CallClose ` set (im_inbounds im) \<subseteq> set tr')"
  "om_Close env om tr = (r, om', tr') \<Longrightarrow> set tr \<subseteq> set tr' \<and>
     (om_started om \<longrightarrow> CallClose ` {c \<in> set (om_outbounds om). c_closer c} \<subseteq> set tr')"
  "tm_Close env tm tr = (r, tm', tr') \<Longrightarrow> set tr \<subseteq> set tr' \<and>
     (tm_started tm \<longrightarrow> CallClose ` {c \<in> set (tm_transports tm). c_closer c} \<subseteq> set tr')"
  by (auto simp: sm_Close_def em_Close_def im_Close_def om_Close_def tm_Close_def split: if_splits prod.splits
      dest: close_each_pair)

lemma touched_closes: "touched (tr @ map CallClose cs) = touched tr"
  by (auto simp: touched_def)

lemma manager_Close_touched:
  "sm_Close env sm tr = (r, sm', tr') \<Longrightarrow> touched tr' = touched tr"
  "em_Close env em tr = (r, em', tr') \<Longrightarrow> touched tr' = touched tr"
  "im_Close env im tr = (r, im', tr') \<Longrightarrow> touched tr' = touched tr"
  "om_Close env om tr = (r, om', tr') \<Longrightarrow> touched tr' = touched tr"
  "tm_Close env tm tr = (r, tm', tr') \<Longrightarrow> touched tr' = touched tr"
  by (auto simp: sm_Close_def em_Close_def im_Close_def om_Close_def tm_Close_def touched_closes split: if_splits prod.splits
      dest!: close_each_pair)

lemma close_internals_trace: "snd (close_internals env cs tr) = tr @ map CallClose cs"
  by (induction cs arbitrary: tr) (simp_all add: do_call_def case_prod_beta)

lemma close_parts_calls:
  assumes "close_parts E (b, tr) = (es, (b', tr'))"
  shows "set tr \<subseteq> set tr'" and "part_started p b \<Longrightarrow> c \<in> set (managed p b) \<Longrightarrow> closable c \<Longrightarrow> CallClose c \<in> set tr'"
    and "bx_internalService b' = bx_internalService b" and "bx_done b' = bx_done b" and "bx_logger b' = bx_logger b"
    and "cm_connections (bx_connection b') = []" and "touched tr' = touched tr"
proof -
  obtain r1 sm tr1 where 1: "sm_Close (bv_calls E) (bx_service b) tr = (r1, sm, tr1)" by (metis prod_cases3)
  obtain r2 em tr2 where 2: "em_Close (bv_calls E) (bx_endpoint b) tr1 = (r2, em, tr2)" by (metis prod_cases3)
  obtain r3 im tr3 where 3: "im_Close (bv_calls E) (bx_inbound b) tr2 = (r3, im, tr3)" by (metis prod_cases3)
  obtain r4 om tr4 where 4: "om_Close (bv_calls E) (bx_outbound b) tr3 = (r4, om, tr4)" by (metis prod_cases3)
  obtain r5 tm tr5 where 5: "tm_Close (bv_calls E) (bx_dnsTransport b) tr4 = (r5, tm, tr5)" by (metis prod_cases3)
  have "\<exists>errs. close_parts E (b, tr) = (errs, b\<lparr>bx_service := sm, bx_endpoint := em, bx_inbound := im,
      bx_outbound := om, bx_router := router_Close (bx_router b), bx_connection := snd (cm_Close (bx_connection b)),
      bx_dnsTransport := tm\<rparr>, tr5)"
    by (simp add: close_parts_def 1 2 3 4 5 Let_def)
  then obtain errs where run: "close_parts E (b, tr) = (errs, b\<lparr>bx_service := sm, bx_endpoint := em, bx_inbound := im,
      bx_outbound := om, bx_router := router_Close (bx_router b), bx_connection := snd (cm_Close (bx_connection b)),
      bx_dnsTransport := tm\<rparr>, tr5)" ..
  note ends = trans [OF assms [symmetric] run, unfolded prod.inject]
  from ends have tr': "tr' = tr5" by (elim conjE)
  from ends have b': "b' = b\<lparr>bx_service := sm, bx_endpoint := em, bx_inbound := im,
      bx_outbound := om, bx_router := router_Close (bx_router b), bx_connection := snd (cm_Close (bx_connection b)),
      bx_dnsTransport := tm\<rparr>" by (elim conjE)
  note calls = manager_Close_calls(1) [OF 1] manager_Close_calls(2) [OF 2] manager_Close_calls(3) [OF 3]
    manager_Close_calls(4) [OF 4] manager_Close_calls(5) [OF 5]
  note sub = calls [THEN conjunct1]
  have later: "set tr1 \<subseteq> set tr'" "set tr2 \<subseteq> set tr'" "set tr3 \<subseteq> set tr'" "set tr4 \<subseteq> set tr'"
    using sub(2-5) unfolding tr' by (meson order_trans)+
  show "set tr \<subseteq> set tr'" using sub(1) later(1) by (rule order_trans)
  show "CallClose c \<in> set tr'" if c: "part_started p b" "c \<in> set (managed p b)" "closable c"
  proof (cases p)
    case PartService
    with c calls(1) have "CallClose c \<in> set tr1" by auto
    with later(1) show ?thesis by blast
  next
    case PartEndpoint
    with c calls(2) have "CallClose c \<in> set tr2" by auto
    with later(2) show ?thesis by blast
  next
    case PartInbound
    with c calls(3) have "CallClose c \<in> set tr3" by auto
    with later(3) show ?thesis by blast
  next
    case PartOutbound
    with c calls(4) have "CallClose c \<in> set tr4" by (auto simp: closable_def)
    with later(4) show ?thesis by blast
  next
    case PartDNSTransport
    with c calls(5) show ?thesis unfolding tr' by (auto simp: closable_def)
  qed (use c in simp_all)
  show "bx_internalService b' = bx_internalService b" "bx_done b' = bx_done b" "bx_logger b' = bx_logger b"
    by (simp_all add: b')
  have "cm_connections (snd (cm_CloseAll (bx_connection b))) = []"
    using close_all_loop_left(2) [of "cm_connections (bx_connection b)" "[]" "bx_connection b"] by (simp add: cm_CloseAll_def filter_empty_conv)
  then show "cm_connections (bx_connection b') = []" by (simp add: b' cm_Close_def)
  show "touched tr' = touched tr"
    using manager_Close_touched(1) [OF 1] manager_Close_touched(2) [OF 2] manager_Close_touched(3) [OF 3]
      manager_Close_touched(4) [OF 4] manager_Close_touched(5) [OF 5] by (simp add: tr')
qed

lemma box_Close_calls:
  assumes "box_Close E (b, tr) = (r, (b', tr'))" and "\<not> bx_done b"
  shows "bx_done b'" and "set tr \<subseteq> set tr'" and "cm_connections (bx_connection b') = []"
    and "part_started p b \<Longrightarrow> c \<in> set (managed p b) \<Longrightarrow> closable c \<Longrightarrow> CallClose c \<in> set tr'"
    and "c \<in> set (bx_internalService b) \<Longrightarrow> CallClose c \<in> set tr'" and "CallClose (bx_logger b) \<in> set tr'"
    and "bx_logger b' = bx_logger b" and "touched tr' = touched tr"
proof -
  obtain es b1 tr1 where parts: "close_parts E (b\<lparr>bx_done := True\<rparr>, tr) = (es, (b1, tr1))" by (metis prod_cases3)
  obtain es' tr2 where internals: "close_internals (bv_calls E) (bx_internalService b1) tr1 = (es', tr2)" by fastforce
  from assms parts internals have b': "b' = b1" and tr': "tr' = tr2 @ [CallClose (bx_logger b1)]"
    by (auto simp: box_Close_def do_call_def Let_def)
  note close = close_parts_calls [OF parts] and tr2 = close_internals_trace [of "bv_calls E" "bx_internalService b1" tr1, unfolded internals snd_conv]
  have same: "part_started p (b\<lparr>bx_done := True\<rparr>) = part_started p b" "managed p (b\<lparr>bx_done := True\<rparr>) = managed p b" for p
    by (cases p; simp)+
  show "bx_done b'" and "cm_connections (bx_connection b') = []" using close by (simp_all add: b')
  show "set tr \<subseteq> set tr'" using close(1) by (auto simp: tr' tr2)
  show "CallClose c \<in> set tr'" if "part_started p b" "c \<in> set (managed p b)" "closable c"
    using close(2) [of p c] that same by (simp add: tr' tr2)
  show "CallClose c \<in> set tr'" if "c \<in> set (bx_internalService b)" using that close(3) by (simp add: tr' tr2)
  show "CallClose (bx_logger b) \<in> set tr'" using close(5) by (simp add: tr')
  show "bx_logger b' = bx_logger b" using close(5) by (simp add: b')
  show "touched tr' = touched tr" using close(7) by (auto simp: tr' tr2 touched_def)
qed


lemma demo_box_fails:
  "\<exists>e b' tr'. box_Start (demo_box_env (\<lambda>k. k = CallStart (demo_comp 3 ''dns'' []) StartStatePostStart)) (demo_box, []) =
     (Err e, (b', tr')) \<and> CallStart (demo_comp 1 ''in'' []) StartStateStart \<in> set tr'"
proof -
  let ?E = "demo_box_env (\<lambda>k. k = CallStart (demo_comp 3 ''dns'' []) StartStatePostStart)"
  have "\<exists>e b1 tr1. box_start ?E (demo_box, []) = (Err e, (b1, tr1)) \<and> \<not> bx_done b1 \<and>
      CallStart (demo_comp 1 ''in'' []) StartStateStart \<in> set tr1"
    by (simp add: box_start_defs demo_box_defs less_eq_start_stage_def)
  then obtain e b1 tr1 where fail: "box_start ?E (demo_box, []) = (Err e, (b1, tr1))" and open1: "\<not> bx_done b1"
    and asked: "CallStart (demo_comp 1 ''in'' []) StartStateStart \<in> set tr1" by blast
  obtain r b' tr' where closed: "box_Close ?E (b1, tr1) = (r, (b', tr'))" by (metis prod_cases3)
  have "set tr1 \<subseteq> set tr'" by (rule box_Close_calls(2) [OF closed open1])
  with fail closed asked show ?thesis by (auto simp: box_Start_def)
qed


end
