(* ===== verification/Box_Configured.thy ===== *)
theory Box_Configured
  imports Box_Closing DNS_Router_Theorems
begin

text \<open>
  What \<^verbatim>\<open>New\<close> makes of a configuration: every entry of an accepted configuration has become a component that is found under its
  tag, and the network manager never learns of the connection manager.
\<close>

section \<open>Creating the entries of one list\<close>

text \<open>The components created for a list of entries, in order and under the tags of the entries.\<close>

definition configured ::
  "'o registry \<Rightarrow> (nat \<Rightarrow> string) \<Rightarrow> nat \<Rightarrow> 'o item list \<Rightarrow> comp list \<Rightarrow> (string \<Rightarrow> comp option) \<Rightarrow> bool" where
  "configured reg f i its cs found \<longleftrightarrow>
     length cs = length its \<and>
     (\<forall>j < length its. let tag = effective_tag f (i + j) (it_Tag (its ! j)) in
        registry_Create reg tag (it_Type (its ! j)) (it_Options (its ! j)) = Inr (cs ! j) \<and> found tag = Some (cs ! j))"

lemma configured_Nil: "configured reg f i [] cs found \<longleftrightarrow> cs = []"
  by (simp add: configured_def)

lemma configured_Cons:
  "configured reg f i (it # its) (c # cs) found \<longleftrightarrow>
     registry_Create reg (effective_tag f i (it_Tag it)) (it_Type it) (it_Options it) = Inr c \<and>
     found (effective_tag f i (it_Tag it)) = Some c \<and> configured reg f (Suc i) its cs found"
  by (auto simp: configured_def Let_def All_less_Suc2)

lemma configured_found:
  "configured reg f i its cs found \<Longrightarrow> (\<And>t. t \<in> set (tags_from f i (map it_Tag its)) \<Longrightarrow> found' t = found t) \<Longrightarrow>
   configured reg f i its cs found'"
proof (induction its arbitrary: i cs)
  case (Cons it its)
  then show ?case by (cases cs) (simp_all add: configured_Cons, simp add: configured_def)
qed (simp add: configured_def)

lemma configured_more:
  "configured reg f i its cs found \<Longrightarrow> (\<And>t c. found t = Some c \<Longrightarrow> found' t = Some c) \<Longrightarrow> configured reg f i its cs found'"
  by (auto simp: configured_def Let_def)

text \<open>
  The contract of the creating operations while their manager is not started: a new tag appends the component that the registry
  makes, and nothing else of the box changes, which \<open>others\<close> looks at.
\<close>

lemma create_items_keep:
  assumes "create_items create f name i its s = (r, s')" and "\<And>tag typ options s r s'. create tag typ options s = (r, s') \<Longrightarrow> g s' = g s"
  shows "g s' = g s"
  using assms(1)
proof (induction its arbitrary: i s)
  case (Cons it its)
  obtain r1 s1 where one: "create (effective_tag f i (it_Tag it)) (it_Type it) (it_Options it) s = (r1, s1)" by fastforce
  from Cons assms(2) [OF one] show ?case by (cases r1) (auto simp: one)
qed simp

locale creating =
  fixes create :: "'o registry \<Rightarrow> string \<Rightarrow> string \<Rightarrow> 'o option \<Rightarrow> 's \<Rightarrow> unit go_out \<times> 's"
    and members :: "'s \<Rightarrow> comp list" and by_tag :: "'s \<Rightarrow> string \<Rightarrow> comp option" and idle :: "'s \<Rightarrow> bool"
    and others :: "'s \<Rightarrow> 'x"
  assumes create_new: "create reg tag typ options s = (Ok u, s') \<Longrightarrow> idle s \<Longrightarrow> by_tag s tag = None \<Longrightarrow>
      \<exists>c. registry_Create reg tag typ options = Inr c \<and> members s' = members s @ [c] \<and> by_tag s' = (by_tag s)(tag \<mapsto> c) \<and> idle s'"
    and create_others: "create reg tag typ options s = (r, s') \<Longrightarrow> others s' = others s"
begin

lemma items_others: "create_items (create reg) f name i its s = (r, s') \<Longrightarrow> others s' = others s"
  by (rule create_items_keep [where g = others]) (auto dest: create_others)

lemma items_created:
  assumes "create_items (create reg) f name i its s = (Ok u, s')" and "idle s"
    and "distinct (tags_from f i (map it_Tag its))" and "\<forall>t \<in> set (tags_from f i (map it_Tag its)). by_tag s t = None"
  shows "\<exists>cs. members s' = members s @ cs \<and> configured reg f i its cs (by_tag s') \<and>
    (\<forall>t. t \<notin> set (tags_from f i (map it_Tag its)) \<longrightarrow> by_tag s' t = by_tag s t)"
  using assms
proof (induction its arbitrary: i s)
  case (Cons it its)
  let ?tag = "effective_tag f i (it_Tag it)"
  obtain r1 s1 where run: "create reg ?tag (it_Type it) (it_Options it) s = (r1, s1)" by fastforce
  with Cons.prems(1) obtain u1 where one: "create reg ?tag (it_Type it) (it_Options it) s = (Ok u1, s1)"
    and rest: "create_items (create reg) f name (Suc i) its s1 = (Ok u, s')" by (cases r1) auto
  from Cons.prems(4) have "by_tag s ?tag = None" by simp
  from create_new [OF one Cons.prems(2) this] obtain c where c: "registry_Create reg ?tag (it_Type it) (it_Options it) = Inr c"
    and s1: "members s1 = members s @ [c]" "by_tag s1 = (by_tag s)(?tag \<mapsto> c)" "idle s1" by blast
  have "\<forall>t \<in> set (tags_from f (Suc i) (map it_Tag its)). by_tag s1 t = None" using Cons.prems(3,4) s1(2) by auto
  from Cons.IH [OF rest s1(3) _ this] Cons.prems(3) obtain cs where cs: "members s' = members s1 @ cs"
    "configured reg f (Suc i) its cs (by_tag s')"
    "\<forall>t. t \<notin> set (tags_from f (Suc i) (map it_Tag its)) \<longrightarrow> by_tag s' t = by_tag s1 t" by auto
  with Cons.prems(3) s1(2) have "by_tag s' ?tag = Some c" by simp
  with cs c s1 show ?case by (intro exI [of _ "c # cs"]) (auto simp: configured_Cons)
qed (simp add: configured_def)

end

text \<open>The four managers that \<^verbatim>\<open>New\<close> fills in this way.\<close>

abbreviation of_box :: "(('c, 'd, 'r, 'm) box \<Rightarrow> 'x) \<Rightarrow> ('c, 'd, 'r, 'm) making \<Rightarrow> 'x" where
  "of_box g s \<equiv> g (fst (fst s))"

interpretation make_inbounds: creating "create_inbound E" "of_box (\<lambda>b. im_inbounds (bx_inbound b))"
    "of_box (\<lambda>b. im_by_tag (bx_inbound b))" "of_box (\<lambda>b. \<not> im_started (bx_inbound b))"
    "\<lambda>s. (of_box (\<lambda>b. (bx_network b, bx_endpoint b, bx_outbound b)) s, snd s)" for E
  by unfold_locales
     (auto simp: create_inbound_def im_Create_def im_install_def im_append_def split: prod.splits sum.splits if_splits)

interpretation make_outbounds: creating "create_outbound E" "of_box (\<lambda>b. om_outbounds (bx_outbound b))"
    "of_box (\<lambda>b. om_by_tag (bx_outbound b))" "of_box (\<lambda>b. \<not> om_started (bx_outbound b))"
    "\<lambda>s. (of_box (\<lambda>b. (bx_network b, bx_endpoint b, bx_inbound b)) s, snd s)" for E
  by unfold_locales
     (auto simp: create_outbound_def om_Create_def om_install_def split: prod.splits sum.splits if_splits)

interpretation make_endpoints: creating "create_endpoint E" "of_box (\<lambda>b. em_endpoints (bx_endpoint b))"
    "of_box (\<lambda>b. em_by_tag (bx_endpoint b))" "of_box (\<lambda>b. \<not> em_started (bx_endpoint b))"
    "\<lambda>s. (of_box (\<lambda>b. (bx_network b, bx_inbound b, bx_outbound b)) s, snd s)" for E
  by unfold_locales
     (auto simp: create_endpoint_def em_Create_def em_install_def em_append_def split: prod.splits sum.splits if_splits)

interpretation make_services: creating "create_service E" "of_box (\<lambda>b. sm_services (bx_service b))"
    "of_box (\<lambda>b. sm_by_tag (bx_service b))" "of_box (\<lambda>b. \<not> sm_started (bx_service b))"
    "\<lambda>s. (of_box (\<lambda>b. (bx_network b, bx_endpoint b, bx_inbound b, bx_outbound b)) s, snd s)" for E
  by unfold_locales
     (auto simp: create_service_def sm_Create_def sm_install_def sm_append_def split: prod.splits sum.splits if_splits)


section \<open>The managers along the steps\<close>

definition managers :: "('c, 'd, 'r, 'm) making \<Rightarrow> network_manager \<times> endpoint_manager \<times> inbound_manager \<times> outbound_manager" where
  "managers s = of_box (\<lambda>b. (bx_network b, bx_endpoint b, bx_inbound b, bx_outbound b)) s"

text \<open>A step that leaves these managers alone, apart from the fallback outbound.\<close>

definition same_managers :: "('c, 'd, 'r, 'm) making \<Rightarrow> ('c, 'd, 'r, 'm) making \<Rightarrow> bool" where
  "same_managers s s' \<longleftrightarrow> fst (managers s') = fst (managers s) \<and> of_box bx_endpoint s' = of_box bx_endpoint s \<and>
     of_box bx_inbound s' = of_box bx_inbound s \<and> om_outbounds (of_box bx_outbound s') = om_outbounds (of_box bx_outbound s) \<and>
     om_by_tag (of_box bx_outbound s') = om_by_tag (of_box bx_outbound s) \<and>
     om_started (of_box bx_outbound s') = om_started (of_box bx_outbound s)"

lemma same_managers_refl: "same_managers s s"
  and same_managers_trans: "same_managers s t \<Longrightarrow> same_managers t u \<Longrightarrow> same_managers s u"
  by (simp_all add: same_managers_def)

definition leaves_managers :: "(('c, 'd, 'r, 'm) making \<Rightarrow> unit go_out \<times> ('c, 'd, 'r, 'm) making) \<Rightarrow> bool" where
  "leaves_managers f \<longleftrightarrow> (\<forall>s r s'. f s = (r, s') \<longrightarrow> same_managers s s')"

lemma leaves_managers_steps [simp]:
  "leaves_managers (demand e)" "leaves_managers (register names)" "leaves_managers (add_internal w why made names)"
  "leaves_managers (change (add_tracker w name))" "leaves_managers (initialize_router N O1)"
  "leaves_managers (initialize_dns_router N O1)"
  "leaves_managers (change (\<lambda>b. b\<lparr>bx_outbound := om_Initialize d (bx_outbound b), bx_dnsTransport := tm_Initialize l (bx_dnsTransport b)\<rparr>))"
  by (auto simp: leaves_managers_def same_managers_def managers_def demand_def register_def add_internal_def change_def
      add_tracker_def initialize_router_def initialize_dns_router_def om_Initialize_def split: if_splits sum.splits prod.splits go_out.splits)

lemma leaves_managers_items:
  assumes "\<And>tag typ options. leaves_managers (create tag typ options)"
  shows "leaves_managers (create_items create f name i its)"
  unfolding leaves_managers_def
proof (intro allI impI)
  fix s s' and r :: "unit go_out"
  assume "create_items create f name i its s = (r, s')"
  then show "same_managers s s'"
  proof (induction its arbitrary: i s)
    case (Cons it its)
    obtain r1 s1 where one: "create (effective_tag f i (it_Tag it)) (it_Type it) (it_Options it) s = (r1, s1)"
      by (metis prod.collapse)
    with assms have first: "same_managers s s1" unfolding leaves_managers_def by blast
    show ?case
    proof (cases r1)
      case (Ok v)
      with Cons.prems one have "create_items create f name (Suc i) its s1 = (r, s')" by simp
      from same_managers_trans [OF first Cons.IH [OF this]] show ?thesis .
    qed (use Cons.prems one first in auto)
  qed (simp add: same_managers_refl)
qed

lemma leaves_managers_created [simp]:
  "leaves_managers (create_items (create_server E reg) f name i its)"
  "leaves_managers (create_items (create_service E reg) f name i its)"
  by (rule leaves_managers_items,
      simp add: leaves_managers_def same_managers_def managers_def create_server_def create_service_def split: prod.splits)+

lemma run_steps_leave:
  "run_steps fs s = (r, s') \<Longrightarrow> \<forall>f \<in> set fs. leaves_managers f \<Longrightarrow> same_managers s s'"
  by (rule run_steps_inv [where I = "same_managers s"])
     (auto simp: leaves_managers_def same_managers_refl intro: same_managers_trans)

lemma run_steps_append_Ok:
  "run_steps (fs @ gs) s = (Ok u, s') \<longleftrightarrow> (\<exists>v t. run_steps fs s = (Ok v, t) \<and> run_steps gs t = (Ok u, s'))"
  by (auto simp: run_steps_append split: prod.splits go_out.splits)

text \<open>The steps of \<^verbatim>\<open>New\<close> that fill the managers, and the rest.\<close>

lemma new_steps_split:
  assumes "run_steps (new_steps E N O1 re ri ro rs rv) s = (Ok u, s')"
  obtains u1 s1 u2 s2 s3 u4 s4 u5 s5 u6 s6 where
    "run_steps [add_internal (bo_Certificate O1) [] (bn_certificate N) [''CertificateStore''],
       register [''EndpointManager'', ''InboundManager'', ''OutboundManager'', ''DNSTransportManager'', ''ServiceManager'', ''DNSRouter'']]
       s = (Ok u1, s1)"
    and "make_network E N O1 s1 = (Ok u2, s2)" and "same_managers s2 s3"
    and "create_items (create_endpoint E re) (bn_ToString N) ''initialize endpoint'' 0 (bo_Endpoints O1) s3 = (Ok u4, s4)"
    and "create_items (create_inbound E ri) (bn_ToString N) ''initialize inbound'' 0 (bo_Inbounds O1) s4 = (Ok u5, s5)"
    and "create_items (create_outbound E ro) (bn_ToString N) ''initialize outbound'' 0 (bo_Outbounds O1) s5 = (Ok u6, s6)"
    and "same_managers s6 s'"
proof -
  let ?X = "new_steps E N O1 re ri ro rs rv"
  have X: "?X = take 2 ?X @ (?X ! 2 # (take 5 (drop 3 ?X) @ (?X ! 8 # ?X ! 9 # ?X ! 10 # drop 11 ?X)))"
    by (simp add: new_steps_def eval_nat_numeral)
  have leave: "\<forall>f \<in> set (take 5 (drop 3 ?X)). leaves_managers f" "\<forall>f \<in> set (drop 11 ?X). leaves_managers f"
    by (auto simp: new_steps_def eval_nat_numeral split: sum.splits prod.splits)
  from assms obtain u1 s1 u2 s2 u3 s3 u4 s4 u5 s5 u6 s6 where
    "run_steps (take 2 ?X) s = (Ok u1, s1)" and "(?X ! 2) s1 = (Ok u2, s2)" and a: "run_steps (take 5 (drop 3 ?X)) s2 = (Ok u3, s3)"
    and "(?X ! 8) s3 = (Ok u4, s4)" and "(?X ! 9) s4 = (Ok u5, s5)" and "(?X ! 10) s5 = (Ok u6, s6)" and b: "run_steps (drop 11 ?X) s6 = (Ok u, s')"
    by (subst (asm) X) (auto simp only: run_steps_append_Ok run_steps_Cons_Ok)
  with run_steps_leave [OF a leave(1)] run_steps_leave [OF b leave(2)] that show thesis
    by (simp add: new_steps_def eval_nat_numeral)
qed

lemma box_New_run:
  assumes "box_New E N O1 = Ok w"
  obtains re ri ro rs rv logFactory u ctx where "bn_endpointRegistry N = Some re" and "bn_inboundRegistry N = Some ri"
    and "bn_outboundRegistry N = Some ro" and "bn_dnsRegistry N = Some rs" and "bn_serviceRegistry N = Some rv"
    and "run_steps (new_steps E N O1 re ri ro rs rv) ((blank_box N O1 logFactory, []), bn_registered N) = (Ok u, (w, ctx))"
  using assms unfolding box_New_def
  by (auto split: option.splits sum.splits prod.splits go_out.splits list.splits if_splits)

section \<open>The configuration is served\<close>

lemma blank_box_managers:
  "bx_endpoint (blank_box N O1 lf) = NewEndpointManager" "bx_inbound (blank_box N O1 lf) = NewInboundManager"
  "bx_outbound (blank_box N O1 lf) = NewOutboundManager (bo_RouteFinal O1)"
  by (simp_all add: blank_box_def)

text \<open>
  C38: a box made from a configuration that the check accepts serves the configuration: the inbounds, outbounds and endpoints are
  those the registries make of the entries, in order, each is found under its own tag, and the endpoints are found among the outbounds.
\<close>

theorem New_serves_configuration:
  assumes "box_New E N O1 = Ok (b, tr)"
    and "checkOptions (bn_ToString N) (map it_Tag (bo_Inbounds O1)) (map it_Tag (bo_Outbounds O1)) (map it_Tag (bo_Endpoints O1)) = None"
    and "bn_inboundRegistry N = Some ri" and "bn_outboundRegistry N = Some ro" and "bn_endpointRegistry N = Some re"
  shows "configured ri (bn_ToString N) 0 (bo_Inbounds O1) (im_Inbounds (bx_inbound b)) (im_Get (bx_endpoint b) (bx_inbound b)) \<and>
    configured ro (bn_ToString N) 0 (bo_Outbounds O1) (om_Outbounds (bx_outbound b)) (om_Outbound (bx_endpoint b) (bx_outbound b)) \<and>
    configured re (bn_ToString N) 0 (bo_Endpoints O1) (em_Endpoints (bx_endpoint b)) (om_Outbound (bx_endpoint b) (bx_outbound b))"
proof -
  let ?f = "bn_ToString N"
  from assms(2) have dist: "distinct (tags_from ?f 0 (map it_Tag (bo_Inbounds O1)))"
    "distinct (tags_from ?f 0 (map it_Tag (bo_Outbounds O1)))" "distinct (tags_from ?f 0 (map it_Tag (bo_Endpoints O1)))"
    and disj: "set (tags_from ?f 0 (map it_Tag (bo_Outbounds O1))) \<inter> set (tags_from ?f 0 (map it_Tag (bo_Endpoints O1))) = {}"
    by (auto simp: checkOptions_parts checkInbounds_iff checkOutbounds_iff effective_tags_def)
  from box_New_run [OF assms(1)] assms(3-5) obtain rs rv lf u ctx where
    run: "run_steps (new_steps E N O1 re ri ro rs rv) ((blank_box N O1 lf, []), bn_registered N) = (Ok u, ((b, tr), ctx))"
    by (metis option.inject)
  from run obtain u1 s1 u2 s2 s3 u4 s4 u5 s5 u6 s6 where
    first: "run_steps [add_internal (bo_Certificate O1) [] (bn_certificate N) [''CertificateStore''],
       register [''EndpointManager'', ''InboundManager'', ''OutboundManager'', ''DNSTransportManager'', ''ServiceManager'', ''DNSRouter'']]
       ((blank_box N O1 lf, []), bn_registered N) = (Ok u1, s1)"
    and net: "make_network E N O1 s1 = (Ok u2, s2)" and s3: "same_managers s2 s3"
    and es: "create_items (create_endpoint E re) ?f ''initialize endpoint'' 0 (bo_Endpoints O1) s3 = (Ok u4, s4)"
    and ins: "create_items (create_inbound E ri) ?f ''initialize inbound'' 0 (bo_Inbounds O1) s4 = (Ok u5, s5)"
    and os: "create_items (create_outbound E ro) ?f ''initialize outbound'' 0 (bo_Outbounds O1) s5 = (Ok u6, s6)"
    and last: "same_managers s6 ((b, tr), ctx)"
    by (rule new_steps_split)
  have s1: "same_managers ((blank_box N O1 lf, []), bn_registered N) s1" by (rule run_steps_leave [OF first]) simp
  have s3: "of_box bx_endpoint s3 = NewEndpointManager" "of_box bx_inbound s3 = NewInboundManager"
    "of_box (\<lambda>b. om_outbounds (bx_outbound b)) s3 = []" "of_box (\<lambda>b. om_by_tag (bx_outbound b)) s3 = Map.empty"
    "\<not> of_box (\<lambda>b. om_started (bx_outbound b)) s3"
    using s1 net s3 by (auto simp: same_managers_def blank_box_managers NewOutboundManager_def make_network_def
        split: prod.splits go_out.splits)
  note oe = make_endpoints.items_others [OF es] and oi = make_inbounds.items_others [OF ins] and oo = make_outbounds.items_others [OF os]
  from make_endpoints.items_created [OF es] dist(3) s3 obtain ce where
    e: "em_endpoints (of_box bx_endpoint s4) = ce" "configured re ?f 0 (bo_Endpoints O1) ce (em_by_tag (of_box bx_endpoint s4))"
    by (auto simp: NewEndpointManager_def)
  from make_inbounds.items_created [OF ins] dist(1) s3 oe obtain ci where
    i: "im_inbounds (of_box bx_inbound s5) = ci" "configured ri ?f 0 (bo_Inbounds O1) ci (im_by_tag (of_box bx_inbound s5))"
    by (auto simp: NewInboundManager_def)
  from make_outbounds.items_created [OF os] dist(2) s3 oe oi obtain co where
    o: "om_outbounds (of_box bx_outbound s6) = co" "configured ro ?f 0 (bo_Outbounds O1) co (om_by_tag (of_box bx_outbound s6))"
    "\<forall>t. t \<notin> set (tags_from ?f 0 (map it_Tag (bo_Outbounds O1))) \<longrightarrow> om_by_tag (of_box bx_outbound s6) t = None"
    by auto
  have b: "bx_endpoint b = of_box bx_endpoint s4" "bx_inbound b = of_box bx_inbound s5"
    "om_outbounds (bx_outbound b) = om_outbounds (of_box bx_outbound s6)" "om_by_tag (bx_outbound b) = om_by_tag (of_box bx_outbound s6)"
    using last oi oo by (auto simp: same_managers_def managers_def)
  have "configured re ?f 0 (bo_Endpoints O1) ce (om_Outbound (bx_endpoint b) (bx_outbound b))"
    by (rule configured_found [OF e(2)]) (use o(3) disj in \<open>auto simp: om_Outbound_def em_Get_def b\<close>)
  moreover have "configured ri ?f 0 (bo_Inbounds O1) ci (im_Get (bx_endpoint b) (bx_inbound b))"
    by (rule configured_more [OF i(2)]) (auto simp: im_Get_def b)
  moreover have "configured ro ?f 0 (bo_Outbounds O1) co (om_Outbound (bx_endpoint b) (bx_outbound b))"
    by (rule configured_more [OF o(2)]) (auto simp: om_Outbound_def b)
  ultimately show ?thesis
    using e(1) i(1) o(1) by (simp add: im_Inbounds_def om_Outbounds_def em_Endpoints_def b)
qed

definition demo_registry :: "unit registry" where
  "demo_registry = registry_register NewRegistry ''direct'' () (\<lambda>tag _. Inr (demo_comp (length tag) tag []))"

definition demo_new_env where
  "demo_new_env =
     \<lparr>bn_registered = [], bn_endpointRegistry = Some demo_registry, bn_inboundRegistry = Some demo_registry,
      bn_outboundRegistry = Some demo_registry, bn_dnsRegistry = Some demo_registry, bn_serviceRegistry = Some demo_registry,
      bn_debug = None, bn_log = Inr (demo_comp 0 ''log'' []), bn_certificate = Inr (demo_comp 9 ''certificate'' []),
      bn_L = demo_lib, bn_A = demo_action_lib, bn_dns = demo_dns_env, bn_direct = Inr (demo_comp 6 ''direct'' []),
      bn_local = Inr (demo_comp 5 ''local'' []), bn_platform = None, bn_cacheFile = demo_comp 10 ''cache-file'' [],
      bn_clash = Inr (demo_comp 11 ''clash'' []), bn_v2ray = Inr (demo_comp 12 ''v2ray'' [], False),
      bn_ntp = Inr (demo_comp 13 ''ntp'' []), bn_ToString = (\<lambda>i. if i = 0 then ''0'' else ''1'')\<rparr>"

definition demo_entry :: "string \<Rightarrow> unit item" where
  "demo_entry tag = \<lparr>it_Tag = tag, it_Type = ''direct'', it_Options = None\<rparr>"

definition demo_box_opts :: "(unit, unit) box_opts" where
  "demo_box_opts =
     \<lparr>bo_Servers = [], bo_Endpoints = [demo_entry ''ep''], bo_Inbounds = [demo_entry ''in'', demo_entry []],
      bo_Outbounds = [demo_entry []], bo_Services = [], bo_RouteFinal = [], bo_Rules = [], bo_RuleSets = [],
      bo_FindProcess = False,
      bo_NetworkOptions = \<lparr>np_AutoDetectInterface = False, np_OverrideAndroidVPN = False, np_DefaultInterface = [],
        np_DefaultMark = 0, np_DefaultNetworkStrategy = None, np_DefaultNetworkType = [], np_DefaultFallbackNetworkType = [],
        np_DefaultFallbackDelay = 0, np_DomainResolver = ([], NoQueryOptions)\<rparr>,
      bo_DNSFinal = [], bo_DNSRules = [], bo_DNSStrategy = 0, bo_ReverseMapping = False, bo_DNSClient = demo_client_options,
      bo_CacheFile = Some True, bo_ClashAPI = False, bo_V2RayListen = None, bo_Certificate = False, bo_NTP = False,
      bo_PlatformLogWriter = False\<rparr>"

lemmas demo_new_defs = demo_new_env_def demo_box_opts_def demo_entry_def demo_registry_def registry_register_def NewRegistry_def

lemmas box_New_defs = box_New_def new_steps_def add_internal_def register_def make_network_def initialize_router_def demand_def
  change_def add_tracker_def need_cache_file_def need_clash_api_def need_v2ray_api_def platform_initialize_def blank_box_def
  NewNetworkManager_def network_check_def strategy_check_def router_Initialize_def create_endpoint_def create_inbound_def
  create_outbound_def create_service_def create_server_def em_Create_def im_Create_def om_Create_def em_install_def im_install_def
  om_install_def em_append_def effective_tag_def registry_Create_def om_Initialize_def tm_Initialize_def initialize_dns_router_def

lemma demo_box_made: "\<exists>b tr. box_New (demo_box_env (\<lambda>_. False)) demo_new_env demo_box_opts = Ok (b, tr)"
  by (simp add: box_New_defs demo_new_defs demo_box_defs)

theorem New_serves_configuration_witness:
  "\<exists>b tr. box_New (demo_box_env (\<lambda>_. False)) demo_new_env demo_box_opts = Ok (b, tr) \<and>
     im_Get (bx_endpoint b) (bx_inbound b) ''1'' = Some (demo_comp 1 ''1'' [])"
proof -
  obtain b tr where run: "box_New (demo_box_env (\<lambda>_. False)) demo_new_env demo_box_opts = Ok (b, tr)"
    using demo_box_made by blast
  have "configured demo_registry (bn_ToString demo_new_env) 0 (bo_Inbounds demo_box_opts) (im_Inbounds (bx_inbound b))
      (im_Get (bx_endpoint b) (bx_inbound b))"
    using New_serves_configuration [OF run, of demo_registry demo_registry demo_registry]
    by (simp add: demo_new_env_def demo_box_opts_def demo_entry_def checkOptions_def checkInbounds_def checkOutbounds_def
        effective_tag_def Let_def)
  then have "im_Get (bx_endpoint b) (bx_inbound b) ''1'' = Some (demo_comp 1 ''1'' [])"
    by (auto simp: configured_def demo_new_defs effective_tag_def registry_Create_def Let_def dest!: spec [of _ 1])
  with run show ?thesis by blast
qed

section \<open>Resetting the network\<close>

text \<open>Starting a box does not change whether its network manager knows the connection manager.\<close>

lemma nw_Initialize_connections [simp]: "nw_connectionManager (nw_Initialize ms nm) = nw_connectionManager nm"
  by (induction ms) auto

lemma nw_Start_connections: "nw_Start N s nm = (r, nm') \<Longrightarrow> nw_connectionManager nm' = nw_connectionManager nm"
  by (auto simp: nw_Start_def Let_def split: start_stage.splits option.splits if_splits)

definition knows_connections :: "bool \<Rightarrow> ('c, 'd, 'r, 'm) world \<Rightarrow> bool" where
  "knows_connections x w \<longleftrightarrow> nw_connectionManager (bx_network (fst w)) = x"

lemma part_knows:
  "snd (part_service E p) s (b, tr) = (r, w') \<Longrightarrow> knows_connections x (b, tr) \<Longrightarrow> knows_connections x w'"
  by (cases p) (auto simp: part_start_defs knows_connections_def split: prod.splits if_splits dest: nw_Start_connections)

lemma parts_know:
  "start_parts E s ps w = (r, w') \<Longrightarrow> knows_connections x w \<Longrightarrow> knows_connections x w'"
proof (induction ps arbitrary: w)
  case (Cons p ps)
  obtain r1 b1 tr1 where run: "snd (part_service E p) s w = (r1, b1, tr1)" by (metis prod_cases3)
  have one: "knows_connections x (b1, tr1)" using part_knows [of E p s "fst w" "snd w"] run Cons.prems(2) by simp
  with Cons run show ?case by (cases r1) (auto simp: start_parts_def adapter_Start_Cons)
qed (simp add: start_parts_def)

lemma internals_know: "start_internals E s w = (r, w') \<Longrightarrow> knows_connections x w \<Longrightarrow> knows_connections x w'"
  using internals_same [of E s "fst w" "snd w"] by (simp add: knows_connections_def)

lemma logger_knows: "start_logger E w = (r, w') \<Longrightarrow> knows_connections x w \<Longrightarrow> knows_connections x w'"
  by (cases w) (auto simp: start_logger_def do_call_def knows_connections_def split: option.splits)

lemma preStart_knows:
  assumes "preStart E w = (r, w')" and "knows_connections x w"
  shows "knows_connections x w'"
  using assms(1) unfolding preStart_def
  by (rule run_steps_inv [where I = "knows_connections x", OF _ assms(2)])
     (auto dest: internals_know logger_knows parts_know)

lemma box_Close_knows: "knows_connections x w \<Longrightarrow> knows_connections x (snd (box_Close E w))"
  by (auto simp: knows_connections_def box_Close_def close_parts_def Let_def split: prod.splits)

lemma box_Start_knows:
  assumes "box_Start E w = (r, w')" and "knows_connections x w"
  shows "knows_connections x w'"
proof -
  obtain r1 w1 where run: "box_start E w = (r1, w1)" by (metis prod.collapse)
  have "knows_connections x w1" using run unfolding box_start_def
    by (rule run_steps_inv [where I = "knows_connections x", OF _ assms(2)])
       (auto dest: internals_know preStart_knows parts_know)
  with assms(1) run box_Close_knows [OF this, of E] show ?thesis by (auto simp: box_Start_def split: go_out.splits)
qed

lemma new_steps_network:
  assumes "run_steps (new_steps E N O1 re ri ro rs rv) s = (Ok u, s')"
  shows "\<exists>u1 s1 u2 s2. run_steps [add_internal (bo_Certificate O1) [] (bn_certificate N) [''CertificateStore''],
       register [''EndpointManager'', ''InboundManager'', ''OutboundManager'', ''DNSTransportManager'', ''ServiceManager'', ''DNSRouter'']]
       s = (Ok u1, s1) \<and> make_network E N O1 s1 = (Ok u2, s2) \<and> of_box bx_network s' = of_box bx_network s2"
  using assms
proof (rule new_steps_split, goal_cases)
  case (1 u1 s1 u2 s2 s3 u4 s4 u5 s5 u6 s6)
  from make_endpoints.items_others [OF 1(4)] make_inbounds.items_others [OF 1(5)] make_outbounds.items_others [OF 1(6)] 1(3,7)
  have "of_box bx_network s' = of_box bx_network s2" by (simp add: same_managers_def managers_def)
  with 1(1,2) show ?case by blast
qed



end
